(* ===== verification/Prelude.thy ===== *)
theory Prelude
  imports Main "HOL-Library.Word" "HOL-Library.Char_ord" "HOL-Library.List_Lexorder"
    "HOL-Library.Sublist"
begin

text \<open>
  What every component of the model shares: the names of the machine types, the character
  classes and the substring operations of C and of \<^verbatim>\<open>std::string\<close>, the
  \<^verbatim>\<open>getline\<close> loop, and generic lemmas on lists.

  A \<^verbatim>\<open>std::string\<close> is a \<open>string\<close>: a HOL \<open>char\<close> has eight bits, so it is one byte of
  the C++ string.  A \<^verbatim>\<open>std::vector<uint8_t>\<close> is a list of \<open>8 word\<close>.
\<close>

section \<open>Names\<close>

type_synonym u8 = "8 word"
type_synonym u16 = "16 word"
type_synonym u32 = "32 word"
type_synonym u64 = "64 word"
type_synonym bytes = "8 word list"

abbreviation NUL :: char where "NUL \<equiv> CHR 0x00"
abbreviation TAB :: char where "TAB \<equiv> CHR 0x09"
abbreviation NL :: char where "NL \<equiv> CHR 0x0A"
abbreviation CR :: char where "CR \<equiv> CHR 0x0D"
abbreviation QUOTE :: char where "QUOTE \<equiv> CHR 0x22"
abbreviation BACKSLASH :: char where "BACKSLASH \<equiv> CHR 0x5C"

named_theorems text_simps \<open>equations that evaluate the text scanners on an explicit prefix\<close>
named_theorems codec_simps \<open>decoders applied to encoder output\<close>

section \<open>Character classes of the C locale\<close>

definition char_code :: "char \<Rightarrow> nat" where
  "char_code c = of_char c"

definition is_space :: "char \<Rightarrow> bool" where
  "is_space c \<longleftrightarrow> c \<in> set [CHR 0x20, TAB, NL, CHR 0x0B, CHR 0x0C, CR]"

definition is_digit :: "char \<Rightarrow> bool" where
  "is_digit c \<longleftrightarrow> 48 \<le> char_code c \<and> char_code c \<le> 57"

definition is_alnum :: "char \<Rightarrow> bool" where
  "is_alnum c \<longleftrightarrow> is_digit c \<or> (65 \<le> char_code c \<and> char_code c \<le> 90) \<or>
     (97 \<le> char_code c \<and> char_code c \<le> 122)"

definition to_lower :: "char \<Rightarrow> char" where
  "to_lower c = (if 65 \<le> char_code c \<and> char_code c \<le> 90 then char_of (char_code c + 32) else c)"

definition digit_char :: "nat \<Rightarrow> char" where
  "digit_char d = char_of (48 + d mod 10)"

lemma char_code_inject [simp]: "char_code c = char_code d \<longleftrightarrow> c = d"
  by (simp add: char_code_def)

lemma char_code_less [simp]: "char_code c < 256"
  unfolding char_code_def by (rule order.strict_trans2 [OF _ order.refl]) simp

lemma not_space_NUL [simp]: "\<not> is_space NUL"
  by (simp add: is_space_def)

lemma digit_not_space: "is_digit c \<Longrightarrow> \<not> is_space c"
  by (auto simp: is_digit_def is_space_def char_code_def)

lemma char_code_digit_char [simp]: "char_code (digit_char d) = 48 + d mod 10"
proof -
  have "48 + d mod 10 < (256::nat)" using mod_less_divisor [of 10 d] by linarith
  then show ?thesis by (simp add: char_code_def digit_char_def)
qed

lemma is_digit_digit_char [simp]: "is_digit (digit_char d)"
proof -
  have "d mod 10 < (10::nat)" by simp
  then show ?thesis by (simp add: is_digit_def)
qed

section \<open>Searching and cutting strings\<close>

text \<open>\<^verbatim>\<open>s.find(c)\<close> and \<^verbatim>\<open>s.find(pat)\<close>; \<open>None\<close> is \<^verbatim>\<open>npos\<close>.\<close>

fun find_char :: "char \<Rightarrow> string \<Rightarrow> nat option" where
  "find_char c [] = None"
| "find_char c (x # xs) = (if x = c then Some 0 else map_option Suc (find_char c xs))"

fun find_str :: "string \<Rightarrow> string \<Rightarrow> nat option" where
  "find_str pat [] = (if pat = [] then Some 0 else None)"
| "find_str pat (x # xs) = (if prefix pat (x # xs) then Some 0 else map_option Suc (find_str pat xs))"

definition contains :: "string \<Rightarrow> string \<Rightarrow> bool" where
  "contains pat s \<longleftrightarrow> find_str pat s \<noteq> None"

text \<open>A C string ends at its first NUL; \<^verbatim>\<open>*p\<close> at the end reads the NUL.\<close>

definition c_str :: "string \<Rightarrow> string" where
  "c_str s = takeWhile (\<lambda>c. c \<noteq> NUL) s"

definition peek :: "string \<Rightarrow> char" where
  "peek p = (case p of [] \<Rightarrow> NUL | c # _ \<Rightarrow> c)"

lemma peek_simps [simp]: "peek [] = NUL" "peek (c # cs) = c"
  by (simp_all add: peek_def)

lemma find_char_None: "find_char c s = None \<longleftrightarrow> c \<notin> set s"
  by (induction s) auto

lemma find_char_Some:
  "find_char c s = Some n \<Longrightarrow> n < length s \<and> s ! n = c \<and> c \<notin> set (take n s)"
  by (induction s arbitrary: n) (auto split: if_splits)

lemma find_char_append: "c \<notin> set a \<Longrightarrow> find_char c (a @ c # b) = Some (length a)"
  by (induction a) auto

lemma find_str_sound: "find_str pat s = Some n \<Longrightarrow> prefix pat (drop n s)"
  by (induction s arbitrary: n) (auto split: if_splits)

lemma contains_iff_sublist: "contains pat s \<longleftrightarrow> sublist pat s"
  by (induction s) (auto simp: contains_def sublist_Cons_right)

lemma c_str_no_NUL [simp]: "NUL \<notin> set s \<Longrightarrow> c_str s = s"
  unfolding c_str_def by (induction s) auto

lemma NUL_notin_c_str [simp]: "NUL \<notin> set (c_str s)"
  unfolding c_str_def using set_takeWhileD by fastforce

section \<open>Generic lemmas on lists\<close>

lemma dropWhile_stop [simp]: "(\<And>c. c \<in> set s \<Longrightarrow> \<not> P c) \<Longrightarrow> dropWhile P s = s"
  by (cases s) auto

lemma head_dropWhile: "dropWhile P s = c # cs \<Longrightarrow> \<not> P c"
  by (induction s) (auto split: if_splits)

lemma takeWhile_append_stop:
  "(\<And>c. c \<in> set w \<Longrightarrow> P c) \<Longrightarrow> (case r of [] \<Rightarrow> True | x # _ \<Rightarrow> \<not> P x) \<Longrightarrow> takeWhile P (w @ r) = w"
  by (induction w) (auto split: list.splits)

lemma dropWhile_append_stop:
  "(\<And>c. c \<in> set w \<Longrightarrow> P c) \<Longrightarrow> (case r of [] \<Rightarrow> True | x # _ \<Rightarrow> \<not> P x) \<Longrightarrow> dropWhile P (w @ r) = r"
  by (induction w) (auto split: list.splits)

lemma length_concat_map_const: "(\<And>x. x \<in> set xs \<Longrightarrow> length (f x) = n) \<Longrightarrow>
    length (concat (map f xs)) = n * length xs"
  by (induction xs) auto

lemma length_product_lists2: "length [g x y. x \<leftarrow> xs, y \<leftarrow> ys] = length xs * length ys"
  by (induction xs) auto

lemma in_set_neq: "d \<notin> set l \<Longrightarrow> c \<in> set l \<Longrightarrow> c \<noteq> d"
  by auto

lemma takeWhile_sub:
  "(\<And>c. Q c \<Longrightarrow> P c) \<Longrightarrow> takeWhile P s = takeWhile Q s @ takeWhile P (dropWhile Q s)"
  by (induction s) auto

lemma dropWhile_sub: "(\<And>c. Q c \<Longrightarrow> P c) \<Longrightarrow> dropWhile P s = dropWhile P (dropWhile Q s)"
  by (induction s) auto

section \<open>Blank-separated tokens\<close>

text \<open>\<^verbatim>\<open>while (iss >> t)\<close>: the maximal runs of characters that are not blanks.\<close>

function tokens :: "string \<Rightarrow> string list" where
  "tokens s =
     (if dropWhile is_space s = [] then []
      else takeWhile (\<lambda>c. \<not> is_space c) (dropWhile is_space s) #
           tokens (dropWhile (\<lambda>c. \<not> is_space c) (dropWhile is_space s)))"
  by pat_completeness auto
termination
proof (relation "measure length")
  fix s :: string
  assume ne: "dropWhile is_space s \<noteq> []"
  then have "\<not> is_space (hd (dropWhile is_space s))" by (rule hd_dropWhile)
  with ne have "length (dropWhile (\<lambda>c. \<not> is_space c) (dropWhile is_space s)) < length (dropWhile is_space s)"
    by (cases "dropWhile is_space s") (auto simp: le_imp_less_Suc length_dropWhile_le)
  also have "\<dots> \<le> length s" by (rule length_dropWhile_le)
  finally show "(dropWhile (\<lambda>c. \<not> is_space c) (dropWhile is_space s), s) \<in> measure length" by simp
qed simp

declare tokens.simps [simp del]

lemma tokens_blank: "(\<And>c. c \<in> set s \<Longrightarrow> is_space c) \<Longrightarrow> tokens s = []"
  by (subst tokens.simps) (auto simp: dropWhile_eq_Nil_conv)

lemma tokens_Nil [simp]: "tokens [] = []"
  by (rule tokens_blank) simp

lemma tokens_skip: "(\<And>c. c \<in> set sp \<Longrightarrow> is_space c) \<Longrightarrow> tokens (sp @ s) = tokens s"
  by (simp add: tokens.simps [of "sp @ s"] tokens.simps [of s] dropWhile_append2)

lemma tokens_space [simp]: "is_space c \<Longrightarrow> tokens (c # s) = tokens s"
  using tokens_skip [of "[c]" s] by simp

lemma tokens_word:
  assumes "w \<noteq> []" "\<And>c. c \<in> set w \<Longrightarrow> \<not> is_space c"
    and "case r of [] \<Rightarrow> True | x # _ \<Rightarrow> is_space x"
  shows "tokens (w @ r) = w # tokens r"
proof -
  have d: "dropWhile is_space (w @ r) = w @ r" using assms(1,2) by (cases w) auto
  have t: "takeWhile (\<lambda>c. \<not> is_space c) (w @ r) = w" "dropWhile (\<lambda>c. \<not> is_space c) (w @ r) = r"
    using assms(2,3) by (auto intro!: takeWhile_append_stop dropWhile_append_stop split: list.splits)
  show ?thesis
    by (subst tokens.simps) (use assms(1) in \<open>simp add: d t\<close>)
qed

lemma tokens_render:
  "(\<And>w. w \<in> set ws \<Longrightarrow> w \<noteq> [] \<and> (\<forall>c\<in>set w. \<not> is_space c)) \<Longrightarrow>
     tokens (concat (map (\<lambda>w. CHR '' '' # w) ws)) = ws"
proof (induction ws)
  case (Cons w ws)
  have sp: "is_space (CHR '' '')" by (simp add: is_space_def)
  have "tokens (w @ concat (map (\<lambda>w. CHR '' '' # w) ws)) =
      w # tokens (concat (map (\<lambda>w. CHR '' '' # w) ws))"
    using Cons.prems sp by (intro tokens_word) (auto, cases ws, auto)
  moreover have "tokens (concat (map (\<lambda>w. CHR '' '' # w) ws)) = ws"
    by (rule Cons.IH, rule Cons.prems) simp
  ultimately show ?case using sp by simp
qed simp

section \<open>The \<^verbatim>\<open>getline\<close> loop\<close>

text \<open>
  \<^verbatim>\<open>while (std::getline(iss, line, d))\<close> over a whole string: the pieces between the
  delimiters; a delimiter at the very end does not start another piece, and the empty string
  has no piece.
\<close>

function getline_all :: "char \<Rightarrow> string \<Rightarrow> string list" where
  "getline_all d s =
     (if s = [] then []
      else takeWhile (\<lambda>c. c \<noteq> d) s # getline_all d (drop 1 (dropWhile (\<lambda>c. c \<noteq> d) s)))"
  by pat_completeness auto
termination
proof (relation "measure (\<lambda>(d, s). length s)")
  fix d :: char and s :: string
  assume "s \<noteq> []"
  moreover have "length (dropWhile (\<lambda>c. c \<noteq> d) s) \<le> length s"
    by (rule length_dropWhile_le)
  moreover have "0 < length s" using \<open>s \<noteq> []\<close> by simp
  ultimately have "length (drop 1 (dropWhile (\<lambda>c. c \<noteq> d) s)) < length s"
    unfolding length_drop by linarith
  then show "((d, drop 1 (dropWhile (\<lambda>c. c \<noteq> d) s)), d, s) \<in> measure (\<lambda>(d, s). length s)"
    by simp
qed simp

declare getline_all.simps [simp del]

lemma getline_all_Nil [simp]: "getline_all d [] = []"
  by (simp add: getline_all.simps)

lemma getline_all_line [simp]:
  "d \<notin> set l \<Longrightarrow> getline_all d (l @ d # rest) = l # getline_all d rest"
  by (subst getline_all.simps) (simp add: takeWhile_append_stop dropWhile_append_stop in_set_neq)

lemma getline_all_last:
  assumes "d \<notin> set l" "l \<noteq> []"
  shows "getline_all d l = [l]"
proof -
  have tw: "takeWhile (\<lambda>c. c \<noteq> d) l = l" and dw: "dropWhile (\<lambda>c. c \<noteq> d) l = []"
    using assms(1) by (auto simp: takeWhile_eq_all_conv dropWhile_eq_Nil_conv)
  have "getline_all d l =
      takeWhile (\<lambda>c. c \<noteq> d) l # getline_all d (drop 1 (dropWhile (\<lambda>c. c \<noteq> d) l))"
    using assms(2) by (subst getline_all.simps) simp
  then show ?thesis by (simp only: tw dw) simp
qed

text \<open>Printing each line followed by the delimiter and reading the text back is the identity.\<close>

definition unlines :: "char \<Rightarrow> string list \<Rightarrow> string" where
  "unlines d ls = concat (map (\<lambda>l. l @ [d]) ls)"

lemma unlines_Nil [simp]: "unlines d [] = []"
  and unlines_Cons [simp]: "unlines d (l # ls) = l @ d # unlines d ls"
  and unlines_append: "unlines d (xs @ ys) = unlines d xs @ unlines d ys"
  by (simp_all add: unlines_def)

lemma getline_all_unlines_append:
  "(\<And>l. l \<in> set ls \<Longrightarrow> d \<notin> set l) \<Longrightarrow> getline_all d (unlines d ls @ rest) = ls @ getline_all d rest"
  by (induction ls) simp_all

lemma getline_all_unlines [simp]:
  "(\<And>l. l \<in> set ls \<Longrightarrow> d \<notin> set l) \<Longrightarrow> getline_all d (unlines d ls) = ls"
  using getline_all_unlines_append [of ls d "[]"] by simp

lemma getline_all_no_delim: "l \<in> set (getline_all d s) \<Longrightarrow> d \<notin> set l"
proof (induction d s rule: getline_all.induct)
  case (1 d s)
  show ?case
  proof (cases "s = []")
    case False
    with "1.prems" have "l = takeWhile (\<lambda>c. c \<noteq> d) s \<or>
        l \<in> set (getline_all d (drop 1 (dropWhile (\<lambda>c. c \<noteq> d) s)))"
      by (simp add: getline_all.simps [of d s])
    with False show ?thesis using "1.IH" set_takeWhileD by fastforce
  qed (use "1.prems" in simp)
qed

end
