(* ===== verification/Bytes.thy ===== *)
theory Bytes
  imports Prelude
begin

text \<open>
  Byte vectors and the little-endian layout of the integers the daemon writes with
  \<^verbatim>\<open>reinterpret_cast\<close> (every supported ABI is little-endian), and the interface
  \<open>codec\<close> shared by the binary formats: the feature cache and the policy batch.
\<close>

section \<open>Little-endian integers\<close>

fun nat_le :: "nat \<Rightarrow> nat \<Rightarrow> bytes" where
  "nat_le 0 v = []"
| "nat_le (Suc n) v = of_nat (v mod 256) # nat_le n (v div 256)"

fun le_nat :: "bytes \<Rightarrow> nat" where
  "le_nat [] = 0"
| "le_nat (b # bs) = unat b + 256 * le_nat bs"

definition u16_le :: "u16 \<Rightarrow> bytes" where "u16_le w = nat_le 2 (unat w)"
definition u32_le :: "u32 \<Rightarrow> bytes" where "u32_le w = nat_le 4 (unat w)"
definition u64_le :: "u64 \<Rightarrow> bytes" where "u64_le w = nat_le 8 (unat w)"

text \<open>Taking \<open>n\<close> bytes off the front, or failing when there are fewer.\<close>

definition take_bytes :: "nat \<Rightarrow> bytes \<Rightarrow> (bytes \<times> bytes) option" where
  "take_bytes n bs = (if length bs < n then None else Some (take n bs, drop n bs))"

definition get_u32 :: "bytes \<Rightarrow> (u32 \<times> bytes) option" where
  "get_u32 bs = map_option (\<lambda>(v, r). (of_nat (le_nat v), r)) (take_bytes 4 bs)"

definition get_u64 :: "bytes \<Rightarrow> (u64 \<times> bytes) option" where
  "get_u64 bs = map_option (\<lambda>(v, r). (of_nat (le_nat v), r)) (take_bytes 8 bs)"

lemma length_nat_le [simp]: "length (nat_le n v) = n"
  by (induction n arbitrary: v) auto

lemma le_nat_nat_le: "le_nat (nat_le n v) = v mod 256 ^ n"
proof (induction n arbitrary: v)
  case (Suc n)
  have "unat (of_nat (v mod 256) :: 8 word) = v mod 256"
    by (simp add: unat_of_nat)
  then show ?case by (simp add: Suc.IH mod_mult2_eq)
qed simp

lemma le_nat_less: "le_nat bs < 256 ^ length bs"
proof (induction bs)
  case (Cons b bs)
  have "unat b < 256" using unsigned_less [of b, where ?'a = nat] by simp
  then have "unat b + 256 * le_nat bs < 256 + 256 * le_nat bs" by simp
  also have "\<dots> = 256 * Suc (le_nat bs)" by simp
  also have "\<dots> \<le> 256 * 256 ^ length bs" using Cons.IH by (intro mult_le_mono) auto
  finally show ?case by simp
qed simp

lemma length_u16_le [simp]: "length (u16_le w) = 2"
  by (simp add: u16_le_def)

lemma length_u32_le [simp]: "length (u32_le w) = 4"
  by (simp add: u32_le_def)

lemma length_u64_le [simp]: "length (u64_le w) = 8"
  by (simp add: u64_le_def)

lemma le_nat_u32_le [codec_simps]: "of_nat (le_nat (u32_le w)) = w"
  using unsigned_less [of w, where ?'a = nat] by (simp add: u32_le_def le_nat_nat_le)

lemma le_nat_u64_le [codec_simps]: "of_nat (le_nat (u64_le w)) = w"
  using unsigned_less [of w, where ?'a = nat] by (simp add: u64_le_def le_nat_nat_le)

lemma le_nat_u16_le [codec_simps]: "of_nat (le_nat (u16_le w)) = w"
  using unsigned_less [of w, where ?'a = nat] by (simp add: u16_le_def le_nat_nat_le)

lemma get_u32_le [codec_simps]: "get_u32 (u32_le w @ rest) = Some (w, rest)"
  by (simp add: get_u32_def take_bytes_def le_nat_u32_le)

lemma get_u64_le [codec_simps]: "get_u64 (u64_le w @ rest) = Some (w, rest)"
  by (simp add: get_u64_def take_bytes_def le_nat_u64_le)

section \<open>Strings as bytes\<close>

definition byte_of_char :: "char \<Rightarrow> u8" where
  "byte_of_char c = of_nat (char_code c)"

definition char_of_byte :: "u8 \<Rightarrow> char" where
  "char_of_byte b = char_of (unat b)"

definition str_bytes :: "string \<Rightarrow> bytes" where
  "str_bytes s = map byte_of_char s"

definition bytes_str :: "bytes \<Rightarrow> string" where
  "bytes_str bs = map char_of_byte bs"

lemma char_of_byte_of_char [simp]: "char_of_byte (byte_of_char c) = c"
  using char_code_less [of c]
  by (simp add: char_of_byte_def byte_of_char_def unat_of_nat char_code_def)

lemma bytes_str_bytes [simp]: "bytes_str (str_bytes s) = s"
  by (simp add: bytes_str_def str_bytes_def comp_def)

lemma byte_of_char_of_byte [simp]: "byte_of_char (char_of_byte b) = b"
  using unsigned_less [of b, where ?'a = nat]
  by (simp add: char_of_byte_def byte_of_char_def char_code_def)

lemma str_bytes_str [simp]: "str_bytes (bytes_str b) = b"
  by (simp add: bytes_str_def str_bytes_def comp_def)

lemma length_str_bytes [simp]: "length (str_bytes s) = length s"
  by (simp add: str_bytes_def)

lemma str_bytes_append [simp]: "str_bytes (a @ b) = str_bytes a @ str_bytes b"
  by (simp add: str_bytes_def)

lemma str_bytes_eq_Nil [simp]: "str_bytes s = [] \<longleftrightarrow> s = []"
  by (simp add: str_bytes_def)

lemma byte_of_char_NUL [simp]: "byte_of_char NUL = 0"
  by (simp add: byte_of_char_def char_code_def)

lemma byte_of_char_inject [simp]: "byte_of_char c = byte_of_char d \<longleftrightarrow> c = d"
  by (metis char_of_byte_of_char)

lemma byte_of_char_eq_0 [simp]: "byte_of_char c = 0 \<longleftrightarrow> c = NUL"
  by (metis byte_of_char_NUL byte_of_char_inject)

lemma zero_in_str_bytes [simp]: "0 \<in> set (str_bytes s) \<longleftrightarrow> NUL \<in> set s"
  unfolding str_bytes_def by (auto simp: image_iff)

section \<open>The interface of a binary format\<close>

text \<open>
  A writer and a reader agree when reading what was written gives the value back and leaves
  the rest of the input alone.  \<open>ok\<close> is what the writer needs of the value.
\<close>

fun get_many :: "(bytes \<Rightarrow> ('a \<times> bytes) option) \<Rightarrow> nat \<Rightarrow> bytes \<Rightarrow> ('a list \<times> bytes) option" where
  "get_many d 0 bs = Some ([], bs)"
| "get_many d (Suc n) bs =
     (case d bs of
        None \<Rightarrow> None
      | Some (a, r) \<Rightarrow> map_option (\<lambda>(as, r'). (a # as, r')) (get_many d n r))"

definition get_pair ::
  "(bytes \<Rightarrow> ('a \<times> bytes) option) \<Rightarrow> (bytes \<Rightarrow> ('b \<times> bytes) option) \<Rightarrow> bytes \<Rightarrow> (('a \<times> 'b) \<times> bytes) option"
where
  "get_pair da db bs =
     (case da bs of
        None \<Rightarrow> None
      | Some (a, r) \<Rightarrow> map_option (\<lambda>(b, r'). ((a, b), r')) (db r))"

locale codec =
  fixes put :: "'a \<Rightarrow> bytes"
    and get :: "bytes \<Rightarrow> ('a \<times> bytes) option"
    and ok :: "'a \<Rightarrow> bool"
  assumes get_put: "ok a \<Longrightarrow> get (put a @ rest) = Some (a, rest)"
begin

lemma get_put_end: "ok a \<Longrightarrow> get (put a) = Some (a, [])"
  using get_put [of a "[]"] by simp

lemma put_inject: "ok a \<Longrightarrow> ok b \<Longrightarrow> put a = put b \<Longrightarrow> a = b"
  by (metis get_put_end option.inject prod.inject)

lemma put_prefix_free: "ok a \<Longrightarrow> ok b \<Longrightarrow> put a @ r = put b @ s \<Longrightarrow> a = b \<and> r = s"
  by (metis get_put option.inject prod.inject)

lemma get_many_put:
  "(\<And>a. a \<in> set as \<Longrightarrow> ok a) \<Longrightarrow>
     get_many get (length as) (concat (map put as) @ rest) = Some (as, rest)"
  by (induction as) (auto simp: get_put)

end

locale codec2 = A: codec puta geta oka + B: codec putb getb okb
  for puta :: "'a \<Rightarrow> bytes" and geta and oka and putb :: "'b \<Rightarrow> bytes" and getb and okb
begin

lemma get_pair_put:
  "oka a \<Longrightarrow> okb b \<Longrightarrow> get_pair geta getb (puta a @ putb b @ rest) = Some ((a, b), rest)"
  by (simp add: get_pair_def A.get_put B.get_put)

end

sublocale codec2 \<subseteq> both: codec "\<lambda>(a, b). puta a @ putb b" "get_pair geta getb" "\<lambda>(a, b). oka a \<and> okb b"
  by unfold_locales (auto simp: get_pair_put)

interpretation u32_codec: codec u32_le get_u32 "\<lambda>_. True"
  by unfold_locales (rule get_u32_le)

interpretation u64_codec: codec u64_le get_u64 "\<lambda>_. True"
  by unfold_locales (rule get_u64_le)

interpretation id_value_codec: codec2 u32_le get_u32 "\<lambda>_. True" u64_le get_u64 "\<lambda>_. True"
  by unfold_locales

end
