(* ===== verification/Ordered_Map.thy ===== *)
theory Ordered_Map
  imports Prelude
begin

text \<open>
  \<^verbatim>\<open>std::map\<close> as the list of its entries in key order, the order its iterators visit them.
  Strings compare byte by byte (\<open>List_Lexorder\<close> over \<open>Char_ord\<close>), integers by value.
  \<open>map_of\<close> is \<^verbatim>\<open>find\<close>.
\<close>

type_synonym ('k, 'v) omap = "('k \<times> 'v) list"

definition omap_ok :: "('k::linorder, 'v) omap \<Rightarrow> bool" where
  "omap_ok m \<longleftrightarrow> sorted_wrt (<) (map fst m)"

fun omap_put :: "'k::linorder \<Rightarrow> 'v \<Rightarrow> ('k, 'v) omap \<Rightarrow> ('k, 'v) omap" where
  "omap_put k v [] = [(k, v)]"
| "omap_put k v ((k', v') # m) =
     (if k < k' then (k, v) # (k', v') # m
      else if k = k' then (k, v) # m
      else (k', v') # omap_put k v m)"

definition omap_del :: "'k \<Rightarrow> ('k, 'v) omap \<Rightarrow> ('k, 'v) omap" where
  "omap_del k m = filter (\<lambda>e. fst e \<noteq> k) m"

definition omap_puts :: "('k::linorder \<times> 'v) list \<Rightarrow> ('k, 'v) omap \<Rightarrow> ('k, 'v) omap" where
  "omap_puts es m = fold (\<lambda>(k, v). omap_put k v) es m"

lemma omap_ok_Nil [simp]: "omap_ok []"
  by (simp add: omap_ok_def)

lemma omap_ok_Cons [simp]: "omap_ok ((k, v) # m) \<longleftrightarrow> (\<forall>e\<in>set m. k < fst e) \<and> omap_ok m"
  by (auto simp: omap_ok_def)

lemma keys_omap_put: "fst ` set (omap_put k v m) = insert k (fst ` set m)"
  by (induction m rule: omap_put.induct [of _ k v]) auto

lemma omap_put_above: "e \<in> set (omap_put k v m) \<Longrightarrow> e = (k, v) \<or> e \<in> set m"
  by (induction k v m rule: omap_put.induct) (auto split: if_splits)

lemma omap_ok_put [simp]: "omap_ok m \<Longrightarrow> omap_ok (omap_put k v m)"
proof (induction k v m rule: omap_put.induct)
  case (2 k v k' v' m)
  have "\<forall>e \<in> set (omap_put k v m). k' < fst e" if "k' < k"
    using 2(2) that omap_put_above [of _ k v m] by fastforce
  with 2 show ?case by fastforce
qed simp

lemma map_of_omap_put [simp]: "map_of (omap_put k v m) = (map_of m)(k \<mapsto> v)"
  by (induction k v m rule: omap_put.induct) (auto simp: fun_eq_iff)

lemma length_omap_put: "length (omap_put k v m) \<le> Suc (length m)"
  by (induction k v m rule: omap_put.induct) auto

lemma length_omap_del: "length (omap_del k m) \<le> length m"
  by (simp add: omap_del_def)

lemma omap_ok_del [simp]: "omap_ok m \<Longrightarrow> omap_ok (omap_del k m)"
  by (induction m) (auto simp: omap_del_def)

lemma map_of_omap_del [simp]: "map_of (omap_del k m) = (map_of m)(k := None)"
  unfolding omap_del_def by (induction m) (auto simp: fun_eq_iff)

lemma omap_puts_simps [simp]:
  "omap_puts [] m = m" "omap_puts ((k, v) # es) m = omap_puts es (omap_put k v m)"
  by (simp_all add: omap_puts_def)

lemma omap_ok_puts [simp]: "omap_ok m \<Longrightarrow> omap_ok (omap_puts es m)"
  by (induction es arbitrary: m) auto

lemma map_of_omap_puts: "map_of (omap_puts es m) = map_of m ++ map_of (rev es)"
proof (induction es arbitrary: m)
  case (Cons e es)
  show ?case by (cases e) (auto simp: Cons.IH fun_eq_iff map_add_def split: option.splits)
qed simp

lemma omap_ok_distinct: "omap_ok m \<Longrightarrow> distinct (map fst m)"
  unfolding omap_ok_def by (simp add: strict_sorted_iff)

text \<open>A map is determined by its lookups.\<close>

lemma omap_lookup_keys: "map_of m k = None \<longleftrightarrow> k \<notin> fst ` set m"
  by (rule map_of_eq_None_iff)

lemma omap_as_keys: "omap_ok m \<Longrightarrow> m = map (\<lambda>k. (k, the (map_of m k))) (map fst m)"
  by (drule omap_ok_distinct) (auto intro!: map_idI [symmetric])

lemma omap_ext:
  assumes "omap_ok m" "omap_ok n" "map_of m = map_of n"
  shows "m = n"
proof -
  have "dom (map_of m) = dom (map_of n)" using assms(3) by simp
  then have "set (map fst m) = set (map fst n)" by (simp add: dom_map_of_conv_image_fst)
  then have "map fst m = map fst n"
    using assms(1,2) unfolding omap_ok_def strict_sorted_iff
    by (intro sorted_distinct_set_unique) auto
  then show ?thesis
    using omap_as_keys [OF assms(1)] omap_as_keys [OF assms(2)] assms(3) by simp
qed

text \<open>Inserting the entries of a map one by one into the empty map rebuilds it.\<close>

lemma omap_put_greater: "(\<And>e. e \<in> set m \<Longrightarrow> fst e < k) \<Longrightarrow> omap_put k v m = m @ [(k, v)]"
  by (induction m) force+

lemma omap_puts_append:
  "omap_ok (n @ m) \<Longrightarrow> omap_puts m n = n @ m"
proof (induction m arbitrary: n)
  case (Cons e m)
  obtain k v where e: "e = (k, v)" by force
  have "omap_put k v n = n @ [(k, v)]"
    using Cons.prems by (intro omap_put_greater) (auto simp: e omap_ok_def sorted_wrt_append)
  with Cons.prems show ?case by (simp add: e Cons.IH)
qed simp

lemma omap_puts_rebuild: "omap_ok m \<Longrightarrow> omap_puts m [] = m"
  using omap_puts_append [of "[]" m] by simp

text \<open>What holds of the entries of a map built in a loop.\<close>

lemma fold_omap_put_all:
  "(\<And>x. x \<in> set m \<Longrightarrow> Q x) \<Longrightarrow> (\<And>e. C e \<Longrightarrow> Q (e, f e)) \<Longrightarrow>
     x \<in> set (fold (\<lambda>e m. if C e then omap_put e (f e) m else m) es m) \<Longrightarrow> Q x"
proof (induction es arbitrary: m)
  case (Cons e es)
  show ?case
  proof (rule Cons.IH)
    show "Q y" if "y \<in> set (if C e then omap_put e (f e) m else m)" for y
      using that omap_put_above [of y e "f e" m] Cons.prems(1) [of y] Cons.prems(2) [of e]
      by (cases "C e") (simp_all, blast)
    show "x \<in> set (fold (\<lambda>e m. if C e then omap_put e (f e) m else m) es (if C e then omap_put e (f e) m else m))"
      using Cons.prems(3) by simp
  qed (rule Cons.prems(2))
qed simp

end
