(* ===== verification/Utils.thy ===== *)
theory Utils
  imports Bytes Ordered_Map
begin

text \<open>
  The text helpers of \<^verbatim>\<open>daemon/tamisud_core/src/utils.cpp\<close>: trimming, splitting, prefix
  and suffix tests, and the two integer parsers built on \<^verbatim>\<open>strtoul\<close>/\<^verbatim>\<open>strtoull\<close>, with
  the facts every text format of the daemon uses.  \<^verbatim>\<open>unsigned long\<close> has 64 bits (LP64).
\<close>

section \<open>Trimming and splitting\<close>

definition is_trim_char :: "char \<Rightarrow> bool" where
  "is_trim_char c \<longleftrightarrow> c \<in> set [CHR 0x20, TAB, NL, CR]"

text \<open>\<^verbatim>\<open>find_first_not_of\<close> and \<^verbatim>\<open>find_last_not_of\<close> cut the two ends; a string of blanks
  has no first position and gives the empty string.\<close>

definition trim :: "string \<Rightarrow> string" where
  "trim str =
     (let from_start = dropWhile is_trim_char str
      in if from_start = [] then [] else rev (dropWhile is_trim_char (rev from_start)))"

definition split :: "string \<Rightarrow> char \<Rightarrow> string list" where
  "split str delim = getline_all delim str"

definition starts_with :: "string \<Rightarrow> string \<Rightarrow> bool" where
  "starts_with str pre \<longleftrightarrow> length pre \<le> length str \<and> take (length pre) str = pre"

definition ends_with :: "string \<Rightarrow> string \<Rightarrow> bool" where
  "ends_with str suf \<longleftrightarrow> length suf \<le> length str \<and> drop (length str - length suf) str = suf"

definition is_zygisk_impl_module :: "string \<Rightarrow> bool" where
  "is_zygisk_impl_module module_id \<longleftrightarrow> module_id \<in> set [''zygisksu'', ''rezygisk'']"

definition trimmed :: "string \<Rightarrow> bool" where
  "trimmed s \<longleftrightarrow> s = [] \<or> (\<not> is_trim_char (hd s) \<and> \<not> is_trim_char (last s))"

lemma starts_with_prefix: "starts_with s p \<longleftrightarrow> prefix p s"
  unfolding starts_with_def
  by (metis append_eq_conv_conj prefix_def prefix_length_le take_is_prefix)

lemma ends_with_suffix: "ends_with s p \<longleftrightarrow> suffix p s"
proof
  assume "suffix p s"
  then obtain a where "s = a @ p" by (auto simp: suffix_def)
  then show "ends_with s p" by (simp add: ends_with_def)
next
  assume "ends_with s p"
  then show "suffix p s" unfolding ends_with_def by (metis suffix_drop)
qed

lemma trim_alt: "trim s = rev (dropWhile is_trim_char (rev (dropWhile is_trim_char s)))"
  unfolding trim_def Let_def by (rule if_split [THEN iffD2]) (metis dropWhile.simps(1) rev.simps(1))

lemma trim_Nil [simp]: "trim [] = []"
  by (simp add: trim_def)

lemma trim_sublist: "sublist (trim s) s"
  unfolding trim_alt
  by (metis suffix_dropWhile suffix_imp_sublist sublist_order.order.trans sublist_rev_right rev_rev_ident)

lemma trim_chars: "c \<in> set (trim s) \<Longrightarrow> c \<in> set s"
  using set_mono_sublist [OF trim_sublist] by auto

lemma trimmed_trim: "trimmed (trim s)"
proof -
  define t where "t = dropWhile is_trim_char s"
  define u where "u = dropWhile is_trim_char (rev t)"
  have tr: "trim s = rev u" by (simp add: trim_alt t_def u_def)
  show ?thesis
  proof (cases "u = []")
    case False
    then have h1: "\<not> is_trim_char (hd u)" unfolding u_def by (rule hd_dropWhile)
    have "suffix u (rev t)" unfolding u_def by (rule suffix_dropWhile)
    then obtain a where "rev t = a @ u" by (auto simp: suffix_def)
    with False have "last u = hd t" and "t \<noteq> []"
      by (metis last_appendR last_rev rev_is_Nil_conv Nil_is_append_conv)
         (use False \<open>rev t = a @ u\<close> in auto)
    moreover have "\<not> is_trim_char (hd t)" using \<open>t \<noteq> []\<close> unfolding t_def by (rule hd_dropWhile)
    ultimately show ?thesis using h1 False by (simp add: trimmed_def tr hd_rev last_rev)
  qed (simp add: tr trimmed_def)
qed

lemma trim_trimmed [simp]: "trimmed s \<Longrightarrow> trim s = s"
proof (cases "s = []")
  case False
  assume "trimmed s"
  with False have "dropWhile is_trim_char s = s" "dropWhile is_trim_char (rev s) = rev s"
    by (auto simp: trimmed_def dropWhile_eq_self_iff hd_rev)
  then show ?thesis by (simp add: trim_alt)
qed simp

lemma trim_idem [simp]: "trim (trim s) = trim s"
  by (simp add: trimmed_trim)

lemma split_unlines [simp]:
  "(\<And>l. l \<in> set ls \<Longrightarrow> d \<notin> set l) \<Longrightarrow> split (unlines d ls) d = ls"
  by (simp add: split_def)

section \<open>Decimal numerals\<close>

definition digits_value :: "string \<Rightarrow> nat" where
  "digits_value ds = foldl (\<lambda>a c. a * 10 + (char_code c - 48)) 0 ds"

text \<open>\<^verbatim>\<open>std::to_string\<close> and \<^verbatim>\<open>ostream << unsigned\<close> on an unsigned value.\<close>

fun show_nat :: "nat \<Rightarrow> string" where
  "show_nat n = (if n < 10 then [digit_char n] else show_nat (n div 10) @ [digit_char n])"

declare show_nat.simps [simp del]

lemma show_nat_digits: "c \<in> set (show_nat n) \<Longrightarrow> is_digit c"
proof (induction n rule: show_nat.induct)
  case (1 n)
  then show ?case by (cases "n < 10") (auto simp: show_nat.simps [of n])
qed

lemma show_nat_nonempty [simp]: "show_nat n \<noteq> []"
  by (subst show_nat.simps) simp

lemma digits_value_snoc: "digits_value (ds @ [c]) = digits_value ds * 10 + (char_code c - 48)"
  by (simp add: digits_value_def)

lemma digits_value_show_nat [simp]: "digits_value (show_nat n) = n"
proof (induction n rule: show_nat.induct)
  case (1 n)
  show ?case
  proof (cases "n < 10")
    case True
    then show ?thesis by (simp add: show_nat.simps [of n] digits_value_def)
  next
    case False
    then show ?thesis using 1 by (simp add: show_nat.simps [of n] digits_value_snoc)
  qed
qed

lemma show_nat_inject: "show_nat m = show_nat n \<longleftrightarrow> m = n"
  by (metis digits_value_show_nat)

section \<open>\<^verbatim>\<open>strtoul\<close> and the two parsers\<close>

text \<open>
  \<^verbatim>\<open>strtoul(s, &end, 10)\<close>: blanks, an optional sign, digits.  \<open>None\<close> when there is no
  digit (\<^verbatim>\<open>end == s\<close>); otherwise the value, whether it is out of range, and the text at
  \<^verbatim>\<open>end\<close>.  All digits are consumed, in range or not.  A minus sign negates modulo
  \<^verbatim>\<open>ULONG_MAX + 1\<close>.
\<close>

definition ULONG_MAX :: nat where "ULONG_MAX = 2 ^ 64 - 1"

definition strip_sign :: "string \<Rightarrow> bool \<times> string" where
  "strip_sign s =
     (if peek s = CHR ''-'' then (True, tl s) else if peek s = CHR ''+'' then (False, tl s)
      else (False, s))"

definition strtoul :: "string \<Rightarrow> (nat \<times> bool \<times> string) option" where
  "strtoul s =
     (let (neg, t) = strip_sign (dropWhile is_space (c_str s));
          ds = takeWhile is_digit t;
          end = dropWhile is_digit t;
          v = digits_value ds
      in if ds = [] then None
         else if ULONG_MAX < v then Some (ULONG_MAX, True, end)
         else Some (if neg then (ULONG_MAX + 1 - v) mod (ULONG_MAX + 1) else v, False, end))"

text \<open>The source compares \<^verbatim>\<open>*end\<close> with the character zero, not with NUL.\<close>

definition parse_uint32 :: "string \<Rightarrow> u32 option" where
  "parse_uint32 s =
     (if s = [] then None
      else case strtoul s of
        None \<Rightarrow> None
      | Some (val, erange, end) \<Rightarrow>
          if peek end \<noteq> CHR ''0'' \<or> erange \<or> 2 ^ 32 - 1 < val then None else Some (of_nat val))"

definition parse_uint64 :: "string \<Rightarrow> u64 option" where
  "parse_uint64 s =
     (if s = [] then None
      else case strtoul s of
        None \<Rightarrow> None
      | Some (val, erange, end) \<Rightarrow>
          if peek end \<noteq> CHR ''0'' \<or> erange then None else Some (of_nat val))"

lemma strtoul_end: "strtoul s = Some (v, e, end) \<Longrightarrow> \<not> is_digit (peek end)"
proof -
  assume "strtoul s = Some (v, e, end)"
  then obtain t where "end = dropWhile is_digit t"
    by (auto simp: strtoul_def Let_def split: if_splits prod.splits)
  moreover have "\<not> is_digit NUL" by (simp add: is_digit_def char_code_def)
  ultimately show ?thesis by (cases "dropWhile is_digit t") (auto dest: head_dropWhile)
qed

lemma strtoul_end_not_zero: "strtoul s = Some (v, e, end) \<Longrightarrow> peek end \<noteq> CHR ''0''"
proof
  assume "strtoul s = Some (v, e, end)" "peek end = CHR ''0''"
  then have "\<not> is_digit (CHR ''0'')" using strtoul_end by metis
  then show False by (simp add: is_digit_def char_code_def)
qed

lemma parse_uint32_None [simp]: "parse_uint32 s = None"
  by (auto simp: parse_uint32_def dest: strtoul_end_not_zero split: option.splits)

lemma parse_uint64_None [simp]: "parse_uint64 s = None"
  by (auto simp: parse_uint64_def dest: strtoul_end_not_zero split: option.splits)

text \<open>The scanner itself reads back what \<^verbatim>\<open>to_string\<close> prints.\<close>

lemma NUL_not_digit: "\<not> is_digit NUL"
  by (simp add: is_digit_def char_code_def)

lemma strtoul_digits:
  assumes dig: "\<And>x. x \<in> set ds \<Longrightarrow> is_digit x" and ne: "ds \<noteq> []"
    and small: "digits_value ds \<le> ULONG_MAX"
  shows "strtoul ds = Some (digits_value ds, False, [])"
proof -
  obtain c cs where s: "ds = c # cs" using ne by (cases ds) auto
  then have c: "is_digit c" using dig by simp
  have nul: "NUL \<notin> set ds" using dig NUL_not_digit by blast
  have sp: "dropWhile is_space ds = ds" using digit_not_space [OF c] by (simp add: s)
  have sign: "strip_sign ds = (False, ds)"
    using c by (auto simp: strip_sign_def s is_digit_def char_code_def)
  have tk: "takeWhile is_digit ds = ds" using dig by (simp add: takeWhile_eq_all_conv)
  have dr: "dropWhile is_digit ds = []" using dig by (simp add: dropWhile_eq_Nil_conv)
  show ?thesis
    unfolding strtoul_def c_str_no_NUL [OF nul] sp sign Let_def prod.case tk dr
    using small ne by simp
qed

lemma strtoul_show_nat: "n \<le> ULONG_MAX \<Longrightarrow> strtoul (show_nat n) = Some (n, False, [])"
  using strtoul_digits [of "show_nat n"] by (simp add: show_nat_digits)

end
