(* ===== verification/Sepolicy.thy ===== *)
theory Sepolicy
  imports Utils "HOL-Library.Monad_Syntax"
begin

text \<open>
  The policy language of \<^verbatim>\<open>daemon/tamisud_core/src/sepolicy/sepolicy.cpp\<close>: the scanner,
  the rule parser that expands a rule into atomic statements, and the batch writer.

  A \<^verbatim>\<open>const char *\<close> into the rule is the text from that position on (its C string), so
  \<^verbatim>\<open>*p\<close> is \<open>peek p\<close> and \<^verbatim>\<open>p + 1\<close> is \<open>tl p\<close>.  The loop over a brace group does not
  advance at a character it does not know, so it is a partial function: \<open>None\<close> is
  \<open>does not return\<close>.
\<close>

section \<open>Constants and statements\<close>

definition SEPOLICY_MAX_LEN :: nat where "SEPOLICY_MAX_LEN = 128"

definition CMD_NORMAL_PERM :: u32 where "CMD_NORMAL_PERM = 1"
definition CMD_XPERM :: u32 where "CMD_XPERM = 2"
definition CMD_TYPE_STATE :: u32 where "CMD_TYPE_STATE = 3"
definition CMD_TYPE :: u32 where "CMD_TYPE = 4"
definition CMD_TYPE_ATTR :: u32 where "CMD_TYPE_ATTR = 5"
definition CMD_ATTR :: u32 where "CMD_ATTR = 6"
definition CMD_TYPE_TRANSITION :: u32 where "CMD_TYPE_TRANSITION = 7"
definition CMD_TYPE_CHANGE :: u32 where "CMD_TYPE_CHANGE = 8"
definition CMD_GENFSCON :: u32 where "CMD_GENFSCON = 9"

lemmas cmd_defs = CMD_NORMAL_PERM_def CMD_XPERM_def CMD_TYPE_STATE_def CMD_TYPE_def
  CMD_TYPE_ATTR_def CMD_ATTR_def CMD_TYPE_TRANSITION_def CMD_TYPE_CHANGE_def CMD_GENFSCON_def

datatype po_kind = PO_NONE | PO_ALL | PO_ONE

record PolicyObject =
  po_type :: po_kind
  po_buf :: string

definition po_none :: PolicyObject where
  "po_none = \<lparr>po_type = PO_NONE, po_buf = []\<rparr>"

definition po_from_str :: "string \<Rightarrow> PolicyObject" where
  "po_from_str s =
     (if s = ''*'' then po_none\<lparr>po_type := PO_ALL\<rparr>
      else if length s < SEPOLICY_MAX_LEN then
        \<lparr>po_type = PO_ONE, po_buf = take (SEPOLICY_MAX_LEN - 1) (c_str s)\<rparr>
      else po_none)"

definition po_c_ptr :: "PolicyObject \<Rightarrow> string option" where
  "po_c_ptr ob = (if po_type ob = PO_ONE then Some (po_buf ob) else None)"

record AtomicStatement =
  cmd :: u32
  subcmd :: u32
  sepol1 :: PolicyObject
  sepol2 :: PolicyObject
  sepol3 :: PolicyObject
  sepol4 :: PolicyObject
  sepol5 :: PolicyObject
  sepol6 :: PolicyObject
  sepol7 :: PolicyObject

definition new_stmt :: "u32 \<Rightarrow> u32 \<Rightarrow> AtomicStatement" where
  "new_stmt c sc = \<lparr>cmd = c, subcmd = sc, sepol1 = po_none, sepol2 = po_none, sepol3 = po_none,
     sepol4 = po_none, sepol5 = po_none, sepol6 = po_none, sepol7 = po_none\<rparr>"

definition stmt_args :: "AtomicStatement \<Rightarrow> PolicyObject list" where
  "stmt_args st = [sepol1 st, sepol2 st, sepol3 st, sepol4 st, sepol5 st, sepol6 st, sepol7 st]"

section \<open>The scanner\<close>

definition is_sepolicy_char :: "char \<Rightarrow> bool" where
  "is_sepolicy_char c \<longleftrightarrow> is_alnum c \<or> c = CHR ''_'' \<or> c = CHR ''-''"

definition skip_space :: "string \<Rightarrow> string" where
  "skip_space p = dropWhile is_space p"

definition parse_word :: "string \<Rightarrow> string \<times> string" where
  "parse_word p = (takeWhile is_sepolicy_char p, dropWhile is_sepolicy_char p)"

partial_function (option) brace_loop :: "string \<Rightarrow> string list \<Rightarrow> (string list \<times> string) option" where
  "brace_loop p out =
     (if p = [] \<or> peek p = CHR ''}'' then Some (out, p)
      else if peek (skip_space p) = CHR ''}'' then Some (out, skip_space p)
      else brace_loop (skip_space (snd (parse_word (skip_space p))))
             (if fst (parse_word (skip_space p)) = [] then out
              else out @ [fst (parse_word (skip_space p))]))"

declare brace_loop.simps [code]

definition parse_seobj :: "string \<Rightarrow> (string list \<times> string) option" where
  "parse_seobj p0 =
     (let p = skip_space p0 in
      if peek p = CHR ''*'' then Some ([''*''], tl p)
      else if peek p = CHR ''{'' then
        do {
          (out, q) \<leftarrow> brace_loop (tl p) [];
          Some (out, if peek q = CHR ''}'' then tl q else q)
        }
      else (let (word, q) = parse_word p in Some (if word = [] then [] else [word], q)))"

text \<open>The class of a rule: after a colon, or glued to the last target, or the next object.\<close>

definition parse_class :: "string list \<Rightarrow> string \<Rightarrow> (string list \<times> string list \<times> string) option" where
  "parse_class targets p0 =
     (let p = skip_space p0 in
      if peek p = CHR '':'' then
        do { (classes, q) \<leftarrow> parse_seobj (tl p); Some (targets, classes, q) }
      else if targets = [] then Some (targets, [], p)
      else (case find_char CHR '':'' (last targets) of
              Some colon \<Rightarrow>
                Some (butlast targets @ [take colon (last targets)], [drop (colon + 1) (last targets)], p)
            | None \<Rightarrow> do { (classes, q) \<leftarrow> parse_seobj p; Some (targets, classes, q) }))"

text \<open>The \<^verbatim>\<open>target:class\<close> pair of the two transition rules.\<close>

definition split_target_class :: "string \<Rightarrow> string \<Rightarrow> string \<times> string \<times> string" where
  "split_target_class target p0 =
     (case find_char CHR '':'' target of
        Some colon \<Rightarrow> (take colon target, drop (colon + 1) target, p0)
      | None \<Rightarrow>
          (let p = skip_space p0;
               p' = (if peek p = CHR '':'' then tl p else p);
               (tclass, q) = parse_word p'
           in (target, tclass, q)))"

text \<open>A possibly quoted word: everything up to the closing quote.\<close>

definition parse_quoted :: "string \<Rightarrow> string \<times> string" where
  "parse_quoted p =
     (if peek p = QUOTE then
        (let q = dropWhile (\<lambda>c. c \<noteq> QUOTE) (tl p)
         in (takeWhile (\<lambda>c. c \<noteq> QUOTE) (tl p), if peek q = QUOTE then tl q else q))
      else parse_word p)"

section \<open>One definition per kind of rule\<close>

definition normal_perm_subcmd :: "string \<Rightarrow> u32" where
  "normal_perm_subcmd c =
     (if c = ''allow'' then 1 else if c = ''deny'' then 2 else if c = ''auditallow'' then 3 else 4)"

definition perm_stmt :: "u32 \<Rightarrow> string \<Rightarrow> string \<Rightarrow> string \<Rightarrow> string \<Rightarrow> AtomicStatement" where
  "perm_stmt sc s t c perm = (new_stmt CMD_NORMAL_PERM sc)\<lparr>sepol1 := po_from_str s,
     sepol2 := po_from_str t, sepol3 := po_from_str c, sepol4 := po_from_str perm\<rparr>"

definition rule_normal_perm :: "string \<Rightarrow> string \<Rightarrow> AtomicStatement list option" where
  "rule_normal_perm c p0 =
     do {
       (sources, p1) \<leftarrow> parse_seobj p0;
       (targets0, p2) \<leftarrow> parse_seobj p1;
       (targets, classes, p3) \<leftarrow> parse_class targets0 p2;
       (perms, p4) \<leftarrow> parse_seobj p3;
       Some [perm_stmt (normal_perm_subcmd c) s t cl perm.
               s \<leftarrow> sources, t \<leftarrow> targets, cl \<leftarrow> classes, perm \<leftarrow> perms]
     }"

definition xperm_subcmd :: "string \<Rightarrow> u32" where
  "xperm_subcmd c =
     (if c = ''allowxperm'' then 1 else if c = ''auditallowxperm'' then 2 else 3)"

definition parse_perm_set :: "string \<Rightarrow> string" where
  "parse_perm_set p0 =
     (let p = skip_space p0 in
      if peek p = CHR ''{'' then
        takeWhile (\<lambda>c. c \<noteq> CHR ''}'') p @
        (if CHR ''}'' \<in> set p then ''}'' else [])
      else fst (parse_word p))"

definition rule_xperm :: "string \<Rightarrow> string \<Rightarrow> AtomicStatement list option" where
  "rule_xperm c p0 =
     do {
       (sources, p1) \<leftarrow> parse_seobj p0;
       (targets0, p2) \<leftarrow> parse_seobj p1;
       (targets, classes, p3) \<leftarrow> parse_class targets0 p2;
       (let (operation, p4) = parse_word (skip_space p3);
            perm_set = parse_perm_set p4
        in Some [(new_stmt CMD_XPERM (xperm_subcmd c))\<lparr>sepol1 := po_from_str s,
                   sepol2 := po_from_str t, sepol3 := po_from_str cl,
                   sepol4 := po_from_str operation, sepol5 := po_from_str perm_set\<rparr>.
                   s \<leftarrow> sources, t \<leftarrow> targets, cl \<leftarrow> classes])
     }"

definition rule_type_state :: "string \<Rightarrow> string \<Rightarrow> AtomicStatement list option" where
  "rule_type_state c p0 =
     do {
       (types, p1) \<leftarrow> parse_seobj p0;
       Some [(new_stmt CMD_TYPE_STATE (if c = ''permissive'' then 1 else 2))\<lparr>sepol1 := po_from_str t\<rparr>.
               t \<leftarrow> types]
     }"

definition rule_type :: "string \<Rightarrow> AtomicStatement list option" where
  "rule_type p0 =
     (let (type_name, p1) = parse_word (skip_space p0) in
      do {
        (attrs, p2) \<leftarrow> parse_seobj p1;
        Some (if attrs = [] then [(new_stmt CMD_TYPE 0)\<lparr>sepol1 := po_from_str type_name\<rparr>]
              else [(new_stmt CMD_TYPE 0)\<lparr>sepol1 := po_from_str type_name,
                      sepol2 := po_from_str attr\<rparr>. attr \<leftarrow> attrs])
      })"

definition rule_typeattribute :: "string \<Rightarrow> AtomicStatement list option" where
  "rule_typeattribute p0 =
     do {
       (types, p1) \<leftarrow> parse_seobj p0;
       (attrs, p2) \<leftarrow> parse_seobj p1;
       Some [(new_stmt CMD_TYPE_ATTR 0)\<lparr>sepol1 := po_from_str t, sepol2 := po_from_str attr\<rparr>.
               t \<leftarrow> types, attr \<leftarrow> attrs]
     }"

definition rule_attribute :: "string \<Rightarrow> AtomicStatement list option" where
  "rule_attribute p0 =
     Some [(new_stmt CMD_ATTR 0)\<lparr>sepol1 := po_from_str (fst (parse_word (skip_space p0)))\<rparr>]"

definition rule_type_transition :: "string \<Rightarrow> AtomicStatement list option" where
  "rule_type_transition p0 =
     (let (source, p1) = parse_word (skip_space p0);
          (target0, p2) = parse_word (skip_space p1);
          (target, tclass, p3) = split_target_class target0 p2;
          (default_type, p4) = parse_word (skip_space p3);
          p5 = skip_space p4;
          object_name = (if p5 = [] then [] else fst (parse_quoted p5));
          stmt = (new_stmt CMD_TYPE_TRANSITION 0)\<lparr>sepol1 := po_from_str source,
            sepol2 := po_from_str target, sepol3 := po_from_str tclass,
            sepol4 := po_from_str default_type\<rparr>
      in Some [if object_name = [] then stmt else stmt\<lparr>sepol5 := po_from_str object_name\<rparr>])"

definition rule_type_change :: "string \<Rightarrow> string \<Rightarrow> AtomicStatement list option" where
  "rule_type_change c p0 =
     (let (source, p1) = parse_word (skip_space p0);
          (target0, p2) = parse_word (skip_space p1);
          (target, tclass, p3) = split_target_class target0 p2;
          (default_type, p4) = parse_word (skip_space p3)
      in Some [(new_stmt CMD_TYPE_CHANGE (if c = ''type_change'' then 1 else 2))\<lparr>
            sepol1 := po_from_str source, sepol2 := po_from_str target,
            sepol3 := po_from_str tclass, sepol4 := po_from_str default_type\<rparr>])"

definition rule_genfscon :: "string \<Rightarrow> AtomicStatement list option" where
  "rule_genfscon p0 =
     (let (fs_name, p1) = parse_word (skip_space p0);
          (partial_path, p2) = parse_quoted (skip_space p1);
          (fs_context, p3) = parse_word (skip_space p2)
      in Some [(new_stmt CMD_GENFSCON 0)\<lparr>sepol1 := po_from_str fs_name,
            sepol2 := po_from_str partial_path, sepol3 := po_from_str fs_context\<rparr>])"

text \<open>\<open>Some (True, stmts)\<close>: parsed; \<open>Some (False, [])\<close>: unknown command; \<open>None\<close>: hangs.\<close>

definition parse_rule :: "string \<Rightarrow> (bool \<times> AtomicStatement list) option" where
  "parse_rule rule =
     (let p = skip_space (c_str rule) in
      if p = [] \<or> peek p = CHR ''#'' then Some (True, [])
      else (let (c, q) = parse_word p in
        if c \<in> set [''allow'', ''deny'', ''auditallow'', ''dontaudit''] then
          map_option (Pair True) (rule_normal_perm c q)
        else if c \<in> set [''allowxperm'', ''auditallowxperm'', ''dontauditxperm''] then
          map_option (Pair True) (rule_xperm c q)
        else if c \<in> set [''permissive'', ''enforce''] then map_option (Pair True) (rule_type_state c q)
        else if c = ''type'' then map_option (Pair True) (rule_type q)
        else if c = ''typeattribute'' then map_option (Pair True) (rule_typeattribute q)
        else if c = ''attribute'' then map_option (Pair True) (rule_attribute q)
        else if c = ''type_transition'' then map_option (Pair True) (rule_type_transition q)
        else if c \<in> set [''type_change'', ''type_member''] then
          map_option (Pair True) (rule_type_change c q)
        else if c = ''genfscon'' then map_option (Pair True) (rule_genfscon q)
        else Some (False, [])))"

section \<open>What the scanner computes\<close>

abbreviation in_braces :: "string \<Rightarrow> string" where
  "in_braces p \<equiv> takeWhile (\<lambda>c. c \<noteq> CHR ''}'') p"

definition brace_ok :: "string \<Rightarrow> bool" where
  "brace_ok p \<longleftrightarrow> (\<forall>c \<in> set (in_braces p). is_sepolicy_char c \<or> is_space c)"

lemma space_not_brace: "is_space c \<Longrightarrow> c \<noteq> CHR ''}''"
  by (auto simp: is_space_def)

lemma word_not_brace: "is_sepolicy_char c \<Longrightarrow> c \<noteq> CHR ''}''"
  by (auto simp: is_sepolicy_char_def is_alnum_def is_digit_def char_code_def)

lemma word_not_space: "is_sepolicy_char c \<Longrightarrow> \<not> is_space c"
  by (auto simp: is_sepolicy_char_def is_alnum_def is_digit_def char_code_def is_space_def)

lemma in_braces_space: "in_braces p = takeWhile is_space p @ in_braces (skip_space p)"
  unfolding skip_space_def by (rule takeWhile_sub) (rule space_not_brace)

lemma in_braces_word: "in_braces p = fst (parse_word p) @ in_braces (snd (parse_word p))"
  unfolding parse_word_def fst_conv snd_conv by (rule takeWhile_sub) (rule word_not_brace)

lemma skip_space_idle [simp]: "skip_space [] = []" "\<not> is_space c \<Longrightarrow> skip_space (c # p) = c # p"
  by (simp_all add: skip_space_def)

lemma at_brace:
  "q = [] \<or> peek q = CHR ''}'' \<Longrightarrow> in_braces q = [] \<and> dropWhile (\<lambda>c. c \<noteq> CHR ''}'') q = q"
  by (cases q) auto

lemma skip_space_at_brace: "p = [] \<or> peek p = CHR ''}'' \<Longrightarrow> skip_space p = p"
  using space_not_brace by (cases p) (auto simp: skip_space_def)

lemma brace_loop_ok: "brace_loop p out = Some r \<Longrightarrow> brace_ok p"
proof (rule brace_loop.raw_induct [where P = "\<lambda>p out r. brace_ok p"])
  fix f p out r
  let ?p1 = "skip_space p"
  let ?p2 = "snd (parse_word ?p1)"
  assume IH: "\<And>p out r. f p out = Some r \<Longrightarrow> brace_ok p"
    and eq: "(if p = [] \<or> peek p = CHR ''}'' then Some (out, p)
      else if peek ?p1 = CHR ''}'' then Some (out, ?p1)
      else f (skip_space ?p2) (if fst (parse_word ?p1) = [] then out else out @ [fst (parse_word ?p1)])) = Some r"
  have split: "in_braces p = takeWhile is_space p @ fst (parse_word ?p1) @
      takeWhile is_space ?p2 @ in_braces (skip_space ?p2)"
    by (metis in_braces_space in_braces_word)
  have sets: "\<forall>c \<in> set (takeWhile is_space q). is_space c" for q
    by (meson set_takeWhileD)
  have w: "\<forall>c \<in> set (fst (parse_word ?p1)). is_sepolicy_char c"
    by (auto simp: parse_word_def dest: set_takeWhileD)
  show "brace_ok p"
  proof (cases "p = [] \<or> peek p = CHR ''}'' \<or> peek ?p1 = CHR ''}''")
    case True
    then have "in_braces p = [] \<or> in_braces ?p1 = []"
      by (auto simp: peek_def split: list.splits)
    then show ?thesis using sets [of p] in_braces_space [of p] by (auto simp: brace_ok_def)
  next
    case False
    with eq IH have "brace_ok (skip_space ?p2)" by (auto split: if_splits)
    then show ?thesis using sets [of p] sets [of ?p2] w
      unfolding brace_ok_def split by auto
  qed
qed

lemma brace_loop_tokens:
  "brace_ok p \<Longrightarrow> brace_loop p out = Some (out @ tokens (in_braces p), dropWhile (\<lambda>c. c \<noteq> CHR ''}'') p)"
proof (induction "length p" arbitrary: p out rule: less_induct)
  case less
  let ?P = "\<lambda>c. c \<noteq> CHR ''}''"
  define p1 where "p1 = skip_space p"
  have drop1: "dropWhile ?P p = dropWhile ?P p1"
    unfolding p1_def skip_space_def by (rule dropWhile_sub) (rule space_not_brace)
  have tok1: "tokens (in_braces p) = tokens (in_braces p1)"
    unfolding p1_def in_braces_space [of p] by (rule tokens_skip) (meson set_takeWhileD)
  have ok1: "brace_ok p1" using less.prems in_braces_space [of p] by (auto simp: brace_ok_def p1_def)
  show ?case
  proof (cases "p = [] \<or> peek p = CHR ''}'' \<or> p1 = [] \<or> peek p1 = CHR ''}''")
    case True
    have "p1 = [] \<or> peek p1 = CHR ''}''"
      using True skip_space_at_brace [of p] by (auto simp: p1_def)
    then have stop: "in_braces p1 = []" "dropWhile ?P p1 = p1"
      using at_brace [of p1] by blast+
    consider "p = [] \<or> peek p = CHR ''}''" | "p \<noteq> []" "peek p \<noteq> CHR ''}''" "peek p1 = CHR ''}''"
      | "p \<noteq> []" "peek p \<noteq> CHR ''}''" "p1 = []" using True by blast
    then show ?thesis
    proof cases
      case 1
      then have "p1 = p" unfolding p1_def by (rule skip_space_at_brace)
      with 1 stop show ?thesis by (subst brace_loop.simps) (simp add: tok1)
    next
      case 2
      then show ?thesis by (subst brace_loop.simps) (simp add: tok1 drop1 stop p1_def [symmetric])
    next
      case 3
      have "brace_loop [] out = Some (out, [])" by (subst brace_loop.simps) simp
      with 3 show ?thesis
        by (subst brace_loop.simps) (simp add: tok1 drop1 p1_def [symmetric] parse_word_def)
    qed
  next
    case False
    then obtain c cs where p1: "p1 = c # cs" "c \<noteq> CHR ''}''" by (cases p1) auto
    then have "is_sepolicy_char c"
      using ok1 head_dropWhile [of is_space p c cs] by (auto simp: brace_ok_def p1_def skip_space_def)
    obtain w p2 where wp: "parse_word p1 = (w, p2)" by force
    have w: "w \<noteq> []" "\<And>c. c \<in> set w \<Longrightarrow> is_sepolicy_char c"
      using wp \<open>is_sepolicy_char c\<close> by (auto simp: parse_word_def p1 dest: set_takeWhileD)
    have split: "in_braces p1 = w @ in_braces p2" using in_braces_word [of p1] wp by simp
    have ok2: "brace_ok p2" using ok1 by (auto simp: brace_ok_def split)
    have next_blank: "case in_braces p2 of [] \<Rightarrow> True | x # _ \<Rightarrow> is_space x"
    proof (cases "in_braces p2")
      case (Cons x xs)
      then have "p2 = x # tl p2" by (cases p2) (auto split: if_splits)
      then have "\<not> is_sepolicy_char x"
        using wp head_dropWhile [of is_sepolicy_char p1] by (auto simp: parse_word_def)
      then show ?thesis using ok2 Cons by (auto simp: brace_ok_def)
    qed simp
    have "length (skip_space p2) < length p"
    proof -
      have "p1 = w @ p2" using wp by (auto simp: parse_word_def)
      then have "length p2 < length p1" using w(1) by simp
      moreover have "length p1 \<le> length p" "length (skip_space p2) \<le> length p2"
        unfolding p1_def skip_space_def by (rule length_dropWhile_le)+
      ultimately show ?thesis by linarith
    qed
    moreover have "brace_ok (skip_space p2)"
      using ok2 in_braces_space [of p2] by (auto simp: brace_ok_def)
    ultimately have IH: "brace_loop (skip_space p2) (out @ [w]) =
        Some ((out @ [w]) @ tokens (in_braces (skip_space p2)), dropWhile ?P (skip_space p2))"
      by (rule less.hyps)
    have tok2: "tokens (in_braces p2) = tokens (in_braces (skip_space p2))"
      unfolding in_braces_space [of p2] by (rule tokens_skip) (meson set_takeWhileD)
    have "tokens (in_braces p1) = w # tokens (in_braces p2)"
      unfolding split using w next_blank word_not_space by (intro tokens_word) auto
    moreover have "dropWhile ?P p1 = dropWhile ?P (skip_space p2)"
    proof -
      have "dropWhile ?P p1 = dropWhile ?P p2"
        using dropWhile_sub [of is_sepolicy_char ?P p1] word_not_brace wp by (auto simp: parse_word_def)
      also have "\<dots> = dropWhile ?P (skip_space p2)"
        unfolding skip_space_def by (rule dropWhile_sub) (rule space_not_brace)
      finally show ?thesis .
    qed
    ultimately show ?thesis using False w(1)
      by (subst brace_loop.simps) (simp add: p1_def [symmetric] wp IH drop1 tok1 tok2)
  qed
qed

text \<open>The loop returns exactly when the group holds words and blanks only.\<close>

lemma brace_loop_returns: "brace_loop p out \<noteq> None \<longleftrightarrow> brace_ok p"
  using brace_loop_ok brace_loop_tokens by fastforce

lemma parse_seobj_returns:
  "parse_seobj p \<noteq> None \<longleftrightarrow>
     (peek (skip_space p) = CHR ''{'' \<longrightarrow> brace_ok (tl (skip_space p)))"
  using brace_loop_returns [of "tl (skip_space p)" "[]"]
  by (auto simp: parse_seobj_def Let_def split: prod.splits bind_split)

section \<open>Rendered rules\<close>

definition is_word :: "string \<Rightarrow> bool" where
  "is_word w \<longleftrightarrow> w \<noteq> [] \<and> (\<forall>c \<in> set w. is_sepolicy_char c)"

definition braces :: "string list \<Rightarrow> string" where
  "braces ws = ''{'' @ concat (map (\<lambda>w. CHR '' '' # w) ws) @ ''}''"

lemma brace_not_word: "\<not> is_sepolicy_char (CHR ''{'')" "\<not> is_sepolicy_char (CHR ''}'')"
    "\<not> is_sepolicy_char (CHR '' '')" "\<not> is_sepolicy_char (CHR '':'')" "\<not> is_sepolicy_char (CHR ''*'')"
  by (simp_all add: is_sepolicy_char_def is_alnum_def is_digit_def char_code_def)

lemma not_space_lits: "\<not> is_space (CHR ''{'')" "\<not> is_space (CHR ''}'')" "\<not> is_space (CHR '':'')"
    "\<not> is_space (CHR ''*'')" "is_space (CHR '' '')"
  by (simp_all add: is_space_def)

lemma rendered_chars:
  assumes "\<And>w. w \<in> set ws \<Longrightarrow> is_word w" "c \<in> set (concat (map (\<lambda>w. CHR '' '' # w) ws))"
  shows "c = CHR '' '' \<or> is_sepolicy_char c"
  using assms by (induction ws) (auto simp: is_word_def)

lemma NUL_not_word: "\<not> is_sepolicy_char NUL" "\<not> is_sepolicy_char (CHR ''#'')"
  by (simp_all add: is_sepolicy_char_def is_alnum_def is_digit_def char_code_def)

lemma parse_word_append:
  assumes "is_word w" "case rest of [] \<Rightarrow> True | x # _ \<Rightarrow> \<not> is_sepolicy_char x"
  shows "parse_word (w @ rest) = (w, rest)"
  unfolding parse_word_def prod.inject using assms
  by (intro conjI takeWhile_append_stop dropWhile_append_stop) (auto simp: is_word_def)

lemma in_braces_rendered:
  assumes "\<And>w. w \<in> set ws \<Longrightarrow> is_word w"
  shows "in_braces (concat (map (\<lambda>w. CHR '' '' # w) ws) @ CHR ''}'' # rest) =
      concat (map (\<lambda>w. CHR '' '' # w) ws)"
    and "dropWhile (\<lambda>c. c \<noteq> CHR ''}'') (concat (map (\<lambda>w. CHR '' '' # w) ws) @ CHR ''}'' # rest) =
      CHR ''}'' # rest"
proof -
  have "\<And>c. c \<in> set (concat (map (\<lambda>w. CHR '' '' # w) ws)) \<Longrightarrow> c \<noteq> CHR ''}''"
    using rendered_chars [OF assms] word_not_brace by fastforce
  then show "in_braces (concat (map (\<lambda>w. CHR '' '' # w) ws) @ CHR ''}'' # rest) =
      concat (map (\<lambda>w. CHR '' '' # w) ws)"
    and "dropWhile (\<lambda>c. c \<noteq> CHR ''}'') (concat (map (\<lambda>w. CHR '' '' # w) ws) @ CHR ''}'' # rest) =
      CHR ''}'' # rest"
    by (intro takeWhile_append_stop dropWhile_append_stop; simp)+
qed

lemma parse_seobj_braces:
  assumes "\<And>w. w \<in> set ws \<Longrightarrow> is_word w" "\<And>c. c \<in> set sp \<Longrightarrow> is_space c"
  shows "parse_seobj (sp @ braces ws @ rest) = Some (ws, rest)"
proof -
  let ?in = "concat (map (\<lambda>w. CHR '' '' # w) ws)"
  have inb: "in_braces (?in @ CHR ''}'' # rest) = ?in"
    and rst: "dropWhile (\<lambda>c. c \<noteq> CHR ''}'') (?in @ CHR ''}'' # rest) = CHR ''}'' # rest"
    using in_braces_rendered [of ws rest] assms(1) by blast+
  have skip: "skip_space (sp @ braces ws @ rest) = CHR ''{'' # ?in @ CHR ''}'' # rest"
    using assms(2) not_space_lits(1) unfolding skip_space_def braces_def by (induction sp) auto
  have ok: "brace_ok (?in @ CHR ''}'' # rest)"
    using rendered_chars [of ws] assms(1) not_space_lits(5) unfolding brace_ok_def inb by blast
  have "tokens ?in = ws"
    using assms(1) word_not_space by (intro tokens_render) (auto simp: is_word_def)
  then have "brace_loop (?in @ CHR ''}'' # rest) [] = Some (ws, CHR ''}'' # rest)"
    using brace_loop_tokens [OF ok, of "[]"] by (simp add: inb rst)
  then show ?thesis by (simp add: parse_seobj_def skip)
qed

lemma parse_seobj_word:
  assumes "is_word w" "\<And>c. c \<in> set sp \<Longrightarrow> is_space c"
    and "case rest of [] \<Rightarrow> True | x # _ \<Rightarrow> \<not> is_sepolicy_char x"
  shows "parse_seobj (sp @ w @ rest) = Some ([w], rest)"
proof -
  obtain c cs where w: "w = c # cs" "is_sepolicy_char c"
    using assms(1) by (cases w) (auto simp: is_word_def)
  then have "skip_space (sp @ w @ rest) = w @ rest"
    using assms(2) word_not_space [OF w(2)] unfolding skip_space_def by (induction sp) auto
  moreover have "parse_word (w @ rest) = (w, rest)"
    using assms(1,3) by (rule parse_word_append)
  moreover have "c \<noteq> CHR ''*''" "c \<noteq> CHR ''{''" using w(2) brace_not_word by auto
  ultimately show ?thesis by (simp add: parse_seobj_def w(1))
qed

definition normal_perm_rule :: "string \<Rightarrow> string list \<Rightarrow> string list \<Rightarrow> string list \<Rightarrow> string list \<Rightarrow> string" where
  "normal_perm_rule c ss ts cs ps =
     c @ '' '' @ braces ss @ '' '' @ braces ts @ '':'' @ braces cs @ '' '' @ braces ps"

lemma parse_rule_head:
  assumes "is_word c" "NUL \<notin> set q" "case q of [] \<Rightarrow> True | x # _ \<Rightarrow> \<not> is_sepolicy_char x"
  shows "skip_space (c_str (c @ q)) = c @ q" "parse_word (c @ q) = (c, q)" "c @ q \<noteq> []"
    "peek (c @ q) \<noteq> CHR ''#''"
proof -
  obtain d ds where c: "c = d # ds" "is_sepolicy_char d"
    using assms(1) by (cases c) (auto simp: is_word_def)
  have "NUL \<notin> set (c @ q)" using assms(1,2) NUL_not_word by (auto simp: is_word_def)
  then show "skip_space (c_str (c @ q)) = c @ q"
    using word_not_space [OF c(2)] by (simp add: c(1))
  show "parse_word (c @ q) = (c, q)"
    using assms(1,3) by (rule parse_word_append)
  show "c @ q \<noteq> []" "peek (c @ q) \<noteq> CHR ''#''" using c NUL_not_word by auto
qed

lemma NUL_notin_braces: "(\<And>w. w \<in> set ws \<Longrightarrow> is_word w) \<Longrightarrow> NUL \<notin> set (braces ws)"
  using rendered_chars [of ws NUL] NUL_not_word unfolding braces_def by fastforce

lemma parse_class_braces:
  assumes "\<And>w. w \<in> set ws \<Longrightarrow> is_word w"
  shows "parse_class ts (CHR '':'' # braces ws @ rest) = Some (ts, ws, rest)"
  using parse_seobj_braces [OF assms, where sp = "[]"]
  by (simp add: parse_class_def not_space_lits)

lemma rule_normal_perm_rendered:
  assumes "\<And>w. w \<in> set ss \<union> set ts \<union> set cs \<union> set ps \<Longrightarrow> is_word w"
  shows "rule_normal_perm c ('' '' @ braces ss @ '' '' @ braces ts @ '':'' @ braces cs @ '' '' @ braces ps) =
      Some [perm_stmt (normal_perm_subcmd c) s t cl p. s \<leftarrow> ss, t \<leftarrow> ts, cl \<leftarrow> cs, p \<leftarrow> ps]"
proof -
  have sp: "\<And>c. c \<in> set '' '' \<Longrightarrow> is_space c" using not_space_lits by simp
  have s: "parse_seobj ('' '' @ braces ss @ q) = Some (ss, q)" for q
    by (rule parse_seobj_braces [OF assms sp]) auto
  have t: "parse_seobj ('' '' @ braces ts @ q) = Some (ts, q)" for q
    by (rule parse_seobj_braces [OF assms sp]) auto
  have p: "parse_seobj ('' '' @ braces ps) = Some (ps, [])"
    using parse_seobj_braces [of ps "'' ''" "[]"] assms sp by auto
  have cl: "parse_class ts ('':'' @ braces cs @ q) = Some (ts, cs, q)" for q
    using parse_class_braces [OF assms, of cs] by auto
  show ?thesis unfolding rule_normal_perm_def by (simp only: s t p cl bind.bind_lunit prod.case)
qed

end
