(* ===== verification/Os.thy ===== *)
theory Os
  imports Utils "HOL-Library.AList"
begin

text \<open>
  What the daemon uses of the operating system: a file system, the property service, the
  environment, the commands it runs, and the calls the C++ and C libraries make on them
  (\<^verbatim>\<open>stat\<close>, \<^verbatim>\<open>access\<close>, \<^verbatim>\<open>mkdir\<close>, \<^verbatim>\<open>open\<close>, \<^verbatim>\<open>unlink\<close>, \<^verbatim>\<open>readdir\<close>, the file streams).

  A file system is the list of its paths with a node each, in the order \<^verbatim>\<open>readdir\<close> gives
  them; paths are compared as text (no symbolic link is resolved).  A path of \<open>ro_path\<close>
  refuses to be opened for writing, created or removed.  What a command does when it runs
  is a field of the state, so it is arbitrary in every theorem; \<open>trace\<close> lists what was run.
\<close>

section \<open>The state\<close>

type_synonym path = string

datatype node = Reg nat string | Dir | Blk string | Lnk path

datatype wait_status = Exited nat | Signaled nat string | Stopped

record proc =
  pipes_ok :: bool
  fork_ok :: bool
  out_reads :: "string list"
  err_reads :: "string list"
  wstatus :: wait_status

datatype action =
    Run "string list"
  | RunAsync "string list"
  | RunScript path
  | System string
  | SetProp string string
  | Restorecon path
  | Mark string

record os =
  fs :: "(path \<times> node) list"
  ro_path :: "path \<Rightarrow> bool"
  prop_of :: "string \<Rightarrow> string"
  env_of :: "string \<Rightarrow> string option"
  run_of :: "string list \<Rightarrow> proc"
  kernel_safemode :: bool
  trace :: "action list"

definition log_action :: "action \<Rightarrow> os \<Rightarrow> os" where
  "log_action a st = st\<lparr>trace := trace st @ [a]\<rparr>"

section \<open>Paths\<close>

definition rfind_slash :: "path \<Rightarrow> nat option" where
  "rfind_slash p = (case find_char CHR ''/'' (rev p) of None \<Rightarrow> None | Some i \<Rightarrow> Some (length p - 1 - i))"

definition basename :: "path \<Rightarrow> string" where
  "basename p = rev (takeWhile (\<lambda>c. c \<noteq> CHR ''/'') (rev p))"

text \<open>The directory an entry lives in; the root for a path like \<^verbatim>\<open>/data\<close>.\<close>

definition parent :: "path \<Rightarrow> path" where
  "parent p =
     (case rfind_slash p of None \<Rightarrow> ''.'' | Some i \<Rightarrow> if i = 0 then ''/'' else take i p)"

definition strip_slash :: "path \<Rightarrow> path" where
  "strip_slash p = (if p \<noteq> ''/'' \<and> p \<noteq> [] \<and> last p = CHR ''/'' then butlast p else p)"

section \<open>Queries\<close>

definition node_at :: "os \<Rightarrow> path \<Rightarrow> node option" where
  "node_at st p = map_of (fs st) (strip_slash p)"

definition exists_path :: "os \<Rightarrow> path \<Rightarrow> bool" where
  "exists_path st p \<longleftrightarrow> node_at st p \<noteq> None"

definition is_dir :: "os \<Rightarrow> path \<Rightarrow> bool" where
  "is_dir st p \<longleftrightarrow> node_at st p = Some Dir"

definition is_reg :: "os \<Rightarrow> path \<Rightarrow> bool" where
  "is_reg st p \<longleftrightarrow> (case node_at st p of Some (Reg _ _) \<Rightarrow> True | _ \<Rightarrow> False)"

text \<open>\<^verbatim>\<open>access (p, X_OK)\<close> for root: some execute bit, or a directory.\<close>

definition access_x :: "os \<Rightarrow> path \<Rightarrow> bool" where
  "access_x st p \<longleftrightarrow> (case node_at st p of
      Some (Reg m _) \<Rightarrow> odd m \<or> odd (m div 8) \<or> odd (m div 64)
    | Some Dir \<Rightarrow> True
    | _ \<Rightarrow> False)"

text \<open>The entries of a directory, in the order the file system lists them.\<close>

definition readdir :: "os \<Rightarrow> path \<Rightarrow> string list" where
  "readdir st d = [basename p. (p, n) \<leftarrow> fs st, p \<noteq> ''/'' \<and> parent p = strip_slash d]"

definition file_text :: "node \<Rightarrow> string option" where
  "file_text n = (case n of Reg _ s \<Rightarrow> Some s | Blk s \<Rightarrow> Some s | _ \<Rightarrow> None)"

text \<open>An \<^verbatim>\<open>ifstream\<close> on the path, read to its end.\<close>

definition read_file :: "os \<Rightarrow> path \<Rightarrow> string option" where
  "read_file st p = (case node_at st p of None \<Rightarrow> None | Some n \<Rightarrow> file_text n)"

section \<open>Updates\<close>

definition put_node :: "path \<Rightarrow> node \<Rightarrow> os \<Rightarrow> os" where
  "put_node p n st = st\<lparr>fs := AList.update (strip_slash p) n (fs st)\<rparr>"

definition del_node :: "path \<Rightarrow> os \<Rightarrow> os" where
  "del_node p st = st\<lparr>fs := AList.delete (strip_slash p) (fs st)\<rparr>"

definition creatable :: "os \<Rightarrow> path \<Rightarrow> bool" where
  "creatable st p \<longleftrightarrow> \<not> ro_path st p \<and> node_at st p = None \<and> is_dir st (parent (strip_slash p))"

text \<open>An output stream opens when the file is there and writable, or can be created.\<close>

definition can_write :: "os \<Rightarrow> path \<Rightarrow> bool" where
  "can_write st p \<longleftrightarrow>
     \<not> ro_path st p \<and>
     (case node_at st p of
        Some (Reg _ _) \<Rightarrow> True
      | Some (Blk _) \<Rightarrow> True
      | None \<Rightarrow> creatable st p
      | _ \<Rightarrow> False)"

text \<open>The node after its text is replaced: a new file gets the mode given.\<close>

definition retext :: "nat \<Rightarrow> node option \<Rightarrow> string \<Rightarrow> node" where
  "retext m n s = (case n of Some (Reg m' _) \<Rightarrow> Reg m' s | Some (Blk _) \<Rightarrow> Blk s | _ \<Rightarrow> Reg m s)"

definition write_file :: "path \<Rightarrow> string \<Rightarrow> os \<Rightarrow> bool \<times> os" where
  "write_file p s st =
     (if can_write st p then (True, put_node p (retext 420 (node_at st p) s) st) else (False, st))"

definition append_file :: "path \<Rightarrow> string \<Rightarrow> os \<Rightarrow> bool \<times> os" where
  "append_file p s st =
     (if can_write st p
      then (True, put_node p (retext 420 (node_at st p)
              ((case read_file st p of None \<Rightarrow> [] | Some t \<Rightarrow> t) @ s)) st)
      else (False, st))"

definition chmod :: "path \<Rightarrow> nat \<Rightarrow> os \<Rightarrow> os" where
  "chmod p m st = (case node_at st p of Some (Reg _ s) \<Rightarrow> put_node p (Reg m s) st | _ \<Rightarrow> st)"

definition unlink :: "path \<Rightarrow> os \<Rightarrow> os" where
  "unlink p st =
     (if ro_path st p \<or> node_at st p = None \<or> is_dir st p then st else del_node p st)"

datatype mk_result = MkOk | MkExists | MkFails

definition mkdir :: "path \<Rightarrow> os \<Rightarrow> mk_result \<times> os" where
  "mkdir p st =
     (if node_at st p \<noteq> None then (MkExists, st)
      else if creatable st p then (MkOk, put_node p Dir st)
      else (MkFails, st))"

text \<open>\<^verbatim>\<open>remove_all\<close>: a path and everything below it.\<close>

definition below :: "path \<Rightarrow> path \<Rightarrow> bool" where
  "below d p \<longleftrightarrow> p = d \<or> prefix (d @ ''/'') p"

definition remove_all :: "path \<Rightarrow> os \<Rightarrow> os" where
  "remove_all d st = st\<lparr>fs := filter (\<lambda>(p, n). \<not> below (strip_slash d) p) (fs st)\<rparr>"

section \<open>Laws\<close>

lemma put_node_same [simp]: "node_at (put_node p n st) p = Some n"
  by (simp add: node_at_def put_node_def update_Some_unfold)

lemma node_at_put: "node_at (put_node p n st) q = (if strip_slash q = strip_slash p then Some n else node_at st q)"
  by (simp add: node_at_def put_node_def update_conv')

lemma node_at_put_other [simp]:
  "strip_slash q \<noteq> strip_slash p \<Longrightarrow> node_at (put_node p n st) q = node_at st q"
  by (simp add: node_at_put)

lemma node_at_del: "node_at (del_node p st) q = (if strip_slash q = strip_slash p then None else node_at st q)"
  by (simp add: node_at_def del_node_def delete_conv')

lemma map_of_filter_key:
  "map_of (filter (\<lambda>(p, n). P p) xs) q = (if P q then map_of xs q else None)"
  by (induction xs) auto

lemma node_at_remove_all:
  "node_at (remove_all d st) q = (if below (strip_slash d) (strip_slash q) then None else node_at st q)"
  by (simp add: node_at_def remove_all_def map_of_filter_key)

lemma node_at_log [simp]: "node_at (log_action a st) p = node_at st p"
  by (simp add: node_at_def log_action_def)

lemma put_node_frame [simp]:
  "ro_path (put_node p n st) = ro_path st" "prop_of (put_node p n st) = prop_of st"
  "env_of (put_node p n st) = env_of st" "run_of (put_node p n st) = run_of st"
  "trace (put_node p n st) = trace st" "kernel_safemode (put_node p n st) = kernel_safemode st"
  by (simp_all add: put_node_def)

lemma log_action_frame [simp]:
  "fs (log_action a st) = fs st" "ro_path (log_action a st) = ro_path st"
  "prop_of (log_action a st) = prop_of st" "env_of (log_action a st) = env_of st"
  "run_of (log_action a st) = run_of st" "kernel_safemode (log_action a st) = kernel_safemode st"
  "trace (log_action a st) = trace st @ [a]"
  by (simp_all add: log_action_def)

lemma read_after_write:
  "write_file p s st = (True, st') \<Longrightarrow> read_file st' p = Some s"
  by (auto simp: write_file_def read_file_def retext_def file_text_def split: if_splits option.splits node.splits)

lemma read_after_write_other:
  "write_file p s st = (r, st') \<Longrightarrow> strip_slash q \<noteq> strip_slash p \<Longrightarrow> read_file st' q = read_file st q"
  by (auto simp: write_file_def read_file_def split: if_splits)

lemma write_file_fails: "write_file p s st = (False, st') \<Longrightarrow> st' = st"
  by (auto simp: write_file_def split: if_splits)

lemma write_file_again:
  "write_file p s st = (True, st') \<Longrightarrow> can_write st' p"
  by (auto simp: write_file_def can_write_def retext_def split: if_splits option.splits node.splits)

lemma read_after_append:
  "append_file p s st = (True, st') \<Longrightarrow>
     read_file st' p = Some ((case read_file st p of None \<Rightarrow> [] | Some t \<Rightarrow> t) @ s)"
  by (auto simp: append_file_def read_file_def retext_def file_text_def split: if_splits option.splits node.splits)

end
