(* ===== verification/Sepolicy_Batch.thy ===== *)
theory Sepolicy_Batch
  imports Sepolicy Os
begin

text \<open>
  The binary policy batch: the writer of \<^verbatim>\<open>sepolicy.cpp\<close>, the reader of the kernel module
  (\<^verbatim>\<open>core/tamisu_rules.c\<close>), and the operations built on them (live patch, rule files, rule
  check).  What one statement does to the policy database is a parameter here (it is in \<^verbatim>\<open>Policy_Apply\<close>);
  a command of the kernel sees its arguments as strings or as \<^verbatim>\<open>ALL\<close> (\<open>None\<close>).
\<close>

section \<open>The writer\<close>

definition expected_argc :: "u32 \<Rightarrow> int" where
  "expected_argc c =
     (if c = CMD_NORMAL_PERM then 4
      else if c = CMD_XPERM then 5
      else if c = CMD_TYPE_STATE then 1
      else if c = CMD_TYPE \<or> c = CMD_TYPE_ATTR then 2
      else if c = CMD_ATTR then 1
      else if c = CMD_TYPE_TRANSITION then 5
      else if c = CMD_TYPE_CHANGE then 4
      else if c = CMD_GENFSCON then 3
      else -1)"

definition append_u32 :: "bytes \<Rightarrow> u32 \<Rightarrow> bytes" where
  "append_u32 payload v = payload @ u32_le v"

definition append_policy_object :: "bytes \<Rightarrow> PolicyObject \<Rightarrow> bytes" where
  "append_policy_object payload object =
     (let len = (case po_c_ptr object of None \<Rightarrow> 0 | Some v \<Rightarrow> (of_nat (length (c_str v)) :: u32));
          p1 = append_u32 payload len;
          p2 = (if len > 0 then (case po_c_ptr object of None \<Rightarrow> p1 | Some v \<Rightarrow> p1 @ str_bytes (c_str v)) else p1)
      in p2 @ [0])"

definition serialize_statement :: "bytes \<Rightarrow> AtomicStatement \<Rightarrow> bytes option" where
  "serialize_statement payload stmt =
     (if expected_argc (cmd stmt) < 0 then None
      else Some (fold (\<lambda>ob p. append_policy_object p ob)
             (take (nat (expected_argc (cmd stmt))) (stmt_args stmt))
             (append_u32 (append_u32 payload (cmd stmt)) (subcmd stmt))))"

fun serialize_loop :: "AtomicStatement list \<Rightarrow> bytes \<Rightarrow> bytes option" where
  "serialize_loop [] payload = Some payload"
| "serialize_loop (stmt # stmts) payload =
     (case serialize_statement payload stmt of None \<Rightarrow> None | Some p \<Rightarrow> serialize_loop stmts p)"

definition serialize_statements :: "AtomicStatement list \<Rightarrow> bytes option" where
  "serialize_statements stmts = serialize_loop stmts []"

section \<open>The kernel's reader\<close>

definition EINVAL :: int where "EINVAL = 22"
definition E2BIG :: int where "E2BIG = 7"
definition MAX_BATCH_SIZE :: nat where "MAX_BATCH_SIZE = 8 * 1024 * 1024"

definition sepol_read_cmd_header :: "bytes \<Rightarrow> ((u32 \<times> u32) \<times> bytes) option" where
  "sepol_read_cmd_header cursor =
     (if length cursor < 8 then None
      else Some ((of_nat (le_nat (take 4 cursor)), of_nat (le_nat (take 4 (drop 4 cursor)))), drop 8 cursor))"

definition sepol_read_string :: "bytes \<Rightarrow> (string option \<times> bytes) option" where
  "sepol_read_string cursor =
     (case get_u32 cursor of
        None \<Rightarrow> None
      | Some (len, cur) \<Rightarrow>
          if unat len \<ge> length cur then None
          else if 0 \<in> set (take (unat len) cur) \<or> cur ! unat len \<noteq> 0 then None
          else Some (if len = 0 then None else Some (bytes_str (take (unat len) cur)),
                     drop (unat len + 1) cur))"

lemma get_u32_shorter: "get_u32 bs = Some (v, r) \<Longrightarrow> length r < length bs"
  by (auto simp: get_u32_def take_bytes_def split: if_splits)

lemma sepol_read_string_shorter: "sepol_read_string bs = Some (a, r) \<Longrightarrow> length r \<le> length bs"
  by (auto simp: sepol_read_string_def split: option.splits if_splits dest!: get_u32_shorter)

lemma get_many_shorter:
  "(\<And>bs a r. d bs = Some (a, r) \<Longrightarrow> length r \<le> length bs) \<Longrightarrow>
     get_many d n bs = Some (as, r) \<Longrightarrow> length r \<le> length bs"
proof (induction n arbitrary: bs as)
  case (Suc n)
  then obtain a r' as' where "d bs = Some (a, r')" "get_many d n r' = Some (as', r)"
    by (auto split: option.splits prod.splits)
  then show ?case using Suc.IH [of r' as'] Suc.prems(1) by fastforce
qed auto

lemma get_strings_shorter: "get_many sepol_read_string n bs = Some (as, r) \<Longrightarrow> length r \<le> length bs"
  by (rule get_many_shorter [of sepol_read_string]) (rule sepol_read_string_shorter)

text \<open>\<open>patch h args db\<close> is \<^verbatim>\<open>apply_one_sepolicy_cmd\<close>: its result and the database after it.\<close>

function batch_loop ::
  "((u32 \<times> u32) \<Rightarrow> string option list \<Rightarrow> 'db \<Rightarrow> int \<times> 'db) \<Rightarrow> bytes \<Rightarrow> 'db \<Rightarrow> nat \<Rightarrow> int + (nat \<times> 'db)"
where
  "batch_loop patch cursor db success =
     (if cursor = [] then Inr (success, db)
      else (case sepol_read_cmd_header cursor of
              None \<Rightarrow> Inl (- EINVAL)
            | Some (header, r) \<Rightarrow>
                if expected_argc (fst header) < 0 \<or> expected_argc (fst header) > 5 then Inl (- EINVAL)
                else (case get_many sepol_read_string (nat (expected_argc (fst header))) r of
                        None \<Rightarrow> Inl (- EINVAL)
                      | Some (args, r') \<Rightarrow>
                          (case patch header args db of
                             (ret, db') \<Rightarrow>
                               batch_loop patch r' db' (if ret < 0 then success else Suc success)))))"
  by pat_completeness auto
termination
proof (relation "measure (\<lambda>(a, cursor, db, s). length cursor)", goal_cases)
  case (2 patch cursor db success x header r y args r')
  then have "length r' \<le> length r"
    using get_strings_shorter by blast
  then show ?case using 2 by (auto simp: sepol_read_cmd_header_def split: if_splits)
qed simp

declare batch_loop.simps [simp del]

text \<open>The policy of the kernel is replaced by the patched copy only when the loop ends.\<close>

definition handle_sepolicy ::
  "((u32 \<times> u32) \<Rightarrow> string option list \<Rightarrow> 'db \<Rightarrow> int \<times> 'db) \<Rightarrow> bytes \<Rightarrow> 'db \<Rightarrow> int \<times> 'db"
where
  "handle_sepolicy patch data db =
     (if data = [] then (- EINVAL, db)
      else if length data > MAX_BATCH_SIZE then (- E2BIG, db)
      else (case batch_loop patch data db 0 of
              Inl e \<Rightarrow> (e, db)
            | Inr (success, db') \<Rightarrow> (int success, db')))"

section \<open>Patching the live policy\<close>

text \<open>The rules of a policy text: lines, cut at semicolons, blanks and comments dropped.\<close>

definition policy_rules :: "string \<Rightarrow> string list" where
  "policy_rules policy =
     [trim rule. line \<leftarrow> getline_all NL policy, rule \<leftarrow> getline_all CHR '';'' line,
        trim rule \<noteq> [] \<and> hd (trim rule) \<noteq> CHR ''#'']"

fun parse_rules :: "string list \<Rightarrow> nat \<Rightarrow> AtomicStatement list \<Rightarrow> (nat \<times> AtomicStatement list) option" where
  "parse_rules [] errors statements = Some (errors, statements)"
| "parse_rules (rule # rules) errors statements =
     (case parse_rule rule of
        None \<Rightarrow> None
      | Some (False, _) \<Rightarrow> parse_rules rules (Suc errors) statements
      | Some (True, rule_stmts) \<Rightarrow> parse_rules rules errors (statements @ rule_stmts))"

text \<open>\<open>send\<close> is the ioctl of \<^verbatim>\<open>set_sepolicy\<close> on the kernel's state; \<open>None\<close> is \<open>does not return\<close>.\<close>

definition sepolicy_live_patch :: "(bytes \<Rightarrow> 'k \<Rightarrow> int \<times> 'k) \<Rightarrow> string \<Rightarrow> 'k \<Rightarrow> (int \<times> 'k) option" where
  "sepolicy_live_patch send policy k =
     (case parse_rules (policy_rules policy) 0 [] of
        None \<Rightarrow> None
      | Some (errors, statements) \<Rightarrow>
          if errors > 0 then Some (1, k)
          else if statements = [] then Some (0, k)
          else (case serialize_statements statements of
                  None \<Rightarrow> Some (1, k)
                | Some payload \<Rightarrow>
                    (case send payload k of
                       (applied, k') \<Rightarrow>
                         if applied < 0 then Some (1, k')
                         else if applied < int (length statements) then Some (1, k')
                         else Some (0, k'))))"

definition sepolicy_apply_file :: "(bytes \<Rightarrow> 'k \<Rightarrow> int \<times> 'k) \<Rightarrow> os \<Rightarrow> path \<Rightarrow> 'k \<Rightarrow> (int \<times> 'k) option" where
  "sepolicy_apply_file send st file k =
     (case read_file st file of None \<Rightarrow> Some (1, k) | Some content \<Rightarrow> sepolicy_live_patch send content k)"

definition is_valid_rule_type :: "string \<Rightarrow> bool" where
  "is_valid_rule_type t =
     list_ex (starts_with t)
       [''allow'', ''deny'', ''auditallow'', ''dontaudit'', ''allowxperm'', ''auditallowxperm'',
        ''dontauditxperm'', ''type '', ''attribute'', ''permissive'', ''enforce'', ''typeattribute'',
        ''type_transition'', ''type_change'', ''type_member'', ''genfscon'']"

definition sepolicy_check_rule :: "os \<Rightarrow> string \<Rightarrow> int" where
  "sepolicy_check_rule st policy_or_file =
     (if is_reg st policy_or_file then
        (case read_file st policy_or_file of
           None \<Rightarrow> 1
         | Some content \<Rightarrow>
             if list_ex (\<lambda>line. trim line \<noteq> [] \<and> hd (trim line) \<noteq> CHR ''#'' \<and> \<not> is_valid_rule_type (trim line))
                  (getline_all NL content)
             then 1 else 0)
      else if trim policy_or_file = [] then 1
      else if is_valid_rule_type (trim policy_or_file) then 0
      else 1)"

section \<open>Well-formed statements\<close>

definition po_ok :: "PolicyObject \<Rightarrow> bool" where
  "po_ok ob \<longleftrightarrow> NUL \<notin> set (po_buf ob) \<and> length (po_buf ob) < SEPOLICY_MAX_LEN"

definition stmt_ok :: "AtomicStatement \<Rightarrow> bool" where
  "stmt_ok st \<longleftrightarrow> expected_argc (cmd st) \<noteq> -1 \<and> (\<forall>ob \<in> set (stmt_args st). po_ok ob)"

lemma po_ok_none [simp]: "po_ok po_none"
  by (simp add: po_ok_def po_none_def SEPOLICY_MAX_LEN_def)

lemma po_ok_from_str [simp]: "po_ok (po_from_str s)"
  using NUL_notin_c_str [of s] in_set_takeD [of NUL "127" "c_str s"]
  by (auto simp: po_from_str_def po_ok_def po_none_def SEPOLICY_MAX_LEN_def)

lemma expected_argc_cmds [simp]:
  "expected_argc CMD_NORMAL_PERM = 4" "expected_argc CMD_XPERM = 5" "expected_argc CMD_TYPE_STATE = 1"
  "expected_argc CMD_TYPE = 2" "expected_argc CMD_TYPE_ATTR = 2" "expected_argc CMD_ATTR = 1"
  "expected_argc CMD_TYPE_TRANSITION = 5" "expected_argc CMD_TYPE_CHANGE = 4" "expected_argc CMD_GENFSCON = 3"
  by (simp_all add: expected_argc_def cmd_defs)

lemma expected_argc_range: "expected_argc c = -1 \<or> 0 \<le> expected_argc c \<and> expected_argc c \<le> 5"
  by (simp add: expected_argc_def)

lemma stmt_ok_new [simp]: "expected_argc c \<noteq> -1 \<Longrightarrow> stmt_ok (new_stmt c sc)"
  by (simp add: stmt_ok_def stmt_args_def new_stmt_def)

lemma stmt_ok_update [simp]:
  "stmt_ok st \<Longrightarrow> po_ok ob \<Longrightarrow> stmt_ok (st\<lparr>sepol1 := ob\<rparr>)"
  "stmt_ok st \<Longrightarrow> po_ok ob \<Longrightarrow> stmt_ok (st\<lparr>sepol2 := ob\<rparr>)"
  "stmt_ok st \<Longrightarrow> po_ok ob \<Longrightarrow> stmt_ok (st\<lparr>sepol3 := ob\<rparr>)"
  "stmt_ok st \<Longrightarrow> po_ok ob \<Longrightarrow> stmt_ok (st\<lparr>sepol4 := ob\<rparr>)"
  "stmt_ok st \<Longrightarrow> po_ok ob \<Longrightarrow> stmt_ok (st\<lparr>sepol5 := ob\<rparr>)"
  by (simp_all add: stmt_ok_def stmt_args_def)

lemmas rule_defs = rule_normal_perm_def rule_xperm_def rule_type_state_def rule_type_def
  rule_typeattribute_def rule_attribute_def rule_type_transition_def rule_type_change_def
  rule_genfscon_def perm_stmt_def

lemma rule_stmts_ok:
  "rule_normal_perm c p = Some sts \<Longrightarrow> list_all stmt_ok sts"
  "rule_xperm c p = Some sts \<Longrightarrow> list_all stmt_ok sts"
  "rule_type_state c p = Some sts \<Longrightarrow> list_all stmt_ok sts"
  "rule_type p = Some sts \<Longrightarrow> list_all stmt_ok sts"
  "rule_typeattribute p = Some sts \<Longrightarrow> list_all stmt_ok sts"
  "rule_attribute p = Some sts \<Longrightarrow> list_all stmt_ok sts"
  "rule_type_transition p = Some sts \<Longrightarrow> list_all stmt_ok sts"
  "rule_type_change c p = Some sts \<Longrightarrow> list_all stmt_ok sts"
  "rule_genfscon p = Some sts \<Longrightarrow> list_all stmt_ok sts"
  by (auto simp: rule_defs list_all_iff Let_def bind_eq_Some_conv case_prod_beta
      split: if_splits)

definition all_ok :: "(bool \<times> AtomicStatement list) option \<Rightarrow> bool" where
  "all_ok r \<longleftrightarrow> (\<forall>b sts. r = Some (b, sts) \<longrightarrow> list_all stmt_ok sts)"

lemma all_ok_if: "all_ok x \<Longrightarrow> all_ok y \<Longrightarrow> all_ok (if b then x else y)"
  by simp

lemma all_ok_map: "(\<And>sts. r = Some sts \<Longrightarrow> list_all stmt_ok sts) \<Longrightarrow> all_ok (map_option (Pair True) r)"
  by (auto simp: all_ok_def)

lemma all_ok_empty: "all_ok (Some (b, []))"
  by (simp add: all_ok_def)

lemma parse_rule_all_ok: "all_ok (parse_rule r)"
  unfolding parse_rule_def Let_def case_prod_beta
  by (intro all_ok_if all_ok_empty all_ok_map) (erule rule_stmts_ok)+

lemma parse_rule_stmts_ok: "parse_rule r = Some (b, sts) \<Longrightarrow> list_all stmt_ok sts"
  using parse_rule_all_ok [of r] by (simp add: all_ok_def)

lemma parse_rules_stmts_ok:
  "parse_rules rs e sts0 = Some (e', sts) \<Longrightarrow> list_all stmt_ok sts0 \<Longrightarrow> list_all stmt_ok sts"
  by (induction rs e sts0 rule: parse_rules.induct)
    (auto split: option.splits prod.splits bool.splits dest: parse_rule_stmts_ok)

section \<open>What the writer writes\<close>

text \<open>The argument the kernel is meant to see: \<^verbatim>\<open>NONE\<close>, \<^verbatim>\<open>ALL\<close> and an empty word are all \<^verbatim>\<open>ALL\<close>.\<close>

definition arg_of :: "PolicyObject \<Rightarrow> string option" where
  "arg_of ob = (case po_c_ptr ob of None \<Rightarrow> None | Some v \<Rightarrow> if v = [] then None else Some v)"

definition stmt_kernel_args :: "AtomicStatement \<Rightarrow> string option list" where
  "stmt_kernel_args st = map arg_of (take (nat (expected_argc (cmd st))) (stmt_args st))"

definition put_arg :: "string option \<Rightarrow> bytes" where
  "put_arg a = (case a of None \<Rightarrow> u32_le 0 @ [0] | Some v \<Rightarrow> u32_le (of_nat (length v)) @ str_bytes v @ [0])"

definition arg_ok :: "string option \<Rightarrow> bool" where
  "arg_ok a \<longleftrightarrow> (case a of None \<Rightarrow> True | Some v \<Rightarrow> v \<noteq> [] \<and> NUL \<notin> set v \<and> length v < 2 ^ 32)"

definition put_header :: "u32 \<times> u32 \<Rightarrow> bytes" where
  "put_header h = u32_le (fst h) @ u32_le (snd h)"

definition put_stmt :: "AtomicStatement \<Rightarrow> bytes" where
  "put_stmt st = put_header (cmd st, subcmd st) @ concat (map put_arg (stmt_kernel_args st))"

lemma put_header_ne [simp]: "put_header h \<noteq> []"
proof -
  have "length (put_header h) \<noteq> 0" by (simp add: put_header_def)
  then show ?thesis by force
qed

lemma put_stmt_ne [simp]: "put_stmt st \<noteq> []"
  by (simp add: put_stmt_def)

lemma c_str_NUL_free: "NUL \<notin> set v \<Longrightarrow> c_str v = v"
  unfolding c_str_def using takeWhile_eq_all_conv [of "\<lambda>c. c \<noteq> NUL" v] by metis

lemma append_policy_object_arg:
  assumes "po_ok ob"
  shows "append_policy_object payload ob = payload @ put_arg (arg_of ob)"
proof (cases "po_c_ptr ob")
  case (Some v)
  then have v: "c_str v = v" "length v < 128"
    using assms by (auto simp: po_ok_def po_c_ptr_def SEPOLICY_MAX_LEN_def c_str_NUL_free split: if_splits)
  then have "(of_nat (length v) :: u32) > 0 \<longleftrightarrow> v \<noteq> []"
    by (auto simp: word_greater_zero_iff word_of_nat_eq_0_iff dest: nat_dvd_not_less)
  then show ?thesis
    using v by (simp add: append_policy_object_def Let_def Some put_arg_def arg_of_def append_u32_def)
qed (simp add: append_policy_object_def put_arg_def arg_of_def append_u32_def)

lemma fold_append_policy_object:
  "(\<And>ob. ob \<in> set obs \<Longrightarrow> po_ok ob) \<Longrightarrow>
     fold (\<lambda>ob p. append_policy_object p ob) obs payload = payload @ concat (map put_arg (map arg_of obs))"
  by (induction obs arbitrary: payload) (auto simp: append_policy_object_arg)

lemma serialize_statement_put:
  assumes "stmt_ok st"
  shows "serialize_statement payload st = Some (payload @ put_stmt st)"
proof -
  have "\<not> expected_argc (cmd st) < 0"
    using assms expected_argc_range [of "cmd st"] by (auto simp: stmt_ok_def)
  moreover have "po_ok ob" if "ob \<in> set (take n (stmt_args st))" for ob n
    using assms in_set_takeD [OF that] by (simp add: stmt_ok_def)
  ultimately show ?thesis
    by (simp add: serialize_statement_def fold_append_policy_object append_u32_def put_stmt_def
        put_header_def stmt_kernel_args_def)
qed

lemma serialize_loop_put:
  "list_all stmt_ok sts \<Longrightarrow> serialize_loop sts payload = Some (payload @ concat (map put_stmt sts))"
  by (induction sts arbitrary: payload) (auto simp: serialize_statement_put)

lemma serialize_statements_put:
  "list_all stmt_ok sts \<Longrightarrow> serialize_statements sts = Some (concat (map put_stmt sts))"
  by (simp add: serialize_statements_def serialize_loop_put)

lemma arg_ok_arg_of: "po_ok ob \<Longrightarrow> arg_ok (arg_of ob)"
  by (auto simp: arg_ok_def arg_of_def po_c_ptr_def po_ok_def SEPOLICY_MAX_LEN_def split: option.splits)

lemma stmt_kernel_args_ok: "stmt_ok st \<Longrightarrow> a \<in> set (stmt_kernel_args st) \<Longrightarrow> arg_ok a"
  by (auto simp: stmt_kernel_args_def stmt_ok_def dest!: in_set_takeD intro: arg_ok_arg_of)

lemma length_stmt_kernel_args: "stmt_ok st \<Longrightarrow> length (stmt_kernel_args st) = nat (expected_argc (cmd st))"
  using expected_argc_range [of "cmd st"] by (auto simp: stmt_kernel_args_def stmt_ok_def stmt_args_def)

lemma length_put_arg: "po_ok ob \<Longrightarrow> length (put_arg (arg_of ob)) \<le> 132"
  by (auto simp: put_arg_def arg_of_def po_c_ptr_def po_ok_def SEPOLICY_MAX_LEN_def split: option.splits)

lemma length_put_args:
  "(\<And>ob. ob \<in> set obs \<Longrightarrow> po_ok ob) \<Longrightarrow> length (concat (map put_arg (map arg_of obs))) \<le> 132 * length obs"
proof (induction obs)
  case (Cons ob obs)
  then have "length (put_arg (arg_of ob)) \<le> 132" by (intro length_put_arg) auto
  with Cons show ?case by fastforce
qed simp

lemma length_put_stmt: assumes "stmt_ok st" shows "length (put_stmt st) \<le> 668"
proof -
  let ?n = "nat (expected_argc (cmd st))"
  have "po_ok ob" if "ob \<in> set (take ?n (stmt_args st))" for ob
    using assms in_set_takeD [OF that] by (simp add: stmt_ok_def)
  then have "length (concat (map put_arg (stmt_kernel_args st))) \<le> 132 * length (take ?n (stmt_args st))"
    unfolding stmt_kernel_args_def by (rule length_put_args)
  moreover have "length (take ?n (stmt_args st)) \<le> 5"
    using expected_argc_range [of "cmd st"] by (auto simp: stmt_args_def)
  ultimately show ?thesis by (simp add: put_stmt_def put_header_def)
qed

lemma length_batch: "list_all stmt_ok sts \<Longrightarrow> length (concat (map put_stmt sts)) \<le> 668 * length sts"
  by (induction sts) (auto dest: length_put_stmt)

section \<open>The kernel reads what the writer writes\<close>

interpretation sepol_arg: codec put_arg sepol_read_string arg_ok
proof
  fix a rest
  assume ok: "arg_ok a"
  show "sepol_read_string (put_arg a @ rest) = Some (a, rest)"
  proof (cases a)
    case (Some v)
    then have len: "unat (of_nat (length v) :: u32) = length v" "(of_nat (length v) :: u32) \<noteq> 0"
      using ok by (auto simp: arg_ok_def unat_of_nat word_of_nat_eq_0_iff dest: dvd_imp_le)
    have "0 \<notin> set (str_bytes v)" using ok Some by (simp add: arg_ok_def)
    with len show ?thesis
      by (simp add: Some put_arg_def sepol_read_string_def get_u32_le nth_append)
  qed (simp add: put_arg_def sepol_read_string_def get_u32_le)
qed

interpretation sepol_header: codec put_header sepol_read_cmd_header "\<lambda>_. True"
  by unfold_locales (simp add: put_header_def sepol_read_cmd_header_def le_nat_u32_le)

text \<open>Running statements one after another, counting those that succeed.\<close>

fun run_stmts :: "(AtomicStatement \<Rightarrow> 'k \<Rightarrow> bool \<times> 'k) \<Rightarrow> AtomicStatement list \<Rightarrow> 'k \<Rightarrow> nat \<Rightarrow> nat \<times> 'k" where
  "run_stmts step [] k n = (n, k)"
| "run_stmts step (st # sts) k n =
     (case step st k of (ok, k') \<Rightarrow> run_stmts step sts k' (if ok then Suc n else n))"

lemma run_stmts_bound: "run_stmts step sts k n = (m, k') \<Longrightarrow> n \<le> m \<and> m \<le> n + length sts"
  by (induction sts arbitrary: k n) (fastforce split: prod.splits if_splits)+

definition kernel_step ::
  "((u32 \<times> u32) \<Rightarrow> string option list \<Rightarrow> 'db \<Rightarrow> int \<times> 'db) \<Rightarrow> AtomicStatement \<Rightarrow> 'db \<Rightarrow> bool \<times> 'db"
where
  "kernel_step patch st db =
     (case patch (cmd st, subcmd st) (stmt_kernel_args st) db of (ret, db') \<Rightarrow> (0 \<le> ret, db'))"

lemma batch_loop_stmts:
  "list_all stmt_ok sts \<Longrightarrow>
     batch_loop patch (concat (map put_stmt sts)) db n = Inr (run_stmts (kernel_step patch) sts db n)"
proof (induction sts arbitrary: db n)
  case Nil
  show ?case by (simp add: batch_loop.simps [of patch "[]"])
next
  case (Cons st sts)
  let ?h = "(cmd st, subcmd st)"
  let ?bs = "concat (map put_stmt sts)"
  have ok: "stmt_ok st" using Cons.prems by simp
  have header: "sepol_read_cmd_header (put_header ?h @ q) = Some (?h, q)" for q
    by (rule sepol_header.get_put) simp
  have args: "get_many sepol_read_string (nat (expected_argc (cmd st)))
      (concat (map put_arg (stmt_kernel_args st)) @ ?bs) = Some (stmt_kernel_args st, ?bs)"
    unfolding length_stmt_kernel_args [OF ok, symmetric]
    by (rule sepol_arg.get_many_put) (rule stmt_kernel_args_ok [OF ok])
  have range: "\<not> expected_argc (cmd st) < 0" "\<not> 5 < expected_argc (cmd st)"
    using ok expected_argc_range [of "cmd st"] by (auto simp: stmt_ok_def)
  have ne: "put_stmt st @ ?bs \<noteq> []" by simp
  have split: "put_stmt st @ ?bs = put_header ?h @ concat (map put_arg (stmt_kernel_args st)) @ ?bs"
    by (simp add: put_stmt_def)
  have "batch_loop patch (put_stmt st @ ?bs) db n =
      (case patch ?h (stmt_kernel_args st) db of
         (ret, db') \<Rightarrow> batch_loop patch ?bs db' (if ret < 0 then n else Suc n))"
    using ne unfolding split by (subst batch_loop.simps) (simp add: header args range)
  then show ?case
    using Cons by (auto simp: kernel_step_def split: prod.splits)
qed

section \<open>The contract of the kernel, and its client\<close>

locale policy_kernel =
  fixes send :: "bytes \<Rightarrow> 'k \<Rightarrow> int \<times> 'k"
    and step :: "AtomicStatement \<Rightarrow> 'k \<Rightarrow> bool \<times> 'k"
  assumes send_batch:
    "sts \<noteq> [] \<Longrightarrow> list_all stmt_ok sts \<Longrightarrow> length sts \<le> 12557 \<Longrightarrow> serialize_statements sts = Some payload \<Longrightarrow>
       send payload k = (int (fst (run_stmts step sts k 0)), snd (run_stmts step sts k 0))"
begin

lemma live_patch:
  assumes "parse_rules (policy_rules policy) 0 [] = Some (0, sts)" "length sts \<le> 12557"
  shows "sepolicy_live_patch send policy k =
      Some (if fst (run_stmts step sts k 0) = length sts then 0 else 1, snd (run_stmts step sts k 0))"
proof (cases "sts = []")
  case False
  have ok: "list_all stmt_ok sts" using parse_rules_stmts_ok [OF assms(1)] by simp
  have "fst (run_stmts step sts k 0) \<le> length sts"
    using run_stmts_bound [of step sts k 0] by (cases "run_stmts step sts k 0") auto
  then show ?thesis
    using assms(1) False serialize_statements_put [OF ok]
      send_batch [OF False ok assms(2) serialize_statements_put [OF ok]]
    by (auto simp: sepolicy_live_patch_def)
qed (simp add: sepolicy_live_patch_def assms)

end

interpretation kernel_batch: policy_kernel "handle_sepolicy patch" "kernel_step patch" for patch
proof
  fix sts payload k
  assume sts: "sts \<noteq> []" "list_all stmt_ok sts" "length sts \<le> 12557" "serialize_statements sts = Some payload"
  then have p: "payload = concat (map put_stmt sts)" by (simp add: serialize_statements_put)
  have "length payload \<le> MAX_BATCH_SIZE"
    using length_batch [OF sts(2)] sts(3) unfolding p MAX_BATCH_SIZE_def by linarith
  moreover have "payload \<noteq> []"
    using sts(1) unfolding p
    by (cases sts) simp_all
  ultimately show "handle_sepolicy patch payload k =
      (int (fst (run_stmts (kernel_step patch) sts k 0)), snd (run_stmts (kernel_step patch) sts k 0))"
    using batch_loop_stmts [OF sts(2), of patch k 0] unfolding p handle_sepolicy_def
    by (cases "run_stmts (kernel_step patch) sts k 0") (simp del: concat_eq_Nil_conv)
qed

end
