(* ===== verification/Sepolicy_Props.thy ===== *)
theory Sepolicy_Props
  imports Sepolicy_Batch
begin

text \<open>What the policy language, its binary batch and the kernel's reader do together.\<close>

section \<open>Lemmas of this theory\<close>

text \<open>A kernel that writes down the commands it is given.\<close>

definition record_cmd ::
  "(u32 \<times> u32) \<Rightarrow> string option list \<Rightarrow> ((u32 \<times> u32) \<times> string option list) list \<Rightarrow>
     int \<times> ((u32 \<times> u32) \<times> string option list) list"
where
  "record_cmd h args db = (0, db @ [(h, args)])"

lemma run_stmts_record:
  "run_stmts (kernel_step record_cmd) sts db n =
     (n + length sts, db @ map (\<lambda>st. ((cmd st, subcmd st), stmt_kernel_args st)) sts)"
  by (induction sts arbitrary: db n) (simp_all add: kernel_step_def record_cmd_def)

lemma batch_loop_failed_or_done:
  "handle_sepolicy patch data db = (r, db') \<Longrightarrow> r < 0 \<Longrightarrow> db' = db"
  by (auto simp: handle_sepolicy_def split: if_splits sum.splits)

lemma is_word_simps [simp]: "is_word ''allow''" "is_word ''deny''" "is_word ''auditallow''" "is_word ''dontaudit''"
  by (simp_all add: is_word_def is_sepolicy_char_def is_alnum_def is_digit_def char_code_def)

lemma parse_rule_normal_perm:
  assumes "c \<in> {''allow'', ''deny'', ''auditallow'', ''dontaudit''}" "NUL \<notin> set q"
    and "case q of [] \<Rightarrow> True | x # _ \<Rightarrow> \<not> is_sepolicy_char x"
  shows "parse_rule (c @ q) = map_option (Pair True) (rule_normal_perm c q)"
proof -
  have "is_word c" using assms(1) by auto
  from parse_rule_head [OF this assms(2,3)] show ?thesis
    using assms(1) unfolding parse_rule_def Let_def by auto
qed

lemma parse_normal_perm_rule:
  assumes "c \<in> {''allow'', ''deny'', ''auditallow'', ''dontaudit''}"
    and "\<And>w. w \<in> set ss \<union> set ts \<union> set cs \<union> set ps \<Longrightarrow> is_word w"
  shows "parse_rule (normal_perm_rule c ss ts cs ps) =
      Some (True, [perm_stmt (normal_perm_subcmd c) s t cl p. s \<leftarrow> ss, t \<leftarrow> ts, cl \<leftarrow> cs, p \<leftarrow> ps])"
proof -
  let ?q = "'' '' @ braces ss @ '' '' @ braces ts @ '':'' @ braces cs @ '' '' @ braces ps"
  have "NUL \<notin> set (braces ss)" "NUL \<notin> set (braces ts)" "NUL \<notin> set (braces cs)" "NUL \<notin> set (braces ps)"
    by (rule NUL_notin_braces, rule assms(2), simp)+
  then have "NUL \<notin> set ?q" by simp
  moreover have "case ?q of [] \<Rightarrow> True | x # _ \<Rightarrow> \<not> is_sepolicy_char x"
    using brace_not_word by simp
  ultimately have "parse_rule (c @ ?q) = map_option (Pair True) (rule_normal_perm c ?q)"
    using assms(1) by (intro parse_rule_normal_perm)
  also have "rule_normal_perm c ?q =
      Some [perm_stmt (normal_perm_subcmd c) s t cl p. s \<leftarrow> ss, t \<leftarrow> ts, cl \<leftarrow> cs, p \<leftarrow> ps]"
    using assms(2) by (rule rule_normal_perm_rendered)
  finally show ?thesis by (simp only: normal_perm_rule_def option.map)
qed

lemma po_from_str_word: "is_word w \<Longrightarrow> length w < 128 \<Longrightarrow> arg_of (po_from_str w) = Some w"
proof -
  assume w: "is_word w" "length w < 128"
  then have "NUL \<notin> set w" "w \<noteq> ''*''" "w \<noteq> []"
    using NUL_not_word not_space_lits brace_not_word by (auto simp: is_word_def)
  with w(2) show ?thesis
    by (simp add: arg_of_def po_from_str_def po_c_ptr_def SEPOLICY_MAX_LEN_def c_str_NUL_free)
qed

lemma po_from_str_long: "128 \<le> length w \<Longrightarrow> arg_of (po_from_str w) = None"
  by (auto simp: arg_of_def po_from_str_def po_c_ptr_def SEPOLICY_MAX_LEN_def po_none_def)

lemma kernel_args_perm_stmt:
  "stmt_kernel_args (perm_stmt sc s t c p) =
     [arg_of (po_from_str s), arg_of (po_from_str t), arg_of (po_from_str c), arg_of (po_from_str p)]"
  by (simp add: stmt_kernel_args_def perm_stmt_def stmt_args_def new_stmt_def)

section \<open>Properties\<close>

text \<open>
  C2: a policy that parses is handed to the kernel as one batch: the kernel runs exactly the
  parsed statements in their order, and the daemon reports success exactly when all of them
  succeeded.
\<close>

theorem live_patch_kernel:
  assumes "parse_rules (policy_rules policy) 0 [] = Some (0, sts)" "length sts \<le> 12557"
  shows "sepolicy_live_patch (handle_sepolicy patch) policy db =
      Some (if fst (run_stmts (kernel_step patch) sts db 0) = length sts then 0 else 1,
            snd (run_stmts (kernel_step patch) sts db 0))"
  using assms by (rule kernel_batch.live_patch)

definition demo_policy :: string where
  "demo_policy = ''# demo'' @ [NL] @ ''allow a { b c }:dir read; type t { }'' @ [NL]"

definition demo_stmts :: "AtomicStatement list" where
  "demo_stmts = [perm_stmt 1 ''a'' ''b'' ''dir'' ''read'', perm_stmt 1 ''a'' ''c'' ''dir'' ''read'',
     (new_stmt CMD_TYPE 0)\<lparr>sepol1 := po_from_str ''t''\<rparr>]"

lemma demo_parse: "parse_rules (policy_rules demo_policy) 0 [] = Some (0, demo_stmts)"
  by code_simp

theorem live_patch_kernel_witness:
  "fst (the (sepolicy_live_patch (handle_sepolicy record_cmd) demo_policy [])) = 0"
proof -
  have "length demo_stmts \<le> 12557" by (simp add: demo_stmts_def)
  from live_patch_kernel [OF demo_parse this, of record_cmd "[]"]
  show ?thesis unfolding run_stmts_record by simp
qed

text \<open>
  C4: the binary batch round trips: what the kernel reads back from a written batch are the
  commands of the statements with their arguments, where absent, wildcard and empty objects
  are all the kernel's \<^verbatim>\<open>ALL\<close>.
\<close>

theorem batch_roundtrip:
  assumes "list_all stmt_ok sts"
  shows "\<exists>payload. serialize_statements sts = Some payload \<and>
      batch_loop record_cmd payload [] 0 =
        Inr (length sts, map (\<lambda>st. ((cmd st, subcmd st), stmt_kernel_args st)) sts)"
  by (simp add: serialize_statements_put [OF assms] batch_loop_stmts [OF assms] run_stmts_record)

theorem batch_roundtrip_witness:
  "\<exists>payload. serialize_statements demo_stmts = Some payload \<and>
     batch_loop record_cmd payload [] 0 =
       Inr (3, [((1, 1), [Some ''a'', Some ''b'', Some ''dir'', Some ''read'']),
                ((1, 1), [Some ''a'', Some ''c'', Some ''dir'', Some ''read'']), ((4, 0), [Some ''t'', None])])"
proof -
  have "list_all stmt_ok demo_stmts" by code_simp
  moreover have "map (\<lambda>st. ((cmd st, subcmd st), stmt_kernel_args st)) demo_stmts =
      [((1, 1), [Some ''a'', Some ''b'', Some ''dir'', Some ''read'']),
       ((1, 1), [Some ''a'', Some ''c'', Some ''dir'', Some ''read'']), ((4, 0), [Some ''t'', None])]"
    by code_simp
  moreover have "length demo_stmts = 3" by (simp add: demo_stmts_def)
  ultimately show ?thesis using batch_roundtrip [of demo_stmts] by simp
qed



text \<open>
  C5: a rule of the \<^verbatim>\<open>allow\<close> family over brace groups parses into the product of its groups,
  sources outermost and permissions innermost.
\<close>

theorem parse_allow_family:
  assumes "c \<in> {''allow'', ''deny'', ''auditallow'', ''dontaudit''}"
    and "\<forall>w \<in> set ss \<union> set ts \<union> set cs \<union> set ps. is_word w"
  shows "parse_rule (normal_perm_rule c ss ts cs ps) =
      Some (True, [perm_stmt (normal_perm_subcmd c) s t cl p. s \<leftarrow> ss, t \<leftarrow> ts, cl \<leftarrow> cs, p \<leftarrow> ps])"
  using assms by (intro parse_normal_perm_rule) auto

theorem parse_allow_family_witness:
  "parse_rule ''deny { a b} { c}:{ d} { e f}'' = Some (True,
     [perm_stmt 2 ''a'' ''c'' ''d'' ''e'', perm_stmt 2 ''a'' ''c'' ''d'' ''f'',
      perm_stmt 2 ''b'' ''c'' ''d'' ''e'', perm_stmt 2 ''b'' ''c'' ''d'' ''f''])"
proof -
  have "\<forall>w \<in> set [''a'', ''b''] \<union> set [''c''] \<union> set [''d''] \<union> set [''e'', ''f'']. is_word w"
    by (simp add: is_word_def is_sepolicy_char_def is_alnum_def is_digit_def char_code_def)
  from parse_allow_family [OF _ this, of "''deny''"]
  show ?thesis by (simp add: normal_perm_rule_def braces_def normal_perm_subcmd_def)
qed

text \<open>
  C37: reading an object of a rule fails to return exactly when a brace group holds a
  character that is neither blank nor part of an identifier before its closing brace.
\<close>

theorem parse_seobj_hangs:
  "parse_seobj p = None \<longleftrightarrow>
     peek (skip_space p) = CHR ''{'' \<and>
     (\<exists>c. c \<in> set (in_braces (tl (skip_space p))) \<and> \<not> is_sepolicy_char c \<and> \<not> is_space c)"
  using parse_seobj_returns [of p] unfolding brace_ok_def by blast

text \<open>
  An identifier of 128 characters or more in a rule is silently widened: the rule still
  parses, and the statement the kernel receives names \<^verbatim>\<open>ALL\<close> in its place.
\<close>

theorem long_target_becomes_all:
  assumes "is_word s" "is_word t" "is_word c" "is_word p"
    and "length s < 128" "length c < 128" "length p < 128" "128 \<le> length t"
  shows "\<exists>st. parse_rule (normal_perm_rule ''allow'' [s] [t] [c] [p]) = Some (True, [st]) \<and>
      stmt_kernel_args st = [Some s, None, Some c, Some p]"
proof -
  have "parse_rule (normal_perm_rule ''allow'' [s] [t] [c] [p]) =
      Some (True, [perm_stmt (normal_perm_subcmd ''allow'') s t cl p. s \<leftarrow> [s], t \<leftarrow> [t], cl \<leftarrow> [c], p \<leftarrow> [p]])"
    by (rule parse_normal_perm_rule) (use assms(1-4) in auto)
  then have "parse_rule (normal_perm_rule ''allow'' [s] [t] [c] [p]) = Some (True, [perm_stmt 1 s t c p])"
    by (simp add: normal_perm_subcmd_def)
  then show ?thesis
    using assms by (simp add: kernel_args_perm_stmt po_from_str_word po_from_str_long)
qed

theorem long_target_becomes_all_witness:
  "\<exists>st. parse_rule (normal_perm_rule ''allow'' [''a''] [replicate 128 CHR ''t''] [''file''] [''read'']) =
       Some (True, [st]) \<and> stmt_kernel_args st = [Some ''a'', None, Some ''file'', Some ''read'']"
  by (rule long_target_becomes_all)
    (simp_all add: is_word_def is_sepolicy_char_def is_alnum_def is_digit_def char_code_def)

text \<open>
  Every batch of a parsed policy is well-formed and bounded: the writer succeeds and uses
  at most 668 bytes a statement, so 12557 statements fit the kernel's limit.
\<close>

theorem batch_bounded:
  assumes "parse_rules (policy_rules policy) 0 [] = Some (e, sts)"
  shows "\<exists>payload. serialize_statements sts = Some payload \<and> length payload \<le> 668 * length sts"
proof -
  have "list_all stmt_ok sts" using parse_rules_stmts_ok [OF assms] by simp
  then show ?thesis using serialize_statements_put length_batch by blast
qed

theorem batch_bounded_witness:
  "\<exists>payload. serialize_statements demo_stmts = Some payload \<and> length payload \<le> 2004"
  using batch_bounded [OF demo_parse] by (simp add: demo_stmts_def)

text \<open>
  The rule check accepts every rule the parser knows, except a \<^verbatim>\<open>type\<close> rule whose keyword
  is not followed by a space.
\<close>

theorem check_accepts_parsed:
  assumes "parse_rule t = Some (True, sts)" "t \<noteq> []" "\<not> is_space (hd t)" "hd t \<noteq> CHR ''#''" "hd t \<noteq> NUL"
    and "fst (parse_word t) \<noteq> ''type''"
  shows "is_valid_rule_type t"
proof -
  obtain x xs where t: "t = x # xs" using assms(2) by (cases t) auto
  have p: "skip_space (c_str t) = c_str t" "c_str t \<noteq> []" "peek (c_str t) \<noteq> CHR ''#''"
    using assms(3-5) by (auto simp: t c_str_def)
  have word: "fst (parse_word (c_str t)) = fst (parse_word t)"
    using NUL_not_word(1) by (auto simp: parse_word_def c_str_def takeWhile_takeWhile intro!: takeWhile_cong)
  have pre: "prefix (fst (parse_word t)) t"
    by (simp add: parse_word_def takeWhile_is_prefix)
  have "fst (parse_word t) \<in> set [''allow'', ''deny'', ''auditallow'', ''dontaudit'', ''allowxperm'',
      ''auditallowxperm'', ''dontauditxperm'', ''permissive'', ''enforce'', ''typeattribute'', ''attribute'',
      ''type_transition'', ''type_change'', ''type_member'', ''genfscon'']"
  proof (rule ccontr)
    assume "\<not> ?thesis"
    with assms(1,6) p word show False
      by (simp add: parse_rule_def Let_def case_prod_beta)
  qed
  with pre show ?thesis by (auto simp: is_valid_rule_type_def starts_with_prefix)
qed

theorem check_accepts_parsed_witness: "is_valid_rule_type ''permissive { a b }''"
proof -
  have "map_option fst (parse_rule ''permissive { a b }'') = Some True" by code_simp
  then have "\<exists>sts. parse_rule ''permissive { a b }'' = Some (True, sts)" by auto
  moreover have "fst (parse_word ''permissive { a b }'') \<noteq> ''type''" by code_simp
  ultimately show ?thesis using check_accepts_parsed [of "''permissive { a b }''"] by (auto simp: is_space_def)
qed

end
