(* ===== verification/Kernel_Feature.thy ===== *)
theory Kernel_Feature
  imports Prelude
begin

text \<open>
  The feature switches of the kernel module: the handler table of \<^verbatim>\<open>core/tamisu_feature.c\<close>, the
  two ioctls of \<^verbatim>\<open>core/tamisu_dispatch.c\<close>, the zygisk handler of \<^verbatim>\<open>core/tamisu_zygote_probe.c\<close>, and
  the daemon's wrappers in \<^verbatim>\<open>tamisuctl.cpp\<close>; and the interface the daemon relies on.
\<close>

definition FEATURE_YUKIZYGISK :: u32 where "FEATURE_YUKIZYGISK = 103"
definition FEATURE_MAX :: u32 where "FEATURE_MAX = 104"

definition K_EINVAL :: int where "K_EINVAL = 22"
definition K_ENOENT :: int where "K_ENOENT = 2"
definition K_EOPNOTSUPP :: int where "K_EOPNOTSUPP = 95"

record 'k handler =
  get_handler :: "('k \<Rightarrow> int \<times> u64) option"
  set_handler :: "(u64 \<Rightarrow> 'k \<Rightarrow> int \<times> 'k) option"

record 'k kernel =
  driver_ok :: bool
  handlers :: "u32 \<Rightarrow> 'k handler option"
  kdata :: 'k

section \<open>The handler table\<close>

definition tamisu_register_feature_handler :: "u32 \<Rightarrow> 'k handler \<Rightarrow> 'k kernel \<Rightarrow> int \<times> 'k kernel" where
  "tamisu_register_feature_handler fid h k =
     (if fid \<ge> FEATURE_MAX then (- K_EINVAL, k)
      else if get_handler h = None \<and> set_handler h = None then (- K_EINVAL, k)
      else (0, k\<lparr>handlers := (handlers k)(fid \<mapsto> h)\<rparr>))"

definition tamisu_unregister_feature_handler :: "u32 \<Rightarrow> 'k kernel \<Rightarrow> int \<times> 'k kernel" where
  "tamisu_unregister_feature_handler fid k =
     (if fid \<ge> FEATURE_MAX then (- K_EINVAL, k)
      else if handlers k fid = None then (- K_ENOENT, k)
      else (0, k\<lparr>handlers := (handlers k)(fid := None)\<rparr>))"

text \<open>The result, the value, and \<^verbatim>\<open>*supported\<close>, which an invalid id leaves unassigned.\<close>

definition tamisu_get_feature :: "u32 \<Rightarrow> 'k kernel \<Rightarrow> int \<times> u64 \<times> bool option" where
  "tamisu_get_feature fid k =
     (if fid \<ge> FEATURE_MAX then (- K_EINVAL, 0, None)
      else (case handlers k fid of
              None \<Rightarrow> (0, 0, Some False)
            | Some h \<Rightarrow>
                (case get_handler h of
                   None \<Rightarrow> (- K_EOPNOTSUPP, 0, Some True)
                 | Some getter \<Rightarrow> (case getter (kdata k) of (ret, v) \<Rightarrow> (ret, v, Some True)))))"

definition tamisu_set_feature :: "u32 \<Rightarrow> u64 \<Rightarrow> 'k kernel \<Rightarrow> int \<times> 'k kernel" where
  "tamisu_set_feature fid v k =
     (if fid \<ge> FEATURE_MAX then (- K_EINVAL, k)
      else (case handlers k fid of
              None \<Rightarrow> (- K_EOPNOTSUPP, k)
            | Some h \<Rightarrow>
                (case set_handler h of
                   None \<Rightarrow> (- K_EOPNOTSUPP, k)
                 | Some setter \<Rightarrow> (case setter v (kdata k) of (ret, d) \<Rightarrow> (ret, k\<lparr>kdata := d\<rparr>)))))"

section \<open>The ioctls and the daemon's wrappers\<close>

text \<open>\<open>junk\<close> is what the stack held in \<^verbatim>\<open>supported\<close>.\<close>

definition do_get_feature :: "bool \<Rightarrow> u32 \<Rightarrow> 'k kernel \<Rightarrow> int \<times> u64 \<times> bool" where
  "do_get_feature junk fid k =
     (case tamisu_get_feature fid k of
        (ret, v, supported) \<Rightarrow>
          (let sup = (case supported of None \<Rightarrow> junk | Some b \<Rightarrow> b)
           in if ret \<noteq> 0 \<and> sup then (ret, 0, False) else (0, v, sup)))"

definition do_set_feature :: "u32 \<Rightarrow> u64 \<Rightarrow> 'k kernel \<Rightarrow> int \<times> 'k kernel" where
  "do_set_feature fid v k = tamisu_set_feature fid v k"

definition get_feature :: "bool \<Rightarrow> u32 \<Rightarrow> 'k kernel \<Rightarrow> u64 \<times> bool" where
  "get_feature junk fid k =
     (if \<not> driver_ok k then (0, False)
      else (case do_get_feature junk fid k of (ret, v, supported) \<Rightarrow> if ret < 0 then (0, False) else (v, supported)))"

definition set_feature :: "u32 \<Rightarrow> u64 \<Rightarrow> 'k kernel \<Rightarrow> int \<times> 'k kernel" where
  "set_feature fid v k =
     (if \<not> driver_ok k then (-1, k)
      else (case do_set_feature fid v k of (ret, k') \<Rightarrow> (if ret < 0 then -1 else ret, k')))"

section \<open>The zygisk switch\<close>

record probe =
  zygisk_enabled :: bool

definition zygisk_feature_get :: "probe \<Rightarrow> int \<times> u64" where
  "zygisk_feature_get p = (0, if zygisk_enabled p then 1 else 0)"

definition zygisk_feature_set :: "u64 \<Rightarrow> probe \<Rightarrow> int \<times> probe" where
  "zygisk_feature_set v p = (0, p\<lparr>zygisk_enabled := (v \<noteq> 0)\<rparr>)"

definition zygisk_feature_handler :: "probe handler" where
  "zygisk_feature_handler = \<lparr>get_handler = Some zygisk_feature_get, set_handler = Some zygisk_feature_set\<rparr>"

text \<open>The module as \<^verbatim>\<open>tamisu_zygote_probe_init\<close> leaves it.\<close>

definition booted :: "bool \<Rightarrow> probe kernel" where
  "booted ok = snd (tamisu_register_feature_handler FEATURE_YUKIZYGISK zygisk_feature_handler
     \<lparr>driver_ok = ok, handlers = (\<lambda>_. None), kdata = \<lparr>zygisk_enabled = False\<rparr>\<rparr>)"

section \<open>The interface the daemon relies on\<close>

text \<open>
  \<open>norm\<close> is the value a switch reads back after a write; \<open>good\<close> is an invariant of the kernel.
\<close>

locale feature_kernel =
  fixes get :: "u32 \<Rightarrow> 'k \<Rightarrow> u64 \<times> bool"
    and put :: "u32 \<Rightarrow> u64 \<Rightarrow> 'k \<Rightarrow> int \<times> 'k"
    and norm :: "u64 \<Rightarrow> u64"
    and good :: "'k \<Rightarrow> bool"
  assumes good_set: "good k \<Longrightarrow> good (snd (put i v k))"
    and get_set: "good k \<Longrightarrow> snd (get i k) \<Longrightarrow> get i (snd (put i v k)) = (norm v, True)"
    and get_set_other: "good k \<Longrightarrow> i \<noteq> j \<Longrightarrow> get i (snd (put j v k)) = get i k"
begin

lemma good_fold: "good k \<Longrightarrow> good (fold (\<lambda>(i, v) k. snd (put i v k)) es k)"
  by (induction es arbitrary: k) (auto simp: good_set)

lemma supported_set: "good k \<Longrightarrow> snd (get i k) \<Longrightarrow> snd (get i (snd (put j v k)))"
  by (cases "i = j") (auto simp: get_set get_set_other)

lemma get_fold:
  "good k \<Longrightarrow> distinct (map fst es) \<Longrightarrow> snd (get i k) \<Longrightarrow>
     get i (fold (\<lambda>(i, v) k. snd (put i v k)) es k) =
       (case map_of es i of None \<Rightarrow> get i k | Some v \<Rightarrow> (norm v, True))"
proof (induction es arbitrary: k)
  case (Cons e es)
  obtain j v where e: "e = (j, v)" by force
  have "get i (fold (\<lambda>(i, v) k. snd (put i v k)) es (snd (put j v k))) =
      (case map_of es i of None \<Rightarrow> get i (snd (put j v k)) | Some v \<Rightarrow> (norm v, True))"
    using Cons.prems by (intro Cons.IH good_set supported_set) (auto simp: e)
  moreover have "j = i \<Longrightarrow> map_of es i = None" using Cons.prems by (auto simp: e map_of_eq_None_iff)
  ultimately show ?case
    using Cons.prems by (auto simp: e get_set get_set_other split: option.splits)
qed simp

end

definition probe_good :: "probe kernel \<Rightarrow> bool" where
  "probe_good k \<longleftrightarrow> driver_ok k \<and> (\<forall>i h. handlers k i = Some h \<longrightarrow> i = FEATURE_YUKIZYGISK \<and> h = zygisk_feature_handler)"

lemma probe_good_booted: "probe_good (booted True)"
  by (simp add: probe_good_def booted_def tamisu_register_feature_handler_def FEATURE_YUKIZYGISK_def
      FEATURE_MAX_def zygisk_feature_handler_def)

lemmas feature_defs = get_feature_def set_feature_def do_get_feature_def do_set_feature_def
  tamisu_get_feature_def tamisu_set_feature_def K_EINVAL_def K_EOPNOTSUPP_def

lemma set_feature_frame [simp]:
  "handlers (snd (set_feature i v k)) = handlers k" "driver_ok (snd (set_feature i v k)) = driver_ok k"
  by (simp_all add: feature_defs split: option.splits prod.splits)

lemma probe_good_set: "probe_good k \<Longrightarrow> probe_good (snd (set_feature i v k))"
  by (simp add: probe_good_def)

lemma probe_get:
  assumes "probe_good k"
  shows "get_feature junk i k =
      (if i = FEATURE_YUKIZYGISK \<and> handlers k i \<noteq> None then (if zygisk_enabled (kdata k) then 1 else 0, True)
       else (0, False))"
proof (cases "handlers k i")
  case None
  then show ?thesis using assms by (auto simp: probe_good_def feature_defs Let_def)
next
  case (Some h)
  then have "i = FEATURE_YUKIZYGISK" "h = zygisk_feature_handler" "driver_ok k"
    using assms by (auto simp: probe_good_def)
  with Some show ?thesis
    by (simp add: feature_defs Let_def zygisk_feature_handler_def zygisk_feature_get_def
        FEATURE_YUKIZYGISK_def FEATURE_MAX_def)
qed

lemma probe_set:
  assumes "probe_good k"
  shows "snd (set_feature i v k) =
      (if i = FEATURE_YUKIZYGISK \<and> handlers k i \<noteq> None then k\<lparr>kdata := (kdata k)\<lparr>zygisk_enabled := (v \<noteq> 0)\<rparr>\<rparr> else k)"
proof (cases "handlers k i")
  case None
  then show ?thesis using assms by (simp add: probe_good_def feature_defs)
next
  case (Some h)
  then have "i = FEATURE_YUKIZYGISK" "h = zygisk_feature_handler" "driver_ok k"
    using assms by (auto simp: probe_good_def)
  with Some show ?thesis
    by (simp add: feature_defs Let_def zygisk_feature_handler_def zygisk_feature_set_def
        FEATURE_YUKIZYGISK_def FEATURE_MAX_def)
qed

interpretation zygisk_kernel: feature_kernel "get_feature junk" set_feature "\<lambda>v. if v = 0 then 0 else 1" probe_good
  for junk
proof
  fix k :: "probe kernel" and i v
  assume k: "probe_good k"
  have k': "probe_good (snd (set_feature j v k))" for j using k by (rule probe_good_set)
  show "probe_good (snd (set_feature i v k))" by (rule k')
  show "get_feature junk i (snd (set_feature i v k)) = (if v = 0 then 0 else 1, True)" if "snd (get_feature junk i k)"
    using that unfolding probe_get [OF k] probe_get [OF k'] by (simp add: probe_set [OF k] split: if_splits)
  show "get_feature junk i (snd (set_feature j v k)) = get_feature junk i k" if "i \<noteq> j" for j
    using that unfolding probe_get [OF k] probe_get [OF k'] by (auto simp: probe_set [OF k])
qed

end
