(* ===== verification/Map_File.thy ===== *)
theory Map_File
  imports Ordered_Map Os
begin

text \<open>
  The interface of a map kept in a file: a renderer and a parser that agree on well-formed
  maps, every file parsing to a well-formed map.  The module configuration (text) and the
  feature cache (binary) both provide it; what a read-modify-write of the file does is proved
  here once.
\<close>

locale map_file =
  fixes render :: "('k::linorder, 'v) omap \<Rightarrow> string"
    and parse :: "string \<Rightarrow> ('k, 'v) omap"
    and ok :: "('k, 'v) omap \<Rightarrow> bool"
  assumes parse_render: "ok m \<Longrightarrow> parse (render m) = m"
    and parse_ok: "ok (parse s)"
    and ok_omap: "ok m \<Longrightarrow> omap_ok m"
    and del_ok: "ok m \<Longrightarrow> ok (omap_del k m)"
begin

text \<open>The map in the file of a path; an unreadable file holds the empty map.\<close>

lemma render_parse_stable: "parse (render (parse s)) = parse s"
  by (rule parse_render) (rule parse_ok)

lemma lookup_after_put:
  "ok (omap_put k v (parse s)) \<Longrightarrow> map_of (parse (render (omap_put k v (parse s)))) = (map_of (parse s))(k \<mapsto> v)"
  by (simp add: parse_render)

lemma lookup_after_del: "map_of (parse (render (omap_del k (parse s)))) = (map_of (parse s))(k := None)"
  by (simp add: parse_render del_ok parse_ok)

lemma read_back:
  assumes "write_file p (render m) st = (True, st')" "ok m"
  shows "map_option parse (read_file st' p) = Some m"
  using read_after_write [OF assms(1)] by (simp add: parse_render assms(2))

lemma rewrite_put:
  assumes "write_file p (render (omap_put k v (parse s))) st = (True, st')" "ok (omap_put k v (parse s))"
  shows "map_option (\<lambda>t. map_of (parse t)) (read_file st' p) = Some ((map_of (parse s))(k \<mapsto> v))"
  using read_after_write [OF assms(1)] by (simp add: parse_render assms(2))

lemma rewrite_del:
  assumes "write_file p (render (omap_del k (parse s))) st = (True, st')"
  shows "map_option (\<lambda>t. map_of (parse t)) (read_file st' p) = Some ((map_of (parse s))(k := None))"
  using read_after_write [OF assms] by (simp add: parse_render del_ok parse_ok)

end

end
