(* ===== verification/Utils_Os.thy ===== *)
theory Utils_Os
  imports Os
begin

text \<open>
  The functions of \<^verbatim>\<open>daemon/tamisud_core/src/utils.cpp\<close> that act on the operating system:
  directories and files, the safe-mode test, running commands, the coexistence tests with
  Magisk, and the installation of the daemon.
\<close>

section \<open>Paths of \<^verbatim>\<open>defs.h\<close>\<close>

definition ADB_DIR :: path where "ADB_DIR = ''/data/adb/''"
definition WORKING_DIR :: path where "WORKING_DIR = ''/data/tamisu/''"
definition BINARY_DIR :: path where "BINARY_DIR = ''/data/tamisu/bin/''"
definition RESETPROP_PATH :: path where "RESETPROP_PATH = ''/data/tamisu/bin/resetprop''"
definition DAEMON_PATH :: path where "DAEMON_PATH = ''/data/tamisu_daemon''"
definition MAGISKBOOT_PATH :: path where "MAGISKBOOT_PATH = ''/data/tamisu/bin/magiskboot''"
definition MODULE_DIR :: path where "MODULE_DIR = ''/data/adb/modules/''"
definition MODULE_CONFIG_DIR :: path where "MODULE_CONFIG_DIR = ''/data/tamisu/module_configs/''"

section \<open>Directories and files\<close>

fun mkdirs :: "path \<Rightarrow> path \<Rightarrow> os \<Rightarrow> bool \<times> os" where
  "mkdirs current [] st = (True, st)"
| "mkdirs current (c # cs) st =
     (if c = CHR ''/'' then
        (case mkdir (current @ [c]) st of
           (MkFails, st') \<Rightarrow> (False, st')
         | (_, st') \<Rightarrow> mkdirs (current @ [c]) cs st')
      else mkdirs (current @ [c]) cs st)"

definition ensure_dir_exists :: "path \<Rightarrow> os \<Rightarrow> bool \<times> os" where
  "ensure_dir_exists p st =
     (if exists_path st p then (is_dir st p, st)
      else (case mkdirs [] p st of
              (False, st') \<Rightarrow> (False, st')
            | (True, st') \<Rightarrow>
                (case mkdir p st' of (MkFails, st'') \<Rightarrow> (False, st'') | (_, st'') \<Rightarrow> (True, st''))))"

definition ensure_file_exists :: "path \<Rightarrow> os \<Rightarrow> bool \<times> os" where
  "ensure_file_exists p st =
     (if exists_path st p then (is_reg st p, st)
      else if creatable st p then (True, put_node p (Reg 420 []) st)
      else (False, st))"

definition ensure_binary :: "path \<Rightarrow> string \<Rightarrow> bool \<Rightarrow> os \<Rightarrow> bool \<times> os" where
  "ensure_binary p data ignore_if_exist st =
     (if ignore_if_exist \<and> exists_path st p then (True, st)
      else
        (let (ok, st1) =
           (case rfind_slash p of None \<Rightarrow> (True, st) | Some i \<Rightarrow> ensure_dir_exists (take i p) st)
         in if \<not> ok then (False, st1)
            else (let st2 = unlink p st1 in
              if can_write st2 p then (True, put_node p (retext 493 (node_at st2 p) data) st2)
              else (False, st2))))"

section \<open>Properties and safe mode\<close>

definition getprop :: "string \<Rightarrow> os \<Rightarrow> string option" where
  "getprop p st = (if prop_of st p \<noteq> [] then Some (prop_of st p) else None)"

definition is_safe_mode :: "os \<Rightarrow> bool" where
  "is_safe_mode st \<longleftrightarrow>
     getprop ''persist.sys.safemode'' st = Some ''1'' \<or>
     getprop ''ro.sys.safemode'' st = Some ''1'' \<or>
     kernel_safemode st"

definition switch_cgroup :: "path \<Rightarrow> nat \<Rightarrow> os \<Rightarrow> os" where
  "switch_cgroup grp pid st =
     (if exists_path st (grp @ ''/cgroup.procs'')
      then snd (append_file (grp @ ''/cgroup.procs'') (show_nat pid) st) else st)"

definition switch_cgroups :: "nat \<Rightarrow> os \<Rightarrow> os" where
  "switch_cgroups pid st =
     (let st1 = switch_cgroup ''/sys/fs/cgroup'' pid
                  (switch_cgroup ''/dev/cg2_bpf'' pid (switch_cgroup ''/acct'' pid st))
      in if getprop ''ro.config.per_app_memcg'' st1 \<noteq> Some ''false''
         then switch_cgroup ''/dev/memcg/apps'' pid st1 else st1)"

section \<open>Running commands\<close>

record exec_result =
  exit_code :: int
  stdout_str :: string
  stderr_str :: string

definition exec_failed :: exec_result where
  "exec_failed = \<lparr>exit_code = -1, stdout_str = [], stderr_str = []\<rparr>"

text \<open>The read loop of the parent: reads are appended until one returns nothing.\<close>

fun drain :: "string list \<Rightarrow> string \<Rightarrow> string" where
  "drain [] acc = acc"
| "drain (r # rs) acc = (if r = [] then acc else drain rs (acc @ r))"

definition exec_command :: "string list \<Rightarrow> os \<Rightarrow> exec_result \<times> os" where
  "exec_command args st =
     (if args = [] then (exec_failed, st)
      else (let p = run_of st args in
        if \<not> pipes_ok p \<or> \<not> fork_ok p then (exec_failed, st)
        else (\<lparr>exit_code = (case wstatus p of Exited n \<Rightarrow> int n | _ \<Rightarrow> -1),
                stdout_str = drain (out_reads p) [], stderr_str = drain (err_reads p) []\<rparr>,
              log_action (Run args) st)))"

text \<open>The child of the two variants with a working directory leaves with 127 if it cannot enter it.\<close>

definition child_in :: "path \<Rightarrow> string list \<Rightarrow> os \<Rightarrow> proc" where
  "child_in workdir args st =
     (if workdir \<noteq> [] \<and> \<not> is_dir st workdir
      then (run_of st args)\<lparr>out_reads := [], err_reads := [], wstatus := Exited 127\<rparr>
      else run_of st args)"

definition exec_command_in :: "string list \<Rightarrow> path \<Rightarrow> os \<Rightarrow> exec_result \<times> os" where
  "exec_command_in args workdir st =
     (if args = [] then (exec_failed, st)
      else (let p = child_in workdir args st in
        if \<not> pipes_ok p \<or> \<not> fork_ok p then (exec_failed, st)
        else (\<lparr>exit_code = (case wstatus p of Exited n \<Rightarrow> int n | _ \<Rightarrow> -1),
                stdout_str = drain (out_reads p) [], stderr_str = drain (err_reads p) []\<rparr>,
              log_action (Run args) st)))"

definition kMaxCapture :: nat where "kMaxCapture = 1024 * 1024"

text \<open>The loop of the two reader threads around magiskboot.\<close>

fun read_fd_into :: "nat \<Rightarrow> string list \<Rightarrow> string \<Rightarrow> string" where
  "read_fd_into cap [] out = out"
| "read_fd_into cap (r # rs) out =
     (if r = [] then out
      else read_fd_into cap rs
             (if length out < cap then out @ take (min (length r) (cap - length out)) r else out))"

definition signal_note :: "nat \<Rightarrow> string \<Rightarrow> string" where
  "signal_note sig name =
     ''magiskboot terminated by signal '' @ show_nat sig @
     (if name = [] then [] else '' ('' @ name @ '')'') @ [NL]"

text \<open>The program run is \<open>magiskboot\<close>, whatever its \<^verbatim>\<open>argv[0]\<close> says.\<close>

definition exec_command_magiskboot :: "path \<Rightarrow> string list \<Rightarrow> path \<Rightarrow> os \<Rightarrow> exec_result \<times> os" where
  "exec_command_magiskboot magiskboot sub_args workdir st =
     (let args = magiskboot # sub_args; p = child_in workdir args st in
      if \<not> pipes_ok p \<or> \<not> fork_ok p then (exec_failed, st)
      else
        (let out = read_fd_into kMaxCapture (out_reads p) [];
             err = read_fd_into kMaxCapture (err_reads p) []
         in (case wstatus p of
               Exited n \<Rightarrow> \<lparr>exit_code = int n, stdout_str = out, stderr_str = err\<rparr>
             | Signaled sig name \<Rightarrow>
                 \<lparr>exit_code = 128 + int sig, stdout_str = out, stderr_str = err @ signal_note sig name\<rparr>
             | Stopped \<Rightarrow> \<lparr>exit_code = -1, stdout_str = out, stderr_str = err\<rparr>,
             log_action (Run args) st)))"

definition exec_command_async :: "string list \<Rightarrow> os \<Rightarrow> int \<times> os" where
  "exec_command_async args st =
     (if args = [] \<or> \<not> fork_ok (run_of st args) then (-1, st) else (0, log_action (RunAsync args) st))"

section \<open>Magisk\<close>

definition has_magisk :: "os \<Rightarrow> bool" where
  "has_magisk st =
     (case env_of st ''PATH'' of
        None \<Rightarrow> False
      | Some path \<Rightarrow> list_ex (\<lambda>dir. access_x st (dir @ ''/magisk'')) (getline_all CHR '':'' path))"

definition magisk_candidates :: "os \<Rightarrow> path list" where
  "magisk_candidates st =
     (case env_of st ''PATH'' of
        None \<Rightarrow> []
      | Some path \<Rightarrow> map (\<lambda>dir. dir @ ''/magisk'') (getline_all CHR '':'' path)) @
     [''/data/adb/magisk/magisk'']"

definition magisk_query :: "path \<Rightarrow> string list" where
  "magisk_query bin = [bin, ''--sqlite'', ''SELECT value FROM settings WHERE key='' @ [char_of (39::nat)] @
     ''zygisk'' @ [char_of (39::nat)]]"

fun probe_magisk :: "path list \<Rightarrow> os \<Rightarrow> bool \<times> os" where
  "probe_magisk [] st = (False, st)"
| "probe_magisk (bin # bins) st =
     (if \<not> access_x st bin then probe_magisk bins st
      else (case exec_command (magisk_query bin) st of
              (result, st') \<Rightarrow>
                if exit_code result \<noteq> 0 then probe_magisk bins st'
                else (contains ''value=1'' (stdout_str result), st')))"

definition is_magisk_zygisk_enabled :: "os \<Rightarrow> bool \<times> os" where
  "is_magisk_zygisk_enabled st = probe_magisk (magisk_candidates st) st"

section \<open>Installation\<close>

text \<open>Opening an output stream empties a file that is there.\<close>

definition open_trunc :: "path \<Rightarrow> os \<Rightarrow> bool \<times> os" where
  "open_trunc p st = write_file p [] st"

definition copy_optional_file :: "path option \<Rightarrow> path \<Rightarrow> nat \<Rightarrow> os \<Rightarrow> bool \<times> os" where
  "copy_optional_file src_path dst mode st =
     (case src_path of
        None \<Rightarrow> (True, st)
      | Some src \<Rightarrow>
          (case open_trunc dst st of
             (dst_ok, st1) \<Rightarrow>
               (case (if strip_slash src = strip_slash dst then read_file st1 src else read_file st src) of
                  None \<Rightarrow> (False, st1)
                | Some text \<Rightarrow>
                    if \<not> dst_ok then (False, st1)
                    else (True, log_action (Restorecon dst) (chmod dst mode (snd (write_file dst text st1)))))))"

text \<open>
  \<open>self\<close> is what \<^verbatim>\<open>readlink\<close> says of \<^verbatim>\<open>/proc/self/exe\<close>; \<open>binaries\<close> and \<open>restore\<close> are the
  embedded-assets step (a generated file) and \<^verbatim>\<open>restorecon\<close>, whose results are only logged.
\<close>

definition install_with :: "(os \<Rightarrow> os) \<Rightarrow> (os \<Rightarrow> os) \<Rightarrow> path option \<Rightarrow> path option \<Rightarrow> os \<Rightarrow> int \<times> os" where
  "install_with binaries restore self magiskboot st =
     (case ensure_dir_exists ADB_DIR st of
        (False, st1) \<Rightarrow> (1, st1)
      | (True, st1) \<Rightarrow>
          (case self of
             None \<Rightarrow> (1, st1)
           | Some self_path \<Rightarrow>
               (case open_trunc DAEMON_PATH st1 of
                  (dst_ok, st2) \<Rightarrow>
                    (case read_file st1 self_path of
                       None \<Rightarrow> (1, st2)
                     | Some text \<Rightarrow>
                         if \<not> dst_ok then (1, st2)
                         else
                           (case ensure_dir_exists BINARY_DIR
                              (binaries (restore (chmod DAEMON_PATH 493 (snd (write_file DAEMON_PATH text st2))))) of
                              (False, st3) \<Rightarrow> (1, st3)
                            | (True, st3) \<Rightarrow>
                                (let st4 = unlink (BINARY_DIR @ ''tamisu_daemon'') st3;
                                     st5 = (if creatable st4 (BINARY_DIR @ ''tamisu_daemon'')
                                            then put_node (BINARY_DIR @ ''tamisu_daemon'') (Lnk DAEMON_PATH) st4
                                            else st4)
                                 in (case copy_optional_file magiskboot MAGISKBOOT_PATH 493 st5 of
                                       (True, st6) \<Rightarrow> (0, st6)
                                     | (False, st6) \<Rightarrow> (1, st6))))))))"

text \<open>Uninstalling: the modules are disabled, the three trees removed, the boot image restored.\<close>

fun touch_disable :: "string list \<Rightarrow> os \<Rightarrow> os" where
  "touch_disable [] st = st"
| "touch_disable (e # es) st =
     touch_disable es
       (if is_dir st (MODULE_DIR @ e) then snd (write_file (MODULE_DIR @ e @ ''/disable'') [] st) else st)"

definition uninstall_with :: "(string list \<Rightarrow> os \<Rightarrow> int \<times> os) \<Rightarrow> path option \<Rightarrow> os \<Rightarrow> int \<times> os" where
  "uninstall_with boot_restore magiskboot st =
     (let st1 = (if exists_path st MODULE_DIR then touch_disable (readdir st MODULE_DIR) st else st);
          st2 = remove_all MODULE_DIR (del_node DAEMON_PATH (remove_all WORKING_DIR st1));
          restore_args = (case magiskboot of None \<Rightarrow> [] | Some m \<Rightarrow> [''--magiskboot'', m]) @ [''--flash'']
      in (case boot_restore restore_args st2 of
            (ret, st3) \<Rightarrow>
              (0, log_action (System ''reboot'') (log_action (System ''pm uninstall me.dabao1955.tamisu'') st3))))"

section \<open>Directories come and go\<close>

text \<open>A step that makes directories and changes nothing else.\<close>

definition only_dirs :: "os \<Rightarrow> os \<Rightarrow> bool" where
  "only_dirs st st' \<longleftrightarrow>
     (\<forall>q. node_at st' q = node_at st q \<or> node_at st q = None \<and> node_at st' q = Some Dir) \<and>
     trace st' = trace st \<and> prop_of st' = prop_of st \<and> ro_path st' = ro_path st"

lemma only_dirs_refl [simp]: "only_dirs st st"
  by (simp add: only_dirs_def)

lemma only_dirs_trans: "only_dirs a b \<Longrightarrow> only_dirs b c \<Longrightarrow> only_dirs a c"
  unfolding only_dirs_def by metis

lemma only_dirs_put: "node_at st p = None \<Longrightarrow> only_dirs st (put_node p Dir st)"
  by (auto simp: only_dirs_def node_at_put) (auto simp: node_at_def)

lemma mkdir_only_dirs: "mkdir p st = (r, st') \<Longrightarrow> only_dirs st st'"
  by (auto simp: mkdir_def only_dirs_put split: if_splits)

lemma mkdirs_only_dirs: "mkdirs cur p st = (r, st') \<Longrightarrow> only_dirs st st'"
proof (induction cur p st arbitrary: r st' rule: mkdirs.induct)
  case (2 current c cs st)
  show ?case
  proof (cases "c = CHR ''/''")
    case True
    obtain m s where m: "mkdir (current @ [c]) st = (m, s)" by force
    then have "only_dirs st s" by (rule mkdir_only_dirs)
    moreover have "only_dirs s st'"
      using 2 True m by (cases m) auto
    ultimately show ?thesis by (rule only_dirs_trans)
  qed (use 2 in auto)
qed simp

lemma ensure_dir_only_dirs: "ensure_dir_exists p st = (r, st') \<Longrightarrow> only_dirs st st'"
  by (auto simp: ensure_dir_exists_def split: if_splits prod.splits bool.splits mk_result.splits
      dest!: mkdirs_only_dirs mkdir_only_dirs intro: only_dirs_trans)

lemma ensure_dir_is_dir: "ensure_dir_exists p st = (True, st') \<Longrightarrow> is_dir st' p"
proof (cases "exists_path st p")
  case False
  assume *: "ensure_dir_exists p st = (True, st')"
  obtain b s where s: "mkdirs [] p st = (b, s)" by force
  then have "only_dirs st s" by (rule mkdirs_only_dirs)
  then have "node_at s p = None \<or> node_at s p = Some Dir"
    using False unfolding only_dirs_def exists_path_def by metis
  with * s False show ?thesis
    by (auto simp: ensure_dir_exists_def mkdir_def is_dir_def
        split: if_splits prod.splits bool.splits mk_result.splits)
qed (auto simp: ensure_dir_exists_def)

lemma remove_all_gone: "below (strip_slash d) (strip_slash q) \<Longrightarrow> node_at (remove_all d st) q = None"
  by (simp add: node_at_remove_all)

section \<open>Captured output\<close>

lemma drain_concat: "drain rs acc = acc @ concat (takeWhile (\<lambda>r. r \<noteq> []) rs)"
  by (induction rs arbitrary: acc) auto

lemma read_fd_into_take:
  "length out \<le> cap \<Longrightarrow>
     read_fd_into cap rs out = take cap (out @ concat (takeWhile (\<lambda>r. r \<noteq> []) rs))"
proof (induction rs arbitrary: out)
  case (Cons r rs)
  show ?case
  proof (cases "length out < cap")
    case True
    then show ?thesis using Cons by (cases "length r \<le> cap - length out") (auto simp: min_def)
  qed (use Cons in auto)
qed simp

text \<open>A transitive relation kept by every \<^verbatim>\<open>mkdir\<close> on the way is kept by making a path.\<close>

lemma mkdirs_rel:
  assumes "\<And>s. R s s" "\<And>a b c. R a b \<Longrightarrow> R b c \<Longrightarrow> R a c" "\<And>i s. R s (snd (mkdir (cur @ take i p) s))"
  shows "R st (snd (mkdirs cur p st))"
  using assms(3)
proof (induction cur p st rule: mkdirs.induct)
  case (2 current c cs st)
  have rest: "\<And>i s. R s (snd (mkdir ((current @ [c]) @ take i cs) s))"
    using 2(4) [of _ "Suc _"] by simp
  show ?case
  proof (cases "c = CHR ''/''")
    case True
    obtain m s where m: "mkdir (current @ [c]) st = (m, s)" by force
    have "R st s" using rest [of st 0] m by simp
    then show ?thesis using 2(1,2) [OF True m [symmetric]] rest True m
      by (cases m) (auto intro: assms(2))
  qed (use 2(3) rest in simp)
qed (simp add: assms(1))

lemma ensure_dir_rel:
  assumes "\<And>s. R s s" "\<And>a b c. R a b \<Longrightarrow> R b c \<Longrightarrow> R a c" "\<And>i s. R s (snd (mkdir (take i p) s))"
  shows "R st (snd (ensure_dir_exists p st))"
proof -
  obtain r s where m: "mkdirs [] p st = (r, s)" by force
  have 1: "R st s" using mkdirs_rel [of R "[]" p st] assms m by simp
  obtain q t where k: "mkdir p s = (q, t)" by force
  have 2: "R s t" using assms(3) [of s "length p"] k by simp
  show ?thesis using 1 assms(1) assms(2) [OF 1 2]
    by (auto simp: ensure_dir_exists_def m k split: bool.splits mk_result.splits)
qed

end
