(* ===== verification/Module_Config.thy ===== *)
theory Module_Config
  imports Map_File Utils_Os
begin

text \<open>
  \<^verbatim>\<open>daemon/tamisud_core/src/module/module_config.cpp\<close>, the per-module settings, and the parts
  of \<^verbatim>\<open>module.cpp\<close> that read them.  A configuration file holds one \<^verbatim>\<open>key=value\<close> line per entry;
  a module has a persistent and a temporary file, and the temporary one wins.
\<close>

section \<open>The text format\<close>

text \<open>One line of a file: the key up to the first equals sign, the value after it.\<close>

definition split_eq :: "string \<Rightarrow> (string \<times> string) option" where
  "split_eq line =
     (case find_char CHR ''='' line of None \<Rightarrow> None | Some eq \<Rightarrow> Some (take eq line, drop (eq + 1) line))"

definition add_line :: "string \<Rightarrow> (string, string) omap \<Rightarrow> (string, string) omap" where
  "add_line line config = (case split_eq line of None \<Rightarrow> config | Some (k, v) \<Rightarrow> omap_put k v config)"

definition parse_config :: "string \<Rightarrow> (string, string) omap" where
  "parse_config content = fold add_line (getline_all NL content) []"

definition render_config :: "(string, string) omap \<Rightarrow> string" where
  "render_config config = concat (map (\<lambda>(key, value). key @ ''='' @ value @ [NL]) config)"

definition load_config :: "path \<Rightarrow> os \<Rightarrow> (string, string) omap" where
  "load_config p st = (case read_file st p of None \<Rightarrow> [] | Some content \<Rightarrow> parse_config content)"

definition save_config :: "path \<Rightarrow> (string, string) omap \<Rightarrow> os \<Rightarrow> bool \<times> os" where
  "save_config p config st = write_file p (render_config config) st"

section \<open>The command\<close>

definition get_module_id :: "os \<Rightarrow> string" where
  "get_module_id st = (case env_of st ''TAMISU_MODULE'' of None \<Rightarrow> [] | Some i \<Rightarrow> i)"

definition get_config_dir :: "string \<Rightarrow> path" where
  "get_config_dir module_id = MODULE_CONFIG_DIR @ module_id @ ''/''"

definition persist_path :: "string \<Rightarrow> path" where
  "persist_path module_id = get_config_dir module_id @ ''persist.config''"

definition temp_path :: "string \<Rightarrow> path" where
  "temp_path module_id = get_config_dir module_id @ ''tmp.config''"

definition is_temp_flag :: "string list \<Rightarrow> bool" where
  "is_temp_flag args = (case args of [] \<Rightarrow> False | a # _ \<Rightarrow> a = ''-t'' \<or> a = ''--temp'')"

definition config_path :: "string \<Rightarrow> bool \<Rightarrow> path" where
  "config_path module_id is_temp = (if is_temp then temp_path module_id else persist_path module_id)"

definition config_get :: "string \<Rightarrow> string \<Rightarrow> os \<Rightarrow> int \<times> string" where
  "config_get module_id key st =
     (case map_of (load_config (temp_path module_id) st) key of
        Some v \<Rightarrow> (0, v @ [NL])
      | None \<Rightarrow>
          (case map_of (load_config (persist_path module_id) st) key of
             Some v \<Rightarrow> (0, v @ [NL])
           | None \<Rightarrow> (1, ''Key '' @ [char_of (39::nat)] @ key @ [char_of (39::nat)] @ '' not found'' @ [NL])))"

definition config_set :: "path \<Rightarrow> string \<Rightarrow> string \<Rightarrow> os \<Rightarrow> (int \<times> string) \<times> os" where
  "config_set p key value st =
     (case save_config p (omap_put key value (load_config p st)) st of
        (True, st') \<Rightarrow> ((0, []), st')
      | (False, st') \<Rightarrow> ((1, ''Failed to save config'' @ [NL]), st'))"

definition config_delete :: "path \<Rightarrow> string \<Rightarrow> os \<Rightarrow> (int \<times> string) \<times> os" where
  "config_delete p key st =
     (case save_config p (omap_del key (load_config p st)) st of
        (True, st') \<Rightarrow> ((0, []), st')
      | (False, st') \<Rightarrow> ((1, ''Failed to save config'' @ [NL]), st'))"

definition config_list :: "string \<Rightarrow> os \<Rightarrow> string" where
  "config_list module_id st =
     (let merged = omap_puts (load_config (temp_path module_id) st) (load_config (persist_path module_id) st)
      in if merged = [] then ''No config entries found'' @ [NL] else render_config merged)"

definition module_config_handle :: "string list \<Rightarrow> os \<Rightarrow> (int \<times> string) \<times> os" where
  "module_config_handle args st =
     (if args = [] then
        ((1, ''USAGE: tamisu_daemon module config <get|set|list|delete|clear> ...'' @ [NL]), st)
      else if get_module_id st = [] then
        ((1, ''Error: TAMISU_MODULE environment variable not set'' @ [NL]), st)
      else
        (let module_id = get_module_id st;
             st1 = snd (ensure_dir_exists (get_config_dir module_id) st);
             cmd = args ! 0;
             n = length args
         in if cmd = ''get'' \<and> n > 1 then (config_get module_id (args ! 1) st1, st1)
            else if cmd = ''set'' \<and> n > 2 then
              config_set (config_path module_id (is_temp_flag (drop 3 args))) (args ! 1) (args ! 2) st1
            else if cmd = ''list'' then ((0, config_list module_id st1), st1)
            else if cmd = ''delete'' \<and> n > 1 then
              config_delete (config_path module_id (is_temp_flag (drop 2 args))) (args ! 1) st1
            else if cmd = ''clear'' then
              ((0, []), unlink (config_path module_id (is_temp_flag (drop 1 args))) st1)
            else ((1, ''Unknown config command: '' @ cmd @ [NL]), st1)))"

fun clear_temps :: "string list \<Rightarrow> os \<Rightarrow> os" where
  "clear_temps [] st = st"
| "clear_temps (e # es) st =
     clear_temps es
       (if peek e = CHR ''.'' \<or> \<not> is_dir st (MODULE_CONFIG_DIR @ e) then st
        else if exists_path st (MODULE_CONFIG_DIR @ e @ ''/tmp.config'')
             then unlink (MODULE_CONFIG_DIR @ e @ ''/tmp.config'') st else st)"

definition clear_all_temp_configs :: "os \<Rightarrow> os" where
  "clear_all_temp_configs st =
     (if is_dir st MODULE_CONFIG_DIR then clear_temps (readdir st MODULE_CONFIG_DIR) st else st)"

section \<open>Readers of the settings in \<^verbatim>\<open>module.cpp\<close>\<close>

definition parse_bool_config :: "string \<Rightarrow> bool" where
  "parse_bool_config value \<longleftrightarrow> map to_lower value \<in> set [''true'', ''yes'', ''1'', ''on'']"

definition merge_module_configs :: "string \<Rightarrow> os \<Rightarrow> (string, string) omap" where
  "merge_module_configs module_id st =
     (let lines = (\<lambda>p. case read_file st p of None \<Rightarrow> [] | Some content \<Rightarrow> getline_all NL content)
      in fold add_line (lines (temp_path module_id)) (fold add_line (lines (persist_path module_id)) []))"

definition managed_of :: "(string, string) omap \<Rightarrow> string list" where
  "managed_of config =
     [drop 7 key. (key, value) \<leftarrow> config, length key > 7 \<and> take 7 key = ''manage.'' \<and> parse_bool_config value]"

definition module_active :: "os \<Rightarrow> string \<Rightarrow> bool" where
  "module_active st e \<longleftrightarrow>
     peek e \<noteq> CHR ''.'' \<and> is_dir st (MODULE_DIR @ e) \<and>
     \<not> exists_path st (MODULE_DIR @ e @ ''/disable'') \<and> \<not> exists_path st (MODULE_DIR @ e @ ''/remove'')"

definition get_managed_features :: "os \<Rightarrow> (string, string list) omap" where
  "get_managed_features st =
     (if \<not> is_dir st MODULE_DIR then []
      else fold (\<lambda>e m. if module_active st e \<and> managed_of (merge_module_configs e st) \<noteq> []
                        then omap_put e (managed_of (merge_module_configs e st)) m else m)
             (readdir st MODULE_DIR) [])"

section \<open>The format round trips\<close>

definition key_ok :: "string \<Rightarrow> bool" where
  "key_ok k \<longleftrightarrow> CHR ''='' \<notin> set k \<and> NL \<notin> set k"

definition config_ok :: "(string, string) omap \<Rightarrow> bool" where
  "config_ok m \<longleftrightarrow> omap_ok m \<and> (\<forall>(k, v) \<in> set m. key_ok k \<and> NL \<notin> set v)"

lemma split_eq_render [simp]: "CHR ''='' \<notin> set k \<Longrightarrow> split_eq (k @ CHR ''='' # v) = Some (k, v)"
  by (simp add: split_eq_def find_char_append)

lemma split_eq_key: "split_eq l = Some (k, v) \<Longrightarrow> l = k @ CHR ''='' # v \<and> CHR ''='' \<notin> set k"
  by (auto simp: split_eq_def dest!: find_char_Some split: option.splits) (metis id_take_nth_drop)

lemma config_ok_Nil [simp]: "config_ok []"
  by (simp add: config_ok_def)

lemma config_ok_put [simp]: "config_ok m \<Longrightarrow> key_ok k \<Longrightarrow> NL \<notin> set v \<Longrightarrow> config_ok (omap_put k v m)"
  by (auto simp: config_ok_def dest!: omap_put_above)

lemma config_ok_del [simp]: "config_ok m \<Longrightarrow> config_ok (omap_del k m)"
  by (auto simp: config_ok_def omap_del_def omap_ok_del [unfolded omap_del_def])

lemma config_ok_add_line: "config_ok m \<Longrightarrow> NL \<notin> set l \<Longrightarrow> config_ok (add_line l m)"
  by (auto simp: add_line_def key_ok_def dest: split_eq_key split: option.splits)

lemma config_ok_add_lines: "config_ok m \<Longrightarrow> (\<And>l. l \<in> set ls \<Longrightarrow> NL \<notin> set l) \<Longrightarrow> config_ok (fold add_line ls m)"
  by (induction ls arbitrary: m) (auto simp: config_ok_add_line)

lemma config_ok_parse: "config_ok (parse_config s)"
  unfolding parse_config_def by (rule config_ok_add_lines) (auto dest: getline_all_no_delim)

lemma add_line_render [simp]: "key_ok k \<Longrightarrow> add_line (k @ CHR ''='' # v) m = omap_put k v m"
  by (simp add: add_line_def key_ok_def)

lemma parse_render_lines:
  "(\<And>k v. (k, v) \<in> set m \<Longrightarrow> key_ok k \<and> NL \<notin> set v) \<Longrightarrow>
     fold add_line (getline_all NL (render_config m)) m0 = omap_puts m m0"
proof (induction m arbitrary: m0)
  case (Cons e m)
  obtain k v where e: "e = (k, v)" by force
  then have kv: "key_ok k" "NL \<notin> set v" using Cons.prems by auto
  have "render_config (e # m) = (k @ CHR ''='' # v) @ NL # render_config m"
    by (simp add: render_config_def e)
  moreover have "NL \<notin> set (k @ CHR ''='' # v)" using kv by (auto simp: key_ok_def)
  ultimately have "getline_all NL (render_config (e # m)) = (k @ CHR ''='' # v) # getline_all NL (render_config m)"
    by (metis getline_all_line)
  moreover have "fold add_line (getline_all NL (render_config m)) (omap_put k v m0) = omap_puts m (omap_put k v m0)"
    by (rule Cons.IH, rule Cons.prems) simp
  ultimately show ?case using kv(1) by (simp add: e)
qed (simp add: render_config_def)

lemma parse_render_config: "config_ok m \<Longrightarrow> parse_config (render_config m) = m"
  unfolding parse_config_def
  by (subst parse_render_lines) (auto simp: config_ok_def omap_puts_rebuild)

interpretation config_file: map_file render_config parse_config config_ok
  by unfold_locales (auto simp: parse_render_config config_ok_parse intro: config_ok_del, simp add: config_ok_def)

section \<open>What a module sees\<close>

text \<open>The settings of a module: its persistent entries under its temporary ones.\<close>

definition config_view :: "string \<Rightarrow> os \<Rightarrow> (string \<rightharpoonup> string)" where
  "config_view module_id st =
     map_of (load_config (persist_path module_id) st) ++ map_of (load_config (temp_path module_id) st)"

lemma config_paths_differ [simp]:
  "strip_slash (persist_path m) \<noteq> strip_slash (temp_path m)" "strip_slash (temp_path m) \<noteq> strip_slash (persist_path m)"
  by (simp_all add: persist_path_def temp_path_def strip_slash_def get_config_dir_def)

lemma config_ok_load [simp]: "config_ok (load_config p st)"
  by (auto simp: load_config_def config_ok_parse split: option.splits)

lemma load_after_save:
  "save_config p m st = (True, st') \<Longrightarrow> config_ok m \<Longrightarrow> load_config p st' = m"
  using read_after_write [of p "render_config m" st st']
  by (simp add: save_config_def load_config_def parse_render_config)

lemma load_after_save_other:
  "save_config p m st = (r, st') \<Longrightarrow> strip_slash q \<noteq> strip_slash p \<Longrightarrow> load_config q st' = load_config q st"
  using read_after_write_other [of p "render_config m" st r st' q]
  by (simp add: save_config_def load_config_def)

lemma only_dirs_read: "only_dirs st st' \<Longrightarrow> read_file st' p = read_file st p"
proof -
  assume "only_dirs st st'"
  then have "node_at st' p = node_at st p \<or> node_at st p = None \<and> node_at st' p = Some Dir"
    by (simp add: only_dirs_def)
  then show ?thesis by (auto simp: read_file_def file_text_def)
qed

lemma only_dirs_config [simp]:
  "load_config p (snd (ensure_dir_exists d st)) = load_config p st"
  using ensure_dir_only_dirs [of d st "fst (ensure_dir_exists d st)" "snd (ensure_dir_exists d st)"]
  by (simp add: load_config_def only_dirs_read)

lemma config_view_ensure [simp]: "config_view m (snd (ensure_dir_exists d st)) = config_view m st"
  by (simp add: config_view_def)

lemma config_get_view:
  "config_get m k st =
     (case config_view m st k of
        Some v \<Rightarrow> (0, v @ [NL])
      | None \<Rightarrow> (1, ''Key '' @ [char_of (39::nat)] @ k @ [char_of (39::nat)] @ '' not found'' @ [NL]))"
  by (auto simp: config_get_def config_view_def map_add_def split: option.splits)

lemma config_set_view:
  assumes "config_set (config_path m t) k v st = ((0, out), st')" "key_ok k" "NL \<notin> set v"
  shows "config_view m st' =
      (if t \<or> map_of (load_config (temp_path m) st) k = None then (config_view m st)(k \<mapsto> v) else config_view m st)"
proof -
  let ?p = "config_path m t"
  have "save_config ?p (omap_put k v (load_config ?p st)) st = (True, st')"
    using assms(1) by (auto simp: config_set_def split: prod.splits bool.splits)
  with assms(2,3) have "load_config ?p st' = omap_put k v (load_config ?p st)"
    and "\<And>q. strip_slash q \<noteq> strip_slash ?p \<Longrightarrow> load_config q st' = load_config q st"
    by (auto intro: load_after_save load_after_save_other)
  then show ?thesis
    by (cases t) (auto simp: config_path_def config_view_def map_add_def fun_eq_iff split: option.splits)
qed

lemma config_delete_view:
  assumes "config_delete (config_path m t) k st = ((0, out), st')"
  shows "config_view m st' =
      (if t then map_of (load_config (persist_path m) st) ++ (map_of (load_config (temp_path m) st))(k := None)
       else (map_of (load_config (persist_path m) st))(k := None) ++ map_of (load_config (temp_path m) st))"
proof -
  let ?p = "config_path m t"
  have "save_config ?p (omap_del k (load_config ?p st)) st = (True, st')"
    using assms(1) by (auto simp: config_delete_def split: prod.splits bool.splits)
  then have "load_config ?p st' = omap_del k (load_config ?p st)"
    and "\<And>q. strip_slash q \<noteq> strip_slash ?p \<Longrightarrow> load_config q st' = load_config q st"
    by (auto intro: load_after_save load_after_save_other)
  then show ?thesis by (cases t) (auto simp: config_path_def config_view_def)
qed

lemma map_of_fold_add_line:
  "map_of (fold add_line ls m) = map_of m ++ map_of (fold add_line ls [])"
proof (induction ls rule: rev_induct)
  case (snoc l ls)
  then show ?case by (auto simp: add_line_def split: option.splits)
qed simp

lemma merge_module_configs_view: "map_of (merge_module_configs m st) = config_view m st"
  by (auto simp: merge_module_configs_def Let_def config_view_def load_config_def parse_config_def
      map_of_fold_add_line [where m = "fold add_line _ _"] split: option.splits)

lemma get_managed_features_active:
  assumes "x \<in> set (get_managed_features st)"
  shows "module_active st (fst x) \<and> snd x = managed_of (merge_module_configs (fst x) st)"
  using assms unfolding get_managed_features_def
  by (auto split: if_splits elim!: fold_omap_put_all
      [where Q = "\<lambda>x. module_active st (fst x) \<and> snd x = managed_of (merge_module_configs (fst x) st)", rotated 2])

end
