(* ===== verification/Feature.thy ===== *)
theory Feature
  imports Kernel_Feature Module_Config Bytes
begin

text \<open>
  \<^verbatim>\<open>daemon/tamisud_core/src/core/feature.cpp\<close>: the feature table, the text configuration
  \<^verbatim>\<open>.tamisurc\<close>, the binary cache \<^verbatim>\<open>.feature_config\<close> and the initialisation at boot.  The
  kernel's two calls are arguments of the operations (\<open>Kernel_Feature\<close> provides them).
\<close>

section \<open>The table\<close>

definition FEATURE_MAGIC :: u32 where "FEATURE_MAGIC = 0x7f4b5355"
definition FEATURE_VERSION :: u32 where "FEATURE_VERSION = 1"
definition TAMISURC_PATH :: path where "TAMISURC_PATH = ''/data/tamisu/.tamisurc''"

definition feature_config_path :: path where
  "feature_config_path = WORKING_DIR @ ''.feature_config''"

definition feature_map :: "(string, u32) omap" where
  "feature_map = [(''zygisk'', FEATURE_YUKIZYGISK)]"

definition feature_descriptions :: "(u32, string) omap" where
  "feature_descriptions = [(FEATURE_YUKIZYGISK,
     ''Tamisu Zygisk - kernel captures zygote and injects Zygisk modules; the daemon is brought '' @
     ''up at post-fs-data when enabled (off by default)'')]"

definition parse_feature_id :: "string \<Rightarrow> u32 option" where
  "parse_feature_id s =
     (case parse_uint32 s of
        Some num \<Rightarrow> if num \<in> snd ` set feature_map then Some num else None
      | None \<Rightarrow> map_of feature_map s)"

definition feature_id_to_name :: "u32 \<Rightarrow> string" where
  "feature_id_to_name i = (case find (\<lambda>e. snd e = i) feature_map of Some e \<Rightarrow> fst e | None \<Rightarrow> ''unknown'')"

definition feature_id_to_description :: "u32 \<Rightarrow> string" where
  "feature_id_to_description i =
     (case map_of feature_descriptions i of Some d \<Rightarrow> d | None \<Rightarrow> ''Unknown feature'')"

definition get_current_feature_values :: "(u32 \<Rightarrow> 'k \<Rightarrow> u64 \<times> bool) \<Rightarrow> 'k \<Rightarrow> (u32, u64) omap" where
  "get_current_feature_values get k =
     fold (\<lambda>(_, i) m. case get i k of (v, supported) \<Rightarrow> if supported then omap_put i v m else m) feature_map []"

section \<open>The commands\<close>

definition status_word :: "u64 \<Rightarrow> string" where
  "status_word v = (if v \<noteq> 0 then ''enabled'' else ''disabled'')"

definition feature_get :: "(u32 \<Rightarrow> 'k \<Rightarrow> u64 \<times> bool) \<Rightarrow> string \<Rightarrow> 'k \<Rightarrow> int \<times> string" where
  "feature_get get s k =
     (case parse_feature_id s of
        None \<Rightarrow> (1, [])
      | Some i \<Rightarrow>
          (case get i k of
             (v, supported) \<Rightarrow>
               if \<not> supported then
                 (0, ''Feature '' @ [char_of (39::nat)] @ s @ [char_of (39::nat)] @ '' is not supported by kernel'' @ [NL])
               else (0, ''Feature: '' @ feature_id_to_name i @ '' ('' @ show_nat (unat i) @ '')'' @ [NL] @
                        ''Description: '' @ feature_id_to_description i @ [NL] @
                        ''Value: '' @ show_nat (unat v) @ [NL] @ ''Status: '' @ status_word v @ [NL])))"

definition feature_set :: "(u32 \<Rightarrow> u64 \<Rightarrow> 'k \<Rightarrow> int \<times> 'k) \<Rightarrow> string \<Rightarrow> u64 \<Rightarrow> 'k \<Rightarrow> (int \<times> string) \<times> 'k" where
  "feature_set put s v k =
     (case parse_feature_id s of
        None \<Rightarrow> ((1, []), k)
      | Some i \<Rightarrow>
          (case put i v k of
             (ret, k') \<Rightarrow>
               if ret < 0 then ((1, []), k')
               else ((0, ''Feature '' @ [char_of (39::nat)] @ feature_id_to_name i @ [char_of (39::nat)] @ '' set to '' @
                         show_nat (unat v) @ '' ('' @ status_word v @ '')'' @ [NL]), k')))"

definition feature_list :: "(u32 \<Rightarrow> 'k \<Rightarrow> u64 \<times> bool) \<Rightarrow> 'k \<Rightarrow> string" where
  "feature_list get k =
     ''Available Features:'' @ [NL] @ replicate 80 CHR ''='' @ [NL] @
     concat (map (\<lambda>(name, i).
       ''['' @ (case get i k of (v, supported) \<Rightarrow>
                  if \<not> supported then ''NOT_SUPPORTED'' else if v \<noteq> 0 then ''ENABLED'' else ''DISABLED'') @ ''] '' @
       name @ '' (ID='' @ show_nat (unat i) @ '')'' @ [NL] @ ''    '' @ feature_id_to_description i @ [NL]) feature_map)"

definition feature_check :: "(u32 \<Rightarrow> 'k \<Rightarrow> u64 \<times> bool) \<Rightarrow> string \<Rightarrow> 'k \<Rightarrow> int \<times> string" where
  "feature_check get s k =
     (case parse_feature_id s of
        None \<Rightarrow> (1, ''unsupported'' @ [NL])
      | Some i \<Rightarrow> if snd (get i k) then (0, ''supported'' @ [NL]) else (1, ''unsupported'' @ [NL]))"

section \<open>The binary cache\<close>

definition encode_features :: "(u32, u64) omap \<Rightarrow> bytes" where
  "encode_features features =
     u32_le FEATURE_MAGIC @ u32_le FEATURE_VERSION @ u32_le (of_nat (length features)) @
     concat (map (\<lambda>(i, v). u32_le i @ u64_le v) features)"

text \<open>
  An input stream: what is left, and whether it is still good.  A short read stores the bytes
  there are and fails the stream; a failed stream reads nothing.
\<close>

record istream =
  in_left :: bytes
  in_good :: bool

definition stream_read :: "nat \<Rightarrow> bytes \<Rightarrow> istream \<Rightarrow> bytes \<times> istream" where
  "stream_read n old s =
     (if \<not> in_good s then (old, s)
      else if n \<le> length (in_left s) then (take n (in_left s), s\<lparr>in_left := drop n (in_left s)\<rparr>)
      else (in_left s @ drop (length (in_left s)) old, \<lparr>in_left = [], in_good = False\<rparr>))"

definition read_u32 :: "istream \<Rightarrow> u32 \<times> istream" where
  "read_u32 s = (case stream_read 4 [0, 0, 0, 0] s of (b, s') \<Rightarrow> (of_nat (le_nat b), s'))"

definition read_u64 :: "istream \<Rightarrow> u64 \<times> istream" where
  "read_u64 s = (case stream_read 8 [0, 0, 0, 0, 0, 0, 0, 0] s of (b, s') \<Rightarrow> (of_nat (le_nat b), s'))"

fun read_features :: "nat \<Rightarrow> istream \<Rightarrow> (u32, u64) omap \<Rightarrow> (u32, u64) omap" where
  "read_features 0 s features = features"
| "read_features (Suc n) s features =
     (case read_u32 s of
        (i, s1) \<Rightarrow>
          (case read_u64 s1 of
             (v, s2) \<Rightarrow> read_features n s2 (if in_good s2 then omap_put i v features else features)))"

definition decode_features :: "bytes \<Rightarrow> (u32, u64) omap" where
  "decode_features bs =
     (case read_u32 \<lparr>in_left = bs, in_good = True\<rparr> of
        (magic, s1) \<Rightarrow>
          if magic \<noteq> FEATURE_MAGIC then []
          else (case read_u32 s1 of
                  (version, s2) \<Rightarrow>
                    (case read_u32 s2 of (count, s3) \<Rightarrow> read_features (unat count) s3 [])))"

definition render_features :: "(u32, u64) omap \<Rightarrow> string" where
  "render_features features = bytes_str (encode_features features)"

definition parse_features :: "string \<Rightarrow> (u32, u64) omap" where
  "parse_features text = decode_features (str_bytes text)"

definition load_binary_config :: "os \<Rightarrow> (u32, u64) omap" where
  "load_binary_config st =
     (case read_file st feature_config_path of None \<Rightarrow> [] | Some text \<Rightarrow> parse_features text)"

definition save_binary_config :: "(u32, u64) omap \<Rightarrow> os \<Rightarrow> int \<times> os" where
  "save_binary_config features st =
     (case write_file feature_config_path (render_features features) (snd (ensure_dir_exists WORKING_DIR st)) of
        (True, st') \<Rightarrow> (0, st')
      | (False, st') \<Rightarrow> (-1, st'))"

section \<open>The text configuration\<close>

definition load_line ::
  "(u32 \<Rightarrow> u64 \<Rightarrow> 'k \<Rightarrow> int \<times> 'k) \<Rightarrow> string \<Rightarrow> 'k \<times> (u32, u64) omap \<Rightarrow> 'k \<times> (u32, u64) omap"
where
  "load_line put raw acc =
     (let line = trim raw in
      if line = [] \<or> hd line = CHR ''#'' then acc
      else (case split_eq line of
              None \<Rightarrow> acc
            | Some (k, v) \<Rightarrow>
                (case parse_feature_id (trim k) of
                   None \<Rightarrow> acc
                 | Some i \<Rightarrow>
                     (case parse_uint64 (trim v) of
                        None \<Rightarrow> acc
                      | Some w \<Rightarrow> (snd (put i w (fst acc)), omap_put i w (snd acc))))))"

definition feature_load_config :: "(u32 \<Rightarrow> u64 \<Rightarrow> 'k \<Rightarrow> int \<times> 'k) \<Rightarrow> os \<Rightarrow> 'k \<Rightarrow> int \<times> os \<times> 'k" where
  "feature_load_config put st k =
     (case read_file st TAMISURC_PATH of
        None \<Rightarrow> (0, st, k)
      | Some content \<Rightarrow>
          (case fold (load_line put) (getline_all NL content) (k, []) of
             (k', loaded) \<Rightarrow> (0, snd (save_binary_config loaded st), k')))"

definition render_rc :: "(u32, u64) omap \<Rightarrow> string" where
  "render_rc features =
     ''# Tamisu feature configuration'' @ [NL] @
     concat (map (\<lambda>(name, i). case map_of features i of
                    None \<Rightarrow> [] | Some v \<Rightarrow> name @ ''='' @ show_nat (unat v) @ [NL]) feature_map)"

definition feature_save_config :: "(u32 \<Rightarrow> 'k \<Rightarrow> u64 \<times> bool) \<Rightarrow> os \<Rightarrow> 'k \<Rightarrow> int \<times> os" where
  "feature_save_config get st k =
     (let current = get_current_feature_values get k in
      case write_file TAMISURC_PATH (render_rc current) st of
        (False, st1) \<Rightarrow> (1, st1)
      | (True, st1) \<Rightarrow>
          (case save_binary_config current st1 of
             (ret, st2) \<Rightarrow> if ret \<noteq> 0 then (1, st2) else (0, st2)))"

section \<open>Initialisation at boot\<close>

definition apply_config :: "(u32 \<Rightarrow> u64 \<Rightarrow> 'k \<Rightarrow> int \<times> 'k) \<Rightarrow> (u32, u64) omap \<Rightarrow> 'k \<Rightarrow> 'k" where
  "apply_config put features k = fold (\<lambda>(i, v) k. snd (put i v k)) features k"

definition drop_managed :: "(string, string list) omap \<Rightarrow> (u32, u64) omap \<Rightarrow> (u32, u64) omap" where
  "drop_managed managed features =
     fold (\<lambda>(module_id, names). fold (\<lambda>name m. case parse_feature_id name of
             None \<Rightarrow> m | Some i \<Rightarrow> omap_del i m) names) managed features"

definition init_features :: "(u32 \<Rightarrow> u64 \<Rightarrow> 'k \<Rightarrow> int \<times> 'k) \<Rightarrow> os \<Rightarrow> 'k \<Rightarrow> int \<times> os \<times> 'k" where
  "init_features put st k =
     (let features = drop_managed (get_managed_features st) (load_binary_config st) in
      if features = [] then (0, st, k)
      else (0, snd (save_binary_config features st), apply_config put features k))"

section \<open>The cache round trips\<close>

definition cache_ok :: "(u32, u64) omap \<Rightarrow> bool" where
  "cache_ok m \<longleftrightarrow> omap_ok m \<and> length m < 2 ^ 32"

lemma stream_read_ok: "length b = n \<Longrightarrow> stream_read n old \<lparr>in_left = b @ r, in_good = True\<rparr> = (b, \<lparr>in_left = r, in_good = True\<rparr>)"
  by (simp add: stream_read_def)

lemma read_u32_le [codec_simps]: "read_u32 \<lparr>in_left = u32_le w @ r, in_good = True\<rparr> = (w, \<lparr>in_left = r, in_good = True\<rparr>)"
  by (simp add: read_u32_def stream_read_ok le_nat_u32_le)

lemma read_u64_le [codec_simps]: "read_u64 \<lparr>in_left = u64_le w @ r, in_good = True\<rparr> = (w, \<lparr>in_left = r, in_good = True\<rparr>)"
  by (simp add: read_u64_def stream_read_ok le_nat_u64_le)

lemma read_features_written:
  "read_features (length es) \<lparr>in_left = concat (map (\<lambda>(i, v). u32_le i @ u64_le v) es) @ r, in_good = True\<rparr> m =
     omap_puts es m"
proof (induction es arbitrary: m)
  case (Cons e es)
  show ?case by (cases e) (simp add: codec_simps Cons.IH)
qed simp

lemma decode_encode_features: "cache_ok m \<Longrightarrow> decode_features (encode_features m) = m"
proof -
  assume m: "cache_ok m"
  then have "unat (of_nat (length m) :: u32) = length m"
    by (simp add: cache_ok_def unat_of_nat)
  then show ?thesis
    using m read_features_written [of m "[]" "[]"]
    by (simp add: decode_features_def encode_features_def codec_simps cache_ok_def omap_puts_rebuild)
qed

lemma read_features_ok:
  "omap_ok m \<Longrightarrow> omap_ok (read_features n s m) \<and> length (read_features n s m) \<le> length m + n"
proof (induction n s m rule: read_features.induct)
  case (2 n s m)
  obtain i s1 v s2 where *: "read_u32 s = (i, s1)" "read_u64 s1 = (v, s2)" by force
  let ?m = "if in_good s2 then omap_put i v m else m"
  have "length ?m \<le> Suc (length m)" using length_omap_put [of i v m] by simp
  moreover have "omap_ok ?m" using 2 by simp
  ultimately show ?case using 2 * by fastforce
qed simp

lemma cache_ok_decode: "cache_ok (decode_features bs)"
proof -
  have "cache_ok (read_features (unat (count :: u32)) s [])" for count s
    using read_features_ok [of "[]" "unat count" s] unsigned_less [of count, where ?'a = nat]
    by (auto simp: cache_ok_def)
  then show ?thesis by (auto simp: decode_features_def cache_ok_def split: prod.splits)
qed

lemma cache_ok_del: "cache_ok m \<Longrightarrow> cache_ok (omap_del i m)"
  using length_omap_del [of i m] by (auto simp: cache_ok_def)

interpretation cache_file: map_file render_features parse_features cache_ok
  by unfold_locales
    (auto simp: render_features_def parse_features_def decode_encode_features cache_ok_decode cache_ok_del,
     simp add: cache_ok_def)

lemma load_after_save_binary:
  "save_binary_config m st = (0, st') \<Longrightarrow> cache_ok m \<Longrightarrow> load_binary_config st' = m"
  by (auto simp: save_binary_config_def load_binary_config_def cache_file.parse_render
      dest!: read_after_write split: prod.splits bool.splits)

lemma cache_ok_load: "cache_ok (load_binary_config st)"
  by (auto simp: load_binary_config_def cache_file.parse_ok cache_ok_def split: option.splits)
    (use cache_file.parse_ok in \<open>auto simp: cache_ok_def\<close>)

section \<open>Managed features\<close>

definition managed_ids :: "(string, string list) omap \<Rightarrow> u32 set" where
  "managed_ids managed = {i. \<exists>x \<in> set managed. \<exists>name \<in> set (snd x). parse_feature_id name = Some i}"

lemma drop_names:
  "map_of (fold (\<lambda>name m. case parse_feature_id name of None \<Rightarrow> m | Some i \<Rightarrow> omap_del i m) names m) i =
     (if \<exists>name \<in> set names. parse_feature_id name = Some i then None else map_of m i)"
  by (induction names arbitrary: m) (auto split: option.splits)

lemma map_of_drop_managed:
  "map_of (drop_managed managed m) i = (if i \<in> managed_ids managed then None else map_of m i)"
  unfolding drop_managed_def managed_ids_def
  by (induction managed arbitrary: m) (auto simp: drop_names)

lemma cache_ok_drop_names:
  "cache_ok m \<Longrightarrow>
     cache_ok (fold (\<lambda>name m. case parse_feature_id name of None \<Rightarrow> m | Some i \<Rightarrow> omap_del i m) names m)"
  by (induction names arbitrary: m) (auto simp: cache_ok_del split: option.splits)

lemma cache_ok_drop_managed: "cache_ok m \<Longrightarrow> cache_ok (drop_managed managed m)"
  unfolding drop_managed_def by (induction managed arbitrary: m) (auto simp: cache_ok_drop_names)

lemma cache_distinct: "cache_ok m \<Longrightarrow> distinct (map fst m)"
  by (simp add: cache_ok_def omap_ok_distinct)

section \<open>The text configuration never loads\<close>

lemma parse_feature_id_name: "parse_feature_id s = (if s = ''zygisk'' then Some FEATURE_YUKIZYGISK else None)"
  by (simp add: parse_feature_id_def feature_map_def)

lemma load_line_skips: "load_line put raw acc = acc"
  by (simp add: load_line_def Let_def split: option.splits)

lemma load_lines_skip: "fold (load_line put) ls acc = acc"
  by (induction ls) (simp_all add: load_line_skips)

end
