(* ===== verification/Feature_Props.thy ===== *)
theory Feature_Props
  imports Feature
begin

text \<open>What the feature switches and the module settings guarantee, and where they do not.\<close>

section \<open>Module settings\<close>

lemma ensure_env: "env_of (snd (mkdirs cur p st)) = env_of st"
  by (induction cur p st rule: mkdirs.induct)
    (auto simp: mkdir_def split: mk_result.splits prod.splits if_splits)

lemma mkdir_env: "env_of (snd (mkdir p st)) = env_of st"
  by (simp add: mkdir_def)

lemma ensure_dir_env [simp]: "env_of (snd (ensure_dir_exists p st)) = env_of st"
  using ensure_env [of "[]" p st] mkdir_env [of p "snd (mkdirs [] p st)"]
  by (auto simp: ensure_dir_exists_def split: prod.splits bool.splits mk_result.splits)

lemma config_set_env: "config_set p k v st = (r, st') \<Longrightarrow> env_of st' = env_of st"
  by (auto simp: config_set_def save_config_def write_file_def split: prod.splits bool.splits if_splits)

lemma handle_set:
  assumes "module_config_handle (''set'' # k # v # flags) st = ((0, out), st')"
  shows "get_module_id st \<noteq> []"
    "config_set (config_path (get_module_id st) (is_temp_flag flags)) k v
       (snd (ensure_dir_exists (get_config_dir (get_module_id st)) st)) = ((0, out), st')"
  using assms by (auto simp: module_config_handle_def Let_def split: if_splits)

lemma handle_get:
  "get_module_id st \<noteq> [] \<Longrightarrow>
     fst (module_config_handle [''get'', k] st) =
       config_get (get_module_id st) k (snd (ensure_dir_exists (get_config_dir (get_module_id st)) st))"
  by (simp add: module_config_handle_def Let_def)

text \<open>
  A setting that was stored reads back: after a successful \<^verbatim>\<open>set\<close> of a key without equals
  sign or line break, \<^verbatim>\<open>get\<close> prints the value, if the temporary file was written or does not
  hold the key.
\<close>

theorem config_set_then_get:
  assumes "module_config_handle (''set'' # k # v # flags) st = ((0, out), st')" "key_ok k" "NL \<notin> set v"
    and "is_temp_flag flags \<or> map_of (load_config (temp_path (get_module_id st)) st) k = None"
  shows "fst (module_config_handle [''get'', k] st') = (0, v @ [NL])"
proof -
  let ?m = "get_module_id st"
  note set = handle_set [OF assms(1)]
  have id: "get_module_id st' = ?m" using config_set_env [OF set(2)] by (simp add: get_module_id_def)
  have "config_view ?m st' k = Some v"
    using config_set_view [OF set(2) assms(2,3)] assms(4) by auto
  then show ?thesis using set(1) by (simp add: handle_get id config_get_view)
qed

definition demo_os :: os where
  "demo_os = \<lparr>fs = [(''/'', Dir), (''/data'', Dir), (''/data/tamisu'', Dir)], ro_path = (\<lambda>_. False),
     prop_of = (\<lambda>_. []), env_of = (\<lambda>v. if v = ''TAMISU_MODULE'' then Some ''m'' else None),
     run_of = (\<lambda>_. \<lparr>pipes_ok = False, fork_ok = False, out_reads = [], err_reads = [], wstatus = Stopped\<rparr>),
     kernel_safemode = False, trace = []\<rparr>"

lemma demo_set: "fst (module_config_handle [''set'', ''k'', ''v''] demo_os) = (0, [])"
  by code_simp

lemma demo_temp: "map_of (load_config (temp_path (get_module_id demo_os)) demo_os) ''k'' = None"
  by code_simp

theorem config_set_then_get_witness:
  "fst (module_config_handle [''get'', ''k''] (snd (module_config_handle [''set'', ''k'', ''v''] demo_os))) = (0, ''v'' @ [NL])"
proof -
  have "module_config_handle [''set'', ''k'', ''v''] demo_os =
      ((0, []), snd (module_config_handle [''set'', ''k'', ''v''] demo_os))"
    using demo_set by (metis prod.collapse)
  from config_set_then_get [OF this] show ?thesis by (simp add: key_ok_def demo_temp)
qed

text \<open>
  A key with an equals sign is stored under its first part: into an empty configuration
  \<^verbatim>\<open>set\<close> reports success, and \<^verbatim>\<open>get\<close> of the same key does not find it.
\<close>

theorem config_key_with_equals:
  assumes "save_config p (omap_put (a @ ''='' @ b) v (load_config p st)) st = (True, st')"
    and "load_config p st = []" "key_ok a" "NL \<notin> set b" "NL \<notin> set v"
  shows "map_of (load_config p st') a = Some (b @ ''='' @ v) \<and> map_of (load_config p st') (a @ ''='' @ b) = None"
proof -
  have "read_file st' p = Some (render_config [(a @ ''='' @ b, v)])"
    using read_after_write [of p _ st st'] assms(1,2) by (simp add: save_config_def)
  moreover have "render_config [(a @ ''='' @ b, v)] = render_config [(a, b @ ''='' @ v)]"
    by (simp add: render_config_def)
  moreover have "config_ok [(a, b @ ''='' @ v)]" using assms(3-5) by (simp add: config_ok_def)
  ultimately have "load_config p st' = [(a, b @ ''='' @ v)]"
    by (simp add: load_config_def parse_render_config)
  then show ?thesis by simp
qed

theorem config_key_with_equals_witness:
  "map_of (load_config ''/data/tamisu/c'' (snd (save_config ''/data/tamisu/c''
     (omap_put ''a=b'' ''c'' (load_config ''/data/tamisu/c'' demo_os)) demo_os))) ''a=b'' = None"
proof -
  let ?w = "save_config ''/data/tamisu/c'' (omap_put ''a=b'' ''c'' (load_config ''/data/tamisu/c'' demo_os)) demo_os"
  have ok: "fst ?w" by code_simp
  have empty: "load_config ''/data/tamisu/c'' demo_os = []" by code_simp
  from ok have "?w = (True, snd ?w)" by (simp add: prod_eq_iff)
  with empty show ?thesis
    using config_key_with_equals [of "''/data/tamisu/c''" "''a''" "''b''" "''c''" demo_os "snd ?w"]
    by (simp add: key_ok_def)
qed

text \<open>
  Only an active module manages features: every entry of the managed map belongs to a
  module directory without a \<^verbatim>\<open>disable\<close> or \<^verbatim>\<open>remove\<close> mark, and lists exactly the enabled
  \<^verbatim>\<open>manage.\<close> settings of its merged configuration.
\<close>

theorem managed_features_active:
  assumes "x \<in> set (get_managed_features st)"
  shows "module_active st (fst x) \<and>
      snd x = [drop 7 key. (key, value) \<leftarrow> merge_module_configs (fst x) st,
                 length key > 7 \<and> take 7 key = ''manage.'' \<and> parse_bool_config value]"
  using get_managed_features_active [OF assms] unfolding managed_of_def by blast

definition module_os :: os where
  "module_os = demo_os\<lparr>fs := fs demo_os @ [(''/data/adb/modules'', Dir), (''/data/adb/modules/m'', Dir),
     (''/data/adb/modules/off'', Dir), (''/data/adb/modules/off/disable'', Reg 420 []),
     (''/data/tamisu/module_configs/m/tmp.config'', Reg 420 (''manage.zygisk=On'' @ [NL])),
     (''/data/tamisu/module_configs/off/tmp.config'', Reg 420 (''manage.zygisk=1'' @ [NL]))]\<rparr>"

theorem managed_features_active_witness: "module_active module_os ''m''"
proof -
  have "get_managed_features module_os = [(''m'', [''zygisk''])]" by code_simp
  then show ?thesis using managed_features_active [of "(''m'', [''zygisk''])" module_os] by simp
qed

section \<open>Feature switches\<close>

text \<open>
  C3: booting restores the persisted switches: after \<^verbatim>\<open>init_features\<close> a supported switch has
  the value of the cache, unless an active module manages it or the cache does not name it;
  then it is what it was.
\<close>

theorem init_features_kernel:
  assumes "probe_good k" "snd (get_feature junk i k)"
  shows "get_feature junk i (snd (snd (init_features set_feature st k))) =
      (if i \<in> managed_ids (get_managed_features st) then get_feature junk i k
       else (case map_of (load_binary_config st) i of
               None \<Rightarrow> get_feature junk i k
             | Some v \<Rightarrow> (if v = 0 then 0 else 1, True)))"
proof -
  let ?m = "drop_managed (get_managed_features st) (load_binary_config st)"
  have "distinct (map fst ?m)"
    by (intro cache_distinct cache_ok_drop_managed cache_ok_load)
  from zygisk_kernel.get_fold [OF assms(1) this assms(2)]
  have "get_feature junk i (apply_config set_feature ?m k) =
      (case map_of ?m i of None \<Rightarrow> get_feature junk i k | Some v \<Rightarrow> (if v = 0 then 0 else 1, True))"
    by (simp add: apply_config_def)
  moreover have "snd (snd (init_features set_feature st k)) = apply_config set_feature ?m k"
    by (simp add: init_features_def Let_def apply_config_def)
  ultimately show ?thesis by (simp add: map_of_drop_managed)
qed

definition cached_os :: os where
  "cached_os = demo_os\<lparr>fs := fs demo_os @
     [(''/data/tamisu/.feature_config'', Reg 420 (render_features [(FEATURE_YUKIZYGISK, 7)]))]\<rparr>"

lemma cached_load: "load_binary_config cached_os = [(FEATURE_YUKIZYGISK, 7)]"
proof -
  have "cache_ok [(FEATURE_YUKIZYGISK, 7)]" by (simp add: cache_ok_def)
  then show ?thesis
    by (simp add: load_binary_config_def cached_os_def demo_os_def read_file_def node_at_def strip_slash_def
        feature_config_path_def WORKING_DIR_def file_text_def cache_file.parse_render)
qed

lemma cached_unmanaged: "get_managed_features cached_os = []"
  by (simp add: get_managed_features_def is_dir_def node_at_def strip_slash_def cached_os_def demo_os_def MODULE_DIR_def)

theorem init_features_kernel_witness:
  "get_feature False FEATURE_YUKIZYGISK (snd (snd (init_features set_feature cached_os (booted True)))) = (1, True)"
proof -
  have "snd (get_feature False FEATURE_YUKIZYGISK (booted True))" by code_simp
  from init_features_kernel [OF probe_good_booted this, of cached_os]
  show ?thesis by (simp add: cached_load cached_unmanaged managed_ids_def)
qed

text \<open>C26: the binary feature cache round trips through its file.\<close>

theorem feature_cache_roundtrip:
  assumes "save_binary_config m st = (0, st')" "omap_ok m" "length m < 2 ^ 32"
  shows "load_binary_config st' = m"
  using assms by (intro load_after_save_binary) (auto simp: cache_ok_def)

theorem feature_cache_roundtrip_witness:
  "load_binary_config (snd (save_binary_config [(1, 2), (103, 1)] demo_os)) = [(1, 2), (103, 1)]"
proof -
  have "fst (save_binary_config [(1, 2), (103, 1)] demo_os) = 0"
    by (simp add: save_binary_config_def ensure_dir_exists_def exists_path_def node_at_def demo_os_def strip_slash_def
        WORKING_DIR_def write_file_def can_write_def feature_config_path_def creatable_def is_dir_def parent_def rfind_slash_def
        split: prod.splits bool.splits)
  then have "save_binary_config [(1, 2), (103, 1)] demo_os = (0, snd (save_binary_config [(1, 2), (103, 1)] demo_os))"
    by (metis prod.collapse)
  from feature_cache_roundtrip [OF this] show ?thesis by simp
qed

text \<open>
  \<^verbatim>\<open>feature load\<close> applies nothing of a readable \<^verbatim>\<open>.tamisurc\<close>, whatever it holds, and leaves
  the binary cache empty: the switches that were persisted are lost.
\<close>

theorem feature_load_wipes:
  assumes "read_file st TAMISURC_PATH = Some content"
    and "can_write (snd (ensure_dir_exists WORKING_DIR st)) feature_config_path"
  shows "\<exists>st'. feature_load_config put st k = (0, st', k) \<and> load_binary_config st' = []"
proof -
  obtain st' where w: "write_file feature_config_path (render_features []) (snd (ensure_dir_exists WORKING_DIR st)) = (True, st')"
    using assms(2) by (simp add: write_file_def)
  then have "save_binary_config [] st = (0, st')" by (simp add: save_binary_config_def)
  then have "load_binary_config st' = []" by (rule load_after_save_binary) (simp add: cache_ok_def)
  with \<open>save_binary_config [] st = (0, st')\<close> show ?thesis
    by (simp add: feature_load_config_def assms(1) load_lines_skip)
qed

definition saved_os :: os where
  "saved_os = cached_os\<lparr>fs := fs cached_os @ [(''/data/tamisu/.tamisurc'', Reg 420 (''zygisk=1'' @ [NL]))]\<rparr>"

theorem feature_load_wipes_witness:
  "\<exists>st'. feature_load_config set_feature saved_os (booted True) = (0, st', booted True) \<and> load_binary_config st' = []"
  by (rule feature_load_wipes)
    (simp_all add: saved_os_def cached_os_def demo_os_def read_file_def node_at_def strip_slash_def TAMISURC_PATH_def
      file_text_def ensure_dir_exists_def exists_path_def WORKING_DIR_def can_write_def feature_config_path_def)

text \<open>
  A feature is known by its name only; no numeral is accepted, although ids are meant to be
  tried first.
\<close>

theorem feature_id_by_name_only:
  "parse_feature_id s = (if s = ''zygisk'' then Some FEATURE_YUKIZYGISK else None)"
  by (rule parse_feature_id_name)

end
