(* ===== verification/Json.thy ===== *)
theory Json
  imports Complex_Main Ordered_Map Utils
begin

text \<open>
  The JSON library \<^verbatim>\<open>daemon/tamisud_core/src/core/json.h\<close>: values, the printer, and the
  recursive-descent parser.  A parser position is the text left.  A call returns a value,
  throws (\<^verbatim>\<open>std::stod\<close> on a numeral it cannot read), or runs out of the fuel that bounds
  the nesting of calls; \<open>parse_fuel\<close> shows which fuel is enough, and an array element that
  is no value never ends the loop.

  A \<^verbatim>\<open>double\<close> is its exact value, a rational rounded to 53 bits.
\<close>

section \<open>Doubles\<close>

fun log2_nat :: "nat \<Rightarrow> nat" where
  "log2_nat n = (if n < 2 then 0 else Suc (log2_nat (n div 2)))"

declare log2_nat.simps [simp del]

definition pow2 :: "int \<Rightarrow> rat" where
  "pow2 e = (if 0 \<le> e then 2 ^ nat e else 1 / 2 ^ nat (- e))"

definition ilog2 :: "rat \<Rightarrow> int" where
  "ilog2 a =
     (case quotient_of a of
        (p, q) \<Rightarrow>
          (let e = int (log2_nat (nat p)) - int (log2_nat (nat q)) in if pow2 e \<le> a then e else e - 1))"

definition round_half_even :: "rat \<Rightarrow> int" where
  "round_half_even x =
     (let f = \<lfloor>x\<rfloor>; d = x - of_int f
      in if d < 1 / 2 then f else if 1 / 2 < d then f + 1 else if even f then f else f + 1)"

definition round_double :: "rat \<Rightarrow> rat" where
  "round_double r =
     (if r = 0 then 0
      else (let a = \<bar>r\<bar>; u = pow2 (max (ilog2 a) (- 1022) - 52)
            in sgn r * (of_int (round_half_even (a / u)) * u)))"

text \<open>\<^verbatim>\<open>strtod\<close> on the characters the parser collects; \<open>None\<close> when it converts nothing.\<close>

definition strtod_dec :: "string \<Rightarrow> rat option" where
  "strtod_dec s =
     (let t = (if peek s = CHR ''-'' then tl s else s);
          ip = takeWhile is_digit t; r = dropWhile is_digit t;
          fp = (if peek r = CHR ''.'' then takeWhile is_digit (tl r) else [])
      in if ip = [] \<and> fp = [] then None
         else Some ((if peek s = CHR ''-'' then -1 else 1) *
                    (of_nat (digits_value (ip @ fp)) / 10 ^ length fp)))"

datatype 'a outcome = Ret 'a | Throw | NoFuel

definition stod :: "string \<Rightarrow> rat outcome" where
  "stod s =
     (case strtod_dec s of
        None \<Rightarrow> Throw
      | Some r \<Rightarrow> if pow2 1024 \<le> \<bar>round_double r\<bar> then Throw else Ret (round_double r))"

section \<open>Values\<close>

datatype json =
    JNull
  | JBool bool
  | JNumber rat
  | JString string
  | JArray "json list"
  | JObject "(string \<times> json) list"

definition as_bool :: "json \<Rightarrow> bool" where
  "as_bool v = (case v of JBool b \<Rightarrow> b | _ \<Rightarrow> False)"

definition as_number :: "json \<Rightarrow> rat" where
  "as_number v = (case v of JNumber n \<Rightarrow> n | _ \<Rightarrow> 0)"

definition json_at :: "json \<Rightarrow> string \<Rightarrow> json" where
  "json_at v key =
     (case v of JObject m \<Rightarrow> (case map_of m key of None \<Rightarrow> JNull | Some w \<Rightarrow> w) | _ \<Rightarrow> JNull)"

definition json_contains :: "json \<Rightarrow> string \<Rightarrow> bool" where
  "json_contains v key = (case v of JObject m \<Rightarrow> map_of m key \<noteq> None | _ \<Rightarrow> False)"

definition json_set :: "json \<Rightarrow> string \<Rightarrow> json \<Rightarrow> json" where
  "json_set v key w = (case v of JObject m \<Rightarrow> JObject (omap_put key w m) | _ \<Rightarrow> JObject [(key, w)])"

definition json_push_back :: "json \<Rightarrow> json \<Rightarrow> json" where
  "json_push_back v w = (case v of JArray a \<Rightarrow> JArray (a @ [w]) | _ \<Rightarrow> JArray [w])"

section \<open>Printing\<close>

definition hex_digit :: "nat \<Rightarrow> char" where
  "hex_digit n = (if n < 10 then char_of (48 + n) else char_of (87 + n))"

definition escape_char :: "char \<Rightarrow> string" where
  "escape_char c =
     (if c = QUOTE then [BACKSLASH, QUOTE]
      else if c = BACKSLASH then [BACKSLASH, BACKSLASH]
      else if c = CHR 0x08 then [BACKSLASH, CHR ''b'']
      else if c = CHR 0x0C then [BACKSLASH, CHR ''f'']
      else if c = NL then [BACKSLASH, CHR ''n'']
      else if c = CR then [BACKSLASH, CHR ''r'']
      else if c = TAB then [BACKSLASH, CHR ''t'']
      else if char_code c < 32 then
        [BACKSLASH, CHR ''u'', CHR ''0'', CHR ''0'', hex_digit (char_code c div 16), hex_digit (char_code c mod 16)]
      else [c])"

definition escape_string :: "string \<Rightarrow> string" where
  "escape_string s = [QUOTE] @ concat (map escape_char s) @ [QUOTE]"

text \<open>\<^verbatim>\<open>std::to_string (double)\<close>: six decimals, the exact value rounded half to even.\<close>

definition pad6 :: "nat \<Rightarrow> string" where
  "pad6 n = replicate (6 - length (show_nat n)) CHR ''0'' @ show_nat n"

definition show_double :: "rat \<Rightarrow> string" where
  "show_double r =
     (let m = nat (round_half_even (\<bar>r\<bar> * 10 ^ 6))
      in (if r < 0 then ''-'' else []) @ show_nat (m div 10 ^ 6) @ ''.'' @ pad6 (m mod 10 ^ 6))"

definition dump_number :: "rat \<Rightarrow> string" where
  "dump_number r =
     (let s = rev (dropWhile (\<lambda>c. c = CHR ''0'') (rev (show_double r)))
      in if s \<noteq> [] \<and> last s = CHR ''.'' then butlast s else s)"

definition sep_items :: "string \<Rightarrow> string list \<Rightarrow> string" where
  "sep_items sep items = (case items of [] \<Rightarrow> [] | i # is \<Rightarrow> i @ concat (map (\<lambda>j. sep @ j) is))"

text \<open>\<open>indent\<close> is \<open>None\<close> for the compact form.\<close>

fun dump :: "nat option \<Rightarrow> nat \<Rightarrow> json \<Rightarrow> string" where
  "dump indent level JNull = ''null''"
| "dump indent level (JBool b) = (if b then ''true'' else ''false'')"
| "dump indent level (JNumber n) = dump_number n"
| "dump indent level (JString s) = escape_string s"
| "dump indent level (JArray a) =
     (if a = [] then ''[]''
      else (let pre = (case indent of None \<Rightarrow> [] | Some i \<Rightarrow> replicate ((level + 1) * i) CHR '' '');
                nl = (case indent of None \<Rightarrow> [] | Some i \<Rightarrow> [NL])
            in ''['' @ nl @
               sep_items ('','' @ (case indent of None \<Rightarrow> '' '' | Some i \<Rightarrow> [NL]))
                 (map (\<lambda>v. pre @ dump indent (level + 1) v) a) @
               (case indent of None \<Rightarrow> [] | Some i \<Rightarrow> [NL] @ replicate (level * i) CHR '' '') @ '']''))"
| "dump indent level (JObject m) =
     (if m = [] then ''{}''
      else (let pre = (case indent of None \<Rightarrow> [] | Some i \<Rightarrow> replicate ((level + 1) * i) CHR '' '');
                nl = (case indent of None \<Rightarrow> [] | Some i \<Rightarrow> [NL])
            in ''{'' @ nl @
               sep_items ('','' @ (case indent of None \<Rightarrow> '' '' | Some i \<Rightarrow> [NL]))
                 (map (\<lambda>(k, v). pre @ escape_string k @ '':'' @ (case indent of None \<Rightarrow> [] | Some i \<Rightarrow> '' '') @
                                dump indent (level + 1) v) m) @
               (case indent of None \<Rightarrow> [] | Some i \<Rightarrow> [NL] @ replicate (level * i) CHR '' '') @ ''}''))"

section \<open>Parsing\<close>

definition skip_ws :: "string \<Rightarrow> string" where
  "skip_ws p = dropWhile is_space p"

definition unescape :: "char \<Rightarrow> char" where
  "unescape c = (if c = CHR ''n'' then NL else if c = CHR ''t'' then TAB else c)"

fun string_loop :: "string \<Rightarrow> string \<Rightarrow> string \<times> string" where
  "string_loop [] s = (s, [])"
| "string_loop (c # cs) s =
     (if c = QUOTE then (s, cs)
      else if c = BACKSLASH then (case cs of [] \<Rightarrow> (s, []) | d # ds \<Rightarrow> string_loop ds (s @ [unescape d]))
      else string_loop cs (s @ [c]))"

definition parse_string :: "string \<Rightarrow> string \<times> string" where
  "parse_string p = string_loop (drop 1 p) []"

definition is_number_char :: "char \<Rightarrow> bool" where
  "is_number_char c \<longleftrightarrow> is_digit c \<or> c = CHR ''-'' \<or> c = CHR ''.''"

definition parse_number :: "string \<Rightarrow> (json \<times> string) outcome" where
  "parse_number p =
     (case stod (takeWhile is_number_char p) of
        Ret n \<Rightarrow> Ret (JNumber n, dropWhile is_number_char p)
      | Throw \<Rightarrow> Throw
      | NoFuel \<Rightarrow> NoFuel)"

definition skip_comma :: "string \<Rightarrow> string" where
  "skip_comma p = (if peek (skip_ws p) = CHR '','' then tl (skip_ws p) else skip_ws p)"

definition skip_colon :: "string \<Rightarrow> string" where
  "skip_colon p = (if peek (skip_ws p) = CHR '':'' then tl (skip_ws p) else skip_ws p)"

fun parse_value :: "nat \<Rightarrow> string \<Rightarrow> (json \<times> string) outcome"
  and parse_array :: "nat \<Rightarrow> string \<Rightarrow> json list \<Rightarrow> (json \<times> string) outcome"
  and parse_object :: "nat \<Rightarrow> string \<Rightarrow> (string \<times> json) list \<Rightarrow> (json \<times> string) outcome"
where
  "parse_value 0 p = NoFuel"
| "parse_value (Suc f) p =
     (case skip_ws p of
        [] \<Rightarrow> Ret (JNull, [])
      | c # r \<Rightarrow>
          if c = CHR ''n'' then Ret (JNull, drop 4 (c # r))
          else if c = CHR ''t'' then Ret (JBool True, drop 4 (c # r))
          else if c = CHR ''f'' then Ret (JBool False, drop 5 (c # r))
          else if c = QUOTE then (case parse_string (c # r) of (s, r') \<Rightarrow> Ret (JString s, r'))
          else if c = CHR ''['' then parse_array f r []
          else if c = CHR ''{'' then parse_object f r []
          else if c = CHR ''-'' \<or> is_digit c then parse_number (c # r)
          else Ret (JNull, c # r))"
| "parse_array 0 p a = NoFuel"
| "parse_array (Suc f) p a =
     (case skip_ws p of
        [] \<Rightarrow> Ret (JArray a, [])
      | c # r \<Rightarrow>
          if c = CHR '']'' then Ret (JArray a, r)
          else (case parse_value f (c # r) of
                  Ret (v, r') \<Rightarrow> parse_array f (skip_comma r') (a @ [v])
                | Throw \<Rightarrow> Throw
                | NoFuel \<Rightarrow> NoFuel))"
| "parse_object 0 p m = NoFuel"
| "parse_object (Suc f) p m =
     (case skip_ws p of
        [] \<Rightarrow> Ret (JObject m, [])
      | c # r \<Rightarrow>
          if c = CHR ''}'' then Ret (JObject m, r)
          else (case parse_string (c # r) of
                  (key, r1) \<Rightarrow>
                    (case parse_value f (skip_colon r1) of
                       Ret (v, r') \<Rightarrow> parse_object f (skip_comma r') (omap_put key v m)
                     | Throw \<Rightarrow> Throw
                     | NoFuel \<Rightarrow> NoFuel)))"

definition json_parse :: "string \<Rightarrow> json outcome" where
  "json_parse s =
     (case parse_value (2 * length s + 2) s of Ret (v, _) \<Rightarrow> Ret v | Throw \<Rightarrow> Throw | NoFuel \<Rightarrow> NoFuel)"

section \<open>Fuel\<close>

lemma skip_ws_suffix: "suffix (skip_ws p) p"
  by (simp add: skip_ws_def suffix_dropWhile)

lemma skip_ws_head: "skip_ws p = c # r \<Longrightarrow> \<not> is_space c"
  unfolding skip_ws_def by (rule head_dropWhile)

lemma skip_ws_idem [simp]: "skip_ws (skip_ws p) = skip_ws p"
  by (simp add: skip_ws_def dropWhile_idem)

lemma suffix_tl: "suffix q p \<Longrightarrow> suffix (tl q) p"
  by (cases q) (auto simp: suffix_def)

lemma skip_comma_suffix: "suffix (skip_comma p) p"
  using skip_ws_suffix [of p] by (auto simp: skip_comma_def intro: suffix_tl)

lemma skip_colon_suffix: "suffix (skip_colon p) p"
  using skip_ws_suffix [of p] by (auto simp: skip_colon_def intro: suffix_tl)

lemma suffix_drop_Cons [simp]: "suffix (drop n r) (c # r)"
  by (intro suffix_ConsI suffix_drop)

lemma string_loop_suffix: "string_loop p s = (t, r) \<Longrightarrow> suffix r p"
proof (induction p s arbitrary: t r rule: string_loop.induct)
  case (2 c cs s)
  then show ?case by (cases cs) (auto split: if_splits intro: suffix_ConsI suffix_ConsI [OF suffix_ConsI])
qed simp

lemma parse_string_suffix: "parse_string (c # p) = (t, r) \<Longrightarrow> suffix r p"
  by (auto simp: parse_string_def dest: string_loop_suffix)

lemma parse_number_suffix: "parse_number p = Ret (v, r) \<Longrightarrow> suffix r p"
  by (auto simp: parse_number_def suffix_dropWhile split: outcome.splits)

lemma parse_suffix:
  "parse_value f p = Ret (v, r) \<Longrightarrow> suffix r p"
  "parse_array f p a = Ret (w, r) \<Longrightarrow> suffix r p"
  "parse_object f p m = Ret (x, r) \<Longrightarrow> suffix r p"
proof (induction f p and f p a and f p m arbitrary: v r and w r and x r
    rule: parse_value_parse_array_parse_object.induct)
  case (2 f p)
  show ?case
  proof (cases "skip_ws p")
    case (Cons c r0)
    have "suffix r (c # r0)"
    proof (cases "c \<in> set ''ntf[{'' \<union> {QUOTE}")
      case True
      then show ?thesis
        using 2(3) 2(1) [OF Cons] 2(2) [OF Cons] Cons
        by (auto split: prod.splits intro: suffix_ConsI simp: suffix_drop dest!: parse_string_suffix)
    next
      case False
      then show ?thesis using 2(3) Cons
        by (auto split: if_splits dest!: parse_number_suffix)
    qed
    then show ?thesis using skip_ws_suffix [of p] suffix_order.trans unfolding Cons by blast
  qed (use 2 in simp)
next
  case (4 f p a)
  show ?case
  proof (cases "skip_ws p")
    case (Cons c r0)
    have "suffix r (c # r0)"
    proof (cases "c = CHR '']''")
      case False
      then obtain v' r' where v: "parse_value f (c # r0) = Ret (v', r')"
        "parse_array f (skip_comma r') (a @ [v']) = Ret (w, r)"
        using 4(3) Cons by (auto split: outcome.splits prod.splits)
      have "suffix r' (c # r0)" using 4(1) [OF Cons False] v(1) by blast
      moreover have "suffix r (skip_comma r')" using 4(2) [OF Cons False v(1)] v(2) by blast
      ultimately show ?thesis using skip_comma_suffix suffix_order.trans by blast
    qed (use 4(3) Cons in \<open>auto intro: suffix_ConsI\<close>)
    then show ?thesis using skip_ws_suffix [of p] suffix_order.trans unfolding Cons by blast
  qed (use 4 in simp)
next
  case (6 f p m)
  show ?case
  proof (cases "skip_ws p")
    case (Cons c r0)
    have "suffix r (c # r0)"
    proof (cases "c = CHR ''}''")
      case False
      obtain key r1 where k: "parse_string (c # r0) = (key, r1)" by force
      then obtain v' r' where v: "parse_value f (skip_colon r1) = Ret (v', r')"
        "parse_object f (skip_comma r') (omap_put key v' m) = Ret (x, r)"
        using 6(3) Cons False by (auto split: outcome.splits prod.splits)
      have "suffix r (skip_comma r')" using 6(2) [OF Cons False k [symmetric] v(1) refl] v(2) by blast
      moreover have "suffix r' (skip_colon r1)" using 6(1) [OF Cons False k [symmetric]] v(1) by blast
      ultimately have "suffix r r'" "suffix r' r1"
        by (blast intro: suffix_order.trans [OF _ skip_comma_suffix] suffix_order.trans [OF _ skip_colon_suffix])+
      then have "suffix r r0" by (metis parse_string_suffix [OF k] suffix_order.trans)
      then show ?thesis by (rule suffix_ConsI)
    qed (use 6(3) Cons in \<open>auto intro: suffix_ConsI\<close>)
    then show ?thesis using skip_ws_suffix [of p] suffix_order.trans unfolding Cons by blast
  qed (use 6 in simp)
qed simp_all

text \<open>Once a call answers, more fuel gives the same answer.\<close>

lemma parse_mono:
  "parse_value f p \<noteq> NoFuel \<Longrightarrow> f \<le> g \<Longrightarrow> parse_value g p = parse_value f p"
  "parse_array f p a \<noteq> NoFuel \<Longrightarrow> f \<le> g \<Longrightarrow> parse_array g p a = parse_array f p a"
  "parse_object f p m \<noteq> NoFuel \<Longrightarrow> f \<le> g \<Longrightarrow> parse_object g p m = parse_object f p m"
proof (induction f p and f p a and f p m arbitrary: g and g and g
    rule: parse_value_parse_array_parse_object.induct)
  case (2 f p)
  obtain h where h: "g = Suc h" "f \<le> h" using 2(4) by (cases g) auto
  show ?case
  proof (cases "skip_ws p")
    case (Cons c r0)
    consider "c = CHR ''[''" | "c = CHR ''{''" | "c \<noteq> CHR ''[''" "c \<noteq> CHR ''{''" by blast
    then show ?thesis
    proof cases
      case 1
      then show ?thesis using 2(3) 2(1) [OF Cons, of h] h Cons by simp
    next
      case 2
      then show ?thesis using "2.prems"(1) "2.IH"(2) [OF Cons, of h] h Cons by simp
    next
      case 3
      then show ?thesis using h Cons by simp
    qed
  qed (simp add: h)
next
  case (4 f p a)
  obtain h where h: "g = Suc h" "f \<le> h" using 4(4) by (cases g) auto
  show ?case
  proof (cases "skip_ws p")
    case (Cons c r0)
    show ?thesis
    proof (cases "c = CHR '']''")
      case False
      have "parse_value f (c # r0) \<noteq> NoFuel" using 4(3) Cons False by auto
      then have v: "parse_value h (c # r0) = parse_value f (c # r0)"
        using 4(1) [OF Cons False] h(2) by blast
      show ?thesis
      proof (cases "parse_value f (c # r0)")
        case (Ret x)
        then obtain v' r' where x: "parse_value f (c # r0) = Ret (v', r')" by (cases x) auto
        have "parse_array f (skip_comma r') (a @ [v']) \<noteq> NoFuel" using 4(3) Cons False x by simp
        then have "parse_array h (skip_comma r') (a @ [v']) = parse_array f (skip_comma r') (a @ [v'])"
          using 4(2) [OF Cons False x refl] h(2) by blast
        then show ?thesis using Cons False x v h by simp
      qed (use Cons False v h in simp_all)
    qed (use Cons h in simp)
  qed (simp add: h)
next
  case (6 f p m)
  obtain h where h: "g = Suc h" "f \<le> h" using 6(4) by (cases g) auto
  show ?case
  proof (cases "skip_ws p")
    case (Cons c r0)
    show ?thesis
    proof (cases "c = CHR ''}''")
      case False
      obtain key r1 where k: "parse_string (c # r0) = (key, r1)" by force
      have "parse_value f (skip_colon r1) \<noteq> NoFuel" using 6(3) Cons False k by auto
      then have v: "parse_value h (skip_colon r1) = parse_value f (skip_colon r1)"
        using 6(1) [OF Cons False k [symmetric]] h(2) by blast
      show ?thesis
      proof (cases "parse_value f (skip_colon r1)")
        case (Ret x)
        then obtain v' r' where x: "parse_value f (skip_colon r1) = Ret (v', r')" by (cases x) auto
        have "parse_object f (skip_comma r') (omap_put key v' m) \<noteq> NoFuel" using 6(3) Cons False x k by simp
        then have "parse_object h (skip_comma r') (omap_put key v' m) = parse_object f (skip_comma r') (omap_put key v' m)"
          using 6(2) [OF Cons False k [symmetric] x refl] h(2) by blast
        then show ?thesis using Cons False x v h k by simp
      qed (use Cons False v h k in simp_all)
    qed (use Cons h in simp)
  qed (simp add: h)
qed simp_all

text \<open>An array element that consumes nothing is read again and again.\<close>

lemma parse_array_stuck:
  assumes "parse_value f (c # r) = Ret (v, r')" "skip_comma r' = c # r" "\<not> is_space c" "c \<noteq> CHR '']''"
  shows "parse_array n (c # r) a = NoFuel"
proof (induction n arbitrary: a)
  case (Suc n)
  have ws: "skip_ws (c # r) = c # r" using assms(3) by (simp add: skip_ws_def)
  show ?case
  proof (cases "parse_value n (c # r) = NoFuel")
    case False
    have "parse_value n (c # r) = Ret (v, r')"
      using parse_mono(1) [OF False, of "max n f"] parse_mono(1) [of f "c # r" "max n f"] assms(1) by simp
    then show ?thesis using Suc assms(2,4) ws by simp
  qed (use ws assms(4) in simp)
qed simp

lemma suffix_same_length: "suffix r p \<Longrightarrow> length p \<le> length r \<Longrightarrow> r = p"
  by (auto simp: suffix_def)

text \<open>Fuel of twice the length of the text is enough for every call that ends at all.\<close>

lemma parse_enough:
  "parse_value f p \<noteq> NoFuel \<Longrightarrow> 2 * length p \<le> g \<Longrightarrow> 1 \<le> g \<Longrightarrow> parse_value g p = parse_value f p"
  "parse_array f p a \<noteq> NoFuel \<Longrightarrow> 2 * length p + 1 \<le> g \<Longrightarrow> parse_array g p a = parse_array f p a"
  "parse_object f p m \<noteq> NoFuel \<Longrightarrow> 2 * length p + 1 \<le> g \<Longrightarrow> parse_object g p m = parse_object f p m"
proof (induction f p and f p a and f p m arbitrary: g and g and g
    rule: parse_value_parse_array_parse_object.induct)
  case (2 f p)
  obtain h where h: "g = Suc h" using 2(5) by (cases g) auto
  show ?case
  proof (cases "skip_ws p")
    case (Cons c r0)
    have "length (c # r0) \<le> length p"
      using suffix_length_le [OF skip_ws_suffix [of p]] unfolding Cons .
    then have "2 * length r0 + 1 \<le> h" using 2(4) h by simp
    then have hl: "2 * length r0 + 1 \<le> h" .
    consider "c = CHR ''[''" | "c = CHR ''{''" | "c \<noteq> CHR ''[''" "c \<noteq> CHR ''{''" by blast
    then show ?thesis
    proof cases
      case 1
      then show ?thesis using 2(3) 2(1) [OF Cons, of h] hl h Cons by simp
    next
      case 2
      then show ?thesis using "2.prems"(1) "2.IH"(2) [OF Cons, of h] hl h Cons by simp
    next
      case 3
      then show ?thesis using h Cons by simp
    qed
  qed (simp add: h)
next
  case (4 f p a)
  obtain h where h: "g = Suc h" using 4(4) by (cases g) auto
  show ?case
  proof (cases "skip_ws p")
    case (Cons c r0)
    have len: "length (c # r0) \<le> length p"
      using suffix_length_le [OF skip_ws_suffix [of p]] unfolding Cons .
    show ?thesis
    proof (cases "c = CHR '']''")
      case False
      have "parse_value f (c # r0) \<noteq> NoFuel" using 4(3) Cons False by auto
      moreover have "2 * length (c # r0) \<le> h" "1 \<le> h" using 4(4) h len by simp_all
      ultimately have v: "parse_value h (c # r0) = parse_value f (c # r0)"
        using 4(1) [OF Cons False] by blast
      show ?thesis
      proof (cases "parse_value f (c # r0)")
        case (Ret x)
        then obtain v' r' where x: "parse_value f (c # r0) = Ret (v', r')" by (cases x) auto
        have ne: "parse_array f (skip_comma r') (a @ [v']) \<noteq> NoFuel" using 4(3) Cons False x by simp
        have sfx: "suffix (skip_comma r') (c # r0)"
          using parse_suffix(1) [OF x] skip_comma_suffix suffix_order.trans by blast
        have "skip_comma r' \<noteq> c # r0"
          using parse_array_stuck [OF x _ skip_ws_head [OF Cons] False] ne by metis
        then have "length (skip_comma r') < length (c # r0)"
          using suffix_same_length [OF sfx] by linarith
        then have "2 * length (skip_comma r') + 1 \<le> h" using len 4(4) h by simp
        then have "parse_array h (skip_comma r') (a @ [v']) = parse_array f (skip_comma r') (a @ [v'])"
          using 4(2) [OF Cons False x refl] ne by blast
        then show ?thesis using Cons False x v h by simp
      qed (use Cons False v h in simp_all)
    qed (use Cons h in simp)
  qed (simp add: h)
next
  case (6 f p m)
  obtain h where h: "g = Suc h" using 6(4) by (cases g) auto
  show ?case
  proof (cases "skip_ws p")
    case (Cons c r0)
    have len: "length (c # r0) \<le> length p"
      using suffix_length_le [OF skip_ws_suffix [of p]] unfolding Cons .
    show ?thesis
    proof (cases "c = CHR ''}''")
      case False
      obtain key r1 where k: "parse_string (c # r0) = (key, r1)" by force
      have len1: "length (skip_colon r1) \<le> length r0"
        using suffix_length_le [OF parse_string_suffix [OF k]] suffix_length_le [OF skip_colon_suffix [of r1]]
        by linarith
      have "parse_value f (skip_colon r1) \<noteq> NoFuel" using 6(3) Cons False k by auto
      moreover have "2 * length (skip_colon r1) \<le> h" "1 \<le> h" using len1 6(4) h len by simp_all
      ultimately have v: "parse_value h (skip_colon r1) = parse_value f (skip_colon r1)"
        using 6(1) [OF Cons False k [symmetric]] by blast
      show ?thesis
      proof (cases "parse_value f (skip_colon r1)")
        case (Ret x)
        then obtain v' r' where x: "parse_value f (skip_colon r1) = Ret (v', r')" by (cases x) auto
        have ne: "parse_object f (skip_comma r') (omap_put key v' m) \<noteq> NoFuel" using 6(3) Cons False x k by simp
        have "length (skip_comma r') \<le> length r0"
          using suffix_length_le [OF parse_suffix(1) [OF x]] suffix_length_le [OF skip_comma_suffix [of r']] len1
          by linarith
        then have "2 * length (skip_comma r') + 1 \<le> h" using len 6(4) h by simp
        then have "parse_object h (skip_comma r') (omap_put key v' m) = parse_object f (skip_comma r') (omap_put key v' m)"
          using 6(2) [OF Cons False k [symmetric] x refl] ne by blast
        then show ?thesis using Cons False x v h k by simp
      qed (use Cons False v h k in simp_all)
    qed (use Cons h in simp)
  qed (simp add: h)
qed simp_all

lemma json_parse_fuel:
  "parse_value f s \<noteq> NoFuel \<Longrightarrow>
     json_parse s = (case parse_value f s of Ret (v, _) \<Rightarrow> Ret v | Throw \<Rightarrow> Throw | NoFuel \<Rightarrow> NoFuel)"
  unfolding json_parse_def by (subst parse_enough(1)) simp_all

end
