(* ===== verification/Json_Props.thy ===== *)
theory Json_Props
  imports Json
begin

text \<open>What the JSON library prints it reads back; where the parser does not end.\<close>

section \<open>Numbers\<close>

lemma log2_nat_le: "n < 2 ^ Suc k \<Longrightarrow> log2_nat n \<le> k"
proof (induction k arbitrary: n)
  case 0
  then show ?case by (subst log2_nat.simps) simp
next
  case (Suc k)
  show ?case
  proof (cases "n < 2")
    case False
    have "n div 2 < 2 ^ Suc k" using Suc.prems by simp
    then have "log2_nat (n div 2) \<le> k" by (rule Suc.IH)
    then show ?thesis using False by (subst log2_nat.simps) simp
  qed (subst log2_nat.simps, simp)
qed

lemma round_half_even_int [simp]: "round_half_even (of_int z) = z"
  by (simp add: round_half_even_def Let_def)

lemma ilog2_nat_le: "n < 2 ^ 53 \<Longrightarrow> ilog2 (of_nat n) \<le> 52"
proof -
  assume "n < 2 ^ 53"
  then have "log2_nat n \<le> 52" using log2_nat_le [of n 52] by simp
  moreover have "quotient_of (of_nat n :: rat) = (int n, 1)"
    using quotient_of_int [of "int n"] by (simp add: of_rat_rat)
  moreover have "log2_nat 1 = 0" by (subst log2_nat.simps) simp
  ultimately show ?thesis by (simp add: ilog2_def Let_def)
qed

lemma round_double_nat:
  assumes "n < 2 ^ 53"
  shows "round_double (of_nat n) = of_nat n"
proof (cases "n = 0")
  case False
  define k where "k = nat (52 - max (ilog2 (of_nat n)) (- 1022))"
  have e: "max (ilog2 (of_nat n)) (- 1022) - 52 = - int k"
    using ilog2_nat_le [OF assms] by (simp add: k_def)
  have u: "pow2 (- int k) = 1 / 2 ^ k" by (simp add: pow2_def)
  have "round_half_even (of_nat n * 2 ^ k) = int n * 2 ^ k"
    using round_half_even_int [of "int n * 2 ^ k"] by simp
  then show ?thesis using False by (simp add: round_double_def Let_def e u)
qed (simp add: round_double_def)

lemma stod_show_nat:
  assumes "n < 2 ^ 53"
  shows "stod (show_nat n) = Ret (of_nat n)"
proof -
  have dig: "\<And>c. c \<in> set (show_nat n) \<Longrightarrow> is_digit c" by (rule show_nat_digits)
  obtain c cs where s: "show_nat n = c # cs" by (cases "show_nat n") auto
  have "c \<noteq> CHR ''-''" using dig [of c] s by (auto simp: is_digit_def char_code_def)
  then have "peek (show_nat n) \<noteq> CHR ''-''" by (simp add: s)
  moreover have tw: "takeWhile is_digit (show_nat n) = show_nat n"
    using dig by (simp add: takeWhile_eq_all_conv)
  moreover have dw: "dropWhile is_digit (show_nat n) = []"
    using dig by (simp add: dropWhile_eq_Nil_conv)
  ultimately have "strtod_dec (show_nat n) = Some (of_nat n)"
    by (simp only: strtod_dec_def Let_def if_False tw dw) simp
  moreover have "of_nat n < (2 :: rat) ^ 1024"
  proof -
    have "of_nat n < (of_nat (2 ^ 53) :: rat)" using assms by (simp only: of_nat_less_iff)
    also have "\<dots> \<le> 2 ^ 1024" by (simp add: power_increasing)
    finally show ?thesis .
  qed
  ultimately show ?thesis
    using round_double_nat [OF assms] by (simp add: stod_def pow2_def)
qed

lemma dump_number_nat: "dump_number (of_nat n) = show_nat n"
proof -
  have r: "round_half_even (of_nat n * 1000000) = int n * 1000000"
    using round_half_even_int [of "int n * 1000000"] by simp
  have p: "pad6 0 = ''000000''" by code_simp
  have "nat (int n * 1000000) = n * 1000000" by (simp add: nat_mult_distrib)
  then have "show_double (of_nat n) = show_nat n @ ''.000000''"
    by (simp add: show_double_def Let_def r p)
  then show ?thesis by (simp add: dump_number_def Let_def)
qed

section \<open>Strings\<close>

definition str_ok :: "string \<Rightarrow> bool" where
  "str_ok s \<longleftrightarrow> (\<forall>c \<in> set s. c = NL \<or> c = TAB \<or> 32 \<le> char_code c)"

lemma escape_char_simps [simp]:
  "escape_char QUOTE = [BACKSLASH, QUOTE]" "escape_char BACKSLASH = [BACKSLASH, BACKSLASH]"
  "escape_char NL = [BACKSLASH, CHR ''n'']" "escape_char TAB = [BACKSLASH, CHR ''t'']"
  by (simp_all add: escape_char_def)

lemma string_loop_escape:
  "str_ok s \<Longrightarrow> string_loop (concat (map escape_char s) @ QUOTE # rest) acc = (acc @ s, rest)"
proof (induction s arbitrary: acc)
  case (Cons c s)
  then have IH: "string_loop (concat (map escape_char s) @ QUOTE # rest) (acc @ [c]) = (acc @ c # s, rest)"
    by (simp add: str_ok_def)
  have c: "c = NL \<or> c = TAB \<or> 32 \<le> char_code c" using Cons.prems by (simp add: str_ok_def)
  then have no: "c \<noteq> CHR 0x08" "c \<noteq> CHR 0x0C" "c \<noteq> CR" by (auto simp: char_code_def)
  consider "c = QUOTE" | "c = BACKSLASH" | "c = NL" | "c = TAB"
    | "c \<noteq> QUOTE" "c \<noteq> BACKSLASH" "c \<noteq> NL" "c \<noteq> TAB" "32 \<le> char_code c" using c by blast
  then show ?case
  proof cases
    case 5
    then have "escape_char c = [c]" using no by (simp add: escape_char_def)
    then show ?thesis using IH 5 by simp
  qed (use IH in \<open>simp_all add: unescape_def\<close>)
qed simp

lemma parse_string_escape: "str_ok s \<Longrightarrow> parse_string (escape_string s @ rest) = (s, rest)"
  by (simp add: parse_string_def escape_string_def string_loop_escape)

section \<open>Values\<close>

fun json_ok :: "json \<Rightarrow> bool" where
  "json_ok JNull \<longleftrightarrow> True"
| "json_ok (JBool b) \<longleftrightarrow> True"
| "json_ok (JNumber r) \<longleftrightarrow> (\<exists>n < 2 ^ 53. r = of_nat n)"
| "json_ok (JString s) \<longleftrightarrow> str_ok s"
| "json_ok (JArray a) \<longleftrightarrow> (\<forall>v \<in> set a. json_ok v)"
| "json_ok (JObject m) \<longleftrightarrow> omap_ok m \<and> (\<forall>e \<in> set m. str_ok (fst e) \<and> json_ok (snd e))"

text \<open>The text after a value: it must not continue a numeral.\<close>

definition stops :: "string \<Rightarrow> bool" where
  "stops rest \<longleftrightarrow> (case rest of [] \<Rightarrow> True | c # _ \<Rightarrow> \<not> is_number_char c)"

definition dump_item :: "string \<times> json \<Rightarrow> string" where
  "dump_item e = escape_string (fst e) @ '':'' @ dump None 0 (snd e)"

lemma dump_level: "dump None l v = dump None 0 v"
proof (induction v arbitrary: l)
  case (JArray a)
  have "map (\<lambda>v. dump None (l + 1) v) a = map (\<lambda>v. dump None (0 + 1) v) a"
    using JArray [where l = "l + 1"] JArray [where l = "0 + 1"] by simp
  then show ?case by (simp add: Let_def del: map_eq_conv)
next
  case (JObject m)
  have "map (\<lambda>(k, v). escape_string k @ '':'' @ dump None (l + 1) v) m =
      map (\<lambda>(k, v). escape_string k @ '':'' @ dump None (0 + 1) v) m"
  proof (rule map_cong [OF refl])
    fix e assume "e \<in> set m"
    obtain k v where e: "e = (k, v)" by force
    have "dump None (l + 1) v = dump None 0 v" "dump None (0 + 1) v = dump None 0 v"
      using JObject [OF \<open>e \<in> set m\<close>, of v] by (auto simp: e)
    then show "(case e of (k, v) \<Rightarrow> escape_string k @ '':'' @ dump None (l + 1) v) =
        (case e of (k, v) \<Rightarrow> escape_string k @ '':'' @ dump None (0 + 1) v)" by (simp add: e)
  qed
  then show ?case by (simp add: Let_def del: map_eq_conv)
qed simp_all

lemma dump_array: "a \<noteq> [] \<Longrightarrow> dump None l (JArray a) = ''['' @ sep_items '', '' (map (dump None 0) a) @ '']''"
proof -
  have "map (\<lambda>v. dump None (l + 1) v) a = map (dump None 0) a" by (rule map_cong [OF refl], rule dump_level)
  then show "a \<noteq> [] \<Longrightarrow> ?thesis" by (simp add: Let_def del: map_eq_conv)
qed

lemma dump_object: "m \<noteq> [] \<Longrightarrow> dump None l (JObject m) = ''{'' @ sep_items '', '' (map dump_item m) @ ''}''"
proof -
  have "map (\<lambda>(k, v). escape_string k @ '':'' @ dump None (l + 1) v) m = map dump_item m"
    by (rule map_cong [OF refl]) (auto simp: dump_item_def dump_level [of "Suc l"])
  then show "m \<noteq> [] \<Longrightarrow> ?thesis" by (simp add: Let_def del: map_eq_conv)
qed

text \<open>Every value prints to a text with a first character that is no blank and closes nothing.\<close>

lemma dump_head: "json_ok v \<Longrightarrow> \<exists>c r. dump None l v = c # r \<and> \<not> is_space c \<and> c \<noteq> CHR '']'' \<and> c \<noteq> CHR ''}''"
proof (cases v)
  case (JNumber x)
  assume "json_ok v"
  then obtain n where "x = of_nat n" using JNumber by auto
  moreover obtain c r where s: "show_nat n = c # r" by (cases "show_nat n") auto
  moreover have "is_digit c" using show_nat_digits [of c n] s by simp
  ultimately show ?thesis using JNumber
    by (auto simp: dump_number_nat digit_not_space) (auto simp: is_digit_def char_code_def)
qed (auto simp: escape_string_def is_space_def Let_def)

lemma value_at_max:
  "parse_value f p = Ret x \<Longrightarrow> parse_value (max f g) p = Ret x"
  "parse_array f p a = Ret x \<Longrightarrow> parse_array (max g f) p a = Ret x"
  "parse_object f p m = Ret x \<Longrightarrow> parse_object (max g f) p m = Ret x"
  using parse_mono(1) [of f p "max f g"] parse_mono(2) [of f p a "max g f"] parse_mono(3) [of f p m "max g f"] by simp_all

lemma parse_array_step:
  assumes "skip_ws p = c # r" "c \<noteq> CHR '']''" "parse_value f (c # r) = Ret (v, r')"
    and "parse_array g (skip_comma r') (a @ [v]) = Ret x"
  shows "\<exists>h. parse_array h p a = Ret x"
  using assms value_at_max(1) [OF assms(3), of g] value_at_max(2) [OF assms(4), of f]
  by (intro exI [of _ "Suc (max f g)"]) simp

lemma parse_object_step:
  assumes "skip_ws p = c # r" "c \<noteq> CHR ''}''" "parse_string (c # r) = (k, r1)"
    and "parse_value f (skip_colon r1) = Ret (v, r')"
    and "parse_object g (skip_comma r') (omap_put k v m) = Ret x"
  shows "\<exists>h. parse_object h p m = Ret x"
  using assms value_at_max(1) [OF assms(4), of g] value_at_max(3) [OF assms(5), of f]
  by (intro exI [of _ "Suc (max f g)"]) simp

lemma parse_space [simp]:
  "parse_array f (CHR '' '' # p) a = parse_array f p a" "parse_object f (CHR '' '' # p) m = parse_object f p m"
  by (cases f; simp add: skip_ws_def is_space_def)+

lemma sep_items_Cons: "sep_items sep (i # is) = i @ (if is = [] then [] else sep @ sep_items sep is)"
  by (simp add: sep_items_def split: list.split)

lemma skip_comma_simps [simp]:
  "skip_comma (CHR '','' # p) = p" "skip_comma (CHR '']'' # p) = CHR '']'' # p" "skip_comma (CHR ''}'' # p) = CHR ''}'' # p"
  by (simp_all add: skip_comma_def skip_ws_def is_space_def)

lemma stops_simps [simp]: "stops []" "stops (CHR '','' # p)" "stops (CHR '']'' # p)" "stops (CHR ''}'' # p)"
  by (simp_all add: stops_def is_number_char_def is_digit_def char_code_def)

lemma skip_ws_stop: "\<not> is_space c \<Longrightarrow> skip_ws (c # r) = c # r"
  by (simp add: skip_ws_def)

definition reads :: "json \<Rightarrow> bool" where
  "reads v \<longleftrightarrow> (\<forall>rest. stops rest \<longrightarrow> (\<exists>f. parse_value f (dump None 0 v @ rest) = Ret (v, rest)))"

lemma parse_items:
  "(\<And>v. v \<in> set vs \<Longrightarrow> json_ok v \<and> reads v) \<Longrightarrow> vs \<noteq> [] \<Longrightarrow>
     \<exists>f. parse_array f (sep_items '', '' (map (dump None 0) vs) @ CHR '']'' # rest) acc = Ret (JArray (acc @ vs), rest)"
proof (induction vs arbitrary: acc)
  case (Cons v vs)
  let ?tail = "(if vs = [] then [] else '', '' @ sep_items '', '' (map (dump None 0) vs)) @ CHR '']'' # rest"
  have "stops ?tail" by simp
  then obtain f where f: "parse_value f (dump None 0 v @ ?tail) = Ret (v, ?tail)"
    using Cons.prems(1) [of v] unfolding reads_def by fastforce
  obtain c r where head: "dump None 0 v = c # r" "\<not> is_space c" "c \<noteq> CHR '']''"
    using dump_head [of v 0] Cons.prems(1) [of v] by auto
  have "\<exists>g. parse_array g (skip_comma ?tail) (acc @ [v]) = Ret (JArray (acc @ v # vs), rest)"
  proof (cases "vs = []")
    case True
    have "parse_array (Suc 0) (CHR '']'' # rest) (acc @ [v]) = Ret (JArray (acc @ [v]), rest)"
      by (simp add: skip_ws_stop is_space_def)
    then show ?thesis using True by (intro exI [of _ "Suc 0"]) (simp del: parse_array.simps)
  next
    case False
    then show ?thesis using Cons.IH [of "acc @ [v]"] Cons.prems(1) by simp
  qed
  then obtain g where g: "parse_array g (skip_comma ?tail) (acc @ [v]) = Ret (JArray (acc @ v # vs), rest)" ..
  have whole: "sep_items '', '' (map (dump None 0) (v # vs)) @ CHR '']'' # rest = dump None 0 v @ ?tail"
    by (simp add: sep_items_Cons)
  have "skip_ws (dump None 0 v @ ?tail) = c # r @ ?tail" using head by (simp add: skip_ws_stop)
  from parse_array_step [OF this head(3) _ g, of f] f
  show ?case unfolding whole by (simp add: head)
qed simp

lemma parse_members:
  "(\<And>e. e \<in> set m \<Longrightarrow> str_ok (fst e) \<and> json_ok (snd e) \<and> reads (snd e)) \<Longrightarrow> m \<noteq> [] \<Longrightarrow>
     \<exists>f. parse_object f (sep_items '', '' (map dump_item m) @ CHR ''}'' # rest) acc = Ret (JObject (omap_puts m acc), rest)"
proof (induction m arbitrary: acc)
  case (Cons e m)
  obtain k v where e: "e = (k, v)" by force
  let ?tail = "(if m = [] then [] else '', '' @ sep_items '', '' (map dump_item m)) @ CHR ''}'' # rest"
  have kv: "str_ok k" "json_ok v" "reads v" using Cons.prems(1) [of e] e by auto
  have "stops ?tail" by simp
  then obtain f where f: "parse_value f (dump None 0 v @ ?tail) = Ret (v, ?tail)"
    using kv(3) unfolding reads_def by fastforce
  obtain c r where head: "dump None 0 v = c # r" "\<not> is_space c" using dump_head [OF kv(2), of 0] by auto
  have "\<exists>g. parse_object g (skip_comma ?tail) (omap_put k v acc) = Ret (JObject (omap_puts (e # m) acc), rest)"
  proof (cases "m = []")
    case True
    have "parse_object (Suc 0) (CHR ''}'' # rest) (omap_put k v acc) = Ret (JObject (omap_put k v acc), rest)"
      by (simp add: skip_ws_stop is_space_def)
    then show ?thesis using True e by (intro exI [of _ "Suc 0"]) (simp del: parse_object.simps)
  next
    case False
    then show ?thesis using Cons.IH [of "omap_put k v acc"] Cons.prems(1) by (simp add: e)
  qed
  then obtain g where g: "parse_object g (skip_comma ?tail) (omap_put k v acc) = Ret (JObject (omap_puts (e # m) acc), rest)" ..
  let ?q = "concat (map escape_char k) @ QUOTE # CHR '':'' # dump None 0 v @ ?tail"
  have whole: "sep_items '', '' (map dump_item (e # m)) @ CHR ''}'' # rest = QUOTE # ?q"
    by (simp add: sep_items_Cons dump_item_def e escape_string_def)
  have ws: "skip_ws (QUOTE # ?q) = QUOTE # ?q" by (rule skip_ws_stop) (simp add: is_space_def)
  have key: "parse_string (QUOTE # ?q) = (k, CHR '':'' # dump None 0 v @ ?tail)"
    using parse_string_escape [OF kv(1), of "CHR '':'' # dump None 0 v @ ?tail"] by (simp add: escape_string_def)
  have colon: "skip_colon (CHR '':'' # dump None 0 v @ ?tail) = dump None 0 v @ ?tail"
    by (simp add: skip_colon_def skip_ws_stop is_space_def)
  from parse_object_step [OF ws _ key _ g, of f] f colon
  show ?case unfolding whole by (simp add: head)
qed simp

lemma reads_all: "json_ok v \<Longrightarrow> reads v"
proof (induction v)
  case (JNumber x)
  then obtain n where n: "n < 2 ^ 53" "x = of_nat n" by auto
  obtain c r where s: "show_nat n = c # r" by (cases "show_nat n") auto
  have c: "is_digit c" using show_nat_digits [of c n] s by simp
  show ?case unfolding reads_def
  proof (intro allI impI)
    fix rest assume rest: "stops rest"
    have dig: "\<And>c. c \<in> set (show_nat n) \<Longrightarrow> is_number_char c" by (auto simp: is_number_char_def dest: show_nat_digits)
    have "takeWhile is_number_char (show_nat n @ rest) = show_nat n" "dropWhile is_number_char (show_nat n @ rest) = rest"
      by (rule takeWhile_append_stop dropWhile_append_stop, erule dig, use rest in \<open>simp add: stops_def\<close>)+
    then have "parse_number (show_nat n @ rest) = Ret (JNumber x, rest)"
      using stod_show_nat [OF n(1)] n(2) by (simp add: parse_number_def)
    moreover have "c \<noteq> CHR ''n''" "c \<noteq> CHR ''t''" "c \<noteq> CHR ''f''" "c \<noteq> QUOTE" "c \<noteq> CHR ''[''" "c \<noteq> CHR ''{''"
      using c by (auto simp: is_digit_def char_code_def)
    ultimately have "parse_value (Suc 0) (dump None 0 (JNumber x) @ rest) = Ret (JNumber x, rest)"
      using c by (simp add: n(2) dump_number_nat s skip_ws_stop digit_not_space)
    then show "\<exists>f. parse_value f (dump None 0 (JNumber x) @ rest) = Ret (JNumber x, rest)" ..
  qed
next
  case (JString s)
  have "parse_value (Suc 0) (dump None 0 (JString s) @ rest) = Ret (JString s, rest)" for rest
    using parse_string_escape [of s rest] JString
    by (simp add: escape_string_def skip_ws_stop is_space_def)
  then show ?case unfolding reads_def by blast
next
  case (JArray a)
  show ?case
  proof (cases "a = []")
    case True
    have "parse_value (Suc (Suc 0)) (dump None 0 (JArray []) @ rest) = Ret (JArray [], rest)" for rest
      by (simp add: skip_ws_stop is_space_def)
    then show ?thesis using True unfolding reads_def by blast
  next
    case False
    show ?thesis unfolding reads_def
    proof (intro allI impI)
      fix rest
      obtain f where "parse_array f (sep_items '', '' (map (dump None 0) a) @ CHR '']'' # rest) [] = Ret (JArray a, rest)"
        using parse_items [of a rest "[]"] JArray False by auto
      then have "parse_value (Suc f) (dump None 0 (JArray a) @ rest) = Ret (JArray a, rest)"
        unfolding dump_array [OF False] by (simp add: skip_ws_stop is_space_def)
      then show "\<exists>f. parse_value f (dump None 0 (JArray a) @ rest) = Ret (JArray a, rest)" ..
    qed
  qed
next
  case (JObject m)
  show ?case
  proof (cases "m = []")
    case True
    have "parse_value (Suc (Suc 0)) (dump None 0 (JObject []) @ rest) = Ret (JObject [], rest)" for rest
      by (simp add: skip_ws_stop is_space_def)
    then show ?thesis using True unfolding reads_def by blast
  next
    case False
    have mem: "str_ok (fst e) \<and> json_ok (snd e) \<and> reads (snd e)" if "e \<in> set m" for e
      using JObject.prems JObject.IH [OF that, of "snd e"] that by (cases e) auto
    show ?thesis unfolding reads_def
    proof (intro allI impI)
      fix rest
      obtain f where "parse_object f (sep_items '', '' (map dump_item m) @ CHR ''}'' # rest) [] = Ret (JObject (omap_puts m []), rest)"
        using parse_members [OF mem False, of rest "[]"] by auto
      then have "parse_value (Suc f) (dump None 0 (JObject m) @ rest) = Ret (JObject m, rest)"
        using JObject.prems unfolding dump_object [OF False]
        by (simp add: skip_ws_stop is_space_def omap_puts_rebuild)
      then show "\<exists>f. parse_value f (dump None 0 (JObject m) @ rest) = Ret (JObject m, rest)" ..
    qed
  qed
qed (auto simp: reads_def skip_ws_stop is_space_def intro!: exI [of _ "Suc 0"])

lemma json_parse_dump:
  assumes "json_ok v"
  shows "json_parse (dump None level v) = Ret v"
proof -
  obtain f where "parse_value f (dump None 0 v @ []) = Ret (v, [])"
    using reads_all [OF assms] stops_simps(1) unfolding reads_def by blast
  then have f: "parse_value f (dump None level v) = Ret (v, [])" by (simp add: dump_level [of level])
  then show ?thesis using json_parse_fuel [of f "dump None level v"] by simp
qed

section \<open>Properties\<close>



text \<open>
  Fuel of twice the length of the text decides: the reader answers with that fuel if it
  answers at all, so \<open>NoFuel\<close> means that the program does not return.
\<close>

theorem json_parse_decides: "json_parse s = NoFuel \<longleftrightarrow> (\<forall>f. parse_value f s = NoFuel)"
proof
  assume *: "json_parse s = NoFuel"
  show "\<forall>f. parse_value f s = NoFuel"
  proof (rule allI, rule ccontr)
    fix f assume "parse_value f s \<noteq> NoFuel"
    then show False using json_parse_fuel [of f s] * by (auto split: outcome.splits)
  qed
next
  assume "\<forall>f. parse_value f s = NoFuel"
  then show "json_parse s = NoFuel" unfolding json_parse_def by simp
qed

text \<open>
  An array whose next element starts with a character that begins no value is read for
  ever: the program appends null values until memory is exhausted.
\<close>

theorem json_array_hangs:
  assumes "\<not> is_space c" "\<not> is_digit c" "c \<notin> set ''ntf[{-],'' \<union> {QUOTE}"
  shows "parse_value f (''['' @ [c] @ r) = NoFuel"
proof -
  have val: "parse_value (Suc 0) (c # r) = Ret (JNull, c # r)"
    using assms by (simp add: skip_ws_stop)
  have com: "skip_comma (c # r) = c # r" using assms by (simp add: skip_comma_def skip_ws_stop)
  have stuck: "parse_array n (c # r) a = NoFuel" for n a
    by (rule parse_array_stuck [OF val com]) (use assms in auto)
  show ?thesis by (cases f) (simp_all add: skip_ws_stop is_space_def stuck)
qed

theorem json_array_hangs_witness: "parse_value 1000 ''[+1]'' = NoFuel"
  using json_array_hangs [of "CHR ''+''" 1000 "''1]''"] by (simp add: is_space_def is_digit_def char_code_def)

text \<open>The printer escapes a carriage return, and the reader turns the escape into a letter.\<close>

lemma json_cr_lost: "json_parse (dump None 0 (JString [CR])) = Ret (JString ''r'')"
  by code_simp

end
