(* ===== verification/Recency.thy ===== *)
theory Recency
  imports Prelude
begin

text \<open>
  The bounded most-recent-first lists of zygiskd: an entry that matches the new one is erased
  (the first match only), the new one goes to the front, and the last is dropped over the
  capacity.  The interface says what a list kept this way guarantees.
\<close>

text \<open>The \<^verbatim>\<open>for\<close> loop with \<^verbatim>\<open>erase\<close> and \<^verbatim>\<open>break\<close>.\<close>

fun erase_first :: "('a \<Rightarrow> bool) \<Rightarrow> 'a list \<Rightarrow> 'a list" where
  "erase_first P [] = []"
| "erase_first P (y # ys) = (if P y then ys else y # erase_first P ys)"

definition pop_over :: "nat \<Rightarrow> 'a list \<Rightarrow> 'a list" where
  "pop_over cap xs = (if length xs > cap then butlast xs else xs)"

lemma erase_first_set: "set (erase_first P xs) \<subseteq> set xs"
  by (induction xs) auto

lemma erase_first_length: "length (erase_first P xs) \<le> length xs"
  by (induction xs) auto

lemma erase_first_keeps: "y \<in> set xs \<Longrightarrow> \<not> P y \<Longrightarrow> y \<in> set (erase_first P xs)"
  by (induction xs) auto

lemma pop_over_set: "set (pop_over cap xs) \<subseteq> set xs"
  by (auto simp: pop_over_def dest: in_set_butlastD)

lemma pop_over_take: "length xs \<le> Suc cap \<Longrightarrow> pop_over cap xs = take cap xs"
  by (cases "length xs = Suc cap") (auto simp: pop_over_def butlast_conv_take)

lemma pop_over_hd: "xs \<noteq> [] \<Longrightarrow> 0 < cap \<Longrightarrow> pop_over cap xs \<noteq> [] \<and> hd (pop_over cap xs) = hd xs"
proof -
  assume *: "xs \<noteq> []" "0 < cap"
  then obtain y ys where xs: "xs = y # ys" by (cases xs) auto
  then show ?thesis using * by (cases ys) (auto simp: pop_over_def)
qed

section \<open>The interface\<close>

locale recency =
  fixes touch :: "'a \<Rightarrow> 'a list \<Rightarrow> 'a list"
    and match :: "'a \<Rightarrow> 'a \<Rightarrow> bool"
    and cap :: nat
  assumes cap_pos: "0 < cap"
    and touch_eq: "touch x xs = pop_over cap (x # erase_first (match x) xs)"
begin

lemma touch_length: "length xs \<le> cap \<Longrightarrow> length (touch x xs) \<le> cap"
  using erase_first_length [of "match x" xs] by (auto simp: touch_eq pop_over_def)

lemma touch_front: "touch x xs \<noteq> [] \<and> hd (touch x xs) = x"
  using pop_over_hd [of "x # erase_first (match x) xs" cap] cap_pos by (simp add: touch_eq)

lemma touch_subset: "set (touch x xs) \<subseteq> insert x (set xs)"
  using pop_over_set [of cap "x # erase_first (match x) xs"] erase_first_set [of "match x" xs]
  by (auto simp: touch_eq)

lemma touch_keeps:
  "y \<in> set xs \<Longrightarrow> \<not> match x y \<Longrightarrow> length xs < cap \<Longrightarrow> y \<in> set (touch x xs)"
  using erase_first_length [of "match x" xs] erase_first_keeps [of y xs "match x"]
  by (auto simp: touch_eq pop_over_def)

lemma touches_length: "length xs \<le> cap \<Longrightarrow> length (fold touch es xs) \<le> cap"
  by (induction es arbitrary: xs) (auto simp: touch_length)

end

text \<open>When matching is having the same key, no key occurs twice.\<close>

locale keyed_recency = recency touch match cap
  for touch :: "'a \<Rightarrow> 'a list \<Rightarrow> 'a list" and match and cap +
  fixes key :: "'a \<Rightarrow> 'b"
  assumes match_key: "match x y \<longleftrightarrow> key x = key y"
begin

lemma erase_keys: "distinct (map key xs) \<Longrightarrow>
    distinct (map key (erase_first (match x) xs)) \<and> key x \<notin> key ` set (erase_first (match x) xs)"
proof (induction xs)
  case (Cons y ys)
  show ?case
  proof (cases "match x y")
    case True
    then have "key x = key y" by (simp add: match_key)
    then show ?thesis using Cons.prems True by simp
  next
    case False
    then have "key x \<noteq> key y" by (simp add: match_key)
    have "key y \<notin> key ` set (erase_first (match x) ys)"
      using Cons.prems erase_first_set [of "match x" ys] by auto
    then show ?thesis using Cons False \<open>key x \<noteq> key y\<close> by simp
  qed
qed simp

lemma distinct_pop: "distinct (map key xs) \<Longrightarrow> distinct (map key (pop_over cap xs))"
  by (auto simp: pop_over_def map_butlast distinct_butlast)

lemma touch_distinct: "distinct (map key xs) \<Longrightarrow> distinct (map key (touch x xs))"
  using erase_keys [of xs x] by (auto simp: touch_eq intro!: distinct_pop)

lemma touches_distinct: "distinct (map key xs) \<Longrightarrow> distinct (map key (fold touch es xs))"
  by (induction es arbitrary: xs) (auto simp: touch_distinct)

end

end
