(* ===== verification/Zygiskd.thy ===== *)
theory Zygiskd
  imports Json Utils_Os Recency
begin

text \<open>
  The zygisk daemon \<^verbatim>\<open>daemon/zygisk/daemon/zygiskd.cpp\<close>: module discovery, the runtime
  configuration, the records of injections, the parsers of the proc files, the request
  protocol and the kernel's events.  The state is the set of the file's globals; the arm64
  build's ABI name is used.
\<close>

section \<open>State\<close>

definition kAbi :: string where "kAbi = ''arm64-v8a''"
definition kModulesDir :: path where "kModulesDir = ''/data/adb/modules''"
definition YZCONFIG_PATH :: path where "YZCONFIG_PATH = ''/data/tamisu/zygisk/yzconfig.json''"

definition TARGET_NAME :: u8 where "TARGET_NAME = 1"
definition TARGET_PATH :: u8 where "TARGET_PATH = 2"
definition TARGET_MAX :: nat where "TARGET_MAX = 64"
definition TARGET_VALUE_MAX :: nat where "TARGET_VALUE_MAX = 256"
definition MAX_UNMAP_SEGS :: nat where "MAX_UNMAP_SEGS = 8"
definition PATCH_TEXT_MAX :: nat where "PATCH_TEXT_MAX = 64"

record zmodule =
  zm_name :: string
  zm_lib :: path

record native_module =
  nm_id :: string
  nm_type :: u8
  nm_target :: string
  nm_lib :: path
  nm_companion :: bool

record module_scope =
  wildcard :: bool
  uids :: "u32 list"

record yz_config =
  zygisk_linker :: u8
  denylist_mode :: u8
  dmesg_log :: u8
  grant_filter :: u8

text \<open>A companion process; \<open>pid = 0\<close> is \<^verbatim>\<open>-1\<close>, none spawned.\<close>

record companion =
  c_pid :: nat
  c_has_entry :: bool
  c_lib :: path

record zygote_record =
  zr_pid :: u32
  zr_name :: string
  zr_abi :: string

record native_injection =
  ni_pid :: u32
  ni_process :: string
  ni_module :: string
  ni_type :: string
  ni_target :: string
  ni_abi :: string
  ni_companion :: bool

record zd =
  g_modules :: "zmodule list"
  g_native :: "native_module list"
  g_companions :: "companion list"
  g_native_companions :: "companion list"
  g_cfg :: yz_config
  g_granted :: "(string, unit) omap"
  g_filter :: bool
  g_scopes :: "(string, module_scope) omap"
  g_safemode :: bool
  g_crashes :: u32
  g_inject_count :: u64
  g_recent :: "u32 list"
  g_zygotes :: "zygote_record list"
  g_injections :: "native_injection list"
  k_targets :: "(u8 \<times> string) list"
  k_linker :: u8

section \<open>Module discovery\<close>

definition scan_modules :: "os \<Rightarrow> zmodule list" where
  "scan_modules st =
     (if \<not> is_dir st kModulesDir then []
      else [\<lparr>zm_name = e, zm_lib = kModulesDir @ ''/'' @ e @ ''/zygisk/'' @ kAbi @ ''.so''\<rparr>.
              e \<leftarrow> readdir st kModulesDir,
              peek e \<noteq> CHR ''.'' \<and>
              \<not> exists_path st (kModulesDir @ ''/'' @ e @ ''/disable'') \<and>
              exists_path st (kModulesDir @ ''/'' @ e @ ''/zygisk/'' @ kAbi @ ''.so'')])"

text \<open>\<^verbatim>\<open>trim_copy\<close>: every blank of the C locale is cut off both ends.\<close>

definition trim_copy :: "string \<Rightarrow> string" where
  "trim_copy s = rev (dropWhile is_space (rev (dropWhile is_space s)))"

text \<open>\<^verbatim>\<open>replace_all\<close>: the search goes on behind each replacement.\<close>

function replace_all :: "string \<Rightarrow> string \<Rightarrow> string \<Rightarrow> string" where
  "replace_all s from to =
     (if from = [] then s
      else (case find_str from s of
              None \<Rightarrow> s
            | Some i \<Rightarrow> take i s @ to @ replace_all (drop (i + length from) s) from to))"
  by pat_completeness auto
termination
proof (relation "measure (\<lambda>(s, from, to). length s)", goal_cases)
  case (2 s f t i)
  then have "prefix f (drop i s)" by (intro find_str_sound) simp
  then have "length f \<le> length s - i" using prefix_length_le by force
  then show ?case using 2(1) by (cases f) auto
qed simp

declare replace_all.simps [simp del]

fun native_tokens :: "string list \<Rightarrow> bool \<Rightarrow> string \<Rightarrow> bool \<times> string" where
  "native_tokens [] has_comp lib = (has_comp, lib)"
| "native_tokens (t # ts) has_comp lib =
     (if t = ''companion'' then native_tokens ts True lib
      else native_tokens ts has_comp (if lib = [] then t else lib))"

definition native_head :: "string \<Rightarrow> (u8 \<times> string) option" where
  "native_head head =
     (if prefix ''name='' head then Some (TARGET_NAME, drop 5 head)
      else if prefix ''path='' head then Some (TARGET_PATH, drop 5 head)
      else None)"

definition parse_native_module_line :: "string \<Rightarrow> path \<Rightarrow> string \<Rightarrow> os \<Rightarrow> native_module option" where
  "parse_native_module_line module_id base line st =
     (let text = trim_copy line in
      if text = [] \<or> hd text = CHR ''#'' then None
      else (case tokens text of
              [] \<Rightarrow> None
            | head # rest \<Rightarrow>
                (case native_head head of
                   None \<Rightarrow> None
                 | Some (ty, target) \<Rightarrow>
                     if target = [] \<or> length target \<ge> TARGET_VALUE_MAX then None
                     else
                       (case native_tokens rest False [] of
                          (has_comp, lib_rel0) \<Rightarrow>
                            if lib_rel0 = [] then None
                            else
                              (let lib_rel = replace_all (replace_all lib_rel0 ''${moduleId}'' module_id) ''$moduleId'' module_id;
                                   lib = (if lib_rel \<noteq> [] \<and> hd lib_rel = CHR ''/'' then lib_rel
                                          else base @ ''/'' @ lib_rel)
                               in if \<not> exists_path st lib then None
                                  else Some \<lparr>nm_id = module_id, nm_type = ty, nm_target = target,
                                             nm_lib = lib, nm_companion = has_comp\<rparr>)))))"

definition scan_native_modules :: "os \<Rightarrow> native_module list" where
  "scan_native_modules st =
     (if \<not> is_dir st kModulesDir then []
      else [m. e \<leftarrow> readdir st kModulesDir,
               m \<leftarrow> (if peek e = CHR ''.'' \<or> exists_path st (kModulesDir @ ''/'' @ e @ ''/disable'') then []
                     else (case read_file st (kModulesDir @ ''/'' @ e @ ''/zn_modules.txt'') of
                             None \<Rightarrow> []
                           | Some content \<Rightarrow>
                               List.map_filter (\<lambda>line. parse_native_module_line e (kModulesDir @ ''/'' @ e) line st)
                                 (getline_all NL content)))])"

definition publish_native_targets :: "zd \<Rightarrow> zd" where
  "publish_native_targets z =
     z\<lparr>k_targets := map (\<lambda>m. (nm_type m, take (TARGET_VALUE_MAX - 1) (c_str (nm_target m)))) (take TARGET_MAX (g_native z))\<rparr>"

definition rescan_modules :: "os \<Rightarrow> zd \<Rightarrow> zd" where
  "rescan_modules st z =
     publish_native_targets (z\<lparr>g_modules := scan_modules st, g_native := scan_native_modules st\<rparr>)"

section \<open>Runtime configuration\<close>

definition default_config :: yz_config where
  "default_config = \<lparr>zygisk_linker = 1, denylist_mode = 0, dmesg_log = 0, grant_filter = 0\<rparr>"

text \<open>
  A \<^verbatim>\<open>static_cast\<close> of a double to an unsigned integer drops the fraction; out of range it is
  undefined, and \<open>ub\<close> is what the machine gives.
\<close>

definition cast_unsigned :: "(rat \<Rightarrow> nat) \<Rightarrow> nat \<Rightarrow> rat \<Rightarrow> nat" where
  "cast_unsigned ub w r = (if -1 < r \<and> r < 2 ^ w then nat \<lfloor>r\<rfloor> else ub r)"

fun scope_array :: "(rat \<Rightarrow> nat) \<Rightarrow> json list \<Rightarrow> module_scope \<Rightarrow> module_scope" where
  "scope_array ub [] ms = ms"
| "scope_array ub (v # vs) ms =
     (case v of
        JString s \<Rightarrow> if s = ''*'' then ms\<lparr>wildcard := True, uids := []\<rparr> else scope_array ub vs ms
      | JNumber n \<Rightarrow> scope_array ub vs (ms\<lparr>uids := of_nat (cast_unsigned ub 32 n) # uids ms\<rparr>)
      | _ \<Rightarrow> scope_array ub vs ms)"

definition parse_scope :: "(rat \<Rightarrow> nat) \<Rightarrow> json \<Rightarrow> module_scope" where
  "parse_scope ub val =
     (let ms = \<lparr>wildcard = True, uids = []\<rparr> in
      case val of
        JString s \<Rightarrow> if s = ''*'' then ms\<lparr>wildcard := True\<rparr> else ms
      | JArray a \<Rightarrow>
          (let ms' = scope_array ub a ms
           in if \<not> wildcard ms' \<and> uids ms' \<noteq> [] then ms'\<lparr>wildcard := False\<rparr> else ms')
      | _ \<Rightarrow> ms)"

definition parse_granted :: "json \<Rightarrow> (string, unit) omap" where
  "parse_granted v =
     (case v of
        JArray a \<Rightarrow> fold (\<lambda>x m. case x of JString s \<Rightarrow> if s \<noteq> [] then omap_put s () m else m | _ \<Rightarrow> m) a []
      | _ \<Rightarrow> [])"

definition bool_u8 :: "bool \<Rightarrow> u8" where "bool_u8 b = (if b then 1 else 0)"

text \<open>What a configuration text sets: the settings, the granted set, the filter and the scopes.\<close>

definition apply_root ::
  "(rat \<Rightarrow> nat) \<Rightarrow> json \<Rightarrow> yz_config \<times> (string, unit) omap \<times> bool \<times> (string, module_scope) omap"
where
  "apply_root ub jroot =
     (case jroot of
        JObject m \<Rightarrow>
          (let cfg = default_config;
               cfg = (if json_contains jroot ''zygisk_linker''
                      then cfg\<lparr>zygisk_linker := bool_u8 (as_bool (json_at jroot ''zygisk_linker''))\<rparr> else cfg);
               cfg = (if json_contains jroot ''denylist_mode''
                      then cfg\<lparr>denylist_mode := of_nat (cast_unsigned ub 8 (as_number (json_at jroot ''denylist_mode'')))\<rparr>
                      else cfg);
               cfg = (if json_contains jroot ''dmesg_log''
                      then cfg\<lparr>dmesg_log := bool_u8 (as_bool (json_at jroot ''dmesg_log''))\<rparr> else cfg);
               filter = json_contains jroot ''zygote_modules'';
               granted = (if filter then parse_granted (json_at jroot ''zygote_modules'') else []);
               scopes = (case json_at jroot ''module_scopes'' of
                           JObject obj \<Rightarrow> fold (\<lambda>(k, v) sc. omap_put k (parse_scope ub v) sc) obj []
                         | _ \<Rightarrow> [])
           in (cfg, granted, filter, scopes))
      | _ \<Rightarrow> (default_config, [], False, []))"

text \<open>\<open>Throw\<close> and \<open>NoFuel\<close> end the daemon (an uncaught exception, an endless loop).\<close>

definition config_file_root ::
  "(rat \<Rightarrow> nat) \<Rightarrow> os \<Rightarrow> (yz_config \<times> (string, unit) omap \<times> bool \<times> (string, module_scope) omap) outcome"
where
  "config_file_root ub st =
     (case read_file st YZCONFIG_PATH of
        None \<Rightarrow> Ret (default_config, [], False, [])
      | Some buf \<Rightarrow>
          (case json_parse buf of
             Ret jroot \<Rightarrow> Ret (apply_root ub jroot)
           | Throw \<Rightarrow> Throw
           | NoFuel \<Rightarrow> NoFuel))"

definition read_yzconfig :: "(rat \<Rightarrow> nat) \<Rightarrow> os \<Rightarrow> zd \<Rightarrow> zd outcome" where
  "read_yzconfig ub st z =
     (case config_file_root ub st of
        Ret (cfg, granted, filt, scopes) \<Rightarrow>
          Ret (z\<lparr>g_cfg := cfg\<lparr>grant_filter := bool_u8 filt\<rparr>, g_granted := granted, g_filter := filt,
                 g_scopes := scopes, k_linker := zygisk_linker cfg\<rparr>)
      | Throw \<Rightarrow> Throw
      | NoFuel \<Rightarrow> NoFuel)"

definition module_globally_granted :: "zd \<Rightarrow> string \<Rightarrow> bool" where
  "module_globally_granted z dir_id \<longleftrightarrow> (if \<not> g_filter z then True else map_of (g_granted z) dir_id \<noteq> None)"

definition module_granted_for_uid :: "zd \<Rightarrow> string \<Rightarrow> u32 \<Rightarrow> bool" where
  "module_granted_for_uid z dir_id uid \<longleftrightarrow>
     (case map_of (g_scopes z) dir_id of
        None \<Rightarrow> True
      | Some ms \<Rightarrow> if wildcard ms then True else uid \<in> set (uids ms))"

section \<open>The records\<close>

definition kRecentMax :: nat where "kRecentMax = 16"
definition kZygoteMax :: nat where "kZygoteMax = 8"
definition kNativeInjectionMax :: nat where "kNativeInjectionMax = 16"

definition touch_appid :: "u32 \<Rightarrow> u32 list \<Rightarrow> u32 list" where
  "touch_appid appid recent = pop_over kRecentMax (appid # erase_first (\<lambda>a. a = appid) recent)"

definition record_injection :: "u32 \<Rightarrow> zd \<Rightarrow> zd" where
  "record_injection appid z =
     z\<lparr>g_inject_count := g_inject_count z + 1, g_recent := touch_appid appid (g_recent z)\<rparr>"

text \<open>The arguments of a command line, NUL-separated; empty ones are skipped.\<close>

fun zygote_args :: "string list \<Rightarrow> bool \<times> string \<times> string \<Rightarrow> bool \<times> string \<times> string" where
  "zygote_args [] acc = acc"
| "zygote_args (arg # args) (found, sock, abi) =
     zygote_args args
       (if arg = [] then (found, sock, abi)
        else if arg = ''-Xzygote'' then (True, sock, abi)
        else (found,
              if prefix ''--socket-name='' arg then drop 14 arg else sock,
              if prefix ''--abi-list='' arg then drop 11 arg else abi))"

definition pid_path :: "nat \<Rightarrow> string \<Rightarrow> path" where
  "pid_path pid file = ''/proc/'' @ show_nat pid @ ''/'' @ file"

text \<open>Found, socket name and ABI list; \<open>None\<close> when the command line cannot be read.\<close>

definition parse_zygote_cmdline :: "os \<Rightarrow> nat \<Rightarrow> (bool \<times> string \<times> string) option" where
  "parse_zygote_cmdline st pid =
     (case read_file st (pid_path pid ''cmdline'') of
        None \<Rightarrow> None
      | Some text \<Rightarrow>
          if text = [] then None
          else (case zygote_args (getline_all NUL (take 4096 text)) (False, [], []) of
                  (found, sock, abi) \<Rightarrow> Some (found, if sock = [] then ''zygote'' else sock, abi)))"

definition zygote_match :: "zygote_record \<Rightarrow> zygote_record \<Rightarrow> bool" where
  "zygote_match x y \<longleftrightarrow> zr_pid y = zr_pid x \<or> (zr_name y = zr_name x \<and> zr_abi y = zr_abi x)"

definition touch_zygote :: "zygote_record \<Rightarrow> zygote_record list \<Rightarrow> zygote_record list" where
  "touch_zygote r zs = pop_over kZygoteMax (r # erase_first (zygote_match r) zs)"

definition record_zygote :: "os \<Rightarrow> nat \<Rightarrow> zd \<Rightarrow> zd" where
  "record_zygote st pid z =
     (let name = (case parse_zygote_cmdline st pid of Some (True, n, _) \<Rightarrow> n | _ \<Rightarrow> ''zygote'')
      in z\<lparr>g_zygotes := touch_zygote \<lparr>zr_pid = of_nat pid, zr_name = name, zr_abi = kAbi\<rparr> (g_zygotes z)\<rparr>)"

definition native_target_type_name :: "u8 \<Rightarrow> string" where
  "native_target_type_name t = (if t = TARGET_PATH then ''path'' else ''name'')"

definition read_proc_comm :: "os \<Rightarrow> nat \<Rightarrow> string" where
  "read_proc_comm st pid =
     (case read_file st (pid_path pid ''comm'') of None \<Rightarrow> [] | Some text \<Rightarrow> trim_copy (c_str (take 127 text)))"

definition injection_match :: "native_injection \<Rightarrow> native_injection \<Rightarrow> bool" where
  "injection_match x y \<longleftrightarrow> ni_pid y = ni_pid x \<and> ni_module y = ni_module x"

definition touch_injection :: "native_injection \<Rightarrow> native_injection list \<Rightarrow> native_injection list" where
  "touch_injection r ns = pop_over kNativeInjectionMax (r # erase_first (injection_match r) ns)"

definition record_native_injection :: "os \<Rightarrow> nat \<Rightarrow> nat \<Rightarrow> zd \<Rightarrow> zd" where
  "record_native_injection st pid idx z =
     (if idx \<ge> length (g_native z) then z
      else (let m = g_native z ! idx; comm = read_proc_comm st pid
            in z\<lparr>g_injections := touch_injection
                   \<lparr>ni_pid = of_nat pid, ni_process = (if comm = [] then nm_target m else comm), ni_module = nm_id m,
                    ni_type = native_target_type_name (nm_type m), ni_target = nm_target m, ni_abi = kAbi,
                    ni_companion = nm_companion m\<rparr> (g_injections z)\<rparr>))"

section \<open>Mounts\<close>

text \<open>Root, mount point and source of a line of \<^verbatim>\<open>mountinfo\<close>.\<close>

definition yz_mi_parse :: "string \<Rightarrow> (string \<times> string \<times> string) option" where
  "yz_mi_parse line =
     (let tok = tokens line in
      if length tok < 7 then None
      else (case find (\<lambda>i. tok ! i = ''-'') [5..<length tok] of
              None \<Rightarrow> None
            | Some dash \<Rightarrow> if dash + 2 \<ge> length tok then None else Some (tok ! 3, tok ! 4, tok ! (dash + 2))))"

definition should_umount :: "string \<times> string \<times> string \<Rightarrow> bool" where
  "should_umount e =
     (case e of (mroot, target, source) \<Rightarrow>
        source = ''TAMISU'' \<or> source = ''magisk'' \<or> source = ''APatch'' \<or>
        prefix ''/data/adb/modules'' target \<or> prefix ''/adb/modules/'' mroot)"

text \<open>The mount points detached, in order.\<close>

definition yz_umount_root_in_ns :: "string \<Rightarrow> path list" where
  "yz_umount_root_in_ns mountinfo =
     rev [fst (snd e). e \<leftarrow> List.map_filter yz_mi_parse (getline_all NL mountinfo), should_umount e]"

section \<open>The interface of the records\<close>

interpretation recent_appids: keyed_recency touch_appid "\<lambda>x y. y = x" kRecentMax "\<lambda>x. x"
  by unfold_locales (auto simp: touch_appid_def kRecentMax_def)

interpretation injected_zygotes: recency touch_zygote zygote_match kZygoteMax
  by unfold_locales (auto simp: touch_zygote_def kZygoteMax_def)

interpretation native_injections: keyed_recency touch_injection injection_match kNativeInjectionMax
    "\<lambda>r. (ni_pid r, ni_module r)"
  by unfold_locales (auto simp: touch_injection_def kNativeInjectionMax_def injection_match_def)

end
