(* ===== verification/Zygiskd_Server.thy ===== *)
theory Zygiskd_Server
  imports Zygiskd Bytes
begin

text \<open>
  The server loop of \<^verbatim>\<open>zygiskd.cpp\<close>: companions, the status text, the twenty requests of the
  socket protocol, the kernel's netlink events, and the daemon as a state machine.

  A request is the bytes the client sends; \<^verbatim>\<open>read_exact\<close> takes them off the front and fails
  when there are too few.  The answer is a list of replies in order; the calls the daemon makes
  on behalf of the client (kernel ioctls and mount reverts) are listed beside it.
\<close>

section \<open>Companions\<close>

record zenv =
  spawn :: "path \<Rightarrow> (nat \<times> bool) option"
  socketpair_ok :: bool
  ctrl_ok :: "nat \<Rightarrow> bool"
  memfd_ok :: "path \<Rightarrow> bool"
  revert_ok :: "nat \<Rightarrow> bool"
  patch_ok :: "nat \<Rightarrow> u64 \<Rightarrow> bytes \<Rightarrow> bool"
  restore_ok :: "nat \<Rightarrow> bool"

definition no_companion :: companion where
  "no_companion = \<lparr>c_pid = 0, c_has_entry = False, c_lib = []\<rparr>"

text \<open>\<^verbatim>\<open>vector::resize\<close>, done only when the sizes differ.\<close>

definition resize_companions :: "nat \<Rightarrow> companion list \<Rightarrow> companion list" where
  "resize_companions n cs = take n cs @ replicate (n - length cs) no_companion"

text \<open>Whether the companion has an entry, and the table after the call.\<close>

definition ensure_companion :: "zenv \<Rightarrow> path list \<Rightarrow> nat \<Rightarrow> companion list \<Rightarrow> bool \<times> companion list" where
  "ensure_companion env libs idx cs0 =
     (if idx \<ge> length libs then (False, cs0)
      else (let cs = (if length cs0 \<noteq> length libs then resize_companions (length libs) cs0 else cs0);
                c = cs ! idx
            in if c_pid c > 0 then (c_has_entry c, cs)
               else if \<not> socketpair_ok env then (False, cs)
               else (case spawn env (libs ! idx) of
                       None \<Rightarrow> (False, cs)
                     | Some (pid, entry) \<Rightarrow>
                         (entry, cs[idx := \<lparr>c_pid = pid, c_has_entry = entry, c_lib = libs ! idx\<rparr>]))))"

definition ensure_native_companion :: "zenv \<Rightarrow> native_module list \<Rightarrow> nat \<Rightarrow> companion list \<Rightarrow> bool \<times> companion list" where
  "ensure_native_companion env ms idx cs =
     (if idx \<ge> length ms \<or> \<not> nm_companion (ms ! idx) then (False, cs)
      else ensure_companion env (map nm_lib ms) idx cs)"

section \<open>Status\<close>

definition read_proc_exe :: "os \<Rightarrow> nat \<Rightarrow> string" where
  "read_proc_exe st pid = (case node_at st (pid_path pid ''exe'') of Some (Lnk t) \<Rightarrow> take 4095 t | _ \<Rightarrow> [])"

definition zygote_abi :: "os \<Rightarrow> nat \<Rightarrow> string \<Rightarrow> string" where
  "zygote_abi st pid abi_list =
     (if abi_list \<noteq> [] then abi_list
      else (let exe = read_proc_exe st pid in
            if contains ''32'' exe then ''armeabi-v7a'' else if contains ''64'' exe then kAbi else ''unknown''))"

definition is_32bit_abi :: "string \<Rightarrow> bool" where
  "is_32bit_abi abi \<longleftrightarrow> abi \<noteq> [] \<and> \<not> contains ''64'' abi"

definition is_zygote_injected :: "zd \<Rightarrow> u32 \<Rightarrow> string \<Rightarrow> string \<Rightarrow> bool" where
  "is_zygote_injected z pid name abi \<longleftrightarrow>
     list_ex (\<lambda>r. zr_pid r = pid \<or> (zr_name r = name \<and> zr_abi r = abi)) (g_zygotes z)"

text \<open>The pid a directory of \<^verbatim>\<open>/proc\<close> names.\<close>

definition proc_pid :: "string \<Rightarrow> nat option" where
  "proc_pid e =
     (if e \<noteq> [] \<and> list_all is_digit e \<and> 0 < digits_value e \<and> digits_value e \<le> 2 ^ 31 - 1
      then Some (digits_value e) else None)"

record zygote_monitor =
  zm_pid :: nat
  zm_zygote :: string
  zm_abi :: string
  zm_state :: string

definition scan_zygote_monitor :: "os \<Rightarrow> zd \<Rightarrow> zygote_monitor list" where
  "scan_zygote_monitor st z =
     (if \<not> is_dir st ''/proc'' then []
      else List.map_filter (\<lambda>e.
             case proc_pid e of
               None \<Rightarrow> None
             | Some pid \<Rightarrow>
                 (case parse_zygote_cmdline st pid of
                    Some (True, name, abi_list) \<Rightarrow>
                      (let abi = zygote_abi st pid abi_list in
                       Some \<lparr>zm_pid = pid, zm_zygote = name, zm_abi = abi,
                              zm_state = (if is_32bit_abi abi then ''unsupported32''
                                          else if is_zygote_injected z (of_nat pid) name abi then ''injected''
                                          else ''failed'')\<rparr>)
                  | _ \<Rightarrow> None)) (readdir st ''/proc''))"

definition json_append_escaped :: "string \<Rightarrow> string" where
  "json_append_escaped s = concat (map (\<lambda>c.
     if c = QUOTE then [BACKSLASH, QUOTE]
     else if c = BACKSLASH then [BACKSLASH, BACKSLASH]
     else if c = NL then [BACKSLASH, CHR ''n'']
     else if c = CR then [BACKSLASH, CHR ''r'']
     else if c = TAB then [BACKSLASH, CHR ''t'']
     else if char_code c < 32 then
       [BACKSLASH, CHR ''u'', CHR ''0'', CHR ''0'', hex_digit (char_code c div 16), hex_digit (char_code c mod 16)]
     else [c]) s)"

definition jstr :: "string \<Rightarrow> string" where
  "jstr s = [QUOTE] @ json_append_escaped s @ [QUOTE]"

definition jkey :: "string \<Rightarrow> string" where
  "jkey k = [QUOTE] @ k @ [QUOTE] @ '':''"

definition jbool :: "bool \<Rightarrow> string" where
  "jbool b = (if b then ''true'' else ''false'')"

definition jlist :: "string list \<Rightarrow> string" where
  "jlist items = ''['' @ sep_items '','' items @ '']''"

definition status_zygote :: "zygote_record \<Rightarrow> string" where
  "status_zygote r = ''{'' @ jkey ''pid'' @ show_nat (unat (zr_pid r)) @ '','' @ jkey ''name'' @ jstr (zr_name r) @
     '','' @ jkey ''abi'' @ jstr (zr_abi r) @ ''}''"

definition status_monitor :: "zygote_monitor \<Rightarrow> string" where
  "status_monitor r = ''{'' @ jkey ''pid'' @ show_nat (zm_pid r) @ '','' @ jkey ''name'' @ jstr (zm_zygote r) @
     '','' @ jkey ''abi'' @ jstr (zm_abi r) @ '','' @ jkey ''state'' @ jstr (zm_state r) @ ''}''"

definition status_native :: "zd \<Rightarrow> native_module \<Rightarrow> string" where
  "status_native z m = ''{'' @ jkey ''id'' @ jstr (nm_id m) @ '','' @
     jkey ''target_type'' @ jstr (native_target_type_name (nm_type m)) @ '','' @
     jkey ''target'' @ jstr (nm_target m) @ '','' @ jkey ''companion'' @ jbool (nm_companion m) @ '','' @
     jkey ''state'' @ [QUOTE] @
     (if list_ex (\<lambda>n. ni_module n = nm_id m) (g_injections z) then ''injected'' else ''failed'') @ [QUOTE] @ ''}''"

definition status_injection :: "native_injection \<Rightarrow> string" where
  "status_injection n = ''{'' @ jkey ''pid'' @ show_nat (unat (ni_pid n)) @ '','' @ jkey ''process'' @ jstr (ni_process n) @
     '','' @ jkey ''module'' @ jstr (ni_module n) @ '','' @ jkey ''target_type'' @ jstr (ni_type n) @
     '','' @ jkey ''target'' @ jstr (ni_target n) @ '','' @ jkey ''abi'' @ jstr (ni_abi n) @
     '','' @ jkey ''companion'' @ jbool (ni_companion n) @ '','' @ jkey ''state'' @ jstr ''injected'' @ ''}''"

definition build_status_json :: "os \<Rightarrow> zd \<Rightarrow> string" where
  "build_status_json st z =
     ''{'' @ jkey ''count'' @ show_nat (unat (g_inject_count z)) @
     '','' @ jkey ''zygisk_linker'' @ jbool (zygisk_linker (g_cfg z) \<noteq> 0) @
     '','' @ jkey ''denylist_mode'' @ show_nat (unat (denylist_mode (g_cfg z))) @
     '','' @ jkey ''dmesg_log'' @ jbool (dmesg_log (g_cfg z) \<noteq> 0) @
     '','' @ jkey ''grant_filter_active'' @ jbool (grant_filter (g_cfg z) \<noteq> 0) @
     '','' @ jkey ''granted_modules'' @ jlist (map (\<lambda>e. jstr (fst e)) (g_granted z)) @
     '','' @ jkey ''recent'' @ jlist (map (\<lambda>a. show_nat (unat a)) (g_recent z)) @
     '','' @ jkey ''zygotes'' @ jlist (map status_zygote (g_zygotes z)) @
     '','' @ jkey ''zygote_monitor'' @ jlist (map status_monitor (scan_zygote_monitor st z)) @
     '','' @ jkey ''modules'' @ jlist (map (\<lambda>m. jstr (zm_name m)) (g_modules z)) @
     '','' @ jkey ''native_modules'' @ jlist (map (status_native z) (g_native z)) @
     '','' @ jkey ''safemode'' @ ''{'' @ jkey ''active'' @ jbool (g_safemode z) @
     '','' @ jkey ''crashes'' @ show_nat (unat (g_crashes z)) @ ''}'' @
     '','' @ jkey ''native_injections'' @ jlist (map status_injection (g_injections z)) @ ''}''"

section \<open>Requests\<close>

datatype reply =
    RBytes bytes
  | RFd path
  | RNoFd
  | RSocket nat

datatype kcall =
    KPatchText nat u64 bytes
  | KRestorePolicy nat
  | KRevertMounts nat

type_synonym answer = "reply list \<times> kcall list \<times> zd"

type_synonym peer = "(nat \<times> nat) option"

text \<open>The peer's pid, when \<^verbatim>\<open>SO_PEERCRED\<close> gives a positive one.\<close>

definition peer_pid :: "peer \<Rightarrow> nat option" where
  "peer_pid p = (case p of Some (pid, uid) \<Rightarrow> if pid > 0 then Some pid else None | None \<Rightarrow> None)"

definition read_idx :: "bytes \<Rightarrow> nat \<Rightarrow> nat option" where
  "read_idx inp n = (case get_u32 inp of None \<Rightarrow> None | Some (i, _) \<Rightarrow> if unat i \<ge> n then None else Some (unat i))"

text \<open>Root grants and per-app unmounting are gone from the kernel; the two tests are stubs.\<close>

definition uid_granted_root :: "u32 \<Rightarrow> bool" where "uid_granted_root uid = False"
definition uid_should_umount :: "u32 \<Rightarrow> bool" where "uid_should_umount uid = False"

definition query_flags :: "u32 \<Rightarrow> u32" where
  "query_flags uid = (if uid_granted_root uid then 1 else 0) + (if uid_should_umount uid then 2 else 0)"

text \<open>An opened path, or no descriptor.\<close>

definition send_open :: "os \<Rightarrow> path \<Rightarrow> reply" where
  "send_open st p = (if exists_path st p then RFd p else RNoFd)"

definition ok_reply :: "bool \<Rightarrow> reply" where
  "ok_reply b = RBytes [if b then 1 else 0]"

definition c_bytes :: "string \<Rightarrow> bytes" where
  "c_bytes s = str_bytes s @ [0]"

definition connect_companion :: "zenv \<Rightarrow> bool \<times> companion list \<Rightarrow> nat \<Rightarrow> reply" where
  "connect_companion env r idx =
     (if \<not> fst r then RNoFd
      else if \<not> socketpair_ok env then RNoFd
      else if \<not> ctrl_ok env (c_pid (snd r ! idx)) then RNoFd
      else RSocket (c_pid (snd r ! idx)))"

definition granted_names :: "zd \<Rightarrow> u32 \<Rightarrow> string list" where
  "granted_names z uid =
     map zm_name (filter (\<lambda>m. module_globally_granted z (zm_name m) \<and> module_granted_for_uid z (zm_name m) uid) (g_modules z))"

text \<open>The \<^verbatim>\<open>n\<close> address and size pairs of the self-destruct request.\<close>

definition read_segs :: "nat \<Rightarrow> bytes \<Rightarrow> bool" where
  "read_segs n inp \<longleftrightarrow> get_many (get_pair get_u64 get_u64) n inp \<noteq> None"

definition req_self_destruct :: "zenv \<Rightarrow> peer \<Rightarrow> bytes \<Rightarrow> reply list \<times> kcall list" where
  "req_self_destruct env peer inp =
     (case inp of
        [] \<Rightarrow> ([], [])
      | n # rest \<Rightarrow>
          if n = 0 \<or> unat n > MAX_UNMAP_SEGS then ([], [])
          else (case peer_pid peer of
                  None \<Rightarrow> ([ok_reply False], [])
                | Some pid \<Rightarrow>
                    if read_segs (unat n) rest then ([ok_reply (revert_ok env pid)], [KRevertMounts pid])
                    else ([ok_reply False], [])))"

definition req_patch_text :: "zenv \<Rightarrow> peer \<Rightarrow> bytes \<Rightarrow> reply list \<times> kcall list" where
  "req_patch_text env peer inp =
     (case get_pair get_u64 get_u32 inp of
        None \<Rightarrow> ([], [])
      | Some ((addr, len), rest) \<Rightarrow>
          if len = 0 \<or> unat len > PATCH_TEXT_MAX then ([], [])
          else (case take_bytes (unat len) rest of
                  None \<Rightarrow> ([], [])
                | Some (code, _) \<Rightarrow>
                    (case peer_pid peer of
                       None \<Rightarrow> ([ok_reply False], [])
                     | Some pid \<Rightarrow> ([ok_reply (patch_ok env pid addr code)], [KPatchText pid addr code]))))"

definition native_info :: "native_module option \<Rightarrow> bytes" where
  "native_info mo =
     (let field = (\<lambda>n s. let b = str_bytes (take (n - 1) (c_str s)) in b @ replicate (n - length b) 0)
      in case mo of
           None \<Rightarrow> replicate 836 0
         | Some m \<Rightarrow> [nm_type m, bool_u8 (nm_companion m), 0, 0] @ field 64 (nm_id m) @ field 256 (nm_target m) @
                      field 512 (nm_lib m))"

text \<open>One definition per request: the answer and the state after it.\<close>

definition req_flags :: "bytes \<Rightarrow> zd \<Rightarrow> answer" where
  "req_flags inp z =
     (case get_u32 inp of None \<Rightarrow> ([], [], z) | Some (uid, _) \<Rightarrow> ([RBytes (u32_le (query_flags uid))], [], z))"

definition req_module_fd :: "os \<Rightarrow> bytes \<Rightarrow> zd \<Rightarrow> answer" where
  "req_module_fd st inp z =
     (case read_idx inp (length (g_modules z)) of
        None \<Rightarrow> ([RNoFd], [], z)
      | Some i \<Rightarrow> ([send_open st (zm_lib (g_modules z ! i))], [], z))"

definition req_companion :: "zenv \<Rightarrow> bytes \<Rightarrow> zd \<Rightarrow> answer" where
  "req_companion env inp z =
     (case get_u32 inp of
        None \<Rightarrow> ([RNoFd], [], z)
      | Some (i, _) \<Rightarrow>
          (let r = ensure_companion env (map zm_lib (g_modules z)) (unat i) (g_companions z)
           in ([connect_companion env r (unat i)], [], z\<lparr>g_companions := snd r\<rparr>)))"

definition req_module_dir :: "os \<Rightarrow> bytes \<Rightarrow> zd \<Rightarrow> answer" where
  "req_module_dir st inp z =
     (case read_idx inp (length (g_modules z)) of
        None \<Rightarrow> ([RNoFd], [], z)
      | Some i \<Rightarrow>
          (let d = kModulesDir @ ''/'' @ zm_name (g_modules z ! i)
           in ([if is_dir st d then RFd d else RNoFd], [], z)))"

definition req_config :: "zd \<Rightarrow> answer" where
  "req_config z =
     ([RBytes [zygisk_linker (g_cfg z), denylist_mode (g_cfg z), dmesg_log (g_cfg z), grant_filter (g_cfg z)]], [], z)"

definition req_status :: "os \<Rightarrow> peer \<Rightarrow> zd \<Rightarrow> answer" where
  "req_status st peer z =
     (let js = (case peer of Some (pid, uid) \<Rightarrow> if uid = 0 then build_status_json st z else [] | None \<Rightarrow> [])
      in ([RBytes (u32_le (of_nat (length js)))] @ (if js = [] then [] else [RBytes (str_bytes js)]), [], z))"

definition req_revert :: "zenv \<Rightarrow> peer \<Rightarrow> zd \<Rightarrow> answer" where
  "req_revert env peer z =
     (case peer_pid peer of
        None \<Rightarrow> ([ok_reply False], [], z)
      | Some pid \<Rightarrow> ([ok_reply (revert_ok env pid)], [KRevertMounts pid], z))"

definition req_report_zygote :: "os \<Rightarrow> peer \<Rightarrow> zd \<Rightarrow> answer" where
  "req_report_zygote st peer z =
     (case peer_pid peer of
        None \<Rightarrow> ([ok_reply False], [], z)
      | Some pid \<Rightarrow> ([ok_reply True], [], record_zygote st pid z))"

definition req_native_fd :: "zenv \<Rightarrow> os \<Rightarrow> bytes \<Rightarrow> zd \<Rightarrow> answer" where
  "req_native_fd env st inp z =
     (case read_idx inp (length (g_native z)) of
        None \<Rightarrow> ([RNoFd], [], z)
      | Some i \<Rightarrow>
          (let p = nm_lib (g_native z ! i)
           in ([if memfd_ok env p then RFd p else send_open st p], [], z)))"

definition req_native_companion :: "zenv \<Rightarrow> bytes \<Rightarrow> zd \<Rightarrow> answer" where
  "req_native_companion env inp z =
     (case get_u32 inp of
        None \<Rightarrow> ([RNoFd], [], z)
      | Some (i, _) \<Rightarrow>
          (let r = ensure_native_companion env (g_native z) (unat i) (g_native_companions z)
           in ([connect_companion env r (unat i)], [], z\<lparr>g_native_companions := snd r\<rparr>)))"

definition req_restore_policy :: "zenv \<Rightarrow> peer \<Rightarrow> zd \<Rightarrow> answer" where
  "req_restore_policy env peer z =
     (case peer_pid peer of
        None \<Rightarrow> ([ok_reply False], [], z)
      | Some pid \<Rightarrow> ([ok_reply (restore_ok env pid)], [KRestorePolicy pid], z))"

definition req_report_native :: "os \<Rightarrow> peer \<Rightarrow> bytes \<Rightarrow> zd \<Rightarrow> answer" where
  "req_report_native st peer inp z =
     (case read_idx inp (length (g_native z)) of
        None \<Rightarrow> ([ok_reply False], [], z)
      | Some i \<Rightarrow>
          (case peer_pid peer of
             None \<Rightarrow> ([ok_reply False], [], z)
           | Some pid \<Rightarrow> ([ok_reply True], [], record_native_injection st pid i z)))"

definition req_module_name :: "bytes \<Rightarrow> zd \<Rightarrow> answer" where
  "req_module_name inp z =
     (case read_idx inp (length (g_modules z)) of
        None \<Rightarrow> ([RBytes [0]], [], z)
      | Some i \<Rightarrow> ([RBytes (c_bytes (zm_name (g_modules z ! i)))], [], z))"

definition req_granted :: "bytes \<Rightarrow> zd \<Rightarrow> answer" where
  "req_granted inp z =
     (case get_u32 inp of
        None \<Rightarrow> ([RBytes (u32_le 0)], [], z)
      | Some (uid, _) \<Rightarrow>
          (let picked = granted_names z uid
           in (RBytes (u32_le (of_nat (length picked))) # map (\<lambda>n. RBytes (c_bytes n)) picked, [], z)))"

text \<open>The log request (10) prints its text and answers nothing, as does an unknown one.\<close>

definition handle_client :: "zenv \<Rightarrow> os \<Rightarrow> peer \<Rightarrow> bytes \<Rightarrow> zd \<Rightarrow> answer" where
  "handle_client env st peer msg z =
     (case msg of
        [] \<Rightarrow> ([], [], z)
      | op # inp \<Rightarrow>
          if op = 1 then req_flags inp z
          else if op = 2 then ([RBytes (u32_le (of_nat (length (g_modules z))))], [], z)
          else if op = 3 then req_module_fd st inp z
          else if op = 4 then req_companion env inp z
          else if op = 5 then req_module_dir st inp z
          else if op = 6 then req_config z
          else if op = 7 then req_status st peer z
          else if op = 8 then req_revert env peer z
          else if op = 9 then (case req_self_destruct env peer inp of (rs, ks) \<Rightarrow> (rs, ks, z))
          else if op = 11 then (case req_patch_text env peer inp of (rs, ks) \<Rightarrow> (rs, ks, z))
          else if op = 12 then req_report_zygote st peer z
          else if op = 13 then ([RBytes (u32_le (of_nat (length (g_native z))))], [], z)
          else if op = 14 then
            ([RBytes (native_info (map_option (\<lambda>i. g_native z ! i) (read_idx inp (length (g_native z)))))], [], z)
          else if op = 15 then req_native_fd env st inp z
          else if op = 16 then req_native_companion env inp z
          else if op = 17 then req_restore_policy env peer z
          else if op = 18 then req_report_native st peer inp z
          else if op = 19 then req_module_name inp z
          else if op = 20 then req_granted inp z
          else ([], [], z))"

lemmas handle_client_defs = handle_client_def req_flags_def req_module_fd_def req_companion_def req_module_dir_def
  req_config_def req_status_def req_revert_def req_report_zygote_def req_native_fd_def req_native_companion_def
  req_restore_policy_def req_report_native_def req_module_name_def req_granted_def

section \<open>Kernel events\<close>

definition align4 :: "nat \<Rightarrow> nat" where "align4 n = (n + 3) div 4 * 4"

text \<open>The messages of one datagram: type and payload.\<close>

function nl_messages :: "bytes \<Rightarrow> (nat \<times> bytes) list" where
  "nl_messages buf =
     (if length buf < 16 then []
      else (let n = le_nat (take 4 buf) in
            if n < 16 \<or> n > length buf then []
            else (le_nat (take 2 (drop 4 buf)), take (n - 16) (drop 16 buf)) # nl_messages (drop (align4 n) buf)))"
  by pat_completeness auto
termination
  by (relation "measure length") (auto simp: align4_def)

declare nl_messages.simps [simp del]

text \<open>The event of a message: its type, pid and appid.\<close>

definition nl_event :: "nat \<times> bytes \<Rightarrow> (u32 \<times> u32 \<times> u32) option" where
  "nl_event m =
     (if fst m \<noteq> 16 \<or> length (snd m) < 12 then None
      else Some (of_nat (le_nat (take 4 (snd m))), of_nat (le_nat (take 4 (drop 4 (snd m)))),
                 of_nat (le_nat (take 4 (drop 8 (snd m))))))"

definition on_event :: "(rat \<Rightarrow> nat) \<Rightarrow> os \<Rightarrow> u32 \<times> u32 \<times> u32 \<Rightarrow> zd \<Rightarrow> zd outcome" where
  "on_event ub st e z =
     (case e of (ty, pid, appid) \<Rightarrow>
        if ty = 1 then Ret (record_injection appid z)
        else if ty = 2 then read_yzconfig ub st (rescan_modules st z)
        else if ty = 4 then Ret (z\<lparr>g_safemode := True, g_crashes := appid\<rparr>)
        else Ret z)"

fun on_events :: "(rat \<Rightarrow> nat) \<Rightarrow> os \<Rightarrow> (u32 \<times> u32 \<times> u32) list \<Rightarrow> zd \<Rightarrow> zd outcome" where
  "on_events ub st [] z = Ret z"
| "on_events ub st (e # es) z =
     (case on_event ub st e z of Ret z' \<Rightarrow> on_events ub st es z' | Throw \<Rightarrow> Throw | NoFuel \<Rightarrow> NoFuel)"

definition nl_drain :: "(rat \<Rightarrow> nat) \<Rightarrow> os \<Rightarrow> bytes \<Rightarrow> zd \<Rightarrow> zd outcome" where
  "nl_drain ub st buf z = on_events ub st (List.map_filter nl_event (nl_messages (take 4096 buf))) z"

section \<open>The daemon\<close>

definition zd_start :: zd where
  "zd_start = \<lparr>g_modules = [], g_native = [], g_companions = [], g_native_companions = [], g_cfg = default_config,
     g_granted = [], g_filter = False, g_scopes = [], g_safemode = False, g_crashes = 0, g_inject_count = 0,
     g_recent = [], g_zygotes = [], g_injections = [], k_targets = [], k_linker = 0\<rparr>"

text \<open>The states between two turns of the \<^verbatim>\<open>poll\<close> loop.\<close>

inductive reachable :: "(rat \<Rightarrow> nat) \<Rightarrow> zd \<Rightarrow> bool" for ub where
  start: "read_yzconfig ub st (rescan_modules st zd_start) = Ret z \<Longrightarrow> reachable ub z"
| client: "reachable ub z \<Longrightarrow> handle_client env st peer msg z = (rs, ks, z') \<Longrightarrow> reachable ub z'"
| event: "reachable ub z \<Longrightarrow> nl_drain ub st buf z = Ret z' \<Longrightarrow> reachable ub z'"

end
