(* ===== verification/Zygiskd_Props.thy ===== *)
theory Zygiskd_Props
  imports Zygiskd_Server Json_Props
begin

text \<open>Invariants of the zygisk daemon's states and what its protocol answers.\<close>

section \<open>The invariant\<close>

definition zd_inv :: "zd \<Rightarrow> bool" where
  "zd_inv z \<longleftrightarrow>
     length (g_recent z) \<le> kRecentMax \<and> distinct (g_recent z) \<and>
     length (g_zygotes z) \<le> kZygoteMax \<and>
     length (g_injections z) \<le> kNativeInjectionMax \<and>
     distinct (map (\<lambda>r. (ni_pid r, ni_module r)) (g_injections z)) \<and>
     length (k_targets z) \<le> TARGET_MAX \<and> (\<forall>t \<in> set (k_targets z). length (snd t) < TARGET_VALUE_MAX) \<and>
     (\<forall>e \<in> set (g_scopes z). wildcard (snd e))"

lemma zd_inv_start: "zd_inv zd_start"
  by (simp add: zd_inv_def zd_start_def)

lemma scope_array_wildcard: "wildcard ms \<Longrightarrow> wildcard (scope_array ub a ms)"
  by (induction ub a ms rule: scope_array.induct) (auto split: json.splits)

lemma parse_scope_wildcard: "wildcard (parse_scope ub v)"
proof -
  have "wildcard (scope_array ub a \<lparr>wildcard = True, uids = []\<rparr>)" for a
    by (rule scope_array_wildcard) simp
  then show ?thesis by (auto simp: parse_scope_def Let_def split: json.splits)
qed

lemma scopes_wildcard:
  "(\<forall>e \<in> set sc. wildcard (snd e)) \<Longrightarrow>
     \<forall>e \<in> set (fold (\<lambda>(k, v) sc. omap_put k (parse_scope ub v) sc) obj sc). wildcard (snd e)"
proof (induction obj arbitrary: sc)
  case (Cons e obj)
  obtain k v where e: "e = (k, v)" by force
  have "\<forall>e \<in> set (omap_put k (parse_scope ub v) sc). wildcard (snd e)"
    using Cons.prems parse_scope_wildcard [of ub v] by (auto dest!: omap_put_above)
  then show ?case using Cons.IH by (simp add: e)
qed simp

lemma apply_root_wildcard: "apply_root ub v = (cfg, granted, filt, sc) \<Longrightarrow> \<forall>e \<in> set sc. wildcard (snd e)"
  using scopes_wildcard [of "[]" ub] by (auto simp: apply_root_def Let_def split: json.splits)

lemma config_file_wildcard: "config_file_root ub st = Ret (cfg, granted, filt, sc) \<Longrightarrow> \<forall>e \<in> set sc. wildcard (snd e)"
  by (auto simp: config_file_root_def dest: apply_root_wildcard split: option.splits outcome.splits)

lemma read_yzconfig_Ret:
  assumes "read_yzconfig ub st z = Ret z'"
  obtains cfg granted filt sc where "config_file_root ub st = Ret (cfg, granted, filt, sc)"
    "z' = z\<lparr>g_cfg := cfg\<lparr>grant_filter := bool_u8 filt\<rparr>, g_granted := granted,
      g_filter := filt, g_scopes := sc, k_linker := zygisk_linker cfg\<rparr>"
  using assms by (auto simp: read_yzconfig_def split: outcome.splits prod.splits)

lemma read_yzconfig_companions:
  assumes "read_yzconfig ub st z = Ret z'"
  shows "read_yzconfig ub st (z\<lparr>g_companions := cs\<rparr>) = Ret (z'\<lparr>g_companions := cs\<rparr>)"
proof (rule read_yzconfig_Ret [OF assms])
  fix cfg granted filt sc
  assume "config_file_root ub st = Ret (cfg, granted, filt, sc)"
    "z' = z\<lparr>g_cfg := cfg\<lparr>grant_filter := bool_u8 filt\<rparr>, g_granted := granted,
      g_filter := filt, g_scopes := sc, k_linker := zygisk_linker cfg\<rparr>"
  then show ?thesis by (simp add: read_yzconfig_def)
qed

lemma zd_inv_read_yzconfig: "zd_inv z \<Longrightarrow> read_yzconfig ub st z = Ret z' \<Longrightarrow> zd_inv z'"
  by (erule read_yzconfig_Ret, drule config_file_wildcard) (auto simp: zd_inv_def)

lemma zd_inv_rescan: "zd_inv z \<Longrightarrow> zd_inv (rescan_modules st z)"
  by (auto simp: zd_inv_def rescan_modules_def publish_native_targets_def TARGET_VALUE_MAX_def)

lemma zd_inv_record_injection: "zd_inv z \<Longrightarrow> zd_inv (record_injection a z)"
  using recent_appids.touch_length [of "g_recent z" a] recent_appids.touch_distinct [of "g_recent z" a]
  by (simp add: zd_inv_def record_injection_def)

lemma zd_inv_record_zygote: "zd_inv z \<Longrightarrow> zd_inv (record_zygote st pid z)"
  using injected_zygotes.touch_length by (simp add: zd_inv_def record_zygote_def Let_def)

lemma zd_inv_record_native: "zd_inv z \<Longrightarrow> zd_inv (record_native_injection st pid i z)"
  using native_injections.touch_length native_injections.touch_distinct
  by (simp add: zd_inv_def record_native_injection_def Let_def)

lemma zd_inv_companions [simp]:
  "zd_inv (z\<lparr>g_companions := cs\<rparr>) = zd_inv z" "zd_inv (z\<lparr>g_native_companions := cs\<rparr>) = zd_inv z"
  by (simp_all add: zd_inv_def)

text \<open>What a request can do to the state.\<close>

lemma handle_client_state:
  assumes "handle_client env st peer msg z = (rs, ks, z')"
  shows "z' = z \<or> (\<exists>cs. z' = z\<lparr>g_companions := cs\<rparr>) \<or> (\<exists>cs. z' = z\<lparr>g_native_companions := cs\<rparr>) \<or>
      (\<exists>pid. z' = record_zygote st pid z) \<or> (\<exists>pid i. z' = record_native_injection st pid i z)"
proof (cases msg)
  case Nil
  then show ?thesis using assms by (simp add: handle_client_defs)
next
  case (Cons op inp)
  have eq: "snd (snd (handle_client env st peer (op # inp) z)) = z'" using assms Cons by simp
  show ?thesis
    using eq unfolding handle_client_defs
    by (auto simp only: list.case snd_conv Let_def prod.case split: if_splits option.splits prod.splits)
qed

lemma zd_inv_client: "zd_inv z \<Longrightarrow> handle_client env st peer msg z = (rs, ks, z') \<Longrightarrow> zd_inv z'"
  using handle_client_state [of env st peer msg z rs ks z']
  by (auto simp: zd_inv_record_zygote zd_inv_record_native)

lemma zd_inv_safemode: "zd_inv (z\<lparr>g_safemode := b, g_crashes := n\<rparr>) = zd_inv z"
  by (simp add: zd_inv_def)

lemma zd_inv_on_event: "zd_inv z \<Longrightarrow> on_event ub st e z = Ret z' \<Longrightarrow> zd_inv z'"
  by (auto simp: on_event_def zd_inv_record_injection zd_inv_safemode split: prod.splits if_splits
      intro: zd_inv_read_yzconfig zd_inv_rescan)

lemma zd_inv_on_events: "zd_inv z \<Longrightarrow> on_events ub st es z = Ret z' \<Longrightarrow> zd_inv z'"
  by (induction es arbitrary: z) (auto split: outcome.splits intro: zd_inv_on_event)

lemma reachable_zd_inv: "reachable ub z \<Longrightarrow> zd_inv z"
proof (induction rule: reachable.induct)
  case (start st z)
  then show ?case by (blast intro: zd_inv_read_yzconfig zd_inv_rescan zd_inv_start)
next
  case (client z env st peer msg rs ks z')
  then show ?case by (blast intro: zd_inv_client)
next
  case (event z st buf z')
  then show ?case unfolding nl_drain_def by (blast intro: zd_inv_on_events)
qed

section \<open>Lemmas for the properties\<close>

lemma granted_for_every_uid: "zd_inv z \<Longrightarrow> module_granted_for_uid z d uid"
  by (auto simp: zd_inv_def module_granted_for_uid_def split: option.splits dest!: map_of_SomeD)

lemma find_upt:
  assumes "P (m + k)" "\<And>j. j < k \<Longrightarrow> \<not> P (m + j)" "m + k < n"
  shows "find P [m..<n] = Some (m + k)"
  unfolding find_Some_iff using assms by (intro exI [of _ k]) auto

lemma mi_tokens:
  assumes toks: "tokens line = [a, b, c, mroot, target, opts] @ tags @ [''-'', fstype, source] @ rest"
    and no_dash: "''-'' \<notin> set (opts # tags)"
  shows "yz_mi_parse line = Some (mroot, target, source)"
proof -
  define tok where "tok = tokens line"
  let ?n = "Suc (length tags)"
  have nth: "tok ! (5 + i) = ((opts # tags) @ [''-'', fstype, source] @ rest) ! i" for i
    unfolding tok_def toks by (simp add: numeral_eq_Suc)
  have before: "tok ! (5 + j) \<noteq> ''-''" if "j < ?n" for j
  proof -
    have "tok ! (5 + j) = (opts # tags) ! j" unfolding nth using that by (simp add: nth_append del: append_Cons)
    moreover have "(opts # tags) ! j \<in> set (opts # tags)" using that by (intro nth_mem) simp
    ultimately show ?thesis using no_dash by metis
  qed
  have at: "tok ! (5 + ?n) = ''-''" "tok ! (5 + ?n + 2) = source"
    using nth [of ?n] nth [of "?n + 2"] by (simp_all add: nth_append add.assoc)
  have len: "5 + ?n + 2 < length tok" unfolding tok_def toks by simp
  have "find (\<lambda>i. tok ! i = ''-'') [5..<length tok] = Some (5 + ?n)"
    by (rule find_upt) (use before at(1) len in auto)
  moreover have "tok ! 3 = mroot" "tok ! 4 = target" unfolding tok_def toks by (simp_all add: numeral_eq_Suc)
  ultimately show ?thesis
    using at(2) len by (simp add: yz_mi_parse_def tok_def [symmetric] Let_def)
qed


section \<open>Properties\<close>


text \<open>
  A machine with one enabled module \<^verbatim>\<open>a\<close>, whose scope in the configuration is the user id 10001.
\<close>

definition zd_config :: json where
  "zd_config = JObject [(''module_scopes'', JObject [(''a'', JArray [JNumber 10001])]), (''zygote_modules'', JArray [JString ''a''])]"

definition zd_os :: "string \<Rightarrow> os" where
  "zd_os content = \<lparr>fs = [(kModulesDir, Dir), (''/data/adb/modules/a'', Dir), (''/data/adb/modules/a/zygisk'', Dir),
       (''/data/adb/modules/a/zygisk/arm64-v8a.so'', Reg 420 ''x''), (YZCONFIG_PATH, Reg 420 content)],
     ro_path = (\<lambda>_. False), prop_of = (\<lambda>_. []), env_of = (\<lambda>_. None),
     run_of = (\<lambda>_. \<lparr>pipes_ok = False, fork_ok = False, out_reads = [], err_reads = [], wstatus = Stopped\<rparr>),
     kernel_safemode = False, trace = []\<rparr>"

definition zd_env :: zenv where
  "zd_env = \<lparr>spawn = (\<lambda>_. Some (900, True)), socketpair_ok = True, ctrl_ok = (\<lambda>_. True), memfd_ok = (\<lambda>_. True),
     revert_ok = (\<lambda>_. True), patch_ok = (\<lambda>_ _ _. True), restore_ok = (\<lambda>_. True)\<rparr>"

definition zd_demo :: zd where
  "zd_demo = publish_native_targets (zd_start\<lparr>g_modules := [\<lparr>zm_name = ''a'', zm_lib = ''/data/adb/modules/a/zygisk/arm64-v8a.so''\<rparr>],
     g_cfg := default_config\<lparr>grant_filter := 1\<rparr>, g_granted := [(''a'', ())], g_filter := True,
     g_scopes := [(''a'', \<lparr>wildcard = True, uids = [10001]\<rparr>)], k_linker := 1\<rparr>)"

lemma zd_config_read: "json_parse (dump None 0 zd_config) = Ret zd_config"
proof -
  have "\<exists>n < 2 ^ 53. (10001 :: rat) = of_nat n" by (rule exI [of _ 10001]) simp
  then show ?thesis by (intro json_parse_dump) (simp add: zd_config_def str_ok_def char_code_def)
qed

lemma zd_demo_start: "read_yzconfig (\<lambda>_. 0) (zd_os (dump None 0 zd_config)) (rescan_modules (zd_os (dump None 0 zd_config)) zd_start) = Ret zd_demo"
proof -
  have f: "read_file (zd_os content) YZCONFIG_PATH = Some content" for content :: string by code_simp
  have a: "apply_root (\<lambda>_. 0) zd_config =
      (default_config, [(''a'', ())], True, [(''a'', \<lparr>wildcard = True, uids = [10001]\<rparr>)])" by code_simp
  have s: "scan_modules (zd_os content) = [\<lparr>zm_name = ''a'', zm_lib = ''/data/adb/modules/a/zygisk/arm64-v8a.so''\<rparr>]"
    "scan_native_modules (zd_os content) = []" for content :: string by code_simp+
  show ?thesis
    by (simp add: read_yzconfig_def config_file_root_def f zd_config_read a rescan_modules_def s zd_demo_def
        publish_native_targets_def zd_start_def default_config_def bool_u8_def)
qed

lemma zd_demo_reachable: "reachable (\<lambda>_. 0) zd_demo"
  using zd_demo_start by (rule reachable.start)


text \<open>
  The per-user scopes of the configuration never restrict anything: in every reachable state
  the modules granted to a user are those the global list grants, whatever the user's id.
\<close>

theorem module_scopes_ignored:
  assumes "reachable ub z"
  shows "granted_names z uid = map zm_name (filter (\<lambda>m. module_globally_granted z (zm_name m)) (g_modules z))"
  using granted_for_every_uid [OF reachable_zd_inv [OF assms]] by (simp add: granted_names_def)

theorem module_scopes_ignored_witness: "granted_names zd_demo 10002 = [''a'']"
proof -
  have "map zm_name (filter (\<lambda>m. module_globally_granted zd_demo (zm_name m)) (g_modules zd_demo)) = [''a'']"
    by code_simp
  then show ?thesis by (simp only: module_scopes_ignored [OF zd_demo_reachable])
qed


text \<open>
  The status text, with pids and module names, is for the superuser only: any other peer
  gets an empty text, and nothing changes.
\<close>

theorem status_for_root_only:
  assumes "peer = None \<or> (\<exists>pid uid. peer = Some (pid, uid) \<and> uid \<noteq> 0)"
  shows "handle_client env st peer (7 # inp) z = ([RBytes [0, 0, 0, 0]], [], z)"
proof -
  have "u32_le 0 = [0, 0, 0, 0]" by code_simp
  then show ?thesis using assms by (auto simp: handle_client_defs)
qed

theorem status_for_root_only_witness:
  "handle_client zd_env (zd_os []) (Some (77, 10001)) [7] zd_demo = ([RBytes [0, 0, 0, 0]], [], zd_demo)"
  by (rule status_for_root_only) simp

text \<open>What the two requests with arguments ask of the kernel.\<close>

lemma req_self_destruct_calls:
  "req_self_destruct env peer inp = (rs, ks) \<Longrightarrow> k \<in> set ks \<Longrightarrow> \<exists>pid. peer_pid peer = Some pid \<and> ks = [KRevertMounts pid]"
  by (auto simp: req_self_destruct_def split: list.splits if_splits option.splits)

lemma take_bytes_length: "take_bytes n inp = Some (a, b) \<Longrightarrow> length a = n"
  by (auto simp: take_bytes_def split: if_splits)

lemma req_patch_text_calls:
  "req_patch_text env peer inp = (rs, ks) \<Longrightarrow> k \<in> set ks \<Longrightarrow>
     \<exists>pid addr code. peer_pid peer = Some pid \<and> ks = [KPatchText pid addr code] \<and> 1 \<le> length code \<and> length code \<le> 64"
  by (auto simp: req_patch_text_def PATCH_TEXT_MAX_def unat_eq_zero not_less
      dest!: take_bytes_length split: option.splits prod.splits if_splits intro: Suc_leI
      simp: unat_gt_0 [symmetric] Suc_le_eq)

lemma handle_client_calls:
  assumes "handle_client env st peer (op # inp) z = (rs, ks, z')"
  shows "ks = [] \<or> (\<exists>pid. peer_pid peer = Some pid \<and> (ks = [KRevertMounts pid] \<or> ks = [KRestorePolicy pid])) \<or>
      (\<exists>rs'. req_self_destruct env peer inp = (rs', ks)) \<or> (\<exists>rs'. req_patch_text env peer inp = (rs', ks))"
proof -
  have eq: "fst (snd (handle_client env st peer (op # inp) z)) = ks" using assms by simp
  show ?thesis
    using eq unfolding handle_client_defs
    by (auto simp only: list.case snd_conv fst_conv Let_def prod.case split: if_splits option.splits prod.splits)
qed

text \<open>
  C16: whatever bytes a client sends, the kernel calls made for it concern the client's own
  process: at most one call, with the pid the socket reports, and a text patch of 1 to 64 bytes.
\<close>

theorem kernel_calls_for_the_peer:
  assumes "handle_client env st peer msg z = (rs, ks, z')" "k \<in> set ks"
  shows "\<exists>pid uid. peer = Some (pid, uid) \<and> 0 < pid \<and>
    (ks = [KRevertMounts pid] \<or> ks = [KRestorePolicy pid] \<or>
     (\<exists>addr code. ks = [KPatchText pid addr code] \<and> 1 \<le> length code \<and> length code \<le> 64))"
proof (cases msg)
  case Nil
  then show ?thesis using assms by (simp add: handle_client_defs)
next
  case (Cons op inp)
  have peer: "\<exists>uid. peer = Some (pid, uid) \<and> 0 < pid" if "peer_pid peer = Some pid" for pid
    using that by (auto simp: peer_pid_def split: option.splits prod.splits if_splits)
  have "\<exists>pid. peer_pid peer = Some pid \<and> (ks = [KRevertMounts pid] \<or> ks = [KRestorePolicy pid] \<or>
     (\<exists>addr code. ks = [KPatchText pid addr code] \<and> 1 \<le> length code \<and> length code \<le> 64))"
    using handle_client_calls [OF assms(1) [unfolded Cons]] assms(2)
      req_self_destruct_calls [of env peer inp _ ks k] req_patch_text_calls [of env peer inp _ ks k]
    by (elim disjE exE) (fastforce+)
  then show ?thesis using peer by blast
qed


theorem kernel_calls_for_the_peer_witness:
  "\<exists>pid uid. Some (7, 10002) = Some (pid, uid) \<and> 0 < pid \<and>
    ([KRevertMounts 7] = [KRevertMounts pid] \<or> [KRevertMounts 7] = [KRestorePolicy pid] \<or>
     (\<exists>addr code. [KRevertMounts 7] = [KPatchText pid addr code] \<and> 1 \<le> length code \<and> length code \<le> 64))"
proof -
  have "handle_client zd_env (zd_os []) (Some (7, 10002)) [8] zd_demo = ([ok_reply True], [KRevertMounts 7], zd_demo)"
    by (simp add: handle_client_defs peer_pid_def zd_env_def)
  from kernel_calls_for_the_peer [OF this, of "KRevertMounts 7"] show ?thesis by simp
qed

section \<open>Companions\<close>

text \<open>
  After a reload a client may be connected to the companion of another module: the table of
  companions is kept by position, so when the number of modules is unchanged the request for
  module \<open>i\<close> reaches the process spawned for whatever module was \<open>i\<close>-th before.
\<close>

theorem stale_companion_after_reload:
  assumes "on_event ub st (2, p, q) z = Ret z'" "idx < length (g_modules z')" "length (g_modules z') < 2 ^ 32"
    "length (g_companions z) = length (g_modules z')" "c_pid (g_companions z ! idx) = pid" "0 < pid"
    "c_has_entry (g_companions z ! idx)" "socketpair_ok env" "ctrl_ok env pid"
  shows "handle_client env st' peer (4 # u32_le (of_nat idx)) z' = ([RSocket pid], [], z')"
proof -
  have "g_companions z' = g_companions z"
    using assms(1) by (auto simp: on_event_def rescan_modules_def publish_native_targets_def elim!: read_yzconfig_Ret)
  moreover have "unat (of_nat idx :: u32) = idx" using assms(2,3) by (simp add: unat_of_nat)
  moreover have "get_u32 (u32_le (of_nat idx)) = Some (of_nat idx, [])"
    using get_u32_le [of "of_nat idx" "[]"] by simp
  ultimately show ?thesis
    using assms(2-) by (simp add: handle_client_defs ensure_companion_def connect_companion_def Let_def)
qed

text \<open>The state of a daemon that has spawned the companion of another module \<^verbatim>\<open>b\<close>.\<close>

definition zd_other :: zd where
  "zd_other = zd_start\<lparr>g_modules := [\<lparr>zm_name = ''b'', zm_lib = ''/b.so''\<rparr>],
     g_companions := [\<lparr>c_pid = 900, c_has_entry = True, c_lib = ''/b.so''\<rparr>]\<rparr>"

theorem stale_companion_after_reload_witness:
  "\<exists>z'. on_event (\<lambda>_. 0) (zd_os (dump None 0 zd_config)) (2, 0, 0) zd_other = Ret z' \<and>
     map zm_name (g_modules z') = [''a''] \<and> map c_lib (g_companions z') = [''/b.so''] \<and>
     fst (handle_client zd_env (zd_os []) None (4 # u32_le 0) z') = [RSocket 900]"
proof -
  let ?st = "zd_os (dump None 0 zd_config)"
  have r: "rescan_modules ?st zd_other = (rescan_modules ?st zd_start)\<lparr>g_companions := g_companions zd_other\<rparr>"
    by (simp add: rescan_modules_def publish_native_targets_def zd_other_def)
  define z' where eq: "z' = zd_demo\<lparr>g_companions := g_companions zd_other\<rparr>"
  have z': "on_event (\<lambda>_. 0) ?st (2, 0, 0) zd_other = Ret z'"
    using read_yzconfig_companions [OF zd_demo_start] by (simp add: on_event_def r eq)
  have "fst (handle_client zd_env (zd_os []) None (4 # u32_le (of_nat 0)) z') = [RSocket 900]"
    by (subst stale_companion_after_reload [OF z', of 0 900])
       (simp_all add: eq zd_demo_def publish_native_targets_def zd_other_def zd_env_def)
  with z' show ?thesis by (simp add: eq zd_demo_def publish_native_targets_def zd_other_def)
qed

text \<open>
  A companion that does not run is started from the library of the requested module, and the
  next request reaches the same process.
\<close>

theorem companion_started_once:
  assumes "idx < length (g_modules z)" "length (g_modules z) < 2 ^ 32"
    "length (g_companions z) = length (g_modules z) \<Longrightarrow> c_pid (g_companions z ! idx) = 0"
    "length (g_companions z) \<noteq> length (g_modules z) \<Longrightarrow> length (g_companions z) \<le> idx"
    "spawn env (zm_lib (g_modules z ! idx)) = Some (pid, True)" "0 < pid" "socketpair_ok env" "ctrl_ok env pid"
    "handle_client env st peer (4 # u32_le (of_nat idx)) z = (rs, ks, z')"
  shows "rs = [RSocket pid] \<and> c_lib (g_companions z' ! idx) = zm_lib (g_modules z ! idx) \<and>
    handle_client env st' peer' (4 # u32_le (of_nat idx)) z' = ([RSocket pid], [], z')"
proof -
  have i: "unat (of_nat idx :: u32) = idx" using assms(1,2) by (simp add: unat_of_nat)
  have g: "get_u32 (u32_le (of_nat idx)) = Some (of_nat idx, [])"
    using get_u32_le [of "of_nat idx" "[]"] by simp
  define cs where "cs = (if length (g_companions z) \<noteq> length (map zm_lib (g_modules z))
      then resize_companions (length (map zm_lib (g_modules z))) (g_companions z) else g_companions z)"
  have cs: "length cs = length (g_modules z)" by (auto simp: cs_def resize_companions_def)
  have idle: "c_pid (cs ! idx) = 0"
    using assms(1,3,4) by (auto simp: cs_def resize_companions_def nth_append no_companion_def)
  have ens: "ensure_companion env (map zm_lib (g_modules z)) idx (g_companions z) =
      (True, cs[idx := \<lparr>c_pid = pid, c_has_entry = True, c_lib = zm_lib (g_modules z ! idx)\<rparr>])"
    unfolding ensure_companion_def cs_def [symmetric] Let_def using assms(1,5,7) idle by simp
  have step: "rs = [RSocket pid] \<and> z' = z\<lparr>g_companions := cs[idx := \<lparr>c_pid = pid, c_has_entry = True, c_lib = zm_lib (g_modules z ! idx)\<rparr>]\<rparr>"
    using assms(1,7,8,9) cs by (simp add: handle_client_defs g i ens connect_companion_def Let_def)
  then show ?thesis
    using assms(1,6,7,8) cs by (simp add: handle_client_defs g i ensure_companion_def connect_companion_def Let_def)
qed

theorem companion_started_once_witness:
  "fst (handle_client zd_env (zd_os []) None (4 # u32_le (of_nat 0)) zd_demo) = [RSocket 900]"
proof -
  obtain rs ks z' where h: "handle_client zd_env (zd_os []) None (4 # u32_le (of_nat 0)) zd_demo = (rs, ks, z')"
    by (cases "handle_client zd_env (zd_os []) None (4 # u32_le (of_nat 0)) zd_demo") auto
  have "rs = [RSocket 900]"
    using companion_started_once [of 0 zd_demo zd_env 900, OF _ _ _ _ _ _ _ _ h]
    by (simp add: zd_demo_def publish_native_targets_def zd_env_def zd_start_def)
  then show ?thesis using h by simp
qed

end
