(* ===== verification/Zygiskd_Events.thy ===== *)
theory Zygiskd_Events
  imports Zygiskd_Props
begin

text \<open>
  The kernel's event channel (\<^verbatim>\<open>core/tamisu_zygote_nl.c\<close>) and the daemon that drains it, and the
  parsers of the daemon: module manifests, command lines of zygotes, mount tables.
\<close>

section \<open>Events\<close>

text \<open>
  The datagram of \<^verbatim>\<open>tamisu_zygote_nl_emit_event\<close>: a netlink header with the length, the type,
  no flags, sequence number and port, and the three words of the event.
\<close>

definition emit_event :: "u32 \<Rightarrow> u32 \<Rightarrow> u32 \<Rightarrow> bytes" where
  "emit_event ty pid appid =
     u32_le 28 @ u16_le 16 @ u16_le 0 @ u32_le 0 @ u32_le 0 @ u32_le ty @ u32_le pid @ u32_le appid"

definition emit_specialize :: "u32 \<Rightarrow> u32 \<Rightarrow> bytes" where "emit_specialize pid appid = emit_event 1 pid appid"
definition emit_reload :: bytes where "emit_reload = emit_event 2 0 0"
definition emit_safemode :: "u32 \<Rightarrow> u32 \<Rightarrow> bytes" where "emit_safemode pid crashes = emit_event 4 pid crashes"

lemma length_emit_event [simp]: "length (emit_event ty pid appid) = 28"
  by (simp add: emit_event_def)

lemma le_nat_take_u32 [simp]: "le_nat (take 4 (u32_le w @ r)) = unat w"
  using unsigned_less [of w, where ?'a = nat] by (simp add: u32_le_def le_nat_nat_le)

lemma nl_messages_frame:
  "nl_messages (emit_event ty pid appid @ rest) =
     (16, u32_le ty @ u32_le pid @ u32_le appid) # nl_messages rest"
proof -
  let ?b = "emit_event ty pid appid @ rest"
  have n: "le_nat (take 4 ?b) = 28" unfolding emit_event_def append_assoc le_nat_take_u32 by simp
  have t: "le_nat (take 2 (drop 4 ?b)) = 16"
    by (simp add: emit_event_def u16_le_def le_nat_nat_le)
  have p: "take 12 (drop 16 ?b) = u32_le ty @ u32_le pid @ u32_le appid"
    by (simp add: emit_event_def)
  have d: "drop 28 ?b = rest" by simp
  show ?thesis using n t p d by (subst nl_messages.simps) (simp add: Let_def align4_def)
qed

lemma nl_event_frame: "nl_event (16, u32_le ty @ u32_le pid @ u32_le appid) = Some (ty, pid, appid)"
  using le_nat_u32_le by (simp add: nl_event_def)

lemma nl_messages_frames:
  "List.map_filter nl_event (nl_messages (concat (map (\<lambda>(t, p, a). emit_event t p a) es))) = es"
proof (induction es)
  case Nil
  then show ?case by (subst nl_messages.simps) (simp add: List.map_filter_simps)
next
  case (Cons e es)
  obtain t p a where "e = (t, p, a)" by (cases e)
  then show ?case using Cons.IH
    by (simp add: nl_messages_frame nl_event_frame List.map_filter_simps)
qed

lemma drain_frames:
  assumes "length es \<le> 146"
  shows "nl_drain ub st (concat (map (\<lambda>(t, p, a). emit_event t p a) es)) z = on_events ub st es z"
proof -
  have "length (concat (map (\<lambda>(t, p, a). emit_event t p a) es)) = 28 * length es"
    by (induction es) auto
  then have "take 4096 (concat (map (\<lambda>(t, p, a). emit_event t p a) es)) = concat (map (\<lambda>(t, p, a). emit_event t p a) es)"
    using assms by (intro take_all) simp
  then show ?thesis by (simp add: nl_drain_def nl_messages_frames)
qed

lemma on_specializations:
  "on_events ub st (map (Pair 1) ps) z =
     Ret (z\<lparr>g_inject_count := g_inject_count z + of_nat (length ps),
            g_recent := fold touch_appid (map snd ps) (g_recent z)\<rparr>)"
proof (induction ps arbitrary: z)
  case (Cons e ps)
  obtain p a where "e = (p, a)" by force
  then show ?case using Cons.IH by (simp add: on_event_def record_injection_def algebra_simps)
qed simp

lemma drain_specializations:
  assumes "length ps \<le> 146"
  shows "nl_drain ub st (concat (map (\<lambda>(p, a). emit_specialize p a) ps)) z =
     Ret (z\<lparr>g_inject_count := g_inject_count z + of_nat (length ps),
            g_recent := fold touch_appid (map snd ps) (g_recent z)\<rparr>)"
proof -
  have "concat (map (\<lambda>(p, a). emit_specialize p a) ps) =
      concat (map (\<lambda>(t, p, a). emit_event t p a) (map (Pair 1) ps))"
    by (induction ps) (auto simp: emit_specialize_def)
  then show ?thesis
    using drain_frames [of "map (Pair 1) ps" ub st z] assms
    by (simp add: on_specializations del: map_map)
qed

text \<open>
  C27: the daemon takes from a buffer of the event channel exactly the events the kernel put
  there, in order (146 events fill the buffer).
\<close>

theorem events_delivered_in_order:
  assumes "length es \<le> 146"
  shows "nl_drain ub st (concat (map (\<lambda>(t, p, a). emit_event t p a) es)) z = on_events ub st es z"
  using assms by (rule drain_frames)

theorem events_delivered_in_order_witness:
  "nl_drain (\<lambda>_. 0) (zd_os []) (emit_specialize 7 42 @ emit_safemode 7 3) zd_start =
     Ret (zd_start\<lparr>g_inject_count := 1, g_recent := [42], g_safemode := True, g_crashes := 3\<rparr>)"
  using events_delivered_in_order [of "[(1, 7, 42), (4, 7, 3)]" "\<lambda>_. 0" "zd_os []" zd_start]
  by (simp add: emit_specialize_def emit_safemode_def on_event_def record_injection_def touch_appid_def
      pop_over_def kRecentMax_def zd_start_def)

lemma fold_touch_front: "xs \<noteq> [] \<Longrightarrow> hd (fold touch_appid xs r) = last xs \<and> fold touch_appid xs r \<noteq> []"
  by (induction xs arbitrary: r rule: rev_induct) (use recent_appids.touch_front in auto)

text \<open>
  After a run of injections the counter has advanced by their number and the list of recent
  applications starts with the last one, without repetitions and within 16 entries.
\<close>

theorem injections_counted:
  assumes "ps \<noteq> []" "length ps \<le> 146" "reachable ub z"
    "nl_drain ub st (concat (map (\<lambda>(p, a). emit_specialize p a) ps)) z = Ret z'"
  shows "g_inject_count z' = g_inject_count z + of_nat (length ps) \<and> hd (g_recent z') = snd (last ps) \<and>
    distinct (g_recent z') \<and> length (g_recent z') \<le> 16"
proof -
  have z': "z' = z\<lparr>g_inject_count := g_inject_count z + of_nat (length ps),
            g_recent := fold touch_appid (map snd ps) (g_recent z)\<rparr>"
    using assms(4) by (simp add: drain_specializations [OF assms(2)])
  have inv: "length (g_recent z) \<le> kRecentMax" "distinct (g_recent z)"
    using reachable_zd_inv [OF assms(3)] by (simp_all add: zd_inv_def)
  show ?thesis
    using recent_appids.touches_length [OF inv(1)] recent_appids.touches_distinct [of "g_recent z"] inv(2)
      fold_touch_front [of "map snd ps" "g_recent z"] assms(1)
    by (simp add: z' kRecentMax_def last_map)
qed

theorem injections_counted_witness:
  "\<exists>z'. nl_drain (\<lambda>_. 0) (zd_os []) (emit_specialize 7 42 @ emit_specialize 8 43 @ emit_specialize 9 42) zd_demo = Ret z' \<and>
     g_inject_count z' = 3 \<and> hd (g_recent z') = 42"
proof -
  let ?ps = "[(7, 42), (8, 43), (9, 42)] :: (u32 \<times> u32) list"
  obtain z' where z': "nl_drain (\<lambda>_. 0) (zd_os []) (concat (map (\<lambda>(p, a). emit_specialize p a) ?ps)) zd_demo = Ret z'"
    using drain_specializations [of ?ps "\<lambda>_. 0" "zd_os []" zd_demo] by simp
  then show ?thesis
    using injections_counted [OF _ _ zd_demo_reachable z']
    by (simp add: zd_demo_def publish_native_targets_def zd_start_def)
qed

end
