(* ===== verification/Zygiskd_Parsers.thy ===== *)
theory Zygiskd_Parsers
  imports Zygiskd_Props
begin

text \<open>
  What the parsers of the zygisk daemon read: mount tables, command lines of zygotes and the
  module manifests \<^verbatim>\<open>zn_modules.txt\<close>.
\<close>

section \<open>Mount tables\<close>

text \<open>The words of a \<^verbatim>\<open>mountinfo\<close> line with the given root, mount point and source.\<close>

definition mi_words :: "string \<times> string \<times> string \<Rightarrow> string list \<Rightarrow> bool" where
  "mi_words e ws \<longleftrightarrow>
     (case e of (mroot, target, source) \<Rightarrow>
        \<exists>a b c opts tags fstype rest.
          ws = [a, b, c, mroot, target, opts] @ tags @ [''-'', fstype, source] @ rest \<and> ''-'' \<notin> set (opts # tags))"

lemma mi_wordsI:
  "''-'' \<notin> set (opts # tags) \<Longrightarrow>
     mi_words (mroot, target, source) ([a, b, c, mroot, target, opts] @ tags @ [''-'', fstype, source] @ rest)"
  unfolding mi_words_def by auto

definition word_ok :: "string \<Rightarrow> bool" where
  "word_ok w \<longleftrightarrow> w \<noteq> [] \<and> (\<forall>c \<in> set w. \<not> is_space c)"

lemma sep_items_Nil [simp]: "sep_items sep [] = []"
  by (simp add: sep_items_def)

lemma sep_items_space: "ws \<noteq> [] \<Longrightarrow> CHR '' '' # sep_items '' '' ws = concat (map (\<lambda>w. CHR '' '' # w) ws)"
proof (induction ws)
  case (Cons w ws)
  then show ?case by (cases ws) (auto simp: sep_items_Cons)
qed simp

lemma tokens_sep_items:
  assumes "\<And>w. w \<in> set ws \<Longrightarrow> word_ok w"
  shows "tokens (sep_items '' '' ws) = ws"
proof (cases "ws = []")
  case True
  then show ?thesis by simp
next
  case False
  have "tokens (CHR '' '' # sep_items '' '' ws) = ws"
    unfolding sep_items_space [OF False] using assms by (intro tokens_render) (auto simp: word_ok_def)
  then show ?thesis by (simp add: is_space_def)
qed

lemma mi_parse_words:
  assumes "mi_words e ws" "\<And>w. w \<in> set ws \<Longrightarrow> word_ok w"
  shows "yz_mi_parse (sep_items '' '' ws) = Some e"
proof -
  obtain mroot target source where e: "e = (mroot, target, source)" by (cases e)
  then obtain a b c opts tags fstype rest where
    ws: "ws = [a, b, c, mroot, target, opts] @ tags @ [''-'', fstype, source] @ rest" "''-'' \<notin> set (opts # tags)"
    using assms(1) by (auto simp: mi_words_def)
  show ?thesis unfolding e
    by (rule mi_tokens [OF _ ws(2)]) (simp only: tokens_sep_items [OF assms(2)] ws(1))
qed

lemma sep_items_no_NL: "(\<And>w. w \<in> set ws \<Longrightarrow> word_ok w) \<Longrightarrow> NL \<notin> set (sep_items '' '' ws)"
  by (induction ws) (auto simp: sep_items_Cons word_ok_def is_space_def split: if_splits)

text \<open>
  From the mount table of a process exactly the mounts of the root solutions and of modules
  are detached, the last mounted first, whatever optional fields the lines have.
\<close>

theorem umount_exactly_root_mounts:
  assumes "\<And>e ws. (e, ws) \<in> set es \<Longrightarrow> mi_words e ws \<and> (\<forall>w \<in> set ws. word_ok w)"
  shows "yz_umount_root_in_ns (unlines NL (map (\<lambda>(e, ws). sep_items '' '' ws) es)) =
    rev (map (\<lambda>(e, ws). fst (snd e)) (filter (\<lambda>(e, ws). should_umount e) es))"
proof -
  have "getline_all NL (unlines NL (map (\<lambda>(e, ws). sep_items '' '' ws) es)) = map (\<lambda>(e, ws). sep_items '' '' ws) es"
    using assms sep_items_no_NL by (intro getline_all_unlines) force
  moreover have "List.map_filter yz_mi_parse (map (\<lambda>(e, ws). sep_items '' '' ws) es) = map fst es"
    using assms
  proof (induction es)
    case (Cons x es)
    obtain e ws where x: "x = (e, ws)" by (cases x)
    have "yz_mi_parse (sep_items '' '' ws) = Some e" using Cons.prems [of e ws] x by (intro mi_parse_words) auto
    moreover have "List.map_filter yz_mi_parse (map (\<lambda>(e, ws). sep_items '' '' ws) es) = map fst es"
      by (rule Cons.IH, rule Cons.prems) simp
    ultimately show ?case by (simp add: x List.map_filter_simps)
  qed (simp add: List.map_filter_simps)
  moreover have "concat (map (\<lambda>e. if should_umount e then [fst (snd e)] else []) (map fst es)) =
      map (\<lambda>(e, ws). fst (snd e)) (filter (\<lambda>(e, ws). should_umount e) es)"
    by (induction es) auto
  ultimately show ?thesis by (simp add: yz_umount_root_in_ns_def del: map_map)
qed

theorem umount_exactly_root_mounts_witness:
  "yz_umount_root_in_ns (''36 1 8:1 / / rw - ext4 /dev/root'' @ [NL] @
      ''40 36 0:4 /adb/modules/a /system/bin rw master:2 - ext4 /dev/x'' @ [NL] @ ''41 36 0:5 / /mnt rw - tmpfs TAMISU rw'' @ [NL]) =
    [''/mnt'', ''/system/bin'']"
proof -
  let ?ws = "[''36'', ''1'', ''8:1'', ''/'', ''/'', ''rw'', ''-'', ''ext4'', ''/dev/root'']"
  let ?vs = "[''40'', ''36'', ''0:4'', ''/adb/modules/a'', ''/system/bin'', ''rw'', ''master:2'', ''-'', ''ext4'', ''/dev/x'']"
  let ?us = "[''41'', ''36'', ''0:5'', ''/'', ''/mnt'', ''rw'', ''-'', ''tmpfs'', ''TAMISU'', ''rw'']"
  let ?es = "[((''/'', ''/'', ''/dev/root''), ?ws), ((''/adb/modules/a'', ''/system/bin'', ''/dev/x''), ?vs), ((''/'', ''/mnt'', ''TAMISU''), ?us)]"
  have m: "mi_words (''/'', ''/'', ''/dev/root'') ?ws" "mi_words (''/adb/modules/a'', ''/system/bin'', ''/dev/x'') ?vs"
      "mi_words (''/'', ''/mnt'', ''TAMISU'') ?us"
    using mi_wordsI [of "''rw''" "[]" "''/''" "''/''" "''/dev/root''" "''36''" "''1''" "''8:1''" "''ext4''" "[]"]
      mi_wordsI [of "''rw''" "[''master:2'']" "''/adb/modules/a''" "''/system/bin''" "''/dev/x''" "''40''" "''36''" "''0:4''" "''ext4''" "[]"]
      mi_wordsI [of "''rw''" "[]" "''/''" "''/mnt''" "''TAMISU''" "''41''" "''36''" "''0:5''" "''tmpfs''" "[''rw'']"]
    by simp_all
  have "yz_umount_root_in_ns (unlines NL (map (\<lambda>(e, ws). sep_items '' '' ws) ?es)) =
      rev (map (\<lambda>(e, ws). fst (snd e)) (filter (\<lambda>(e, ws). should_umount e) ?es))"
    by (rule umount_exactly_root_mounts) (use m in \<open>auto simp: word_ok_def is_space_def\<close>)
  then show ?thesis by (simp add: unlines_def should_umount_def sep_items_def)
qed

section \<open>Command lines\<close>

lemma zygote_args_found: "fst (zygote_args args (found, sock, abi)) \<longleftrightarrow> found \<or> ''-Xzygote'' \<in> set args"
  by (induction args arbitrary: found sock abi) auto

lemma zygote_args_sock:
  "filter (prefix ''--socket-name='') args = map ((@) ''--socket-name='') ns \<Longrightarrow>
     fst (snd (zygote_args args (found, sock, abi))) = last (sock # ns)"
proof (induction args arbitrary: found sock abi ns)
  case (Cons arg args)
  show ?case
  proof (cases "prefix ''--socket-name='' arg")
    case True
    then obtain n ns' where ns: "ns = n # ns'" "arg = ''--socket-name='' @ n"
      and *: "filter (prefix ''--socket-name='') args = map ((@) ''--socket-name='') ns'"
      using Cons.prems by (cases ns) auto
    then show ?thesis using Cons.IH [OF *] by simp
  next
    case False
    then have "filter (prefix ''--socket-name='') args = map ((@) ''--socket-name='') ns" using Cons.prems by simp
    from Cons.IH [OF this] show ?thesis using False by simp
  qed
qed simp

lemma zygote_args_abi:
  "filter (prefix ''--abi-list='') args = map ((@) ''--abi-list='') ns \<Longrightarrow>
     snd (snd (zygote_args args (found, sock, abi))) = last (abi # ns)"
proof (induction args arbitrary: found sock abi ns)
  case (Cons arg args)
  show ?case
  proof (cases "prefix ''--abi-list='' arg")
    case True
    then obtain n ns' where ns: "ns = n # ns'" "arg = ''--abi-list='' @ n"
      and *: "filter (prefix ''--abi-list='') args = map ((@) ''--abi-list='') ns'"
      using Cons.prems by (cases ns) auto
    then show ?thesis using Cons.IH [OF *] by simp
  next
    case False
    then have "filter (prefix ''--abi-list='') args = map ((@) ''--abi-list='') ns" using Cons.prems by simp
    from Cons.IH [OF this] show ?thesis using False by simp
  qed
qed simp

text \<open>
  A process counts as a zygote exactly when one of its arguments is \<^verbatim>\<open>-Xzygote\<close>, under the
  name of its last socket argument (\<^verbatim>\<open>zygote\<close> without one) and with its last list of ABIs.
\<close>

theorem zygote_command_line:
  assumes "read_file st (pid_path pid ''cmdline'') = Some (unlines NUL args)" "args \<noteq> []"
    "\<And>a. a \<in> set args \<Longrightarrow> NUL \<notin> set a" "length (unlines NUL args) \<le> 4096"
    "filter (prefix ''--socket-name='') args = map ((@) ''--socket-name='') ns"
    "filter (prefix ''--abi-list='') args = map ((@) ''--abi-list='') abis"
  shows "parse_zygote_cmdline st pid =
    Some (''-Xzygote'' \<in> set args, (if last ([] # ns) = [] then ''zygote'' else last ([] # ns)), last ([] # abis))"
proof -
  have "unlines NUL args \<noteq> []" using assms(2) by (cases args) (auto simp: unlines_def)
  moreover have "getline_all NUL (take 4096 (unlines NUL args)) = args" using assms(3,4) by simp
  moreover obtain f s a where r: "zygote_args args (False, [], []) = (f, s, a)" by (metis prod_cases3)
  moreover have "f \<longleftrightarrow> ''-Xzygote'' \<in> set args" "s = last ([] # ns)" "a = last ([] # abis)"
    using zygote_args_found [of args False "[]" "[]"] zygote_args_sock [OF assms(5), of False "[]" "[]"]
      zygote_args_abi [OF assms(6), of False "[]" "[]"] r by simp_all
  ultimately show ?thesis by (simp add: parse_zygote_cmdline_def assms(1))
qed

definition zygote_os :: os where
  "zygote_os = (zd_os [])\<lparr>fs := [(''/proc/7/cmdline'', Reg 292 (unlines NUL [''app_process64'', ''-Xzygote'', ''--socket-name=zygote_secondary'']))]\<rparr>"

theorem zygote_command_line_witness:
  "parse_zygote_cmdline zygote_os 7 = Some (True, ''zygote_secondary'', [])"
proof -
  let ?args = "[''app_process64'', ''-Xzygote'', ''--socket-name=zygote_secondary'']"
  have f: "read_file zygote_os (pid_path 7 ''cmdline'') = Some (unlines NUL ?args)" by code_simp
  show ?thesis
    by (subst zygote_command_line [OF f, of "[''zygote_secondary'']" "[]"]) (auto simp: unlines_def)
qed

section \<open>Module manifests\<close>

lemma word_ok_dropWhile: "word_ok w \<Longrightarrow> dropWhile is_space (w @ r) = w @ r"
  by (cases w) (auto simp: word_ok_def)

lemma trim_copy_words:
  assumes "ws \<noteq> []" "\<And>w. w \<in> set ws \<Longrightarrow> word_ok w"
  shows "trim_copy (sep_items '' '' ws) = sep_items '' '' ws"
proof -
  obtain w ws' where ws: "ws = w # ws'" using assms(1) by (cases ws) auto
  have "word_ok w" using assms(2) ws by simp
  then have front: "dropWhile is_space (sep_items '' '' ws) = sep_items '' '' ws"
    unfolding ws sep_items_Cons by (rule word_ok_dropWhile)
  have "\<exists>p. sep_items '' '' ws = p @ last ws" using assms(1)
  proof (induction ws)
    case (Cons v vs)
    show ?case
    proof (cases "vs = []")
      case True
      then show ?thesis by (simp add: sep_items_Cons)
    next
      case False
      then obtain p where "sep_items '' '' vs = p @ last vs" using Cons.IH by auto
      then have "sep_items '' '' (v # vs) = (v @ '' '' @ p) @ last (v # vs)"
        using False by (simp add: sep_items_Cons)
      then show ?thesis by blast
    qed
  qed simp
  then obtain p where p: "sep_items '' '' ws = p @ last ws" ..
  have "word_ok (last ws)" using assms by simp
  then have "word_ok (rev (last ws))" by (simp add: word_ok_def)
  then have "dropWhile is_space (rev (sep_items '' '' ws)) = rev (sep_items '' '' ws)"
    unfolding p rev_append by (rule word_ok_dropWhile)
  then show ?thesis by (simp add: trim_copy_def front)
qed

text \<open>The words of a manifest line: the target, the library, and the companion flag.\<close>

definition manifest_line :: "u8 \<Rightarrow> string \<Rightarrow> string \<Rightarrow> bool \<Rightarrow> string" where
  "manifest_line ty target lib companion =
     sep_items '' '' ([(if ty = TARGET_NAME then ''name='' else ''path='') @ target, lib] @ (if companion then [''companion''] else []))"

lemma find_str_None: "x \<in> set pat \<Longrightarrow> x \<notin> set s \<Longrightarrow> find_str pat s = None"
proof (rule ccontr)
  assume *: "x \<in> set pat" "x \<notin> set s" "find_str pat s \<noteq> None"
  then obtain n where "find_str pat s = Some n" by auto
  then have "prefix pat (drop n s)" by (rule find_str_sound)
  then have "set pat \<subseteq> set s" using set_mono_prefix set_drop_subset by (metis subset_trans)
  with * show False by auto
qed

lemma replace_all_absent: "x \<in> set from \<Longrightarrow> x \<notin> set s \<Longrightarrow> replace_all s from to = s"
  by (subst replace_all.simps) (simp add: find_str_None)

text \<open>
  A manifest line is read as the native module it describes exactly when the library is there.
\<close>

theorem manifest_line_read:
  assumes "ty = TARGET_NAME \<or> ty = TARGET_PATH" "word_ok target" "length target < 256" "word_ok lib"
    "CHR ''$'' \<notin> set lib" "lib \<noteq> ''companion''" "hd lib \<noteq> CHR ''/''"
  shows "parse_native_module_line mid base (manifest_line ty target lib companion) st =
    (if exists_path st (base @ ''/'' @ lib)
     then Some \<lparr>nm_id = mid, nm_type = ty, nm_target = target, nm_lib = base @ ''/'' @ lib, nm_companion = companion\<rparr>
     else None)"
proof -
  define head where "head = (if ty = TARGET_NAME then ''name='' else ''path='') @ target"
  define rest where "rest = [lib] @ (if companion then [''companion''] else [])"
  have line: "manifest_line ty target lib companion = sep_items '' '' (head # rest)"
    by (simp add: manifest_line_def head_def rest_def)
  have ok: "word_ok w" if "w \<in> set (head # rest)" for w
  proof -
    have "word_ok head" using assms(2) by (auto simp: head_def word_ok_def is_space_def)
    moreover have "word_ok ''companion''" by (simp add: word_ok_def is_space_def)
    ultimately show ?thesis using that assms(4) by (auto simp: rest_def split: if_splits)
  qed
  have trim: "trim_copy (sep_items '' '' (head # rest)) = sep_items '' '' (head # rest)"
    by (rule trim_copy_words) (use ok in auto)
  have toks: "tokens (sep_items '' '' (head # rest)) = head # rest"
    by (rule tokens_sep_items) (use ok in auto)
  have hd: "sep_items '' '' (head # rest) \<noteq> []" "hd (sep_items '' '' (head # rest)) \<noteq> CHR ''#''"
    by (auto simp: sep_items_Cons head_def)
  have head: "native_head head = Some (ty, target)"
    using assms(1) by (auto simp: native_head_def head_def TARGET_NAME_def TARGET_PATH_def)
  have toks2: "native_tokens rest False [] = (companion, lib)"
    using assms(6) by (simp add: rest_def)
  have repl: "replace_all (replace_all lib ''${moduleId}'' mid) ''$moduleId'' mid = lib"
    using assms(5) replace_all_absent [of "CHR ''$''" _ lib] by simp
  show ?thesis
    using assms(2,3,4,7) hd
    by (simp add: parse_native_module_line_def line trim toks head toks2 repl Let_def word_ok_def TARGET_VALUE_MAX_def)
qed

theorem manifest_line_read_witness:
  "parse_native_module_line ''a'' ''/data/adb/modules/a'' ''name=surfaceflinger zygisk/arm64-v8a.so companion'' (zd_os []) =
    Some \<lparr>nm_id = ''a'', nm_type = 1, nm_target = ''surfaceflinger'', nm_lib = ''/data/adb/modules/a/zygisk/arm64-v8a.so'',
          nm_companion = True\<rparr>"
proof -
  have e: "exists_path (zd_os []) ''/data/adb/modules/a/zygisk/arm64-v8a.so''" by code_simp
  have l: "''name=surfaceflinger zygisk/arm64-v8a.so companion'' =
      manifest_line TARGET_NAME ''surfaceflinger'' ''zygisk/arm64-v8a.so'' True"
    by (simp add: manifest_line_def TARGET_NAME_def sep_items_def)
  show ?thesis
    unfolding l
    by (subst manifest_line_read) (use e in \<open>simp_all add: word_ok_def is_space_def TARGET_NAME_def\<close>)
qed

end
