(* ===== verification/Zygisk_Core.thy ===== *)
theory Zygisk_Core
  imports Zygiskd_Server
begin

text \<open>
  The injected core, \<^verbatim>\<open>zygisk/core/src/core.cpp\<close> and the zygote wrappers of \<^verbatim>\<open>hook.cpp\<close>: the
  client side of the daemon's protocol, the loading of modules and the calls into them, the
  cleaning of file descriptors, and the five replaced natives of the zygote.

  What a module does is a parameter: the list of the calls it makes into the API and of the
  descriptors it opens, in its entry function and in each callback.  So are the answers of the
  daemon, a function from the bytes of a request (\<open>None\<close>: no connection).
\<close>

unbundle bit_operations_syntax

section \<open>State\<close>

datatype api_call =
    Register int
  | SetOption nat
  | ExemptFd int
  | OpenFd int string

datatype event =
    EFork
  | EPre nat
  | EDlclose nat
  | EPost nat
  | EServerPre nat
  | EServerPost nat
  | EReport int
  | EOrig nat
  | EHide
  | EDropPages
  | ERevert
  | EUnhook
  | EUnmap

record core_module =
  cm_id :: nat
  cm_dir :: string
  cm_lib :: path
  cm_version :: int
  cm_option :: u32
  cm_live :: bool

text \<open>\<^verbatim>\<open>ZygiskContext\<close>; \<open>x_ignore = None\<close> when there is no array of descriptors to ignore.\<close>

record zctx =
  x_pid :: int
  x_ignore :: "int list option"
  x_allowed :: "bool list"
  x_exempted :: "int list"

record core =
  cr_modules :: "core_module list"
  cr_cfg :: yz_config
  cr_uid :: int
  cr_fds :: "(int \<times> string) list"
  cr_ctx :: "zctx option"
  cr_log :: "event list"

record cenv =
  link :: "bytes \<Rightarrow> reply list option"
  fork_pid :: int
  fd_dir_ok :: bool
  fd_max :: nat
  alloc_ok :: bool
  own_linker :: bool
  memfd_fits :: "path \<Rightarrow> bool"
  opens :: "path \<Rightarrow> bool"
  m_entry :: "path \<Rightarrow> api_call list option"
  m_pre :: "path \<Rightarrow> api_call list option"
  m_post :: "path \<Rightarrow> api_call list option"
  m_server_pre :: "path \<Rightarrow> api_call list option"
  m_server_post :: "path \<Rightarrow> api_call list option"
  inline_hooked :: bool
  self_range :: "(u64 \<times> u64) option"
  path_segs :: "(u64 \<times> u64) list"

definition log :: "event \<Rightarrow> core \<Rightarrow> core" where
  "log e c = c\<lparr>cr_log := cr_log c @ [e]\<rparr>"

section \<open>The client of the daemon\<close>

text \<open>The bytes of an answer, and the descriptor it starts with.\<close>

definition stream :: "reply list \<Rightarrow> bytes" where
  "stream rs = concat (map (\<lambda>r. case r of RBytes b \<Rightarrow> b | _ \<Rightarrow> []) rs)"

definition recv_fd :: "reply list \<Rightarrow> reply option" where
  "recv_fd rs = (case rs of RFd p # _ \<Rightarrow> Some (RFd p) | RSocket n # _ \<Rightarrow> Some (RSocket n) | _ \<Rightarrow> None)"

definition zd_request_fd :: "cenv \<Rightarrow> u8 \<Rightarrow> u32 \<Rightarrow> reply option" where
  "zd_request_fd env req arg = (case link env (req # u32_le arg) of None \<Rightarrow> None | Some rs \<Rightarrow> recv_fd rs)"

definition zd_module_dir :: "cenv \<Rightarrow> nat \<Rightarrow> reply option" where
  "zd_module_dir env i = zd_request_fd env 5 (of_nat i)"

definition zd_connect_companion :: "cenv \<Rightarrow> nat \<Rightarrow> reply option" where
  "zd_connect_companion env i = zd_request_fd env 4 (of_nat i)"

text \<open>The bytes that arrive fill the word, the missing ones stay zero.\<close>

definition zd_get_flags :: "cenv \<Rightarrow> int \<Rightarrow> u32" where
  "zd_get_flags env uid =
     (case link env (1 # u32_le (of_int uid)) of None \<Rightarrow> 0 | Some rs \<Rightarrow> of_nat (le_nat (take 4 (stream rs))))"

definition zd_load_config :: "cenv \<Rightarrow> core \<Rightarrow> core" where
  "zd_load_config env c =
     (case link env [6] of
        None \<Rightarrow> c
      | Some rs \<Rightarrow>
          (case take_bytes 4 (stream rs) of
             Some ([a, b, d, e], _) \<Rightarrow>
               c\<lparr>cr_cfg := \<lparr>zygisk_linker = a, denylist_mode = b, dmesg_log = d, grant_filter = e\<rparr>\<rparr>
           | _ \<Rightarrow> c))"

text \<open>A request that is answered by one byte.\<close>

definition acked :: "reply list option \<Rightarrow> bool" where
  "acked r = (case r of None \<Rightarrow> False | Some rs \<Rightarrow> stream rs \<noteq> [] \<and> hd (stream rs) \<noteq> 0)"

definition yz_patch_text :: "cenv \<Rightarrow> u64 \<Rightarrow> bytes \<Rightarrow> bool" where
  "yz_patch_text env addr code =
     (if code = [] \<or> length code > 64 then False
      else acked (link env (11 # u64_le addr @ u32_le (of_nat (length code)) @ code)))"

definition yz_revert_self_mounts :: "cenv \<Rightarrow> core \<Rightarrow> core" where
  "yz_revert_self_mounts env c = (if link env [8] = None then c else log ERevert c)"

definition yz_find_self_range :: "cenv \<Rightarrow> (u64 \<times> u64) option" where
  "yz_find_self_range env =
     (case self_range env of
        None \<Rightarrow> None
      | Some (base, len) \<Rightarrow>
          if base = 0 \<or> len = 0 then None
          else (let lo = base AND NOT 4095; hi = (base + len + 4095) AND NOT 4095 in Some (lo, hi - lo)))"

definition yz_report_self_unmap :: "cenv \<Rightarrow> bool" where
  "yz_report_self_unmap env =
     (let own = (case yz_find_self_range env of
                   Some (b, s) \<Rightarrow> if b \<noteq> 0 \<and> s \<noteq> 0 then [(b, s)] else []
                 | None \<Rightarrow> []);
          segs = own @ take (MAX_UNMAP_SEGS - length own) (path_segs env)
      in if segs = [] then False
         else acked (link env (9 # of_nat (length segs) # concat (map (\<lambda>(a, s). u64_le a @ u64_le s) segs))))"

text \<open>A NUL-terminated name off the stream; at its end the name is what came.\<close>

definition read_cstr :: "bytes \<Rightarrow> string \<times> bytes" where
  "read_cstr bs = (bytes_str (takeWhile (\<lambda>b. b \<noteq> 0) bs), drop 1 (dropWhile (\<lambda>b. b \<noteq> 0) bs))"

fun read_names :: "nat \<Rightarrow> bytes \<Rightarrow> string list" where
  "read_names 0 bs = []"
| "read_names (Suc n) bs =
     (case read_cstr bs of (name, r) \<Rightarrow> if name \<noteq> [] then name # read_names n r else read_names n r)"

definition fetch_granted_modules :: "cenv \<Rightarrow> u32 \<Rightarrow> string list" where
  "fetch_granted_modules env uid =
     (case link env (20 # u32_le uid) of
        None \<Rightarrow> []
      | Some rs \<Rightarrow> (case get_u32 (stream rs) of None \<Rightarrow> [] | Some (n, r) \<Rightarrow> read_names (unat n) r))"

section \<open>Modules\<close>

definition api_version_ok :: "int \<Rightarrow> bool" where
  "api_version_ok v \<longleftrightarrow> 1 \<le> v \<and> v \<le> 5"

text \<open>\<^verbatim>\<open>RegisterModuleImpl\<close>; it refuses outside the entry function.\<close>

definition register_module :: "bool \<Rightarrow> int \<Rightarrow> core_module \<Rightarrow> core_module" where
  "register_module loading v m = (if \<not> api_version_ok v \<or> \<not> loading then m else m\<lparr>cm_version := v\<rparr>)"

definition api_set_option :: "nat \<Rightarrow> core_module \<Rightarrow> core_module" where
  "api_set_option n m = m\<lparr>cm_option := cm_option m OR push_bit n 1\<rparr>"

definition zygisk_exempt_fd :: "int \<Rightarrow> core \<Rightarrow> core" where
  "zygisk_exempt_fd fd c =
     (case cr_ctx c of
        None \<Rightarrow> c
      | Some x \<Rightarrow>
          if x_ignore x = None \<or> fd < 0 then c
          else c\<lparr>cr_ctx := Some (x\<lparr>x_exempted := x_exempted x @ [fd]\<rparr>)\<rparr>)"

text \<open>
  One call of a module.  The table is empty before the registration; the slot of
  \<^verbatim>\<open>exemptFd\<close> is filled for versions from 4 on.
\<close>

fun run_call :: "bool \<Rightarrow> api_call \<Rightarrow> core_module \<times> core \<Rightarrow> core_module \<times> core" where
  "run_call loading (Register v) (m, c) = (register_module loading v m, c)"
| "run_call loading (SetOption n) (m, c) = (if cm_version m = 0 then (m, c) else (api_set_option n m, c))"
| "run_call loading (ExemptFd fd) (m, c) = (if cm_version m < 4 then (m, c) else (m, zygisk_exempt_fd fd c))"
| "run_call loading (OpenFd fd target) (m, c) = (m, c\<lparr>cr_fds := cr_fds c @ [(fd, target)]\<rparr>)"

definition run_calls :: "bool \<Rightarrow> api_call list \<Rightarrow> core_module \<times> core \<Rightarrow> core_module \<times> core" where
  "run_calls loading calls mc = fold (run_call loading) calls mc"

text \<open>
  The handle of a library: with the own linker only from the copy in memory, with the system's
  linker from the file when there is no copy.
\<close>

definition dlopens :: "cenv \<Rightarrow> path \<Rightarrow> bool" where
  "dlopens env lib \<longleftrightarrow> (if own_linker env then memfd_fits env lib \<and> opens env lib else opens env lib)"

definition zd_module_name :: "cenv \<Rightarrow> nat \<Rightarrow> string" where
  "zd_module_name env i =
     (case link env (19 # u32_le (of_nat i)) of None \<Rightarrow> [] | Some rs \<Rightarrow> fst (read_cstr (stream rs)))"

definition load_one :: "cenv \<Rightarrow> bool \<Rightarrow> string list \<Rightarrow> nat \<Rightarrow> core \<Rightarrow> core" where
  "load_one env filter_on granted i c =
     (let dir_id = zd_module_name env i in
      if filter_on \<and> dir_id \<notin> set granted then c
      else (case zd_request_fd env 3 (of_nat i) of
              Some (RFd lib) \<Rightarrow>
                if \<not> dlopens env lib then c
                else (case m_entry env lib of
                        None \<Rightarrow> c
                      | Some calls \<Rightarrow>
                          (case run_calls True calls
                              (\<lparr>cm_id = i, cm_dir = dir_id, cm_lib = lib, cm_version = 0, cm_option = 0, cm_live = True\<rparr>, c) of
                             (m, c') \<Rightarrow>
                               if cm_version m = 0 then c' else c'\<lparr>cr_modules := cr_modules c' @ [m]\<rparr>))
            | _ \<Rightarrow> c))"

definition load_modules :: "cenv \<Rightarrow> int \<Rightarrow> core \<Rightarrow> core" where
  "load_modules env uid c0 =
     (if cr_modules c0 \<noteq> [] then c0
      else (let c = zd_load_config env c0;
                filter_on = (grant_filter (cr_cfg c) \<noteq> 0);
                granted = (if filter_on then fetch_granted_modules env (of_int uid) else [])
            in case link env [2] of
                 None \<Rightarrow> c
               | Some rs \<Rightarrow>
                   (case get_u32 (stream rs) of
                      None \<Rightarrow> c
                    | Some (n, _) \<Rightarrow> fold (load_one env filter_on granted) [0..<unat n] c)))"

text \<open>A callback of one module, when it is loaded and has it.\<close>

definition run_callback ::
  "(path \<Rightarrow> api_call list option) \<Rightarrow> (nat \<Rightarrow> event) \<Rightarrow> core_module \<times> core \<Rightarrow> core_module \<times> core"
where
  "run_callback cb ev mc =
     (case mc of (m, c) \<Rightarrow>
        if \<not> cm_live m then (m, c)
        else (case cb (cm_lib m) of None \<Rightarrow> (m, c) | Some calls \<Rightarrow> run_calls False calls (m, log (ev (cm_id m)) c)))"

fun callbacks ::
  "(path \<Rightarrow> api_call list option) \<Rightarrow> (nat \<Rightarrow> event) \<Rightarrow> core_module list \<Rightarrow> core \<Rightarrow> core_module list \<times> core"
where
  "callbacks cb ev [] c = ([], c)"
| "callbacks cb ev (m # ms) c =
     (case run_callback cb ev (m, c) of (m', c') \<Rightarrow> case callbacks cb ev ms c' of (ms', c'') \<Rightarrow> (m' # ms', c''))"

definition call_all :: "(path \<Rightarrow> api_call list option) \<Rightarrow> (nat \<Rightarrow> event) \<Rightarrow> core \<Rightarrow> core" where
  "call_all cb ev c = (case callbacks cb ev (cr_modules c) c of (ms, c') \<Rightarrow> c'\<lparr>cr_modules := ms\<rparr>)"

definition wants_dlclose :: "core_module \<Rightarrow> bool" where
  "wants_dlclose m \<longleftrightarrow> cm_live m \<and> cm_option m AND push_bit 1 1 \<noteq> 0"

definition run_app_pre :: "cenv \<Rightarrow> int \<Rightarrow> core \<Rightarrow> core" where
  "run_app_pre env uid c0 =
     (let c = call_all (m_pre env) EPre (c0\<lparr>cr_uid := uid\<rparr>)
      in c\<lparr>cr_modules := map (\<lambda>m. if wants_dlclose m then m\<lparr>cm_live := False\<rparr> else m) (cr_modules c),
           cr_log := cr_log c @ map (\<lambda>m. EDlclose (cm_id m)) (filter wants_dlclose (cr_modules c))\<rparr>)"

definition run_app_post :: "cenv \<Rightarrow> int \<Rightarrow> core \<Rightarrow> core" where
  "run_app_post env uid c =
     log EDropPages (log EHide (call_all (m_post env) EPost (log (EReport uid) c)))"

definition run_server_pre :: "cenv \<Rightarrow> int \<Rightarrow> core \<Rightarrow> core" where
  "run_server_pre env uid c = call_all (m_server_pre env) EServerPre (c\<lparr>cr_uid := uid\<rparr>)"

definition run_server_post :: "cenv \<Rightarrow> core \<Rightarrow> core" where
  "run_server_post env c = log EHide (call_all (m_server_post env) EServerPost c)"

text \<open>0: inject, 1: inject and unmount, 2: skip and unmount.\<close>

definition zygisk_inject_decision :: "cenv \<Rightarrow> int \<Rightarrow> core \<Rightarrow> nat \<times> core" where
  "zygisk_inject_decision env uid c0 =
     (let c = zd_load_config env (c0\<lparr>cr_uid := uid\<rparr>); flags = zd_get_flags env uid
      in (if flags AND 2 \<noteq> 0
          then (if denylist_mode (cr_cfg c) = 1 then 2 else if denylist_mode (cr_cfg c) = 2 then 1 else 0)
          else 0, c))"

section \<open>Descriptors\<close>

text \<open>The entries of \<^verbatim>\<open>/proc/self/fd\<close> as \<^verbatim>\<open>atoi\<close> reads them; the two dots give zero.\<close>

definition dir_fds :: "core \<Rightarrow> int list" where
  "dir_fds c = 0 # 0 # map fst (cr_fds c)"

definition mark_allowed :: "int \<Rightarrow> zctx \<Rightarrow> zctx" where
  "mark_allowed fd x =
     (if 0 \<le> fd \<and> nat fd < length (x_allowed x) then x\<lparr>x_allowed := (x_allowed x)[nat fd := True]\<rparr> else x)"

definition fd_table_size :: "cenv \<Rightarrow> nat" where
  "fd_table_size env = (if fd_max env > 0 then fd_max env else 1024)"

definition ctx_fork_pre :: "cenv \<Rightarrow> zctx \<Rightarrow> core \<Rightarrow> core" where
  "ctx_fork_pre env x0 c =
     (let x = x0\<lparr>x_pid := fork_pid env\<rparr> in
      if fork_pid env \<noteq> 0 then log EFork (c\<lparr>cr_ctx := Some x\<rparr>)
      else (let x = x\<lparr>x_allowed := replicate (fd_table_size env) False\<rparr>;
                x = (if fd_dir_ok env then fold mark_allowed (dir_fds c) x else x)
            in log EFork (c\<lparr>cr_ctx := Some x\<rparr>)))"

definition new_fork :: "cenv \<Rightarrow> core \<Rightarrow> int" where
  "new_fork env c = (case cr_ctx c of Some x \<Rightarrow> if x_pid x \<ge> 0 then x_pid x else fork_pid env | None \<Rightarrow> fork_pid env)"

definition is_module_fd :: "int \<times> string \<Rightarrow> bool" where
  "is_module_fd e \<longleftrightarrow> contains ''/data/adb/modules'' (take 255 (snd e))"

definition close_inherited_module_fds :: "cenv \<Rightarrow> core \<Rightarrow> core" where
  "close_inherited_module_fds env c =
     (if \<not> fd_dir_ok env then c else c\<lparr>cr_fds := filter (\<lambda>e. \<not> is_module_fd e) (cr_fds c)\<rparr>)"

definition fd_allowed :: "zctx \<Rightarrow> int \<Rightarrow> bool" where
  "fd_allowed x fd \<longleftrightarrow> 0 \<le> fd \<and> nat fd < length (x_allowed x) \<and> x_allowed x ! nat fd"

text \<open>The exempted descriptors join the array of the ones to ignore.\<close>

definition extend_ignore :: "cenv \<Rightarrow> zctx \<Rightarrow> zctx" where
  "extend_ignore env x =
     (case x_ignore x of
        None \<Rightarrow> x
      | Some old \<Rightarrow>
          (let x = fold mark_allowed old x in
           if x_exempted x \<noteq> [] \<and> alloc_ok env
           then (fold mark_allowed (x_exempted x) x)\<lparr>x_ignore := Some (old @ x_exempted x)\<rparr>
           else x))"

definition ctx_sanitize_fds :: "cenv \<Rightarrow> core \<Rightarrow> core" where
  "ctx_sanitize_fds env c =
     (case cr_ctx c of
        None \<Rightarrow> c
      | Some x0 \<Rightarrow>
          if x_pid x0 \<noteq> 0 then c
          else (let x = extend_ignore env x0;
                    c = c\<lparr>cr_ctx := Some x\<rparr>
                in if fd_dir_ok env then c\<lparr>cr_fds := filter (\<lambda>e. fd_allowed x (fst e)) (cr_fds c)\<rparr> else c))"

section \<open>The replaced natives\<close>

text \<open>C's remainder: a negative user id has a non-positive one.\<close>

definition is_isolated :: "int \<Rightarrow> bool" where
  "is_isolated uid \<longleftrightarrow> (let app_id = (if uid < 0 then - ((- uid) mod 100000) else uid mod 100000) in 90000 \<le> app_id \<and> app_id \<le> 99999)"

definition forked_decision :: "cenv \<Rightarrow> bool \<Rightarrow> int \<Rightarrow> core \<Rightarrow> nat \<times> core" where
  "forked_decision env is_child uid c =
     (if \<not> is_child then (0, c) else if is_isolated uid then (2, c) else zygisk_inject_decision env uid c)"

definition zygisk_self_unhook :: "cenv \<Rightarrow> core \<Rightarrow> core" where
  "zygisk_self_unhook env c = close_inherited_module_fds env (log EUnhook c)"

definition finish_restore_only_child :: "cenv \<Rightarrow> bool \<Rightarrow> core \<Rightarrow> core" where
  "finish_restore_only_child env is_child_zygote c =
     (let c = yz_revert_self_mounts env c in
      if is_child_zygote then c else log EDropPages (zygisk_self_unhook env c))"

text \<open>Whether the function returns, and the state; unmapping the core does not return.\<close>

definition zygisk_self_destruct :: "cenv \<Rightarrow> bool \<Rightarrow> core \<Rightarrow> bool \<times> core" where
  "zygisk_self_destruct env isolated c0 =
     (let can_unmap = inline_hooked env;
          c = log EDropPages (zygisk_self_unhook env c0);
          have_range = (case yz_find_self_range env of Some (b, s) \<Rightarrow> b \<noteq> 0 \<and> s \<noteq> 0 | None \<Rightarrow> False);
          c = (if isolated then c
               else (let c' = log EHide c in if yz_report_self_unmap env then c' else yz_revert_self_mounts env c'))
      in if have_range \<and> can_unmap then (False, log EUnmap c) else (True, log EHide c))"

text \<open>
  What all four application natives do around the original one: \<open>sanitize\<close> says that the
  descriptors are cleaned (the forking ones), \<open>i\<close> is the method.
\<close>

definition app_epilogue :: "cenv \<Rightarrow> int \<Rightarrow> bool \<Rightarrow> bool \<Rightarrow> nat \<Rightarrow> core \<Rightarrow> bool \<times> core" where
  "app_epilogue env uid is_child_zygote run_modules decision c =
     (let c = (if run_modules then run_app_post env uid c else c) in
      if decision = 2 \<and> \<not> is_child_zygote then zygisk_self_destruct env (is_isolated uid) c
      else if decision = 1 then (True, finish_restore_only_child env is_child_zygote c)
      else (True, c))"

definition fork_and_specialize :: "nat \<Rightarrow> cenv \<Rightarrow> int \<Rightarrow> int list \<Rightarrow> bool \<Rightarrow> core \<Rightarrow> core" where
  "fork_and_specialize i env uid fds_to_ignore is_child_zygote c0 =
     (let c = ctx_fork_pre env \<lparr>x_pid = -1, x_ignore = Some fds_to_ignore, x_allowed = [], x_exempted = []\<rparr> c0;
          child = (fork_pid env = 0)
      in case forked_decision env child uid c of (decision, c) \<Rightarrow>
           (let run_modules = (child \<and> \<not> is_isolated uid \<and> decision \<noteq> 2);
                c = (if run_modules then ctx_sanitize_fds env (run_app_pre env uid (load_modules env uid c))
                     else if child then close_inherited_module_fds env c
                     else c);
                c = log (EOrig i) c
            in case app_epilogue env uid is_child_zygote run_modules decision c of
                 (False, c) \<Rightarrow> c
               | (True, c) \<Rightarrow>
                   (let c = (if is_child_zygote \<and> child then close_inherited_module_fds env c else c)
                    in c\<lparr>cr_ctx := None\<rparr>)))"

definition nativeForkAndSpecialize :: "cenv \<Rightarrow> int \<Rightarrow> int list \<Rightarrow> bool \<Rightarrow> core \<Rightarrow> core" where
  "nativeForkAndSpecialize = fork_and_specialize 0"

definition nativeForkAndSpecialize_sysprop :: "cenv \<Rightarrow> int \<Rightarrow> int list \<Rightarrow> bool \<Rightarrow> core \<Rightarrow> core" where
  "nativeForkAndSpecialize_sysprop = fork_and_specialize 1"

definition specialize :: "nat \<Rightarrow> cenv \<Rightarrow> int \<Rightarrow> bool \<Rightarrow> core \<Rightarrow> core" where
  "specialize i env uid is_child_zygote c0 =
     (case forked_decision env True uid c0 of (decision, c) \<Rightarrow>
        (let run_modules = (\<not> is_isolated uid \<and> decision \<noteq> 2);
             c = (if run_modules then run_app_pre env uid (load_modules env uid c) else c);
             c = log (EOrig i) c
         in snd (app_epilogue env uid is_child_zygote run_modules decision c)))"

definition nativeSpecializeAppProcess :: "cenv \<Rightarrow> int \<Rightarrow> bool \<Rightarrow> core \<Rightarrow> core" where
  "nativeSpecializeAppProcess = specialize 2"

definition nativeSpecializeAppProcess_sysprop :: "cenv \<Rightarrow> int \<Rightarrow> bool \<Rightarrow> core \<Rightarrow> core" where
  "nativeSpecializeAppProcess_sysprop = specialize 3"

definition nativeForkSystemServer :: "cenv \<Rightarrow> int \<Rightarrow> core \<Rightarrow> core" where
  "nativeForkSystemServer env uid c0 =
     (let c = ctx_fork_pre env \<lparr>x_pid = -1, x_ignore = None, x_allowed = [], x_exempted = []\<rparr> c0;
          child = (fork_pid env = 0);
          c = (if child then ctx_sanitize_fds env (run_server_pre env uid (load_modules env uid c)) else c);
          c = log (EOrig 4) c;
          c = (if child then run_server_post env c else c)
      in c\<lparr>cr_ctx := None\<rparr>)"

end
