(* ===== verification/Zygisk_Core_Props.thy ===== *)
theory Zygisk_Core_Props
  imports Zygisk_Core Zygiskd_Parsers
begin

text \<open>
  The injected core against the daemon: what is loaded, what is decided, which descriptors
  survive, and which module code never runs.
\<close>

section \<open>The daemon's answers as the client reads them\<close>

definition served :: "zenv \<Rightarrow> os \<Rightarrow> peer \<Rightarrow> zd \<Rightarrow> bytes \<Rightarrow> reply list option" where
  "served zenv st peer z msg = Some (fst (handle_client zenv st peer msg z))"

definition name_ok :: "string \<Rightarrow> bool" where
  "name_ok s \<longleftrightarrow> s \<noteq> [] \<and> NUL \<notin> set s"

lemma stream_simps [simp]: "stream [] = []" "stream (RBytes b # rs) = b @ stream rs"
  "stream (RFd p # rs) = stream rs" "stream (RNoFd # rs) = stream rs"
  by (simp_all add: stream_def)

lemma read_cstr_c_bytes: "NUL \<notin> set s \<Longrightarrow> read_cstr (c_bytes s @ r) = (s, r)"
proof -
  assume "NUL \<notin> set s"
  then have nz: "0 \<notin> set (str_bytes s)" by simp
  have "takeWhile (\<lambda>b. b \<noteq> 0) (str_bytes s @ 0 # r) = str_bytes s"
    "dropWhile (\<lambda>b. b \<noteq> 0) (str_bytes s @ 0 # r) = 0 # r"
    using nz by (auto intro!: takeWhile_append_stop dropWhile_append_stop)
  then show ?thesis by (simp add: read_cstr_def c_bytes_def)
qed

lemma read_names_stream:
  "(\<And>n. n \<in> set ns \<Longrightarrow> name_ok n) \<Longrightarrow> read_names (length ns) (stream (map (\<lambda>n. RBytes (c_bytes n)) ns)) = ns"
proof (induction ns)
  case (Cons n ns)
  have "read_cstr (c_bytes n @ stream (map (\<lambda>n. RBytes (c_bytes n)) ns)) = (n, stream (map (\<lambda>n. RBytes (c_bytes n)) ns))"
    using Cons.prems [of n] by (intro read_cstr_c_bytes) (simp add: name_ok_def)
  moreover have "n \<noteq> []" using Cons.prems [of n] by (simp add: name_ok_def)
  moreover have "read_names (length ns) (stream (map (\<lambda>n. RBytes (c_bytes n)) ns)) = ns"
    by (rule Cons.IH, rule Cons.prems) simp
  ultimately show ?case by simp
qed simp

lemma get_u32_le_end [codec_simps]: "get_u32 (u32_le w) = Some (w, [])"
  using get_u32_le [of w "[]"] by simp

lemma served_flags: "link env = served zenv st peer z \<Longrightarrow> zd_get_flags env uid = 0"
  by (simp add: zd_get_flags_def served_def handle_client_defs codec_simps query_flags_def uid_granted_root_def
      uid_should_umount_def)

lemma served_config: "link env = served zenv st peer z \<Longrightarrow> zd_load_config env c = c\<lparr>cr_cfg := g_cfg z\<rparr>"
  by (simp add: zd_load_config_def served_def handle_client_defs take_bytes_def)

lemma served_count:
  "link env = served zenv st peer z \<Longrightarrow> link env [2] = Some [RBytes (u32_le (of_nat (length (g_modules z))))]"
  by (simp add: served_def handle_client_defs)

lemma length_granted: "length (granted_names z uid) \<le> length (g_modules z)"
  by (simp add: granted_names_def)

lemma served_granted:
  assumes "link env = served zenv st peer z" "length (g_modules z) < 2 ^ 32" "\<And>m. m \<in> set (g_modules z) \<Longrightarrow> name_ok (zm_name m)"
  shows "fetch_granted_modules env uid = granted_names z uid"
proof -
  have "unat (of_nat (length (granted_names z uid)) :: u32) = length (granted_names z uid)"
    using length_granted [of z uid] assms(2) by (simp add: unat_of_nat)
  moreover have "read_names (length (granted_names z uid)) (stream (map (\<lambda>n. RBytes (c_bytes n)) (granted_names z uid))) = granted_names z uid"
    by (rule read_names_stream) (use assms(3) in \<open>auto simp: granted_names_def\<close>)
  ultimately show ?thesis
    by (simp add: fetch_granted_modules_def assms(1) served_def handle_client_defs codec_simps Let_def)
qed

lemma read_idx_le: "i < n \<Longrightarrow> n < 2 ^ 32 \<Longrightarrow> read_idx (u32_le (of_nat i)) n = Some i"
  by (simp add: read_idx_def codec_simps unat_of_nat)

lemma served_name:
  assumes "link env = served zenv st peer z" "length (g_modules z) < 2 ^ 32" "i < length (g_modules z)" "name_ok (zm_name (g_modules z ! i))"
  shows "zd_module_name env i = zm_name (g_modules z ! i)"
  using read_cstr_c_bytes [of "zm_name (g_modules z ! i)" "[]"] assms
  by (simp add: zd_module_name_def served_def handle_client_defs read_idx_le name_ok_def)

lemma served_fd:
  assumes "link env = served zenv st peer z" "length (g_modules z) < 2 ^ 32" "i < length (g_modules z)"
  shows "zd_request_fd env 3 (of_nat i) =
    (if exists_path st (zm_lib (g_modules z ! i)) then Some (RFd (zm_lib (g_modules z ! i))) else None)"
  using assms by (simp add: zd_request_fd_def served_def handle_client_defs read_idx_le send_open_def recv_fd_def)

section \<open>Loading\<close>

definition registers :: "api_call list \<Rightarrow> bool" where
  "registers calls \<longleftrightarrow> list_ex (\<lambda>a. case a of Register v \<Rightarrow> api_version_ok v | _ \<Rightarrow> False) calls"

definition loads :: "cenv \<Rightarrow> os \<Rightarrow> path \<Rightarrow> bool" where
  "loads env st lib \<longleftrightarrow> exists_path st lib \<and> dlopens env lib \<and>
     (case m_entry env lib of None \<Rightarrow> False | Some calls \<Rightarrow> registers calls)"

lemma zygisk_exempt_fd_modules [simp]: "cr_modules (zygisk_exempt_fd fd c) = cr_modules c"
  by (simp add: zygisk_exempt_fd_def split: option.splits)

lemma run_call_keeps:
  "run_call loading a (m, c) = (m', c') \<Longrightarrow> cm_id m' = cm_id m \<and> cm_dir m' = cm_dir m \<and> cm_lib m' = cm_lib m \<and>
     cm_live m' = cm_live m \<and> cr_modules c' = cr_modules c"
  by (cases a) (auto simp: register_module_def api_set_option_def split: if_splits)

lemma run_call_version:
  "run_call True a (m, c) = (m', c') \<Longrightarrow>
     cm_version m' \<noteq> 0 \<longleftrightarrow> cm_version m \<noteq> 0 \<or> (case a of Register v \<Rightarrow> api_version_ok v | _ \<Rightarrow> False)"
  by (cases a) (auto simp: register_module_def api_set_option_def api_version_ok_def split: if_splits)

lemma run_calls_keeps:
  "run_calls loading calls (m, c) = (m', c') \<Longrightarrow> cm_id m' = cm_id m \<and> cm_dir m' = cm_dir m \<and> cm_lib m' = cm_lib m \<and>
     cm_live m' = cm_live m \<and> cr_modules c' = cr_modules c"
  unfolding run_calls_def
proof (induction calls arbitrary: m c)
  case (Cons a calls)
  obtain m1 c1 where 1: "run_call loading a (m, c) = (m1, c1)" by force
  with Cons.prems have "fold (run_call loading) calls (m1, c1) = (m', c')" by simp
  from Cons.IH [OF this] run_call_keeps [OF 1] show ?case by simp
qed simp

lemma run_calls_version:
  "run_calls True calls (m, c) = (m', c') \<Longrightarrow> cm_version m' \<noteq> 0 \<longleftrightarrow> cm_version m \<noteq> 0 \<or> registers calls"
  unfolding run_calls_def
proof (induction calls arbitrary: m c)
  case (Cons a calls)
  obtain m1 c1 where 1: "run_call True a (m, c) = (m1, c1)" by force
  with Cons.prems have "fold (run_call True) calls (m1, c1) = (m', c')" by simp
  from Cons.IH [OF this] run_call_version [OF 1] show ?case by (simp add: registers_def)
qed (simp add: registers_def)

definition cm_key :: "core_module \<Rightarrow> nat \<times> string \<times> path" where
  "cm_key m = (cm_id m, cm_dir m, cm_lib m)"

lemma load_one_served:
  assumes "link env = served zenv st peer z" "length (g_modules z) < 2 ^ 32" "i < length (g_modules z)"
    "name_ok (zm_name (g_modules z ! i))"
  shows "map cm_key (cr_modules (load_one env filt granted i c)) = map cm_key (cr_modules c) @
    (if (filt \<longrightarrow> zm_name (g_modules z ! i) \<in> set granted) \<and> loads env st (zm_lib (g_modules z ! i))
     then [(i, zm_name (g_modules z ! i), zm_lib (g_modules z ! i))] else [])"
proof (cases "(filt \<longrightarrow> zm_name (g_modules z ! i) \<in> set granted) \<and> exists_path st (zm_lib (g_modules z ! i)) \<and>
    dlopens env (zm_lib (g_modules z ! i))")
  case False
  then show ?thesis
    by (auto simp: load_one_def served_name [OF assms] served_fd [OF assms(1-3)] loads_def Let_def)
next
  case True
  let ?lib = "zm_lib (g_modules z ! i)"
  let ?m = "\<lparr>cm_id = i, cm_dir = zm_name (g_modules z ! i), cm_lib = ?lib, cm_version = 0, cm_option = 0, cm_live = True\<rparr>"
  show ?thesis
  proof (cases "m_entry env ?lib")
    case None
    then show ?thesis using True
      by (auto simp: load_one_def served_name [OF assms] served_fd [OF assms(1-3)] loads_def Let_def)
  next
    case (Some calls)
    obtain m c' where r: "run_calls True calls (?m, c) = (m, c')" by force
    have v: "cm_version m \<noteq> 0 \<longleftrightarrow> registers calls" using run_calls_version [OF r] by simp
    show ?thesis using True run_calls_keeps [OF r] v
      by (auto simp: load_one_def served_name [OF assms] served_fd [OF assms(1-3)] loads_def Let_def Some r cm_key_def)
  qed
qed

lemma load_all_served:
  assumes "link env = served zenv st peer z" "length (g_modules z) < 2 ^ 32"
    "\<And>m. m \<in> set (g_modules z) \<Longrightarrow> name_ok (zm_name m)" "\<And>i. i \<in> set is \<Longrightarrow> i < length (g_modules z)"
  shows "map cm_key (cr_modules (fold (load_one env filt granted) is c)) = map cm_key (cr_modules c) @
    [(i, zm_name (g_modules z ! i), zm_lib (g_modules z ! i)). i \<leftarrow> is,
       (filt \<longrightarrow> zm_name (g_modules z ! i) \<in> set granted) \<and> loads env st (zm_lib (g_modules z ! i))]"
  using assms(4)
proof (induction "is" arbitrary: c)
  case (Cons i "is")
  have i: "i < length (g_modules z)" by (rule Cons.prems) simp
  then have "name_ok (zm_name (g_modules z ! i))" by (intro assms(3)) simp
  note one = load_one_served [OF assms(1,2) i this, of filt granted c]
  have "\<And>j. j \<in> set is \<Longrightarrow> j < length (g_modules z)" by (rule Cons.prems) simp
  then show ?case using Cons.IH [of "load_one env filt granted i c"] one by simp
qed simp

lemma reachable_filter_flag:
  assumes "reachable ub z"
  shows "grant_filter (g_cfg z) = bool_u8 (g_filter z)"
  using assms
proof (induction rule: reachable.induct)
  case (start st z)
  then show ?case by (auto elim!: read_yzconfig_Ret)
next
  case (client z env st peer msg rs ks z')
  then show ?case using handle_client_state [OF client(2)]
    by (auto simp: record_zygote_def record_native_injection_def Let_def)
next
  case (event z st buf z')
  have "on_events ub st es z = Ret z' \<Longrightarrow> grant_filter (g_cfg z) = bool_u8 (g_filter z) \<Longrightarrow>
      grant_filter (g_cfg z') = bool_u8 (g_filter z')" for es
  proof (induction es arbitrary: z)
    case (Cons e es)
    then obtain z1 where e: "on_event ub st e z = Ret z1" and es: "on_events ub st es z1 = Ret z'"
      by (auto split: outcome.splits)
    have "grant_filter (g_cfg z1) = bool_u8 (g_filter z1)"
      using e Cons.prems(2) by (auto simp: on_event_def record_injection_def split: prod.splits if_splits elim!: read_yzconfig_Ret)
    then show ?case using Cons.IH es by blast
  qed simp
  then show ?case using event unfolding nl_drain_def by blast
qed

text \<open>
  C15: a process without modules loads exactly the daemon's enabled modules that the grant list
  allows (all of them without a list) and whose library is there, opens and registers itself,
  in the daemon's order and under the daemon's numbers.
\<close>

theorem core_loads_granted_modules:
  assumes "reachable ub z" "link env = served zenv st peer z" "length (g_modules z) < 2 ^ 32"
    "\<And>m. m \<in> set (g_modules z) \<Longrightarrow> name_ok (zm_name m)" "cr_modules c = []"
  shows "map (\<lambda>m. (cm_id m, cm_dir m, cm_lib m)) (cr_modules (load_modules env uid c)) =
    [(i, zm_name (g_modules z ! i), zm_lib (g_modules z ! i)). i \<leftarrow> [0..<length (g_modules z)],
       module_globally_granted z (zm_name (g_modules z ! i)) \<and> loads env st (zm_lib (g_modules z ! i))]"
proof -
  have key: "(\<lambda>m. (cm_id m, cm_dir m, cm_lib m)) = cm_key" by (simp add: cm_key_def fun_eq_iff)
  have n: "unat (of_nat (length (g_modules z)) :: u32) = length (g_modules z)"
    using assms(3) by (simp add: unat_of_nat)
  have filt: "grant_filter (g_cfg z) \<noteq> 0 \<longleftrightarrow> g_filter z"
    by (simp add: reachable_filter_flag [OF assms(1)] bool_u8_def)
  have all: "\<And>d u. module_granted_for_uid z d u" using granted_for_every_uid reachable_zd_inv [OF assms(1)] by blast
  define granted where "granted = (if g_filter z then granted_names z (of_int uid) else [])"
  have mem: "(g_filter z \<longrightarrow> zm_name (g_modules z ! i) \<in> set granted) \<longleftrightarrow> module_globally_granted z (zm_name (g_modules z ! i))"
    if "i < length (g_modules z)" for i
    using that by (auto simp: granted_def granted_names_def all module_globally_granted_def)
  have "load_modules env uid c = fold (load_one env (g_filter z) granted) [0..<length (g_modules z)] (c\<lparr>cr_cfg := g_cfg z\<rparr>)"
    using assms(5) served_granted [OF assms(2-4), of "of_int uid"]
    by (simp add: load_modules_def served_config [OF assms(2)] served_count [OF assms(2)] codec_simps n filt granted_def)
  then show ?thesis
    unfolding key using load_all_served [OF assms(2-4), of "[0..<length (g_modules z)]" "g_filter z" granted "c\<lparr>cr_cfg := g_cfg z\<rparr>"]
      assms(5) mem by (auto simp: intro!: arg_cong [of _ _ concat])
qed

text \<open>A device with the daemon of one granted module, and its code.\<close>

definition demo_cenv :: cenv where
  "demo_cenv = \<lparr>link = served zd_env (zd_os []) (Some (7, 10002)) zd_demo, fork_pid = 0, fd_dir_ok = True, fd_max = 64,
     alloc_ok = True, own_linker = True, memfd_fits = (\<lambda>_. True), opens = (\<lambda>_. True),
     m_entry = (\<lambda>_. Some [Register 9, Register 4, OpenFd 5 ''/data/adb/modules/a/x'', ExemptFd 5]),
     m_pre = (\<lambda>_. Some [OpenFd 6 ''/data/adb/modules/a/y'', SetOption 1]), m_post = (\<lambda>_. Some []),
     m_server_pre = (\<lambda>_. None), m_server_post = (\<lambda>_. None), inline_hooked = True, self_range = None, path_segs = []\<rparr>"

definition demo_core :: core where
  "demo_core = \<lparr>cr_modules = [], cr_cfg = default_config, cr_uid = -1, cr_fds = [(3, ''/dev/null'')], cr_ctx = None, cr_log = []\<rparr>"

theorem core_loads_granted_modules_witness:
  "map (\<lambda>m. (cm_id m, cm_dir m, cm_lib m)) (cr_modules (load_modules demo_cenv 10002 demo_core)) =
    [(0, ''a'', ''/data/adb/modules/a/zygisk/arm64-v8a.so'')]"
proof -
  have l: "link demo_cenv = served zd_env (zd_os []) (Some (7, 10002)) zd_demo" by (simp add: demo_cenv_def)
  have ms: "g_modules zd_demo = [\<lparr>zm_name = ''a'', zm_lib = ''/data/adb/modules/a/zygisk/arm64-v8a.so''\<rparr>]"
    by (simp add: zd_demo_def publish_native_targets_def)
  have e: "exists_path (zd_os []) ''/data/adb/modules/a/zygisk/arm64-v8a.so''" by code_simp
  have g: "module_globally_granted zd_demo ''a''" by code_simp
  show ?thesis
    by (subst core_loads_granted_modules [OF zd_demo_reachable l])
       (use e g in \<open>auto simp: ms name_ok_def demo_core_def loads_def dlopens_def demo_cenv_def registers_def api_version_ok_def\<close>)
qed

text \<open>
  Against this daemon the unmount and skip decisions never happen: no user is on the
  deny list, whatever the configured mode is, so only isolated processes are skipped.
\<close>

theorem denylist_never_applies:
  assumes "link env = served zenv st peer z" "\<not> is_isolated uid"
  shows "fst (forked_decision env child uid c) = 0"
  using served_flags [OF assms(1), of uid] assms(2) by (simp add: forked_decision_def zygisk_inject_decision_def Let_def)

theorem denylist_never_applies_witness: "fst (forked_decision demo_cenv True 10002 demo_core) = 0"
  by (rule denylist_never_applies [of _ zd_env "zd_os []" "Some (7, 10002)" zd_demo])
     (simp_all add: demo_cenv_def is_isolated_def)

section \<open>Isolated processes\<close>

definition module_event :: "event \<Rightarrow> bool" where
  "module_event e \<longleftrightarrow> (case e of EPre _ \<Rightarrow> True | EPost _ \<Rightarrow> True | EServerPre _ \<Rightarrow> True | EServerPost _ \<Rightarrow> True | _ \<Rightarrow> False)"

text \<open>No module code ran and no module was loaded between two states.\<close>

definition quiet :: "core \<Rightarrow> core \<Rightarrow> bool" where
  "quiet c c' \<longleftrightarrow> cr_modules c' = cr_modules c \<and> filter module_event (cr_log c') = filter module_event (cr_log c)"

lemma quiet_refl [simp]: "quiet c c"
  by (simp add: quiet_def)

lemma quiet_trans: "quiet a b \<Longrightarrow> quiet b c \<Longrightarrow> quiet a c"
  by (simp add: quiet_def)

lemma module_event_simps [simp]:
  "\<not> module_event EFork" "\<not> module_event (EDlclose i)" "\<not> module_event (EReport u)" "\<not> module_event (EOrig n)"
  "\<not> module_event EHide" "\<not> module_event EDropPages" "\<not> module_event ERevert" "\<not> module_event EUnhook"
  "\<not> module_event EUnmap"
  by (simp_all add: module_event_def)

lemma quiet_log [simp]: "\<not> module_event e \<Longrightarrow> quiet c (log e c') \<longleftrightarrow> quiet c c'"
  by (simp add: quiet_def log_def)

lemma quiet_self_unhook [simp]: "quiet c (zygisk_self_unhook env c') \<longleftrightarrow> quiet c c'"
  by (auto simp: zygisk_self_unhook_def close_inherited_module_fds_def quiet_def log_def)

lemma quiet_revert [simp]: "quiet c (yz_revert_self_mounts env c') \<longleftrightarrow> quiet c c'"
  by (auto simp: yz_revert_self_mounts_def quiet_def log_def)

lemma quiet_close [simp]: "quiet c (close_inherited_module_fds env c') \<longleftrightarrow> quiet c c'"
  by (auto simp: close_inherited_module_fds_def quiet_def)

lemma quiet_ctx [simp]: "quiet c (c'\<lparr>cr_ctx := x\<rparr>) \<longleftrightarrow> quiet c c'"
  by (simp add: quiet_def)

lemma quiet_fork_pre [simp]: "quiet c (ctx_fork_pre env x c') \<longleftrightarrow> quiet c c'"
  by (auto simp: ctx_fork_pre_def quiet_def log_def Let_def)

lemma quiet_self_destruct: "zygisk_self_destruct env isolated c' = (r, c'') \<Longrightarrow> quiet c c' \<Longrightarrow> quiet c c''"
  by (auto simp: zygisk_self_destruct_def Let_def split: if_splits)

lemma quiet_epilogue: "app_epilogue env uid zyg False d c' = (r, c'') \<Longrightarrow> quiet c c' \<Longrightarrow> quiet c c''"
  by (auto simp: app_epilogue_def finish_restore_only_child_def Let_def
      split: if_splits elim: quiet_self_destruct)

lemma isolated_decision: "is_isolated uid \<Longrightarrow> forked_decision env child uid c = (if child then 2 else 0, c)"
  by (simp add: forked_decision_def)

lemma quiet_epilogue_snd [simp]: "quiet c c' \<Longrightarrow> quiet c (snd (app_epilogue env uid zyg False d c'))"
  using quiet_epilogue [of env uid zyg d c' _ "snd (app_epilogue env uid zyg False d c')" c] by (metis prod.collapse)

lemma quiet_fork:
  assumes "is_isolated uid"
  shows "quiet c (fork_and_specialize i env uid ign zyg c)"
proof -
  define c1 where "c1 = ctx_fork_pre env \<lparr>x_pid = -1, x_ignore = Some ign, x_allowed = [], x_exempted = []\<rparr> c"
  define c2 where "c2 = log (EOrig i) (if fork_pid env = 0 then close_inherited_module_fds env c1 else c1)"
  define r where "r = app_epilogue env uid zyg False (if fork_pid env = 0 then 2 else 0) c2"
  have "quiet c c2" by (simp add: c2_def c1_def)
  then have "quiet c (snd r)" by (simp add: r_def)
  moreover have "fork_and_specialize i env uid ign zyg c =
      (if fst r then (if zyg \<and> fork_pid env = 0 then close_inherited_module_fds env (snd r) else snd r)\<lparr>cr_ctx := None\<rparr> else snd r)"
    using assms
    by (simp add: fork_and_specialize_def c1_def [symmetric] isolated_decision Let_def c2_def r_def case_prod_beta
        split: bool.splits)
  ultimately show ?thesis by simp
qed

lemma quiet_specialize: "is_isolated uid \<Longrightarrow> quiet c (specialize i env uid zyg c)"
  by (simp add: specialize_def isolated_decision Let_def)

text \<open>
  C19: for an isolated process none of the four application natives loads a module or runs module
  code, before or after the original native, forked or specialised from a pool.
\<close>

theorem isolated_runs_no_module:
  assumes "is_isolated uid"
  shows "quiet c (nativeForkAndSpecialize env uid ign zyg c) \<and> quiet c (nativeForkAndSpecialize_sysprop env uid ign zyg c) \<and>
    quiet c (nativeSpecializeAppProcess env uid zyg c) \<and> quiet c (nativeSpecializeAppProcess_sysprop env uid zyg c)"
  using quiet_fork [OF assms] quiet_specialize [OF assms]
  by (simp add: nativeForkAndSpecialize_def nativeForkAndSpecialize_sysprop_def nativeSpecializeAppProcess_def
      nativeSpecializeAppProcess_sysprop_def)

theorem isolated_runs_no_module_witness:
  "quiet demo_core (nativeForkAndSpecialize demo_cenv 99001 [] False demo_core)"
  using isolated_runs_no_module [of 99001 demo_core demo_cenv "[]" False] by (simp add: is_isolated_def)

section \<open>Descriptors\<close>

text \<open>Between two states only exempted descriptors were added to the context.\<close>

definition ctx_grows :: "core \<Rightarrow> core \<Rightarrow> bool" where
  "ctx_grows c c' \<longleftrightarrow> (\<exists>ex. cr_ctx c' = map_option (\<lambda>x. x\<lparr>x_exempted := x_exempted x @ ex\<rparr>) (cr_ctx c))"

lemma ctx_grows_same: "cr_ctx c' = cr_ctx c \<Longrightarrow> ctx_grows c c'"
  unfolding ctx_grows_def by (rule exI [of _ "[]"]) (simp add: option.map_ident_strong)

lemma ctx_grows_trans: "ctx_grows a b \<Longrightarrow> ctx_grows b c \<Longrightarrow> ctx_grows a c"
  unfolding ctx_grows_def
proof (elim exE)
  fix x y
  assume "cr_ctx b = map_option (\<lambda>z. z\<lparr>x_exempted := x_exempted z @ x\<rparr>) (cr_ctx a)"
    "cr_ctx c = map_option (\<lambda>z. z\<lparr>x_exempted := x_exempted z @ y\<rparr>) (cr_ctx b)"
  then show "\<exists>ex. cr_ctx c = map_option (\<lambda>x. x\<lparr>x_exempted := x_exempted x @ ex\<rparr>) (cr_ctx a)"
    by (intro exI [of _ "x @ y"]) (simp add: option.map_comp comp_def)
qed

lemma ctx_grows_exempt: "ctx_grows c (zygisk_exempt_fd fd c)"
proof (cases "cr_ctx c")
  case None
  then show ?thesis by (intro ctx_grows_same) (simp add: zygisk_exempt_fd_def)
next
  case (Some x)
  show ?thesis
  proof (cases "x_ignore x = None \<or> fd < 0")
    case True
    then show ?thesis by (intro ctx_grows_same) (simp add: zygisk_exempt_fd_def Some)
  next
    case False
    then show ?thesis unfolding ctx_grows_def
      by (intro exI [of _ "[fd]"]) (auto simp: zygisk_exempt_fd_def Some)
  qed
qed

lemma ctx_grows_call: "ctx_grows c (snd (run_call loading a (m, c)))"
  by (cases a) (auto simp: ctx_grows_exempt intro: ctx_grows_same)

lemma ctx_grows_calls: "ctx_grows c (snd (run_calls loading calls (m, c)))"
  unfolding run_calls_def
proof (induction calls arbitrary: m c)
  case (Cons a calls)
  obtain m1 c1 where 1: "run_call loading a (m, c) = (m1, c1)" by force
  then have "ctx_grows c c1" using ctx_grows_call [of c loading a m] by simp
  then show ?case using Cons.IH [of c1 m1] 1 by (auto intro: ctx_grows_trans)
qed (simp add: ctx_grows_same)

lemma ctx_grows_load_one: "ctx_grows c (load_one env filt granted i c)"
proof -
  have calls: "ctx_grows c c'" if "run_calls True cs (m, c) = (m', c')" for cs m m' c'
    using ctx_grows_calls [of c True cs m] that by simp
  then show ?thesis
    by (auto simp: load_one_def Let_def ctx_grows_same split: option.splits reply.splits prod.splits
        intro: ctx_grows_trans [OF calls ctx_grows_same])
qed

lemma ctx_grows_loads: "ctx_grows c (fold (load_one env filt granted) is c)"
proof (induction "is" arbitrary: c)
  case (Cons i "is")
  show ?case unfolding fold_Cons comp_apply by (rule ctx_grows_trans [OF ctx_grows_load_one Cons.IH])
qed (simp add: ctx_grows_same)

lemma zd_load_config_ctx [simp]: "cr_ctx (zd_load_config env c) = cr_ctx c"
  by (auto simp: zd_load_config_def split: option.splits list.splits prod.splits)

lemma ctx_grows_load_modules: "ctx_grows c (load_modules env uid c)"
proof -
  have "ctx_grows c (zd_load_config env c)" by (simp add: ctx_grows_same)
  then show ?thesis
    by (auto simp: load_modules_def Let_def ctx_grows_same split: option.splits prod.splits
        intro: ctx_grows_trans [OF _ ctx_grows_loads])
qed

lemma ctx_grows_callback: "ctx_grows c (snd (run_callback cb ev (m, c)))"
proof -
  have "ctx_grows c (snd (run_calls False calls (m, log e c)))" for calls e
    by (rule ctx_grows_trans [OF ctx_grows_same ctx_grows_calls]) (simp add: log_def)
  then show ?thesis by (auto simp: run_callback_def ctx_grows_same split: option.splits)
qed

lemma ctx_grows_callbacks: "ctx_grows c (snd (callbacks cb ev ms c))"
proof (induction ms arbitrary: c)
  case (Cons m ms)
  obtain m1 c1 where 1: "run_callback cb ev (m, c) = (m1, c1)" by force
  then have "ctx_grows c c1" using ctx_grows_callback [of c cb ev m] by simp
  then show ?case using Cons.IH [of c1] 1 by (auto split: prod.splits intro: ctx_grows_trans)
qed (simp add: ctx_grows_same)

lemma ctx_grows_call_all: "ctx_grows c (call_all cb ev c)"
  using ctx_grows_callbacks [of c cb ev "cr_modules c"]
  by (auto simp: call_all_def split: prod.splits intro: ctx_grows_trans [OF _ ctx_grows_same])

lemma ctx_grows_run_app_pre: "ctx_grows c (run_app_pre env uid c)"
proof -
  have "ctx_grows c (call_all (m_pre env) EPre (c\<lparr>cr_uid := uid\<rparr>))"
    by (rule ctx_grows_trans [OF ctx_grows_same ctx_grows_call_all]) simp
  then show ?thesis by (auto simp: run_app_pre_def Let_def intro: ctx_grows_trans [OF _ ctx_grows_same])
qed

text \<open>What marking does.\<close>

lemma length_mark [simp]: "length (x_allowed (mark_allowed fd x)) = length (x_allowed x)"
  by (simp add: mark_allowed_def)

lemma length_marks [simp]: "length (x_allowed (fold mark_allowed fds x)) = length (x_allowed x)"
  by (induction fds arbitrary: x) auto

lemma fd_allowed_mark: "fd_allowed (mark_allowed g x) fd \<longleftrightarrow>
    fd_allowed x fd \<or> (fd = g \<and> 0 \<le> fd \<and> nat fd < length (x_allowed x))"
  by (auto simp: fd_allowed_def mark_allowed_def nth_list_update)

lemma fd_allowed_marks: "fd_allowed (fold mark_allowed fds x) fd \<longleftrightarrow>
    fd_allowed x fd \<or> (fd \<in> set fds \<and> 0 \<le> fd \<and> nat fd < length (x_allowed x))"
  by (induction fds arbitrary: x) (auto simp: fd_allowed_mark)

lemma marks_other [simp]: "x_exempted (fold mark_allowed fds x) = x_exempted x"
  "x_ignore (fold mark_allowed fds x) = x_ignore x" "x_pid (fold mark_allowed fds x) = x_pid x"
proof (induction fds arbitrary: x)
  case (Cons f fds)
  { case 1 show ?case using Cons.IH(1) by (simp add: mark_allowed_def) }
  { case 2 show ?case using Cons.IH(2) by (simp add: mark_allowed_def) }
  { case 3 show ?case using Cons.IH(3) by (simp add: mark_allowed_def) }
qed simp_all

text \<open>
  C18: after the modules ran in a forked child, the descriptors that stay open are exactly those
  of the zygote, those the caller passed to be ignored and those the modules exempted (standard
  input is always among them); whatever else a module opened is closed.
\<close>

theorem sanitize_keeps_exactly:
  fixes env :: cenv and uid :: int and ign :: "int list" and c0 :: core
  defines "c \<equiv> run_app_pre env uid (load_modules env uid
      (ctx_fork_pre env \<lparr>x_pid = -1, x_ignore = Some ign, x_allowed = [], x_exempted = []\<rparr> c0))"
  assumes "fork_pid env = 0" "fd_dir_ok env" "alloc_ok env"
  shows "\<exists>x. cr_ctx c = Some x \<and>
    cr_fds (ctx_sanitize_fds env c) = filter (\<lambda>e. 0 \<le> fst e \<and> nat (fst e) < fd_table_size env \<and>
      (fst e = 0 \<or> fst e \<in> fst ` set (cr_fds c0) \<or> fst e \<in> set ign \<or> fst e \<in> set (x_exempted x))) (cr_fds c)"
proof -
  define c1 where "c1 = ctx_fork_pre env \<lparr>x_pid = -1, x_ignore = Some ign, x_allowed = [], x_exempted = []\<rparr> c0"
  define x1 where "x1 = fold mark_allowed (dir_fds c0)
      \<lparr>x_pid = 0, x_ignore = Some ign, x_allowed = replicate (fd_table_size env) False, x_exempted = []\<rparr>"
  have c1: "cr_ctx c1 = Some x1"
    using assms(2,3) by (simp add: c1_def ctx_fork_pre_def Let_def log_def x1_def)
  have "ctx_grows c1 c" unfolding c_def c1_def [symmetric]
    by (rule ctx_grows_trans [OF ctx_grows_load_modules ctx_grows_run_app_pre])
  then obtain ex where x: "cr_ctx c = Some (x1\<lparr>x_exempted := ex\<rparr>)"
    by (auto simp: ctx_grows_def c1 x1_def)
  have x1: "x_ignore x1 = Some ign" "x_pid x1 = 0" "length (x_allowed x1) = fd_table_size env"
    by (simp_all add: x1_def)
  have base: "fd_allowed (x1\<lparr>x_exempted := ex\<rparr>) fd \<longleftrightarrow>
      (fd = 0 \<or> fd \<in> fst ` set (cr_fds c0)) \<and> 0 \<le> fd \<and> nat fd < fd_table_size env" for fd
  proof -
    have "fd_allowed (x1\<lparr>x_exempted := ex\<rparr>) fd \<longleftrightarrow> fd_allowed x1 fd" by (simp add: fd_allowed_def)
    then show ?thesis unfolding x1_def fd_allowed_marks by (auto simp: fd_allowed_def dir_fds_def)
  qed
  have ext: "fd_allowed (extend_ignore env (x1\<lparr>x_exempted := ex\<rparr>)) fd \<longleftrightarrow>
      0 \<le> fd \<and> nat fd < fd_table_size env \<and> (fd = 0 \<or> fd \<in> fst ` set (cr_fds c0) \<or> fd \<in> set ign \<or> fd \<in> set ex)" for fd
  proof -
    have upd: "fd_allowed (y\<lparr>x_ignore := i\<rparr>) fd \<longleftrightarrow> fd_allowed y fd" for y i by (simp add: fd_allowed_def)
    show ?thesis using assms(4) base [of fd]
      by (cases "ex = []") (auto simp: extend_ignore_def x1 Let_def upd fd_allowed_marks base)
  qed
  show ?thesis
    using assms(3) by (simp add: x ctx_sanitize_fds_def x1 Let_def ext)
qed

theorem sanitize_keeps_exactly_witness:
  "\<exists>x. cr_ctx (run_app_pre demo_cenv 10002 (load_modules demo_cenv 10002
      (ctx_fork_pre demo_cenv \<lparr>x_pid = -1, x_ignore = Some [8], x_allowed = [], x_exempted = []\<rparr> demo_core))) = Some x"
  using sanitize_keeps_exactly [of demo_cenv 10002 "[8]" demo_core] by (auto simp: demo_cenv_def)

section \<open>Unloaded modules\<close>

definition post_event :: "event \<Rightarrow> bool" where
  "post_event e \<longleftrightarrow> (case e of EPost _ \<Rightarrow> True | _ \<Rightarrow> False)"

lemma run_calls_log: "cr_log (snd (run_calls loading calls (m, c))) = cr_log c"
  unfolding run_calls_def
proof (induction calls arbitrary: m c)
  case (Cons a calls)
  obtain m1 c1 where 1: "run_call loading a (m, c) = (m1, c1)" by force
  have "cr_log c1 = cr_log c"
    using 1 by (cases a) (auto simp: zygisk_exempt_fd_def split: if_splits option.splits)
  then show ?case using Cons.IH 1 by simp
qed simp

lemma callbacks_log:
  "cr_log (snd (callbacks cb ev ms c)) = cr_log c @ [ev (cm_id m). m \<leftarrow> ms, cm_live m \<and> cb (cm_lib m) \<noteq> None]"
proof (induction ms arbitrary: c)
  case (Cons m ms)
  obtain m1 c1 where 1: "run_callback cb ev (m, c) = (m1, c1)" by force
  have "cr_log c1 = cr_log c @ (if cm_live m \<and> cb (cm_lib m) \<noteq> None then [ev (cm_id m)] else [])"
    using 1 run_calls_log [of False _ m "log (ev (cm_id m)) c"]
    by (auto simp: run_callback_def log_def split: if_splits option.splits) (metis (full_types) snd_conv)+
  then show ?case using Cons.IH [of c1] 1 by (simp add: case_prod_beta)
qed simp

text \<open>
  A module that asks in \<^verbatim>\<open>preAppSpecialize\<close> (or before) for its library to be closed is not
  called again: after the specialisation exactly the remaining modules that have the callback
  are called, in order.
\<close>

theorem dlclosed_not_called:
  "(let c' = run_app_pre env uid c in
     filter post_event (cr_log (run_app_post env uid' c')) = filter post_event (cr_log c') @
       [EPost (cm_id m). m \<leftarrow> cr_modules c', cm_live m \<and> m_post env (cm_lib m) \<noteq> None] \<and>
     (\<forall>m \<in> set (cr_modules c'). cm_option m AND 2 \<noteq> 0 \<longrightarrow> \<not> cm_live m))"
proof -
  define c' where "c' = run_app_pre env uid c"
  have push: "push_bit 1 1 = (2 :: u32)" by code_simp
  have dead: "\<not> cm_live m" if "m \<in> set (cr_modules c')" "cm_option m AND 2 \<noteq> 0" for m
    using that by (auto simp: c'_def run_app_pre_def Let_def wants_dlclose_def push split: if_splits)
  have "cr_log (run_app_post env uid' c') = cr_log c' @ [EReport uid'] @
      [EPost (cm_id m). m \<leftarrow> cr_modules c', cm_live m \<and> m_post env (cm_lib m) \<noteq> None] @ [EHide, EDropPages]"
    using callbacks_log [of "m_post env" EPost "cr_modules c'" "log (EReport uid') c'"]
    by (simp add: run_app_post_def call_all_def log_def case_prod_beta)
  moreover have "filter post_event [EPost (cm_id m). m \<leftarrow> ms, P m] = [EPost (cm_id m). m \<leftarrow> ms, P m]" for ms P
    by (induction ms) (auto simp: post_event_def)
  moreover have "filter post_event [EReport uid'] = []" "filter post_event [EHide, EDropPages] = []"
    by (simp_all add: post_event_def)
  ultimately show ?thesis using dead by (simp only: c'_def [symmetric] Let_def filter_append) simp
qed

theorem dlclosed_not_called_witness:
  "filter post_event (cr_log (run_app_post demo_cenv 10002 (run_app_pre demo_cenv 10002
     (demo_core\<lparr>cr_modules := [\<lparr>cm_id = 0, cm_dir = ''a'', cm_lib = ''/a.so'', cm_version = 4, cm_option = 0, cm_live = True\<rparr>]\<rparr>)))) = []"
proof -
  let ?c = "demo_core\<lparr>cr_modules := [\<lparr>cm_id = 0, cm_dir = ''a'', cm_lib = ''/a.so'', cm_version = 4, cm_option = 0, cm_live = True\<rparr>]\<rparr>"
  have opt: "(0 OR push_bit (Suc 0) 1) AND push_bit (Suc 0) 1 \<noteq> (0 :: u32)" by code_simp
  have ms: "map (\<lambda>m. (cm_live m, cm_lib m)) (cr_modules (run_app_pre demo_cenv 10002 ?c)) = [(False, ''/a.so'')]"
    "filter post_event (cr_log (run_app_pre demo_cenv 10002 ?c)) = []"
    using opt by (simp_all add: run_app_pre_def call_all_def run_callback_def run_calls_def demo_cenv_def demo_core_def log_def
        api_set_option_def wants_dlclose_def Let_def post_event_def)
  then obtain m where m: "cr_modules (run_app_pre demo_cenv 10002 ?c) = [m]" "\<not> cm_live m" by auto
  show ?thesis
    using dlclosed_not_called [of demo_cenv 10002 ?c 10002] ms(2) m by (simp add: Let_def)
qed

end
