(* ===== verification/Module_Scripts.thy ===== *)
theory Module_Scripts
  imports Module_Config Feature Sepolicy_Batch
begin

text \<open>
  The boot-time work on modules, \<^verbatim>\<open>module/module.cpp\<close>: the scripts of a stage, the init rc file of
  the next boot, the policy rules and the system properties of the modules.

  The state is the operating system, the kernel's state and the list of what was done.  What a
  script does to the system is a parameter: \<open>sh\<close> gives its wait status (\<open>None\<close>: the fork
  failed) and the system as it is when the call returns.
\<close>

section \<open>State\<close>

record script_run =
  sr_shell :: path
  sr_script :: path
  sr_dir :: path
  sr_module :: string
  sr_block :: bool
  sr_env :: "(string \<times> string option) list"

datatype boot_event =
    EvScript script_run
  | EvPolicy string string
  | EvProp string string
  | EvZygiskd
  | EvCatch string
  | EvReport string
  | EvHide

record 'k world =
  w_os :: os
  w_k :: 'k
  w_log :: "boot_event list"

record 'k benv =
  sh :: "script_run \<Rightarrow> os \<Rightarrow> wait_status option \<times> os"
  getf :: "u32 \<Rightarrow> 'k \<Rightarrow> u64 \<times> bool"
  putf :: "u32 \<Rightarrow> u64 \<Rightarrow> 'k \<Rightarrow> int \<times> 'k"
  send_policy :: "bytes \<Rightarrow> 'k \<Rightarrow> int \<times> 'k"
  resetprop :: "string \<Rightarrow> string \<Rightarrow> os \<Rightarrow> os"
  restorecon_all :: "os \<Rightarrow> os"
  binaries :: "os \<Rightarrow> os"
  asset :: "string \<Rightarrow> bool"
  copy_asset :: "string \<Rightarrow> path \<Rightarrow> os \<Rightarrow> bool \<times> os"
  kver :: nat
  ver_code :: string
  ver_name :: string
  log_fork_ok :: bool

definition note_event :: "boot_event \<Rightarrow> 'k world \<Rightarrow> 'k world" where
  "note_event e w = w\<lparr>w_log := w_log w @ [e]\<rparr>"

definition on_os :: "(os \<Rightarrow> os) \<Rightarrow> 'k world \<Rightarrow> 'k world" where
  "on_os f w = w\<lparr>w_os := f (w_os w)\<rparr>"

section \<open>The environment of a script\<close>

record common_env =
  kernel_ver_code :: string
  zygisk_on :: bool
  env_path :: string

definition build_common_script_env :: "'k benv \<Rightarrow> 'k world \<Rightarrow> common_env" where
  "build_common_script_env b w =
     (let zy = getf b FEATURE_YUKIZYGISK (w_k w);
          binary_dir = (if BINARY_DIR \<noteq> [] \<and> last BINARY_DIR = CHR ''/'' then butlast BINARY_DIR else BINARY_DIR)
      in \<lparr>kernel_ver_code = show_nat (kver b), zygisk_on = (snd zy \<and> fst zy \<noteq> 0),
          env_path = (case env_of (w_os w) ''PATH'' of
             Some old \<Rightarrow> if old \<noteq> [] then old @ '':'' @ binary_dir else binary_dir
           | None \<Rightarrow> binary_dir)\<rparr>)"

text \<open>The settings in order; \<open>None\<close> is \<^verbatim>\<open>unsetenv\<close>.\<close>

definition apply_common_script_env :: "'k benv \<Rightarrow> common_env \<Rightarrow> string \<Rightarrow> bool \<Rightarrow> (string \<times> string option) list" where
  "apply_common_script_env b env module_id set_magisk_compat =
     [(''ASH_STANDALONE'', Some ''1''), (''TAMISU'', Some ''true''), (''YUKISU'', Some ''1''),
      (''TAMISU_KERNEL_VER_CODE'', Some (kernel_ver_code env)), (''TAMISU_VER_CODE'', Some (ver_code b)),
      (''TAMISU_VER'', Some (ver_name b)), (''PATH'', Some (env_path env)),
      (''ZYGISK_ENABLED'', if zygisk_on env then Some ''1'' else None)] @
     (if set_magisk_compat then [(''MAGISK_VER'', Some ''25.2''), (''MAGISK_VER_CODE'', Some ''25200'')] else []) @
     [(''TAMISU_MODULE'', if module_id \<noteq> [] then Some module_id else None)]"

section \<open>Scripts\<close>

definition BUSYBOX_PATH :: path where "BUSYBOX_PATH = ''/data/tamisu/bin/busybox''"

definition script_shell :: "os \<Rightarrow> path" where
  "script_shell st = (if exists_path st BUSYBOX_PATH then BUSYBOX_PATH else ''/system/bin/sh'')"

definition script_dir :: "path \<Rightarrow> path" where
  "script_dir script =
     (let d = (case rfind_slash script of None \<Rightarrow> script | Some i \<Rightarrow> take i script)
      in if d = [] then ''/'' else d)"

text \<open>What is executed for a script.\<close>

definition script_job :: "'k benv \<Rightarrow> path \<Rightarrow> bool \<Rightarrow> string \<Rightarrow> 'k world \<Rightarrow> script_run" where
  "script_job b script block module_id w =
     \<lparr>sr_shell = script_shell (w_os w), sr_script = script, sr_dir = script_dir script, sr_module = module_id,
      sr_block = block, sr_env = apply_common_script_env b (build_common_script_env b w) module_id True\<rparr>"

definition run_script :: "'k benv \<Rightarrow> path \<Rightarrow> bool \<Rightarrow> string \<Rightarrow> 'k world \<Rightarrow> int \<times> 'k world" where
  "run_script b script block module_id w =
     (if \<not> exists_path (w_os w) script then (0, w)
      else (let job = script_job b script block module_id w in
            case sh b job (w_os w) of
              (None, st') \<Rightarrow> (-1, w\<lparr>w_os := st'\<rparr>)
            | (Some ws, st') \<Rightarrow>
                (if block then (case ws of Exited n \<Rightarrow> int n | _ \<Rightarrow> -1) else 0,
                 note_event (EvScript job) (w\<lparr>w_os := st'\<rparr>))))"

definition stage_script :: "string \<Rightarrow> string \<Rightarrow> path" where
  "stage_script stage e = MODULE_DIR @ e @ ''/'' @ stage @ ''.sh''"

text \<open>The loop over the entries as they were listed: an entry must not be hidden and be a directory.\<close>

fun stage_loop :: "'k benv \<Rightarrow> string \<Rightarrow> bool \<Rightarrow> string list \<Rightarrow> 'k world \<Rightarrow> 'k world" where
  "stage_loop b stage block [] w = w"
| "stage_loop b stage block (e # es) w =
     stage_loop b stage block es
       (if is_zygisk_impl_module e \<or> exists_path (w_os w) (MODULE_DIR @ e @ ''/disable'') \<or>
           exists_path (w_os w) (MODULE_DIR @ e @ ''/remove'')
        then w else snd (run_script b (stage_script stage e) block e w))"

text \<open>The directories of the module directory, hidden ones left out.\<close>

definition module_dirs :: "os \<Rightarrow> string list" where
  "module_dirs st = filter (\<lambda>e. peek e \<noteq> CHR ''.'' \<and> is_dir st (MODULE_DIR @ e)) (readdir st MODULE_DIR)"

definition exec_stage_script :: "'k benv \<Rightarrow> string \<Rightarrow> bool \<Rightarrow> 'k world \<Rightarrow> 'k world" where
  "exec_stage_script b stage block w =
     (if \<not> is_dir (w_os w) MODULE_DIR then w else stage_loop b stage block (module_dirs (w_os w)) w)"

fun common_loop :: "'k benv \<Rightarrow> path \<Rightarrow> bool \<Rightarrow> string list \<Rightarrow> 'k world \<Rightarrow> 'k world" where
  "common_loop b dir_path block [] w = w"
| "common_loop b dir_path block (e # es) w =
     common_loop b dir_path block es
       (if peek e = CHR ''.'' \<or> \<not> access_x (w_os w) (dir_path @ e) then w
        else snd (run_script b (dir_path @ e) block [] w))"

definition exec_common_scripts :: "'k benv \<Rightarrow> string \<Rightarrow> bool \<Rightarrow> 'k world \<Rightarrow> 'k world" where
  "exec_common_scripts b stage_dir block w =
     (let dir_path = ADB_DIR @ stage_dir @ ''/'' in
      if \<not> is_dir (w_os w) dir_path then w
      else common_loop b dir_path block (readdir (w_os w) dir_path) w)"

section \<open>Policy rules of the modules\<close>

text \<open>The lines of a rule file that count, joined again.\<close>

definition rule_text :: "string \<Rightarrow> string" where
  "rule_text content =
     concat (map (\<lambda>l. trim l @ [NL])
       (filter (\<lambda>l. trim l \<noteq> [] \<and> hd (trim l) \<noteq> CHR ''#'') (getline_all NL content)))"

text \<open>\<open>None\<close>: the rule parser does not return.\<close>

fun policy_loop :: "'k benv \<Rightarrow> string list \<Rightarrow> 'k world \<Rightarrow> 'k world option" where
  "policy_loop b [] w = Some w"
| "policy_loop b (e # es) w =
     (if is_zygisk_impl_module e \<or> exists_path (w_os w) (MODULE_DIR @ e @ ''/disable'')
      then policy_loop b es w
      else
        (let all_rules = (case read_file (w_os w) (MODULE_DIR @ e @ ''/sepolicy.rule'') of
                            None \<Rightarrow> [] | Some content \<Rightarrow> rule_text content)
         in if all_rules = [] then policy_loop b es w
            else (case sepolicy_live_patch (send_policy b) all_rules (w_k w) of
                    None \<Rightarrow> None
                  | Some (ret, k') \<Rightarrow> policy_loop b es (note_event (EvPolicy e all_rules) (w\<lparr>w_k := k'\<rparr>)))))"

definition load_sepolicy_rule :: "'k benv \<Rightarrow> 'k world \<Rightarrow> 'k world option" where
  "load_sepolicy_rule b w =
     (if \<not> is_dir (w_os w) MODULE_DIR then Some w else policy_loop b (module_dirs (w_os w)) w)"

section \<open>System properties of the modules\<close>

definition prop_lines :: "string \<Rightarrow> (string \<times> string) list" where
  "prop_lines content = List.map_filter
     (\<lambda>l0. let l = trim l0 in
        if l = [] \<or> hd l = CHR ''#'' then None
        else (case find_char CHR ''='' l of
                None \<Rightarrow> None
              | Some eq \<Rightarrow> Some (trim (take eq l), trim (drop (eq + 1) l))))
     (getline_all NL content)"

definition set_props :: "'k benv \<Rightarrow> (string \<times> string) list \<Rightarrow> 'k world \<Rightarrow> 'k world" where
  "set_props b kvs w = fold (\<lambda>(k, v) w. note_event (EvProp k v) (on_os (resetprop b k v) w)) kvs w"

fun prop_loop :: "'k benv \<Rightarrow> string list \<Rightarrow> 'k world \<Rightarrow> 'k world" where
  "prop_loop b [] w = w"
| "prop_loop b (e # es) w =
     prop_loop b es
       (if is_zygisk_impl_module e \<or> exists_path (w_os w) (MODULE_DIR @ e @ ''/disable'') then w
        else (case read_file (w_os w) (MODULE_DIR @ e @ ''/system.prop'') of
                None \<Rightarrow> w | Some content \<Rightarrow> set_props b (prop_lines content) w))"

definition load_system_prop :: "'k benv \<Rightarrow> 'k world \<Rightarrow> 'k world" where
  "load_system_prop b w =
     (if \<not> is_dir (w_os w) MODULE_DIR \<or> \<not> exists_path (w_os w) RESETPROP_PATH then w
      else prop_loop b (module_dirs (w_os w)) w)"

end
