(* ===== verification/Preinit_Rc.thy ===== *)
theory Preinit_Rc
  imports Module_Scripts
begin

text \<open>
  The init rc file of the next boot, \<^verbatim>\<open>regenerate_preinit_rc\<close> of \<^verbatim>\<open>module.cpp\<close>: the rc files of
  \<^verbatim>\<open>/data/adb/initrc.d\<close> and of every active module, in order, written to a temporary file that
  is renamed over the old one.  The output stream is a text with its fail bit: inserting the
  buffer of an empty file sets it (\<^verbatim>\<open>operator<<\<close> on a stream buffer fails when no character is
  inserted), and every later insertion does nothing.
\<close>

definition PREINIT_DIR_WATCHDOG :: path where "PREINIT_DIR_WATCHDOG = ''/metadata/watchdog/tamisu/''"
definition PREINIT_DIR_DEFAULT :: path where "PREINIT_DIR_DEFAULT = ''/metadata/tamisu/''"

definition preinit_tamisu_dir :: "os \<Rightarrow> path" where
  "preinit_tamisu_dir st = (if is_dir st ''/metadata/watchdog'' then PREINIT_DIR_WATCHDOG else PREINIT_DIR_DEFAULT)"

text \<open>\<^verbatim>\<open>path::extension\<close> is \<^verbatim>\<open>.rc\<close>; a name that only starts with a dot has none.\<close>

definition has_rc_extension :: "string \<Rightarrow> bool" where
  "has_rc_extension name \<longleftrightarrow> length name > 3 \<and> drop (length name - 3) name = ''.rc''"

record ostream =
  out_text :: string
  out_good :: bool

definition put_text :: "string \<Rightarrow> ostream \<Rightarrow> ostream" where
  "put_text s out = (if out_good out then out\<lparr>out_text := out_text out @ s\<rparr> else out)"

definition put_buffer :: "string \<Rightarrow> ostream \<Rightarrow> ostream" where
  "put_buffer s out =
     (if \<not> out_good out then out
      else if s = [] then out\<lparr>out_good := False\<rparr>
      else out\<lparr>out_text := out_text out @ s\<rparr>)"

definition rc_header :: "string option \<Rightarrow> path \<Rightarrow> string" where
  "rc_header module_id p =
     ''# === from '' @ (case module_id of None \<Rightarrow> [] | Some m \<Rightarrow> m @ '':'') @ p @ '' ==='' @ [NL]"

text \<open>The rc files a directory contributes, by name.\<close>

definition rc_entries :: "os \<Rightarrow> path \<Rightarrow> string option \<Rightarrow> string list" where
  "rc_entries st dir module_id =
     filter (\<lambda>e. is_reg st (dir @ ''/'' @ e) \<and> has_rc_extension e \<and> (module_id = None \<longrightarrow> access_x st (dir @ ''/'' @ e)))
       (sort (readdir st dir))"

definition emit_rc :: "os \<Rightarrow> path \<Rightarrow> string option \<Rightarrow> string \<Rightarrow> ostream \<Rightarrow> ostream" where
  "emit_rc st dir module_id e out =
     (let p = dir @ ''/'' @ e; out = put_text (rc_header module_id p) out in
      case read_file st p of
        None \<Rightarrow> out
      | Some content \<Rightarrow> put_text [NL] (put_buffer content out))"

definition collect_rc_files :: "os \<Rightarrow> path \<Rightarrow> string option \<Rightarrow> ostream \<Rightarrow> ostream" where
  "collect_rc_files st dir module_id out =
     (if \<not> is_dir st dir then out
      else fold (emit_rc st dir module_id) (rc_entries st dir module_id) out)"

text \<open>The modules that contribute, by id.\<close>

definition rc_modules :: "os \<Rightarrow> (string, path) omap" where
  "rc_modules st =
     (if \<not> is_dir st MODULE_DIR then []
      else fold (\<lambda>id m.
              if \<not> is_dir st (MODULE_DIR @ id) \<or> id = [] then m
              else if exists_path st (MODULE_DIR @ id @ ''/disable'') \<or> exists_path st (MODULE_DIR @ id @ ''/remove'')
              then omap_del id m
              else if map_of m id = None then omap_put id (MODULE_DIR @ id) m else m)
            (readdir st MODULE_DIR) [])"

definition rc_stream :: "os \<Rightarrow> ostream" where
  "rc_stream st =
     fold (\<lambda>(id, p). collect_rc_files st (p @ ''/initrc'') (Some id)) (rc_modules st)
       (collect_rc_files st (ADB_DIR @ ''initrc.d'') None \<lparr>out_text = [], out_good = True\<rparr>)"

definition regenerate_preinit_rc :: "os \<Rightarrow> int \<times> os" where
  "regenerate_preinit_rc st0 =
     (let preinit_dir = preinit_tamisu_dir st0 in
      case ensure_dir_exists preinit_dir st0 of
        (False, st) \<Rightarrow> (1, st)
      | (True, st) \<Rightarrow>
          (let tmp_path = preinit_dir @ ''.modules.rc.tmp''; out_path = preinit_dir @ ''modules.rc'' in
           case write_file tmp_path [] st of
             (False, st) \<Rightarrow> (1, st)
           | (True, st) \<Rightarrow>
               (let out = rc_stream st; st = snd (write_file tmp_path (out_text out) st) in
                if \<not> out_good out then (1, st)
                else if ro_path st out_path \<or> is_dir st out_path then (1, unlink tmp_path st)
                else
                  (let st = del_node tmp_path (put_node out_path (Reg 420 (out_text out)) st);
                       stale_dir = (if preinit_dir = PREINIT_DIR_WATCHDOG then PREINIT_DIR_DEFAULT else PREINIT_DIR_WATCHDOG)
                   in (0, unlink (stale_dir @ ''modules.rc'') st)))))"

section \<open>What is written\<close>

text \<open>The text of one rc file, when all are readable and none is empty.\<close>

definition rc_piece :: "os \<Rightarrow> path \<Rightarrow> string option \<Rightarrow> string \<Rightarrow> string" where
  "rc_piece st dir module_id e =
     rc_header module_id (dir @ ''/'' @ e) @
     (case read_file st (dir @ ''/'' @ e) of None \<Rightarrow> [] | Some content \<Rightarrow> content @ [NL])"

definition rc_dir_text :: "os \<Rightarrow> path \<Rightarrow> string option \<Rightarrow> string" where
  "rc_dir_text st dir module_id =
     (if \<not> is_dir st dir then [] else concat (map (rc_piece st dir module_id) (rc_entries st dir module_id)))"

definition rc_nonempty :: "os \<Rightarrow> path \<Rightarrow> string option \<Rightarrow> bool" where
  "rc_nonempty st dir module_id \<longleftrightarrow>
     (is_dir st dir \<longrightarrow> (\<forall>e \<in> set (rc_entries st dir module_id). read_file st (dir @ ''/'' @ e) \<noteq> Some []))"

lemma emit_rc_good:
  "out_good out \<Longrightarrow> read_file st (dir @ ''/'' @ e) \<noteq> Some [] \<Longrightarrow>
     emit_rc st dir module_id e out = out\<lparr>out_text := out_text out @ rc_piece st dir module_id e\<rparr>"
  by (auto simp: emit_rc_def put_text_def put_buffer_def rc_piece_def Let_def split: option.splits)

lemma emit_rc_bad: "\<not> out_good out \<Longrightarrow> emit_rc st dir module_id e out = out"
  by (auto simp: emit_rc_def put_text_def put_buffer_def Let_def split: option.splits)

lemma emit_rcs_good:
  "out_good out \<Longrightarrow> (\<And>e. e \<in> set es \<Longrightarrow> read_file st (dir @ ''/'' @ e) \<noteq> Some []) \<Longrightarrow>
     fold (emit_rc st dir module_id) es out = out\<lparr>out_text := out_text out @ concat (map (rc_piece st dir module_id) es)\<rparr>"
proof (induction es arbitrary: out)
  case (Cons e es)
  have "emit_rc st dir module_id e out = out\<lparr>out_text := out_text out @ rc_piece st dir module_id e\<rparr>"
    using Cons.prems by (intro emit_rc_good) auto
  then show ?case using Cons by simp
qed simp

lemma emit_rcs_bad: "\<not> out_good out \<Longrightarrow> fold (emit_rc st dir module_id) es out = out"
  by (induction es) (auto simp: emit_rc_bad)

lemma emit_rcs_fail:
  "e \<in> set es \<Longrightarrow> read_file st (dir @ ''/'' @ e) = Some [] \<Longrightarrow> \<not> out_good (fold (emit_rc st dir module_id) es out)"
proof (induction es arbitrary: out)
  case (Cons d es)
  show ?case
  proof (cases "d = e")
    case True
    then have "\<not> out_good (emit_rc st dir module_id d out)"
      using Cons.prems(2) by (simp add: emit_rc_def put_text_def put_buffer_def Let_def)
    then show ?thesis by (simp add: emit_rcs_bad)
  qed (use Cons in auto)
qed simp

lemma collect_good:
  "out_good out \<Longrightarrow> rc_nonempty st dir module_id \<Longrightarrow>
     collect_rc_files st dir module_id out = out\<lparr>out_text := out_text out @ rc_dir_text st dir module_id\<rparr>"
  by (auto simp: collect_rc_files_def rc_dir_text_def rc_nonempty_def emit_rcs_good)

lemma collect_bad: "\<not> out_good out \<Longrightarrow> collect_rc_files st dir module_id out = out"
  by (simp add: collect_rc_files_def emit_rcs_bad)

lemma collect_fail: "\<not> rc_nonempty st dir module_id \<Longrightarrow> \<not> out_good (collect_rc_files st dir module_id out)"
  by (auto simp: collect_rc_files_def rc_nonempty_def emit_rcs_fail)

lemma collects_good:
  "out_good out \<Longrightarrow> (\<And>id p. (id, p) \<in> set ms \<Longrightarrow> rc_nonempty st (p @ ''/initrc'') (Some id)) \<Longrightarrow>
     fold (\<lambda>(id, p). collect_rc_files st (p @ ''/initrc'') (Some id)) ms out =
       out\<lparr>out_text := out_text out @ concat (map (\<lambda>(id, p). rc_dir_text st (p @ ''/initrc'') (Some id)) ms)\<rparr>"
proof (induction ms arbitrary: out)
  case (Cons m ms)
  obtain i p where m: "m = (i, p)" by (cases m)
  have "collect_rc_files st (p @ ''/initrc'') (Some i) out =
      out\<lparr>out_text := out_text out @ rc_dir_text st (p @ ''/initrc'') (Some i)\<rparr>"
    using Cons.prems m by (intro collect_good) auto
  then show ?case using Cons m by simp
qed simp

lemma collects_bad:
  "\<not> out_good out \<Longrightarrow> fold (\<lambda>(id, p). collect_rc_files st (p @ ''/initrc'') (Some id)) ms out = out"
  by (induction ms) (auto simp: collect_bad)

lemma collects_fail:
  "(i, p) \<in> set ms \<Longrightarrow> \<not> rc_nonempty st (p @ ''/initrc'') (Some i) \<Longrightarrow>
     \<not> out_good (fold (\<lambda>(id, p). collect_rc_files st (p @ ''/initrc'') (Some id)) ms out)"
proof (induction ms arbitrary: out)
  case (Cons m ms)
  show ?case
  proof (cases "m = (i, p)")
    case True
    then have "\<not> out_good (collect_rc_files st (p @ ''/initrc'') (Some i) out)" using Cons.prems(2) by (simp add: collect_fail)
    then show ?thesis using True by (simp add: collects_bad)
  qed (use Cons in auto)
qed simp

text \<open>The whole file.\<close>

definition rc_text :: "os \<Rightarrow> string" where
  "rc_text st = rc_dir_text st (ADB_DIR @ ''initrc.d'') None @
     concat (map (\<lambda>(id, p). rc_dir_text st (p @ ''/initrc'') (Some id)) (rc_modules st))"

definition no_empty_rc :: "os \<Rightarrow> bool" where
  "no_empty_rc st \<longleftrightarrow> rc_nonempty st (ADB_DIR @ ''initrc.d'') None \<and>
     (\<forall>(id, p) \<in> set (rc_modules st). rc_nonempty st (p @ ''/initrc'') (Some id))"

lemma rc_stream_good: "no_empty_rc st \<Longrightarrow> rc_stream st = \<lparr>out_text = rc_text st, out_good = True\<rparr>"
  by (subst rc_stream_def, subst collect_good, simp, simp add: no_empty_rc_def, subst collects_good)
     (auto simp: no_empty_rc_def rc_text_def)

lemma rc_stream_bad: "\<not> no_empty_rc st \<Longrightarrow> \<not> out_good (rc_stream st)"
proof -
  assume "\<not> no_empty_rc st"
  then consider "\<not> rc_nonempty st (ADB_DIR @ ''initrc.d'') None"
    | i p where "(i, p) \<in> set (rc_modules st)" "\<not> rc_nonempty st (p @ ''/initrc'') (Some i)"
    by (auto simp: no_empty_rc_def)
  then show ?thesis
  proof cases
    case 1
    then have "\<not> out_good (collect_rc_files st (ADB_DIR @ ''initrc.d'') None \<lparr>out_text = [], out_good = True\<rparr>)"
      by (rule collect_fail)
    then show ?thesis by (simp add: rc_stream_def collects_bad)
  qed (simp add: rc_stream_def collects_fail)
qed

text \<open>Which modules contribute.\<close>

lemma rc_modules_mem:
  "map_of (fold (\<lambda>id m.
        if \<not> is_dir st (MODULE_DIR @ id) \<or> id = [] then m
        else if exists_path st (MODULE_DIR @ id @ ''/disable'') \<or> exists_path st (MODULE_DIR @ id @ ''/remove'')
        then omap_del id m
        else if map_of m id = None then omap_put id (MODULE_DIR @ id) m else m) es m) e =
     (if e \<in> set es \<and> e \<noteq> [] \<and> is_dir st (MODULE_DIR @ e) then
        (if exists_path st (MODULE_DIR @ e @ ''/disable'') \<or> exists_path st (MODULE_DIR @ e @ ''/remove'') then None
         else if map_of m e = None then Some (MODULE_DIR @ e) else map_of m e)
      else map_of m e)"
proof (induction es arbitrary: m)
  case (Cons d es)
  show ?case unfolding fold_Cons comp_apply Cons.IH
    by auto
qed simp

end
