(* ===== verification/Hide_Bootloader.thy ===== *)
theory Hide_Bootloader
  imports Utils_Os
begin

text \<open>
  The hiding of the bootloader state, \<^verbatim>\<open>core/hide_bootloader.cpp\<close>: a switch file, and a list of
  properties that are reset when they are there with another value.  \<open>reset_ok\<close> says for which
  properties the reset tool succeeds; it then sets the value.
\<close>

definition BL_HIDE_CONFIG :: path where "BL_HIDE_CONFIG = ''/data/tamisu/.hide_bootloader''"

definition PROPS_TO_HIDE :: "(string \<times> string) list" where
  "PROPS_TO_HIDE =
    [(''ro.boot.vbmeta.device_state'', ''locked''), (''ro.boot.verifiedbootstate'', ''green''),
     (''ro.boot.flash.locked'', ''1''), (''ro.boot.veritymode'', ''enforcing''), (''ro.boot.warranty_bit'', ''0''),
     (''ro.warranty_bit'', ''0''), (''ro.debuggable'', ''0''), (''ro.force.debuggable'', ''0''), (''ro.secure'', ''1''),
     (''ro.adb.secure'', ''1''), (''ro.build.type'', ''user''), (''ro.build.tags'', ''release-keys''),
     (''ro.vendor.boot.warranty_bit'', ''0''), (''ro.vendor.warranty_bit'', ''0''),
     (''vendor.boot.vbmeta.device_state'', ''locked''), (''vendor.boot.verifiedbootstate'', ''green''),
     (''sys.oem_unlock_allowed'', ''0''), (''ro.secureboot.lockstate'', ''locked''),
     (''ro.boot.realmebootstate'', ''green''), (''ro.boot.realme.lockstate'', ''1''),
     (''ro.boot.warranty_bit'', ''0''), (''ro.vendor.boot.warranty_bit'', ''0''),
     (''ro.boot.oem_unlock_support'', ''0'')]"

definition get_prop :: "string \<Rightarrow> os \<Rightarrow> string" where
  "get_prop name st = (case getprop name st of Some v \<Rightarrow> v | None \<Rightarrow> [])"

definition reset_prop :: "(string \<Rightarrow> bool) \<Rightarrow> string \<Rightarrow> string \<Rightarrow> os \<Rightarrow> os" where
  "reset_prop reset_ok name val st =
     (if reset_ok name then st\<lparr>prop_of := (prop_of st)(name := val)\<rparr> else st)"

definition check_reset_prop :: "(string \<Rightarrow> bool) \<Rightarrow> string \<Rightarrow> string \<Rightarrow> os \<Rightarrow> os" where
  "check_reset_prop reset_ok name expected st =
     (let v = get_prop name st in
      if v = [] \<or> v = expected then st else reset_prop reset_ok name expected st)"

definition contains_reset_prop :: "(string \<Rightarrow> bool) \<Rightarrow> string \<Rightarrow> string \<Rightarrow> string \<Rightarrow> os \<Rightarrow> os" where
  "contains_reset_prop reset_ok name part newval st =
     (if contains part (get_prop name st) then reset_prop reset_ok name newval st else st)"

definition is_bl_hiding_enabled :: "os \<Rightarrow> bool" where
  "is_bl_hiding_enabled st = exists_path st BL_HIDE_CONFIG"

definition set_bl_hiding_enabled :: "bool \<Rightarrow> os \<Rightarrow> os" where
  "set_bl_hiding_enabled enabled st =
     (if enabled then snd (write_file BL_HIDE_CONFIG (''1'' @ [NL]) st) else unlink BL_HIDE_CONFIG st)"

text \<open>The loop over the properties, after the wait for the boot to start.\<close>

definition do_hide_bootloader :: "(string \<Rightarrow> bool) \<Rightarrow> os \<Rightarrow> os" where
  "do_hide_bootloader reset_ok st = fold (\<lambda>(name, expected). check_reset_prop reset_ok name expected) PROPS_TO_HIDE st"

text \<open>Whether a child was started to hide, and the system when it is done.\<close>

definition hide_bootloader_status :: "bool \<Rightarrow> (string \<Rightarrow> bool) \<Rightarrow> os \<Rightarrow> bool \<times> os" where
  "hide_bootloader_status fork_works reset_ok st =
     (if \<not> is_bl_hiding_enabled st then (False, st)
      else if \<not> fork_works then (False, st)
      else (True, do_hide_bootloader reset_ok st))"

section \<open>What hiding does\<close>

lemma prop_check_reset:
  "prop_of (check_reset_prop ok name e st) q =
     (if q = name \<and> ok name \<and> prop_of st name \<noteq> [] then e else prop_of st q)"
  by (auto simp: check_reset_prop_def reset_prop_def get_prop_def getprop_def Let_def)

text \<open>The list is a function: a name that occurs twice has the same value.\<close>

lemma prop_fold_reset:
  assumes "\<And>n e e'. (n, e) \<in> set ps \<Longrightarrow> (n, e') \<in> set ps \<Longrightarrow> e = e'" "\<And>n e. (n, e) \<in> set ps \<Longrightarrow> e \<noteq> []"
  shows "prop_of (fold (\<lambda>(name, expected). check_reset_prop ok name expected) ps st) q =
     (case map_of ps q of
        Some e \<Rightarrow> if ok q \<and> prop_of st q \<noteq> [] then e else prop_of st q
      | None \<Rightarrow> prop_of st q)"
  using assms
proof (induction ps arbitrary: st q)
  case (Cons p ps)
  obtain n e where p: "p = (n, e)" by force
  have IH: "prop_of (fold (\<lambda>(name, expected). check_reset_prop ok name expected) ps s) r =
     (case map_of ps r of
        Some e \<Rightarrow> if ok r \<and> prop_of s r \<noteq> [] then e else prop_of s r
      | None \<Rightarrow> prop_of s r)" for s r
  proof (rule Cons.IH)
    show "\<And>n e e'. (n, e) \<in> set ps \<Longrightarrow> (n, e') \<in> set ps \<Longrightarrow> e = e'" by (rule Cons.prems(1)) auto
    show "\<And>n e. (n, e) \<in> set ps \<Longrightarrow> e \<noteq> []" by (rule Cons.prems(2)) auto
  qed
  have "e \<noteq> []" using Cons.prems(2) [of n e] p by simp
  show ?case
  proof (cases "q = n")
    case True
    have "map_of ps n = Some e' \<Longrightarrow> e' = e" for e'
      using Cons.prems(1) [of n e' e] p map_of_SomeD [of ps n e'] by auto
    then show ?thesis using True \<open>e \<noteq> []\<close>
      by (cases "map_of ps n") (auto simp: p IH prop_check_reset)
  next
    case False
    then show ?thesis by (cases "map_of ps q") (simp_all add: p IH prop_check_reset)
  qed
qed simp

lemma props_function: "(n, e) \<in> set PROPS_TO_HIDE \<Longrightarrow> (n, e') \<in> set PROPS_TO_HIDE \<Longrightarrow> e = e'"
proof -
  have "list_all (\<lambda>(n, e). map_of PROPS_TO_HIDE n = Some e) PROPS_TO_HIDE" by code_simp
  then show "(n, e) \<in> set PROPS_TO_HIDE \<Longrightarrow> (n, e') \<in> set PROPS_TO_HIDE \<Longrightarrow> e = e'"
    unfolding list_all_iff by (metis (mono_tags, lifting) case_prodD option.inject)
qed

lemma props_nonempty: "(n, e) \<in> set PROPS_TO_HIDE \<Longrightarrow> e \<noteq> []"
proof -
  have "list_all (\<lambda>(n, e). e \<noteq> []) PROPS_TO_HIDE" by code_simp
  then show "(n, e) \<in> set PROPS_TO_HIDE \<Longrightarrow> e \<noteq> []" by (fastforce simp: list_all_iff)
qed

lemma prop_hidden:
  "prop_of (do_hide_bootloader ok st) q =
     (case map_of PROPS_TO_HIDE q of
        Some e \<Rightarrow> if ok q \<and> prop_of st q \<noteq> [] then e else prop_of st q
      | None \<Rightarrow> prop_of st q)"
  unfolding do_hide_bootloader_def by (rule prop_fold_reset [OF props_function props_nonempty])

text \<open>
  Hiding sets exactly the listed properties that exist to the value of a locked device, leaves
  every other property alone, and doing it again changes nothing.
\<close>

theorem hiding_sets_listed:
  "prop_of (do_hide_bootloader (\<lambda>_. True) st) q =
     (case map_of PROPS_TO_HIDE q of
        Some e \<Rightarrow> if prop_of st q = [] then [] else e
      | None \<Rightarrow> prop_of st q) \<and>
   prop_of (do_hide_bootloader (\<lambda>_. True) (do_hide_bootloader (\<lambda>_. True) st)) = prop_of (do_hide_bootloader (\<lambda>_. True) st)"
  using map_of_SomeD [of PROPS_TO_HIDE] props_nonempty
  by (fastforce simp: prop_hidden fun_eq_iff split: option.splits)

end
