(* ===== verification/Init_Event.thy ===== *)
theory Init_Event
  imports Preinit_Rc Hide_Bootloader
begin

text \<open>
  The boot events, \<^verbatim>\<open>init_event.cpp\<close>, and the staging of the zygisk payload, \<^verbatim>\<open>core/assets.cpp\<close>.
\<close>

section \<open>Boot logs\<close>

definition LOG_DIR :: path where "LOG_DIR = ''/data/tamisu/log/''"

definition rename_file :: "path \<Rightarrow> path \<Rightarrow> os \<Rightarrow> os" where
  "rename_file a b st =
     (case node_at st a of
        None \<Rightarrow> st
      | Some n \<Rightarrow> if ro_path st a \<or> ro_path st b \<or> is_dir st b then st else del_node a (put_node b n st))"

definition catch_bootlog :: "'k benv \<Rightarrow> string \<Rightarrow> 'k world \<Rightarrow> 'k world" where
  "catch_bootlog b logname w0 =
     (let w = on_os (\<lambda>st. snd (ensure_dir_exists LOG_DIR st)) w0;
          bootlog = LOG_DIR @ ''/'' @ logname @ ''.log'';
          oldbootlog = LOG_DIR @ ''/'' @ logname @ ''.old.log'';
          w = (if exists_path (w_os w) bootlog then on_os (rename_file bootlog oldbootlog) w else w)
      in if \<not> log_fork_ok b then w
         else note_event (EvCatch logname) (on_os (\<lambda>st. snd (write_file bootlog [] st)) w))"

section \<open>Zygisk\<close>

definition YUKIZYGISK_DIR :: path where "YUKIZYGISK_DIR = ''/data/tamisu/lib/zygisk/''"

definition payload :: "(string \<times> path) list" where
  "payload =
     [(''libzygisk.so'', ''/data/tamisu/lib/zygisk/libzygisk.so''),
      (''libzygisk_zncore.so'', ''/data/tamisu/lib/zygisk/libzygisk_zncore.so''),
      (''libzygisk_linker.so'', ''/data/tamisu/lib/zygisk/libzygisk_linker.so'')]"

text \<open>The embedded assets and their copy to a file are generated code: parameters.\<close>

definition stage_payload :: "'k benv \<Rightarrow> string \<times> path \<Rightarrow> os \<Rightarrow> os" where
  "stage_payload b p st =
     (if \<not> asset b (fst p) then st
      else (case copy_asset b (fst p) (snd p) st of
              (False, st') \<Rightarrow> st'
            | (True, st') \<Rightarrow> chmod (snd p) 420 st'))"

definition ensure_zygisk :: "'k benv \<Rightarrow> os \<Rightarrow> int \<times> os" where
  "ensure_zygisk b st =
     (if \<not> list_ex (\<lambda>p. asset b (fst p)) payload then (0, st)
      else (case ensure_dir_exists YUKIZYGISK_DIR st of
              (False, st') \<Rightarrow> (1, st')
            | (True, st') \<Rightarrow> (0, fold (stage_payload b) payload st')))"

definition zygisk_feature_enabled :: "'k benv \<Rightarrow> 'k world \<Rightarrow> bool" where
  "zygisk_feature_enabled b w \<longleftrightarrow>
     \<not> is_safe_mode (w_os w) \<and> snd (getf b FEATURE_YUKIZYGISK (w_k w)) \<and> fst (getf b FEATURE_YUKIZYGISK (w_k w)) \<noteq> 0"

definition ensure_zygisk_payload_if_enabled :: "'k benv \<Rightarrow> 'k world \<Rightarrow> 'k world" where
  "ensure_zygisk_payload_if_enabled b w =
     (if \<not> zygisk_feature_enabled b w then w else on_os (\<lambda>st. snd (ensure_zygisk b st)) w)"

definition ensure_zygiskd_running_if_enabled :: "'k benv \<Rightarrow> 'k world \<Rightarrow> 'k world" where
  "ensure_zygiskd_running_if_enabled b w =
     (if \<not> zygisk_feature_enabled b w then w
      else (case is_magisk_zygisk_enabled (w_os w) of
              (True, st') \<Rightarrow> w\<lparr>w_os := st'\<rparr>
            | (False, st') \<Rightarrow> note_event EvZygiskd (w\<lparr>w_os := st'\<rparr>)))"

section \<open>Stages\<close>

definition run_stage :: "'k benv \<Rightarrow> string \<Rightarrow> bool \<Rightarrow> 'k world \<Rightarrow> 'k world" where
  "run_stage b stage block w =
     (if has_magisk (w_os w) then w
      else if is_safe_mode (w_os w) then w
      else exec_stage_script b stage block (exec_common_scripts b (stage @ ''.d'') block w))"

definition run_init_features :: "'k benv \<Rightarrow> 'k world \<Rightarrow> 'k world" where
  "run_init_features b w =
     (case init_features (putf b) (w_os w) (w_k w) of (_, st', k') \<Rightarrow> w\<lparr>w_os := st', w_k := k'\<rparr>)"

text \<open>\<open>None\<close>: the handler does not return.\<close>

definition on_post_data_fs :: "'k benv \<Rightarrow> 'k world \<Rightarrow> 'k world option" where
  "on_post_data_fs b w0 =
     (let w = note_event (EvReport ''post-fs-data'') w0;
          w = on_os clear_all_temp_configs w;
          w = catch_bootlog b ''dmesg'' (catch_bootlog b ''logcat'' w)
      in if has_magisk (w_os w) then Some w
         else
           (let safe_mode = is_safe_mode (w_os w);
                w = (if safe_mode then w else exec_common_scripts b ''post-fs-data.d'' True w);
                w = on_os (\<lambda>st. binaries b (snd (ensure_dir_exists LOG_DIR (snd (ensure_dir_exists MODULE_DIR
                       (snd (ensure_dir_exists WORKING_DIR st))))))) w
            in if safe_mode then Some w
               else
                 (let w = on_os (\<lambda>st. restorecon_all b (snd (regenerate_preinit_rc st))) w in
                  case load_sepolicy_rule b w of
                    None \<Rightarrow> None
                  | Some w \<Rightarrow>
                      (let w = run_init_features b w;
                           w = ensure_zygisk_payload_if_enabled b w;
                           w = ensure_zygiskd_running_if_enabled b w;
                           w = exec_stage_script b ''post-fs-data'' True w;
                           w = load_system_prop b w
                       in Some (run_stage b ''post-mount'' True w)))))"

definition on_services :: "'k benv \<Rightarrow> 'k world \<Rightarrow> 'k world" where
  "on_services b w =
     run_stage b ''service'' False
       (if fst (hide_bootloader_status (log_fork_ok b) (\<lambda>_. True) (w_os w)) then note_event EvHide w else w)"

definition on_boot_completed :: "'k benv \<Rightarrow> 'k world \<Rightarrow> 'k world" where
  "on_boot_completed b w = run_stage b ''boot-completed'' False (note_event (EvReport ''boot-completed'') w)"

end
