(* ===== verification/Init_Props.thy ===== *)
theory Init_Props
  imports Init_Event Feature_Props
begin

text \<open>What the boot events do and do not run, and in which order.\<close>

section \<open>Safe mode stays\<close>

text \<open>A step that leaves alone what the safe-mode test reads.\<close>

definition same_mode :: "os \<Rightarrow> os \<Rightarrow> bool" where
  "same_mode st st' \<longleftrightarrow> prop_of st' = prop_of st \<and> kernel_safemode st' = kernel_safemode st"

lemma same_mode_refl [simp]: "same_mode st st"
  by (simp add: same_mode_def)

lemma same_mode_trans: "same_mode a b \<Longrightarrow> same_mode b c \<Longrightarrow> same_mode a c"
  by (simp add: same_mode_def)

lemma same_mode_safe: "same_mode st st' \<Longrightarrow> is_safe_mode st' = is_safe_mode st"
  by (simp add: same_mode_def is_safe_mode_def getprop_def)

lemma same_mode_put [simp]: "same_mode st (put_node p n st') \<longleftrightarrow> same_mode st st'"
  by (simp add: same_mode_def put_node_def)

lemma same_mode_del [simp]: "same_mode st (del_node p st') \<longleftrightarrow> same_mode st st'"
  by (simp add: same_mode_def del_node_def)

lemma same_mode_mkdir: "same_mode st (snd (mkdir p st))"
  by (simp add: mkdir_def)

lemma same_mode_ensure_dir: "same_mode st (snd (ensure_dir_exists p st))"
  by (rule ensure_dir_rel [where R = same_mode]) (auto intro: same_mode_trans same_mode_mkdir)

lemma same_mode_unlink: "same_mode st (unlink p st)"
  by (simp add: unlink_def)

lemma same_mode_write: "same_mode st (snd (write_file p s st))"
  by (simp add: write_file_def)

lemma same_mode_rename: "same_mode st (rename_file a b st)"
  by (simp add: rename_file_def split: option.splits)

lemma same_mode_clear_temps: "same_mode st (clear_temps es st)"
proof (induction es arbitrary: st)
  case (Cons e es)
  show ?case unfolding clear_temps.simps
    by (rule same_mode_trans [OF _ Cons.IH]) (simp add: same_mode_unlink)
qed simp

lemma same_mode_clear: "same_mode st (clear_all_temp_configs st)"
  by (simp add: clear_all_temp_configs_def same_mode_clear_temps)

lemma same_mode_bootlog: "same_mode (w_os w) (w_os (catch_bootlog b l w))"
proof -
  have 1: "same_mode (w_os w) (snd (ensure_dir_exists LOG_DIR (w_os w)))" by (rule same_mode_ensure_dir)
  show ?thesis
    by (auto simp: catch_bootlog_def Let_def on_os_def note_event_def
        intro: same_mode_trans [OF 1] same_mode_trans [OF same_mode_rename same_mode_write] same_mode_rename same_mode_write)
qed

section \<open>Events\<close>

definition module_work :: "boot_event \<Rightarrow> bool" where
  "module_work e \<longleftrightarrow> (case e of EvScript _ \<Rightarrow> True | EvPolicy _ _ \<Rightarrow> True | EvProp _ _ \<Rightarrow> True | EvZygiskd \<Rightarrow> True | _ \<Rightarrow> False)"

text \<open>The log grows by events of a class only.\<close>

definition grows :: "(boot_event \<Rightarrow> bool) \<Rightarrow> 'k world \<Rightarrow> 'k world \<Rightarrow> bool" where
  "grows P w w' \<longleftrightarrow> (\<exists>l. w_log w' = w_log w @ l \<and> list_all P l)"

lemma grows_same [simp]: "w_log w' = w_log w \<Longrightarrow> grows P w w'"
  by (simp add: grows_def)

lemma grows_trans: "grows P a b \<Longrightarrow> grows P b c \<Longrightarrow> grows P a c"
  unfolding grows_def by (metis append.assoc list_all_append)

lemma grows_note: "P e \<Longrightarrow> grows P w (note_event e w)"
  by (simp add: grows_def note_event_def)

lemma grows_mono: "grows P a b \<Longrightarrow> (\<And>e. P e \<Longrightarrow> Q e) \<Longrightarrow> grows Q a b"
  unfolding grows_def list_all_iff by blast

lemma grows_none: "grows (\<lambda>e. \<not> P e) w w' \<Longrightarrow> filter P (w_log w') = filter P (w_log w)"
  by (auto simp: grows_def list_all_iff filter_empty_conv)

lemma w_log_on_os [simp]: "w_log (on_os f w) = w_log w" "w_k (on_os f w) = w_k w" "w_os (on_os f w) = f (w_os w)"
  by (simp_all add: on_os_def)

lemma note_event_simps [simp]: "w_os (note_event e w) = w_os w" "w_k (note_event e w) = w_k w"
  by (simp_all add: note_event_def)

definition script_event :: "(script_run \<Rightarrow> bool) \<Rightarrow> boot_event \<Rightarrow> bool" where
  "script_event P e \<longleftrightarrow> (case e of EvScript r \<Rightarrow> P r | _ \<Rightarrow> False)"

lemma grows_run_script:
  "(\<And>w. P (script_job b s block m w)) \<Longrightarrow> grows (script_event P) w (snd (run_script b s block m w))"
  by (auto simp: run_script_def grows_def note_event_def script_event_def Let_def split: option.splits prod.splits)

text \<open>A script of a module's stage, and of a common directory.\<close>

definition stage_run :: "string \<Rightarrow> string list \<Rightarrow> bool \<Rightarrow> script_run \<Rightarrow> bool" where
  "stage_run stage es block r \<longleftrightarrow> sr_module r \<in> set es \<and> \<not> is_zygisk_impl_module (sr_module r) \<and>
     sr_script r = stage_script stage (sr_module r) \<and> sr_block r = block"

definition common_run :: "path \<Rightarrow> bool \<Rightarrow> script_run \<Rightarrow> bool" where
  "common_run dir block r \<longleftrightarrow> sr_module r = [] \<and> prefix dir (sr_script r) \<and> sr_block r = block"

lemma stage_run_mono: "set es \<subseteq> set es' \<Longrightarrow> stage_run stage es block r \<Longrightarrow> stage_run stage es' block r"
  by (auto simp: stage_run_def)

lemma script_event_mono: "(\<And>r. P r \<Longrightarrow> Q r) \<Longrightarrow> script_event P e \<Longrightarrow> script_event Q e"
  by (auto simp: script_event_def split: boot_event.splits)

lemma grows_stage_loop: "grows (script_event (stage_run stage es block)) w (stage_loop b stage block es w)"
proof (induction es arbitrary: w)
  case (Cons e es)
  let ?w = "if is_zygisk_impl_module e \<or> exists_path (w_os w) (MODULE_DIR @ e @ ''/disable'') \<or>
           exists_path (w_os w) (MODULE_DIR @ e @ ''/remove'')
        then w else snd (run_script b (stage_script stage e) block e w)"
  have 1: "grows (script_event (stage_run stage (e # es) block)) w ?w"
    using grows_run_script [of "stage_run stage (e # es) block" b "stage_script stage e" block e w]
    by (simp add: stage_run_def script_job_def Let_def)
  have "grows (script_event (stage_run stage (e # es) block)) ?w (stage_loop b stage block es ?w)"
    by (rule grows_mono [OF Cons.IH], rule script_event_mono, rule stage_run_mono) auto
  from grows_trans [OF 1 this] show ?case by simp
qed simp

lemma grows_exec_stage:
  "grows (script_event (stage_run stage (module_dirs (w_os w)) block)) w (exec_stage_script b stage block w)"
  by (simp add: exec_stage_script_def grows_stage_loop)

lemma grows_common_loop: "grows (script_event (common_run dir block)) w (common_loop b dir block es w)"
proof (induction es arbitrary: w)
  case (Cons e es)
  have "grows (script_event (common_run dir block)) w (if peek e = CHR ''.'' \<or> \<not> access_x (w_os w) (dir @ e) then w
        else snd (run_script b (dir @ e) block [] w))"
    using grows_run_script [of "common_run dir block" b "dir @ e" block "[]" w]
    by (simp add: common_run_def script_job_def Let_def)
  from grows_trans [OF this Cons.IH] show ?case by simp
qed simp

lemma grows_exec_common:
  "grows (script_event (common_run (ADB_DIR @ stage_dir @ ''/'') block)) w (exec_common_scripts b stage_dir block w)"
  by (simp add: exec_common_scripts_def Let_def grows_common_loop)

definition is_policy :: "boot_event \<Rightarrow> bool" where
  "is_policy e \<longleftrightarrow> (case e of EvPolicy _ _ \<Rightarrow> True | _ \<Rightarrow> False)"

definition is_prop :: "boot_event \<Rightarrow> bool" where
  "is_prop e \<longleftrightarrow> (case e of EvProp _ _ \<Rightarrow> True | _ \<Rightarrow> False)"

lemma grows_policy_loop: "policy_loop b es w = Some w' \<Longrightarrow> grows is_policy w w'"
proof (induction b es w arbitrary: w' rule: policy_loop.induct)
  case (2 b e es w)
  show ?case
  proof (cases "is_zygisk_impl_module e \<or> exists_path (w_os w) (MODULE_DIR @ e @ ''/disable'')")
    case True
    then show ?thesis using 2 by simp
  next
    case False
    define t where "t = (case read_file (w_os w) (MODULE_DIR @ e @ ''/sepolicy.rule'') of
                            None \<Rightarrow> [] | Some content \<Rightarrow> rule_text content)"
    show ?thesis
    proof (cases "t = []")
      case True
      then show ?thesis using 2 False by (simp add: t_def Let_def)
    next
      case n: False
      then obtain ret k' where p: "sepolicy_live_patch (send_policy b) t (w_k w) = Some (ret, k')"
        and r: "policy_loop b es (note_event (EvPolicy e t) (w\<lparr>w_k := k'\<rparr>)) = Some w'"
        using 2(4) False by (auto simp: t_def [symmetric] Let_def split: option.splits)
      have "grows is_policy w (note_event (EvPolicy e t) (w\<lparr>w_k := k'\<rparr>))"
        by (simp add: grows_def note_event_def is_policy_def)
      moreover have "grows is_policy (note_event (EvPolicy e t) (w\<lparr>w_k := k'\<rparr>)) w'"
        using 2(3) [OF False t_def n p] r by blast
      ultimately show ?thesis by (rule grows_trans)
    qed
  qed
qed simp

lemma grows_load_sepolicy: "load_sepolicy_rule b w = Some w' \<Longrightarrow> grows is_policy w w'"
  by (auto simp: load_sepolicy_rule_def grows_policy_loop split: if_splits)

lemma grows_set_props: "grows is_prop w (set_props b kvs w)"
  unfolding set_props_def
proof (induction kvs arbitrary: w)
  case (Cons p kvs)
  obtain k v where p: "p = (k, v)" by (cases p)
  have "grows is_prop w (note_event (EvProp k v) (on_os (resetprop b k v) w))"
    by (simp add: grows_def note_event_def is_prop_def)
  from grows_trans [OF this Cons.IH] show ?case by (simp add: p)
qed simp

lemma grows_prop_loop: "grows is_prop w (prop_loop b es w)"
proof (induction es arbitrary: w)
  case (Cons e es)
  show ?case unfolding prop_loop.simps
    by (rule grows_trans [OF _ Cons.IH]) (simp add: grows_set_props split: option.splits)
qed simp

lemma grows_load_prop: "grows is_prop w (load_system_prop b w)"
  by (simp add: load_system_prop_def grows_prop_loop)

lemma w_log_init_features [simp]: "w_log (run_init_features b w) = w_log w"
  by (simp add: run_init_features_def split: prod.splits)

lemma w_log_payload [simp]: "w_log (ensure_zygisk_payload_if_enabled b w) = w_log w"
  by (simp add: ensure_zygisk_payload_if_enabled_def)

lemma grows_zygiskd: "w_log (ensure_zygiskd_running_if_enabled b w) = w_log w \<or>
    w_log (ensure_zygiskd_running_if_enabled b w) = w_log w @ [EvZygiskd]"
  by (simp add: ensure_zygiskd_running_if_enabled_def note_event_def split: prod.splits bool.splits)

lemma catch_bootlog_log: "grows (\<lambda>e. \<not> module_work e) w (catch_bootlog b l w)"
  by (simp add: catch_bootlog_def Let_def grows_def note_event_def on_os_def module_work_def)

section \<open>The boot sequence\<close>

lemma note_event_log: "w_log (note_event e w) = w_log w @ [e]"
  by (simp add: note_event_def)

lemma w_k_bootlog [simp]: "w_k (catch_bootlog b l w) = w_k w"
  by (simp add: catch_bootlog_def Let_def)

lemma run_stage_safe: "is_safe_mode (w_os w) \<Longrightarrow> run_stage b stage block w = w"
  by (simp add: run_stage_def)

definition boot_prologue :: "'k benv \<Rightarrow> 'k world \<Rightarrow> 'k world" where
  "boot_prologue b w = catch_bootlog b ''dmesg'' (catch_bootlog b ''logcat''
     (on_os clear_all_temp_configs (note_event (EvReport ''post-fs-data'') w)))"

lemma prologue_mode: "same_mode (w_os w) (w_os (boot_prologue b w))"
  unfolding boot_prologue_def
  by (rule same_mode_trans [OF same_mode_trans [OF _ same_mode_bootlog] same_mode_bootlog])
    (simp add: same_mode_clear)

lemma prologue_log: "grows (\<lambda>e. \<not> module_work e) w (boot_prologue b w)"
  unfolding boot_prologue_def
  by (rule grows_trans [OF grows_trans [OF _ catch_bootlog_log] catch_bootlog_log])
    (simp add: grows_def note_event_log module_work_def)

lemma prologue_k: "w_k (boot_prologue b w) = w_k w"
  by (simp add: boot_prologue_def)


definition demo_benv :: "(bytes \<Rightarrow> unit \<Rightarrow> int \<times> unit) \<Rightarrow> unit benv" where
  "demo_benv snd_policy = \<lparr>sh = (\<lambda>_ st. (Some (Exited 0), st)), getf = (\<lambda>_ _. (1, True)), putf = (\<lambda>_ _ k. (0, k)),
     send_policy = snd_policy, resetprop = (\<lambda>k v st. st\<lparr>prop_of := (prop_of st)(k := v)\<rparr>),
     restorecon_all = (\<lambda>st. st), binaries = (\<lambda>st. st), asset = (\<lambda>_. False), copy_asset = (\<lambda>_ _ st. (False, st)),
     kver = 1, ver_code = ''1'', ver_name = ''v1'', log_fork_ok = True\<rparr>"

definition boot_os :: os where
  "boot_os = \<lparr>fs = [(''/'', Dir), (''/data'', Dir), (''/data/adb'', Dir), (''/data/adb/modules'', Dir),
       (''/data/adb/modules/m'', Dir), (''/data/adb/modules/m/post-fs-data.sh'', Reg 493 ''true''),
       (''/data/adb/modules/off'', Dir), (''/data/adb/modules/off/disable'', Reg 420 []),
       (''/data/adb/modules/off/post-fs-data.sh'', Reg 493 ''true''),
       (''/data/adb/post-fs-data.d'', Dir), (''/data/adb/post-fs-data.d/a.sh'', Reg 493 ''true''),
       (''/data/adb/post-fs-data.d/b.sh'', Reg 420 ''true''),
       (''/metadata'', Dir)],
     ro_path = (\<lambda>_. False), prop_of = (\<lambda>_. []), env_of = (\<lambda>_. None), run_of = (\<lambda>_. \<lparr>pipes_ok = True, fork_ok = True, out_reads = [], err_reads = [], wstatus = Exited 0\<rparr>),
     kernel_safemode = False, trace = []\<rparr>"

definition boot_world :: "unit world" where
  "boot_world = \<lparr>w_os = boot_os, w_k = (), w_log = []\<rparr>"



definition stage_of :: "string \<Rightarrow> bool \<Rightarrow> script_run \<Rightarrow> bool" where
  "stage_of stage block r \<longleftrightarrow> \<not> is_zygisk_impl_module (sr_module r) \<and>
     sr_script r = stage_script stage (sr_module r) \<and> sr_block r = block"

lemma grows_stage: "grows (script_event (stage_of stage block)) w (exec_stage_script b stage block w)"
  by (rule grows_mono [OF grows_exec_stage script_event_mono]) (auto simp: stage_run_def stage_of_def)

definition is_zygiskd :: "boot_event \<Rightarrow> bool" where "is_zygiskd e \<longleftrightarrow> e = EvZygiskd"

lemma grows_zygiskd': "grows is_zygiskd w (ensure_zygiskd_running_if_enabled b w)"
  using grows_zygiskd [of b w] by (auto simp: grows_def is_zygiskd_def)

definition common_of :: "string \<Rightarrow> bool \<Rightarrow> boot_event \<Rightarrow> bool" where
  "common_of stage_dir block = script_event (common_run (ADB_DIR @ stage_dir @ ''/'') block)"

lemma run_stage_log:
  "\<exists>c s. w_log (run_stage b stage block w) = w_log w @ c @ s \<and>
     list_all (common_of (stage @ ''.d'') block) c \<and> list_all (script_event (stage_of stage block)) s"
proof (cases "has_magisk (w_os w) \<or> is_safe_mode (w_os w)")
  case False
  then have r: "run_stage b stage block w = exec_stage_script b stage block (exec_common_scripts b (stage @ ''.d'') block w)"
    by (simp add: run_stage_def)
  obtain c where c: "w_log (exec_common_scripts b (stage @ ''.d'') block w) = w_log w @ c" "list_all (common_of (stage @ ''.d'') block) c"
    using grows_exec_common [of "stage @ ''.d''" block w b] unfolding grows_def common_of_def by blast
  obtain s where s: "w_log (run_stage b stage block w) = w_log w @ c @ s" "list_all (script_event (stage_of stage block)) s"
    using grows_stage [of stage block "exec_common_scripts b (stage @ ''.d'') block w" b] c(1) unfolding grows_def r by auto
  show ?thesis using c(2) s by blast
qed (auto simp: run_stage_def)

text \<open>
  Outside safe mode the boot work of \<^verbatim>\<open>post-fs-data\<close> comes in one order: common scripts, the
  policy rules of the modules, zygiskd, the stage scripts of the modules, their properties, then
  the \<^verbatim>\<open>post-mount\<close> scripts, common ones first; only logging and reports come before.
\<close>

theorem boot_order:
  assumes "\<not> is_safe_mode (w_os w)" "on_post_data_fs b w = Some w'"
  shows "\<exists>pre common policy zygiskd scripts props mount_common mount.
    w_log w' = w_log w @ pre @ common @ policy @ zygiskd @ scripts @ props @ mount_common @ mount \<and>
    list_all (\<lambda>e. \<not> module_work e) pre \<and>
    list_all (common_of ''post-fs-data.d'' True) common \<and>
    list_all is_policy policy \<and> list_all is_zygiskd zygiskd \<and>
    list_all (script_event (stage_of ''post-fs-data'' True)) scripts \<and>
    list_all is_prop props \<and>
    list_all (common_of ''post-mount.d'' True) mount_common \<and>
    list_all (script_event (stage_of ''post-mount'' True)) mount"
proof -
  let ?p = "boot_prologue b w"
  obtain pre where pre: "w_log ?p = w_log w @ pre" "list_all (\<lambda>e. \<not> module_work e) pre"
    using prologue_log [of w b] unfolding grows_def by blast
  show ?thesis
  proof (cases "has_magisk (w_os ?p)")
    case True
    then have "w' = ?p" using assms(2) unfolding on_post_data_fs_def Let_def boot_prologue_def [symmetric] by simp
    with pre show ?thesis by (intro exI [of _ pre] exI [of _ "[]"]) simp
  next
    case False
    have ns: "\<not> is_safe_mode (w_os ?p)" using assms(1) prologue_mode same_mode_safe by metis
    define w1 where "w1 = exec_common_scripts b ''post-fs-data.d'' True ?p"
    define w2 where "w2 = on_os (\<lambda>st. restorecon_all b (snd (regenerate_preinit_rc st)))
       (on_os (\<lambda>st. binaries b (snd (ensure_dir_exists LOG_DIR (snd (ensure_dir_exists MODULE_DIR
                       (snd (ensure_dir_exists WORKING_DIR st))))))) w1)"
    obtain w3 where w3: "load_sepolicy_rule b w2 = Some w3" and
      w': "w' = run_stage b ''post-mount'' True (load_system_prop b (exec_stage_script b ''post-fs-data'' True
             (ensure_zygiskd_running_if_enabled b (ensure_zygisk_payload_if_enabled b (run_init_features b w3)))))"
      using assms(2) False ns
      unfolding on_post_data_fs_def Let_def boot_prologue_def [symmetric]
      by (simp add: w1_def [symmetric] w2_def [symmetric] split: option.splits)
    obtain c where c: "w_log w2 = w_log ?p @ c" "list_all (common_of ''post-fs-data.d'' True) c"
      using grows_exec_common [of "''post-fs-data.d''" True ?p b] unfolding grows_def common_of_def w2_def w1_def by auto
    obtain p where p: "w_log w3 = w_log w2 @ p" "list_all is_policy p"
      using grows_load_sepolicy [OF w3] unfolding grows_def by blast
    define w4 where "w4 = ensure_zygisk_payload_if_enabled b (run_init_features b w3)"
    define w5 where "w5 = ensure_zygiskd_running_if_enabled b w4"
    define w6 where "w6 = exec_stage_script b ''post-fs-data'' True w5"
    define w7 where "w7 = load_system_prop b w6"
    have l4: "w_log w4 = w_log w3" by (simp add: w4_def)
    obtain z where z: "w_log w5 = w_log w4 @ z" "list_all is_zygiskd z"
      using grows_zygiskd' [of w4 b] unfolding grows_def w5_def by blast
    obtain s where s: "w_log w6 = w_log w5 @ s" "list_all (script_event (stage_of ''post-fs-data'' True)) s"
      using grows_stage [of _ _ w5 b] unfolding grows_def w6_def by blast
    obtain r where r: "w_log w7 = w_log w6 @ r" "list_all is_prop r"
      using grows_load_prop [of w6 b] unfolding grows_def w7_def by blast
    obtain mc m where m: "w_log w' = w_log w7 @ mc @ m" "list_all (common_of ''post-mount.d'' True) mc"
      "list_all (script_event (stage_of ''post-mount'' True)) m"
      using run_stage_log [of b "''post-mount''" True w7] unfolding w' w7_def w6_def w5_def w4_def by auto
    have "w_log w' = w_log w @ pre @ c @ p @ z @ s @ r @ mc @ m"
      by (simp add: m(1) r(1) s(1) z(1) l4 p(1) c(1) pre(1))
    with pre(2) c(2) p(2) z(2) s(2) r(2) m(2,3) show ?thesis by blast
  qed
qed

theorem boot_order_witness:
  "\<exists>w' pre. on_post_data_fs (demo_benv (\<lambda>_ k. (0, k))) boot_world = Some w' \<and>
     w_log w' = pre @ filter module_work (w_log w') \<and> list_all (\<lambda>e. \<not> module_work e) pre \<and>
     length (filter module_work (w_log w')) = 3"
proof -
  let ?b = "demo_benv (\<lambda>_ k. (0, k))"
  have "map_option (\<lambda>w. length (filter module_work (w_log w))) (on_post_data_fs ?b boot_world) = Some 3"
    by code_simp
  then obtain w' where w': "on_post_data_fs ?b boot_world = Some w'" "length (filter module_work (w_log w')) = 3"
    by auto
  have s: "\<not> is_safe_mode (w_os boot_world)" by code_simp
  have l: "w_log boot_world = []" by (simp add: boot_world_def)
  have f: "list_all P l \<Longrightarrow> (\<And>e. P e \<Longrightarrow> module_work e) \<Longrightarrow> filter module_work l = l" for P l
    by (simp add: list_all_iff filter_id_conv)
  have work: "script_event P e \<Longrightarrow> module_work e" "is_policy e \<Longrightarrow> module_work e" "is_zygiskd e \<Longrightarrow> module_work e"
    "is_prop e \<Longrightarrow> module_work e" "common_of d x e \<Longrightarrow> module_work e" for P e d x
    by (auto simp: script_event_def is_policy_def is_zygiskd_def is_prop_def common_of_def module_work_def split: boot_event.splits)
  from boot_order [OF s w'(1)] obtain pre c p z sc r mc m where
    log: "w_log w' = pre @ c @ p @ z @ sc @ r @ mc @ m" and pre: "list_all (\<lambda>e. \<not> module_work e) pre" and
    rest: "list_all (common_of ''post-fs-data.d'' True) c" "list_all is_policy p" "list_all is_zygiskd z"
      "list_all (script_event (stage_of ''post-fs-data'' True)) sc" "list_all is_prop r"
      "list_all (common_of ''post-mount.d'' True) mc" "list_all (script_event (stage_of ''post-mount'' True)) m"
    unfolding l append_Nil by blast
  have "filter module_work pre = []" using pre by (simp add: list_all_iff filter_empty_conv)
  moreover have "filter module_work c = c" "filter module_work p = p" "filter module_work z = z"
    "filter module_work sc = sc" "filter module_work r = r" "filter module_work mc = mc" "filter module_work m = m"
    using rest work by (auto intro!: f)
  ultimately have "w_log w' = pre @ filter module_work (w_log w')" by (simp add: log)
  with w' pre show ?thesis by blast
qed

text \<open>The scripts a stage runs, listed.\<close>

definition stage_modules :: "os \<Rightarrow> string list" where
  "stage_modules st = (if is_dir st MODULE_DIR then
     filter (\<lambda>e. \<not> is_zygisk_impl_module e \<and> \<not> exists_path st (MODULE_DIR @ e @ ''/disable'') \<and>
        \<not> exists_path st (MODULE_DIR @ e @ ''/remove'')) (module_dirs st) else [])"

definition stage_common :: "os \<Rightarrow> path \<Rightarrow> path list" where
  "stage_common st dir = (if is_dir st dir then
     map ((@) dir) (filter (\<lambda>e. peek e \<noteq> CHR ''.'' \<and> access_x st (dir @ e)) (readdir st dir)) else [])"

definition stage_jobs :: "'k benv \<Rightarrow> string \<Rightarrow> bool \<Rightarrow> 'k world \<Rightarrow> script_run list" where
  "stage_jobs b stage block w =
     map (\<lambda>p. script_job b p block [] w)
       (filter (exists_path (w_os w)) (stage_common (w_os w) (ADB_DIR @ stage @ ''.d/''))) @
     map (\<lambda>e. script_job b (stage_script stage e) block e w)
       (filter (\<lambda>e. exists_path (w_os w) (stage_script stage e)) (stage_modules (w_os w)))"

definition quiet_scripts :: "'k benv \<Rightarrow> bool" where
  "quiet_scripts b \<longleftrightarrow> (\<forall>job st. fst (sh b job st) \<noteq> None \<and> snd (sh b job st) = st)"

abbreviation run_jobs :: "script_run list \<Rightarrow> 'k world \<Rightarrow> 'k world" where
  "run_jobs js w \<equiv> w\<lparr>w_log := w_log w @ map EvScript js\<rparr>"

lemma run_script_quiet:
  "quiet_scripts b \<Longrightarrow> snd (run_script b s block m w) =
     run_jobs (if exists_path (w_os w) s then [script_job b s block m w] else []) w"
proof -
  assume q: "quiet_scripts b"
  obtain ws st' where s: "sh b (script_job b s block m w) (w_os w) = (ws, st')" by force
  with q have "ws \<noteq> None" "st' = w_os w" unfolding quiet_scripts_def by (metis fst_conv, metis snd_conv)
  then show ?thesis by (auto simp: run_script_def Let_def note_event_def s)
qed

lemma script_job_log [simp]: "script_job b s block m (w\<lparr>w_log := l\<rparr>) = script_job b s block m w"
  by (simp add: script_job_def build_common_script_env_def)

lemma stage_loop_quiet:
  "quiet_scripts b \<Longrightarrow> stage_loop b stage block es w =
     run_jobs (map (\<lambda>e. script_job b (stage_script stage e) block e w)
       (filter (\<lambda>e. exists_path (w_os w) (stage_script stage e))
         (filter (\<lambda>e. \<not> is_zygisk_impl_module e \<and> \<not> exists_path (w_os w) (MODULE_DIR @ e @ ''/disable'') \<and>
            \<not> exists_path (w_os w) (MODULE_DIR @ e @ ''/remove'')) es))) w"
  by (induction es arbitrary: w) (simp_all add: run_script_quiet)

lemma common_loop_quiet:
  "quiet_scripts b \<Longrightarrow> common_loop b dir block es w =
     run_jobs (map (\<lambda>p. script_job b p block [] w) (filter (exists_path (w_os w))
       (map ((@) dir) (filter (\<lambda>e. peek e \<noteq> CHR ''.'' \<and> access_x (w_os w) (dir @ e)) es)))) w"
  by (induction es arbitrary: w) (simp_all add: run_script_quiet)



text \<open>A module whose rules are read, with a text on which the rule parser does not return.\<close>

definition hanging_module :: "os \<Rightarrow> string \<Rightarrow> bool" where
  "hanging_module st e \<longleftrightarrow> \<not> is_zygisk_impl_module e \<and> \<not> exists_path st (MODULE_DIR @ e @ ''/disable'') \<and>
     (case read_file st (MODULE_DIR @ e @ ''/sepolicy.rule'') of
        None \<Rightarrow> False
      | Some content \<Rightarrow> parse_rules (policy_rules (rule_text content)) 0 [] = None)"

lemma live_patch_None: "sepolicy_live_patch send t k = None \<longleftrightarrow> parse_rules (policy_rules t) 0 [] = None"
  by (auto simp: sepolicy_live_patch_def case_prod_beta split: option.splits)

lemma policy_rules_Nil: "policy_rules [] = []"
  by (simp add: policy_rules_def)

lemma policy_loop_None:
  "policy_loop b es w = None \<longleftrightarrow> list_ex (hanging_module (w_os w)) es"
proof (induction es arbitrary: w)
  case (Cons e es)
  show ?case
  proof (cases "is_zygisk_impl_module e \<or> exists_path (w_os w) (MODULE_DIR @ e @ ''/disable'')")
    case True
    then have "\<not> hanging_module (w_os w) e" by (auto simp: hanging_module_def)
    with True show ?thesis using Cons.IH by simp
  next
    case False
    define t where "t = (case read_file (w_os w) (MODULE_DIR @ e @ ''/sepolicy.rule'') of
                            None \<Rightarrow> [] | Some content \<Rightarrow> rule_text content)"
    have h: "hanging_module (w_os w) e \<longleftrightarrow> parse_rules (policy_rules t) 0 [] = None"
      using False by (auto simp: hanging_module_def t_def policy_rules_Nil split: option.splits)
    have "policy_loop b (e # es) w =
       (if t = [] then policy_loop b es w
            else (case sepolicy_live_patch (send_policy b) t (w_k w) of
                    None \<Rightarrow> None
                  | Some (ret, k') \<Rightarrow> policy_loop b es (note_event (EvPolicy e t) (w\<lparr>w_k := k'\<rparr>))))"
      using False by (simp add: t_def [symmetric] Let_def)
    then show ?thesis using Cons.IH live_patch_None [of "send_policy b" t "w_k w"]
      by (auto simp: h policy_rules_Nil split: option.splits)
  qed
qed simp

text \<open>
  Loading the policy rules of the modules fails to return exactly when a module that is no
  zygisk implementation and not disabled has a rule file on which the rule parser does not return; a module marked for removal
  still counts.
\<close>

theorem module_rules_hang:
  "load_sepolicy_rule b w = None \<longleftrightarrow>
     is_dir (w_os w) MODULE_DIR \<and> list_ex (hanging_module (w_os w)) (module_dirs (w_os w))"
  by (simp add: load_sepolicy_rule_def policy_loop_None)

definition comma_os :: os where
  "comma_os = boot_os\<lparr>fs := fs boot_os @ [(''/data/adb/modules/m/sepolicy.rule'', Reg 420 (''allow {a,b} c d read'' @ [NL]))]\<rparr>"

lemma comma_rule_hangs: "parse_rule ''allow {a,b} c d read'' = None"
proof -
  have "\<not> brace_ok (tl (skip_space '' {a,b} c d read''))" "peek (skip_space '' {a,b} c d read'') = CHR ''{''"
    by code_simp+
  then have "parse_seobj '' {a,b} c d read'' = None" using parse_seobj_returns [of "'' {a,b} c d read''"] by blast
  then have "rule_normal_perm ''allow'' '' {a,b} c d read'' = None" by (simp add: rule_normal_perm_def)
  moreover have "skip_space (c_str ''allow {a,b} c d read'') = ''allow {a,b} c d read''"
    "parse_word ''allow {a,b} c d read'' = (''allow'', '' {a,b} c d read'')" by code_simp+
  ultimately show ?thesis by (simp add: parse_rule_def)
qed

theorem module_rules_hang_witness:
  "load_sepolicy_rule (demo_benv (\<lambda>_ k. (0, k))) (boot_world\<lparr>w_os := comma_os\<rparr>) = None \<and>
   load_sepolicy_rule (demo_benv (\<lambda>_ k. (0, k))) boot_world \<noteq> None"
proof -
  have r: "read_file comma_os (MODULE_DIR @ ''m'' @ ''/sepolicy.rule'') = Some (''allow {a,b} c d read'' @ [NL])"
    "policy_rules (rule_text (''allow {a,b} c d read'' @ [NL])) = [''allow {a,b} c d read'']"
    "\<not> is_zygisk_impl_module ''m'' \<and> \<not> exists_path comma_os (MODULE_DIR @ ''m'' @ ''/disable'')" by code_simp+
  then have "hanging_module comma_os ''m''"
    by (simp only: hanging_module_def option.case parse_rules.simps comma_rule_hangs simp_thms)
  moreover have "module_dirs comma_os = [''m'', ''off'']" by code_simp
  moreover have "is_dir comma_os MODULE_DIR" by code_simp
  moreover have "\<not> list_ex (hanging_module boot_os) (module_dirs boot_os)" by code_simp
  ultimately show ?thesis by (simp add: module_rules_hang boot_world_def)
qed

end
