(* ===== verification/Preinit_Props.thy ===== *)
theory Preinit_Props
  imports Init_Props
begin

text \<open>The init rc file of the next boot is replaced all or nothing.\<close>

section \<open>What stays the same\<close>

text \<open>A step that changes nothing at or below \<^verbatim>\<open>/data/adb\<close>.\<close>

definition under_adb :: "path \<Rightarrow> bool" where
  "under_adb p \<longleftrightarrow> prefix ''/data/adb'' p"

definition same_adb :: "os \<Rightarrow> os \<Rightarrow> bool" where
  "same_adb st st' \<longleftrightarrow> (\<forall>q. under_adb (strip_slash q) \<longrightarrow> node_at st' q = node_at st q \<and> readdir st' q = readdir st q)"

lemma same_adb_refl [simp]: "same_adb st st"
  by (simp add: same_adb_def)

lemma same_adb_trans: "same_adb a b \<Longrightarrow> same_adb b c \<Longrightarrow> same_adb a c"
  by (simp add: same_adb_def)

lemma prefix_parent: "under_adb (parent p) \<Longrightarrow> under_adb p"
  unfolding parent_def under_adb_def
  by (auto split: option.splits if_splits dest: prefix_order.trans [OF _ take_is_prefix])

lemma readdir_update:
  "\<not> under_adb p \<Longrightarrow> under_adb d \<Longrightarrow>
     [basename q. (q, n) \<leftarrow> AList.update p m xs, q \<noteq> ''/'' \<and> parent q = d] =
     [basename q. (q, n) \<leftarrow> xs, q \<noteq> ''/'' \<and> parent q = d]"
  using prefix_parent [of p] by (induction xs) auto

lemma same_adb_put: "\<not> under_adb (strip_slash p) \<Longrightarrow> same_adb st (put_node p n st)"
  by (auto simp: same_adb_def node_at_put) (simp add: readdir_def put_node_def readdir_update)

lemma same_adb_mkdir: "\<not> under_adb (strip_slash p) \<Longrightarrow> same_adb st (snd (mkdir p st))"
  by (auto simp: mkdir_def same_adb_put)

lemma same_adb_ensure_dir:
  assumes "\<And>i. \<not> under_adb (strip_slash (take i p))"
  shows "same_adb st (snd (ensure_dir_exists p st))"
  by (rule ensure_dir_rel [where R = same_adb]) (auto intro: same_adb_trans same_adb_mkdir [OF assms])

lemma same_adb_write: "\<not> under_adb (strip_slash p) \<Longrightarrow> same_adb st (snd (write_file p s st))"
  by (simp add: write_file_def same_adb_put)

lemma under_adb_below: "prefix ''/data/adb/'' q \<Longrightarrow> under_adb (strip_slash q)"
proof -
  assume "prefix ''/data/adb/'' q"
  then obtain x where q: "q = ''/data/adb'' @ CHR ''/'' # x" by (auto simp: prefix_def)
  show ?thesis unfolding q strip_slash_def under_adb_def
    by (cases x rule: rev_cases) (simp_all add: butlast_append)
qed

lemma adb_queries:
  assumes "same_adb st st'" "prefix ''/data/adb/'' q"
  shows "node_at st' q = node_at st q" "readdir st' q = readdir st q" "is_dir st' q = is_dir st q"
    "is_reg st' q = is_reg st q" "access_x st' q = access_x st q" "read_file st' q = read_file st q"
    "exists_path st' q = exists_path st q"
  using assms under_adb_below [OF assms(2)]
  by (simp_all add: same_adb_def is_dir_def is_reg_def access_x_def read_file_def exists_path_def)

lemma rc_entries_same:
  "same_adb st st' \<Longrightarrow> prefix ''/data/adb/'' d \<Longrightarrow> rc_entries st' d m = rc_entries st d m"
  by (simp add: rc_entries_def adb_queries)

lemma module_dir_adb [simp]: "prefix ''/data/adb/'' (MODULE_DIR @ x)" "prefix ''/data/adb/'' MODULE_DIR"
  by (simp_all add: MODULE_DIR_def)

lemma rc_piece_same: "same_adb st st' \<Longrightarrow> prefix ''/data/adb/'' d \<Longrightarrow> rc_piece st' d m = rc_piece st d m"
  by (simp add: rc_piece_def adb_queries fun_eq_iff)

lemma rc_dir_same:
  "same_adb st st' \<Longrightarrow> prefix ''/data/adb/'' d \<Longrightarrow>
     rc_dir_text st' d m = rc_dir_text st d m \<and> rc_nonempty st' d m = rc_nonempty st d m"
  by (simp add: rc_dir_text_def rc_nonempty_def rc_entries_same adb_queries rc_piece_same)

lemma rc_modules_same:
  assumes "same_adb st st'"
  shows "rc_modules st' = rc_modules st"
proof -
  have "exists_path st' (MODULE_DIR @ d @ x) = exists_path st (MODULE_DIR @ d @ x)" for d x
    by (rule adb_queries(7) [OF assms module_dir_adb(1)])
  then show ?thesis using assms by (simp add: rc_modules_def adb_queries cong: if_cong)
qed

lemma rc_modules_path: "(i, p) \<in> set (rc_modules st) \<Longrightarrow> p = MODULE_DIR @ i"
proof -
  let ?f = "\<lambda>id m.
              if \<not> is_dir st (MODULE_DIR @ id) \<or> id = [] then m
              else if exists_path st (MODULE_DIR @ id @ ''/disable'') \<or> exists_path st (MODULE_DIR @ id @ ''/remove'')
              then omap_del id m
              else if map_of m id = None then omap_put id (MODULE_DIR @ id) m else m"
  let ?ok = "\<lambda>m. list_all (\<lambda>x. snd x = MODULE_DIR @ fst x) m"
  have put: "?ok m \<Longrightarrow> ?ok (omap_put e (MODULE_DIR @ e) m)" for e m
    unfolding list_all_iff using omap_put_above [of _ e "MODULE_DIR @ e" m] by force
  have del: "?ok m \<Longrightarrow> ?ok (omap_del e m)" for e m
    by (simp add: list_all_iff omap_del_def)
  have "?ok m \<Longrightarrow> ?ok (fold ?f es m)" for es m
  proof (induction es arbitrary: m)
    case (Cons e es)
    have "?ok (?f e m)" using Cons.prems put [of m e] del [of m e] by presburger
    from Cons.IH [OF this] show ?case by simp
  qed simp
  from this [of "[]" "readdir st MODULE_DIR"] have "?ok (rc_modules st)"
    by (simp add: rc_modules_def)
  then show "(i, p) \<in> set (rc_modules st) \<Longrightarrow> p = MODULE_DIR @ i"
    by (auto simp: list_all_iff)
qed

lemma rc_text_same:
  assumes "same_adb st st'"
  shows "rc_text st' = rc_text st" "no_empty_rc st' = no_empty_rc st"
proof -
  have i: "prefix ''/data/adb/'' (ADB_DIR @ ''initrc.d'')" by (simp add: ADB_DIR_def)
  have m: "prefix ''/data/adb/'' (p @ ''/initrc'')" if "(j, p) \<in> set (rc_modules st)" for j p
    using rc_modules_path [OF that] by simp
  have "map (\<lambda>(id, p). rc_dir_text st' (p @ ''/initrc'') (Some id)) (rc_modules st) =
      map (\<lambda>(id, p). rc_dir_text st (p @ ''/initrc'') (Some id)) (rc_modules st)"
    using rc_dir_same [OF assms m] by (intro map_cong) auto
  then show "rc_text st' = rc_text st"
    unfolding rc_text_def rc_modules_same [OF assms] rc_dir_same [OF assms i, THEN conjunct1] by (rule arg_cong)
  have "(\<forall>(id, p) \<in> set (rc_modules st). rc_nonempty st' (p @ ''/initrc'') (Some id)) \<longleftrightarrow>
      (\<forall>(id, p) \<in> set (rc_modules st). rc_nonempty st (p @ ''/initrc'') (Some id))"
    using rc_dir_same [OF assms m] by (intro ball_cong) auto
  then show "no_empty_rc st' = no_empty_rc st"
    unfolding no_empty_rc_def rc_modules_same [OF assms] rc_dir_same [OF assms i, THEN conjunct2] by (rule arg_cong)
qed

lemma preinit_dir_cases: "preinit_tamisu_dir st = PREINIT_DIR_WATCHDOG \<or> preinit_tamisu_dir st = PREINIT_DIR_DEFAULT"
  by (simp add: preinit_tamisu_dir_def)

lemma not_under_adb: "take 2 p \<in> set [[], ''/'', ''/m''] \<Longrightarrow> \<not> under_adb (strip_slash p)"
  by (cases p; cases "tl p"; cases "tl (tl p)") (auto simp: under_adb_def strip_slash_def split: if_splits)

lemma preinit_dir_adb: "\<not> under_adb (strip_slash (take i (preinit_tamisu_dir st)))"
proof (rule not_under_adb)
  have "take 2 (preinit_tamisu_dir st) = ''/m''"
    by (simp add: preinit_tamisu_dir_def PREINIT_DIR_WATCHDOG_def PREINIT_DIR_DEFAULT_def)
  moreover have "take 2 (take i (preinit_tamisu_dir st)) = take i (take 2 (preinit_tamisu_dir st))"
    by (simp add: min.commute)
  ultimately show "take 2 (take i (preinit_tamisu_dir st)) \<in> set [[], ''/'', ''/m'']"
    by (cases i; cases "i - 1") auto
qed

lemma same_adb_preinit: "same_adb st (snd (ensure_dir_exists (preinit_tamisu_dir st) st))"
  by (rule same_adb_ensure_dir) (rule preinit_dir_adb)


lemma ensure_dir_above:
  assumes "\<And>i. strip_slash q \<noteq> strip_slash (take i p)"
  shows "node_at (snd (ensure_dir_exists p st)) q = node_at st q"
  by (rule ensure_dir_rel [where R = "\<lambda>a b. node_at b q = node_at a q"]) (auto simp: mkdir_def assms)

lemma strip_take_length: "length (strip_slash (take i p)) \<le> length p"
  by (auto simp: strip_slash_def)

definition preinit_file :: "os \<Rightarrow> path" where
  "preinit_file st = preinit_tamisu_dir st @ ''modules.rc''"

definition preinit_temp :: "os \<Rightarrow> path" where
  "preinit_temp st = preinit_tamisu_dir st @ ''.modules.rc.tmp''"

lemma strip_preinit [simp]: "strip_slash (preinit_file st) = preinit_file st" "strip_slash (preinit_temp st) = preinit_temp st"
  by (simp_all add: strip_slash_def preinit_file_def preinit_temp_def)

lemma preinit_file_temp [simp]: "preinit_file st \<noteq> preinit_temp st" "preinit_temp st \<noteq> preinit_file st"
  by (simp_all add: preinit_file_def preinit_temp_def)

lemma preinit_temp_adb [simp]: "\<not> under_adb (preinit_temp st)"
  using preinit_dir_cases [of st]
  by (auto simp: preinit_temp_def under_adb_def PREINIT_DIR_WATCHDOG_def PREINIT_DIR_DEFAULT_def)

lemma preinit_file_kept: "node_at (snd (ensure_dir_exists (preinit_tamisu_dir st) st)) (preinit_file st) = node_at st (preinit_file st)"
proof (rule ensure_dir_above)
  fix i
  have "length (strip_slash (preinit_file st)) > length (preinit_tamisu_dir st)"
    unfolding strip_preinit by (simp add: preinit_file_def)
  with strip_take_length [of i "preinit_tamisu_dir st"]
  show "strip_slash (preinit_file st) \<noteq> strip_slash (take i (preinit_tamisu_dir st))" by (metis linorder_not_less)
qed

lemma node_at_unlink_other: "strip_slash q \<noteq> strip_slash p \<Longrightarrow> node_at (unlink p st) q = node_at st q"
  by (simp add: unlink_def node_at_del)

lemma node_at_write_other: "strip_slash q \<noteq> strip_slash p \<Longrightarrow> node_at (snd (write_file p s st)) q = node_at st q"
  by (simp add: write_file_def)

lemma stale_other:
  "strip_slash ((if preinit_tamisu_dir st = PREINIT_DIR_WATCHDOG then PREINIT_DIR_DEFAULT else PREINIT_DIR_WATCHDOG) @ ''modules.rc'')
     \<notin> {preinit_file st, preinit_temp st}"
  using preinit_dir_cases [of st]
  by (auto simp: preinit_file_def preinit_temp_def strip_slash_def PREINIT_DIR_WATCHDOG_def PREINIT_DIR_DEFAULT_def)

lemma rc_stream_out: "no_empty_rc st \<longleftrightarrow> out_good (rc_stream st)"
  using rc_stream_good rc_stream_bad by (metis ostream.select_convs(2))

lemma rc_stream_same:
  assumes "same_adb st st'"
  shows "out_good (rc_stream st') = no_empty_rc st" "no_empty_rc st \<Longrightarrow> out_text (rc_stream st') = rc_text st"
  using rc_text_same [OF assms] rc_stream_out [of st'] rc_stream_good [of st'] by auto

lemma regenerate_result:
  assumes "regenerate_preinit_rc st = (r, st')"
  shows "if r = 0
    then read_file st' (preinit_file st) = Some (rc_text st) \<and> node_at st' (preinit_temp st) = None \<and> no_empty_rc st
    else r = 1 \<and> node_at st' (preinit_file st) = node_at st (preinit_file st)"
proof -
  obtain ok st1 where 1: "ensure_dir_exists (preinit_tamisu_dir st) st = (ok, st1)" by force
  obtain ok2 st2 where 2: "write_file (preinit_temp st) [] st1 = (ok2, st2)" by force
  define st3 where "st3 = snd (write_file (preinit_temp st) (out_text (rc_stream st2)) st2)"
  have keep: "node_at st1 (preinit_file st) = node_at st (preinit_file st)"
    using preinit_file_kept [of st] 1 by simp
  have keep2: "node_at st2 (preinit_file st) = node_at st (preinit_file st)"
    using node_at_write_other [of "preinit_file st" "preinit_temp st" "[]" st1] 2 keep by simp
  have keep3: "node_at st3 (preinit_file st) = node_at st (preinit_file st)"
    using node_at_write_other [of "preinit_file st" "preinit_temp st" _ st2] keep2 by (simp add: st3_def)
  have "same_adb st st2"
    using same_adb_trans [OF same_adb_preinit [of st] same_adb_write [of "preinit_temp st" _ "[]"]] 1 2 by simp
  note stream = rc_stream_same [OF this]
  have r: "regenerate_preinit_rc st =
     (if \<not> ok then (1, st1) else if \<not> ok2 then (1, st2)
      else if \<not> out_good (rc_stream st2) then (1, st3)
      else if ro_path st3 (preinit_file st) \<or> is_dir st3 (preinit_file st) then (1, unlink (preinit_temp st) st3)
      else (0, unlink ((if preinit_tamisu_dir st = PREINIT_DIR_WATCHDOG then PREINIT_DIR_DEFAULT else PREINIT_DIR_WATCHDOG) @ ''modules.rc'')
             (del_node (preinit_temp st) (put_node (preinit_file st) (Reg 420 (out_text (rc_stream st2))) st3))))"
    unfolding regenerate_preinit_rc_def Let_def preinit_file_def [symmetric] preinit_temp_def [symmetric]
    by (simp add: 1 2 st3_def split: bool.splits)
  show ?thesis using assms unfolding r
    using keep keep2 keep3 stream stale_other [of st]
    by (auto simp: node_at_unlink_other node_at_del node_at_put read_file_def file_text_def split: if_splits)
qed

text \<open>
  C23: the init rc file of the next boot is replaced all or nothing: on success it holds the rc files of
  the common directory and of the active modules in order and no temporary file is left; on an
  error it is what it was.
\<close>

theorem preinit_rc_all_or_nothing:
  assumes "regenerate_preinit_rc st = (r, st')"
  shows "if r = 0
    then read_file st' (preinit_file st) = Some (rc_text st) \<and> node_at st' (preinit_temp st) = None \<and> no_empty_rc st
    else r = 1 \<and> node_at st' (preinit_file st) = node_at st (preinit_file st)"
  by (rule regenerate_result [OF assms])

definition rc_os :: "string \<Rightarrow> os" where
  "rc_os text = boot_os\<lparr>fs := fs boot_os @ [(''/data/adb/modules/m/initrc'', Dir),
     (''/data/adb/modules/m/initrc/b.rc'', Reg 420 text), (''/data/adb/modules/m/initrc/a.rc'', Reg 420 ''on boot''),
     (''/metadata/tamisu'', Dir), (''/metadata/tamisu/modules.rc'', Reg 420 ''old'')]\<rparr>"

theorem preinit_rc_all_or_nothing_witness:
  "read_file (snd (regenerate_preinit_rc (rc_os ''on init''))) ''/metadata/tamisu/modules.rc'' =
     Some (''# === from m:/data/adb/modules/m/initrc/a.rc ==='' @ [NL] @ ''on boot'' @ [NL] @
           ''# === from m:/data/adb/modules/m/initrc/b.rc ==='' @ [NL] @ ''on init'' @ [NL])"
proof -
  have "fst (regenerate_preinit_rc (rc_os ''on init'')) = 0" by code_simp
  then obtain st' where st': "regenerate_preinit_rc (rc_os ''on init'') = (0, st')" by (metis prod.collapse)
  have "preinit_file (rc_os ''on init'') = ''/metadata/tamisu/modules.rc''" by code_simp
  moreover have "rc_text (rc_os ''on init'') = ''# === from m:/data/adb/modules/m/initrc/a.rc ==='' @ [NL] @ ''on boot'' @ [NL] @
           ''# === from m:/data/adb/modules/m/initrc/b.rc ==='' @ [NL] @ ''on init'' @ [NL]" by code_simp
  ultimately show ?thesis using preinit_rc_all_or_nothing [OF st'] st' by simp
qed

text \<open>
  One empty rc file, in the common directory or in any active module, makes the whole regeneration
  fail: the init rc file of the next boot stays as it is.
\<close>

theorem empty_rc_blocks:
  assumes "\<not> no_empty_rc st"
  shows "\<exists>st'. regenerate_preinit_rc st = (1, st') \<and> read_file st' (preinit_file st) = read_file st (preinit_file st)"
proof -
  obtain r st' where r: "regenerate_preinit_rc st = (r, st')" by force
  with regenerate_result [OF r] assms show ?thesis by (auto simp: read_file_def split: if_splits)
qed

theorem empty_rc_blocks_witness:
  "\<exists>st'. regenerate_preinit_rc (rc_os []) = (1, st') \<and> read_file st' ''/metadata/tamisu/modules.rc'' = Some ''old''"
proof -
  have "\<not> no_empty_rc (rc_os [])" by code_simp
  from empty_rc_blocks [OF this]
  have e: "\<exists>st'. regenerate_preinit_rc (rc_os []) = (1, st') \<and>
      read_file st' (preinit_file (rc_os [])) = read_file (rc_os []) (preinit_file (rc_os []))" .
  have p: "preinit_file (rc_os []) = ''/metadata/tamisu/modules.rc''" by code_simp
  have "read_file (rc_os []) ''/metadata/tamisu/modules.rc'' = Some ''old''" by code_simp
  with e show ?thesis unfolding p by simp
qed

end
