(* ===== verification/Device.thy ===== *)
theory Device
  imports Utils_Os
begin

text \<open>
  The state the image tools of the daemon work on: the operating system and the list of the
  commands run, and \<^verbatim>\<open>boot/tools.cpp\<close>.

  What a command, a shell line or magiskboot does to the system, and the result it gives, is a
  parameter of the model (record \<open>tools\<close>), with what the daemon asks of the system besides: the
  path of its own program, \<^verbatim>\<open>uname\<close>, the working directory, the time, new temporary directories,
  SHA-256 (mbedtls) and the embedded assets (a generated file).
\<close>

section \<open>State\<close>

datatype command =
    Exec "string list" path
  | Magiskboot "string list" path
  | Shell string

record dev =
  d_os :: os
  d_log :: "command list"

record tools =
  t_exec :: "string list \<Rightarrow> path \<Rightarrow> os \<Rightarrow> exec_result \<times> os"
  t_magiskboot :: "path \<Rightarrow> string list \<Rightarrow> path \<Rightarrow> os \<Rightarrow> exec_result \<times> os"
  t_system :: "string \<Rightarrow> os \<Rightarrow> os"
  t_mkdtemp :: "path \<Rightarrow> os \<Rightarrow> path option \<times> os"
  t_self :: "path option"
  t_uname :: "string option"
  t_cwd :: "path option"
  t_now :: string
  t_sha256 :: "string \<Rightarrow> bytes"
  t_supported_kmi :: "string list"
  t_copy_asset :: "string \<Rightarrow> path \<Rightarrow> os \<Rightarrow> bool \<times> os"
  t_other_size :: "path \<Rightarrow> nat"

definition on_dev :: "(os \<Rightarrow> os) \<Rightarrow> dev \<Rightarrow> dev" where
  "on_dev f s = s\<lparr>d_os := f (d_os s)\<rparr>"

text \<open>\<^verbatim>\<open>exec_command\<close> with its optional working directory, at the level of its result.\<close>

definition run_exec :: "tools \<Rightarrow> string list \<Rightarrow> path \<Rightarrow> dev \<Rightarrow> exec_result \<times> dev" where
  "run_exec t args workdir s =
     (if args = [] then (exec_failed, s)
      else (case t_exec t args workdir (d_os s) of
              (r, st) \<Rightarrow> (r, s\<lparr>d_os := st, d_log := d_log s @ [Exec args workdir]\<rparr>)))"

definition run_magiskboot :: "tools \<Rightarrow> path \<Rightarrow> string list \<Rightarrow> path \<Rightarrow> dev \<Rightarrow> exec_result \<times> dev" where
  "run_magiskboot t magiskboot args workdir s =
     (case t_magiskboot t magiskboot args workdir (d_os s) of
        (r, st) \<Rightarrow> (r, s\<lparr>d_os := st, d_log := d_log s @ [Magiskboot args workdir]\<rparr>))"

definition run_system :: "tools \<Rightarrow> string \<Rightarrow> dev \<Rightarrow> dev" where
  "run_system t line s = s\<lparr>d_os := t_system t line (d_os s), d_log := d_log s @ [Shell line]\<rparr>"

section \<open>\<^verbatim>\<open>boot/tools.cpp\<close>\<close>

definition find_magiskboot :: "tools \<Rightarrow> dev \<Rightarrow> path option" where
  "find_magiskboot t s =
     (case t_self t of
        None \<Rightarrow> None
      | Some self_path \<Rightarrow> if self_path \<noteq> [] \<and> access_x (d_os s) self_path then Some self_path else None)"

definition exec_dd :: "tools \<Rightarrow> path \<Rightarrow> path \<Rightarrow> dev \<Rightarrow> bool \<times> dev" where
  "exec_dd t input output s =
     (case run_exec t [''dd'', ''if='' @ input, ''of='' @ output, ''bs=4M'', ''conv=fsync''] [] s of
        (result, s1) \<Rightarrow>
          if exit_code result = 0 then (True, s1)
          else (case run_exec t [''dd'', ''if='' @ input, ''of='' @ output] [] s1 of
                  (fallback, s2) \<Rightarrow> (exit_code fallback = 0, s2)))"

text \<open>An input stream copied into an output stream; the output is emptied first in any case.\<close>

definition copy_stream :: "path \<Rightarrow> path \<Rightarrow> os \<Rightarrow> bool \<times> os" where
  "copy_stream src dst st =
     (case open_trunc dst st of
        (dst_ok, st1) \<Rightarrow>
          if read_file st src = None \<or> \<not> dst_ok then (False, st1)
          else (True, snd (write_file dst (case read_file st1 src of None \<Rightarrow> [] | Some s \<Rightarrow> s) st1)))"

section \<open>Two integers of a version\<close>

text \<open>
  \<^verbatim>\<open>sscanf (s, "%d.%d", &a, &b)\<close> with both preset to zero: the number of conversions and the two
  values.  Values beyond the range of \<^verbatim>\<open>int\<close> are undefined in C and taken as they are here.
\<close>

definition scan_int :: "string \<Rightarrow> (int \<times> string) option" where
  "scan_int s =
     (case strip_sign (dropWhile is_space s) of
        (neg, t) \<Rightarrow>
          if takeWhile is_digit t = [] then None
          else Some ((if neg then - 1 else 1) * int (digits_value (takeWhile is_digit t)), dropWhile is_digit t))"

definition scan_version :: "string \<Rightarrow> nat \<times> int \<times> int" where
  "scan_version s =
     (case scan_int (c_str s) of
        None \<Rightarrow> (0, 0, 0)
      | Some (a, r) \<Rightarrow>
          if peek r \<noteq> CHR ''.'' then (1, a, 0)
          else (case scan_int (tl r) of None \<Rightarrow> (1, a, 0) | Some (b, _) \<Rightarrow> (2, a, b)))"

text \<open>\<^verbatim>\<open>std::stoi\<close>; \<open>None\<close> is an exception.\<close>

definition stoi :: "string \<Rightarrow> int option" where
  "stoi s =
     (case scan_int (c_str s) of
        None \<Rightarrow> None
      | Some (v, _) \<Rightarrow> if v < - (2 ^ 31) \<or> v \<ge> 2 ^ 31 then None else Some v)"

section \<open>The log grows\<close>

text \<open>A step adds commands of a class to the log, whatever they do to the system.\<close>

definition adds :: "(command \<Rightarrow> bool) \<Rightarrow> dev \<Rightarrow> dev \<Rightarrow> bool" where
  "adds P s s' \<longleftrightarrow> (\<exists>l. d_log s' = d_log s @ l \<and> list_all P l)"

named_theorems adds_intros \<open>what the steps of the image tools add to the log\<close>

lemma adds_refl [simp, adds_intros]: "adds P s s"
  by (simp add: adds_def)

lemma adds_trans: "adds P a b \<Longrightarrow> adds P b c \<Longrightarrow> adds P a c"
  unfolding adds_def by (metis append.assoc list_all_append)

lemma adds_mono: "adds P a b \<Longrightarrow> (\<And>e. P e \<Longrightarrow> Q e) \<Longrightarrow> adds Q a b"
  unfolding adds_def list_all_iff by blast

lemma adds_on_dev [simp, adds_intros]: "adds P s (on_dev f s)"
  by (simp add: adds_def on_dev_def)

lemma adds_os [simp, adds_intros]: "adds P s (s\<lparr>d_os := st\<rparr>)"
  by (simp add: adds_def)

lemma d_os_on_dev [simp]: "d_os (on_dev f s) = f (d_os s)"
  by (simp add: on_dev_def)

lemma adds_exec: "P (Exec args wd) \<Longrightarrow> adds P s (snd (run_exec t args wd s))"
  by (auto simp: run_exec_def adds_def split: prod.splits)

lemma adds_magiskboot: "P (Magiskboot args wd) \<Longrightarrow> adds P s (snd (run_magiskboot t mb args wd s))"
  by (auto simp: run_magiskboot_def adds_def split: prod.splits)

lemma adds_system: "P (Shell line) \<Longrightarrow> adds P s (run_system t line s)"
  by (simp add: run_system_def adds_def)

text \<open>The commands that write to a path with \<^verbatim>\<open>dd\<close>.\<close>

definition dd_to :: "path \<Rightarrow> command \<Rightarrow> bool" where
  "dd_to p c \<longleftrightarrow> (case c of Exec args _ \<Rightarrow> length args > 2 \<and> hd args = ''dd'' \<and> args ! 2 = ''of='' @ p | _ \<Rightarrow> False)"

lemma adds_dd: "(\<And>c. dd_to output c \<Longrightarrow> P c) \<Longrightarrow> adds P s (snd (exec_dd t input output s))"
proof -
  assume P: "\<And>c. dd_to output c \<Longrightarrow> P c"
  have 1: "P (Exec [''dd'', ''if='' @ input, ''of='' @ output, ''bs=4M'', ''conv=fsync''] [])"
    "P (Exec [''dd'', ''if='' @ input, ''of='' @ output] [])"
    by (rule P, simp add: dd_to_def)+
  obtain r s1 where a: "run_exec t [''dd'', ''if='' @ input, ''of='' @ output, ''bs=4M'', ''conv=fsync''] [] s = (r, s1)"
    by force
  obtain r2 s2 where b: "run_exec t [''dd'', ''if='' @ input, ''of='' @ output] [] s1 = (r2, s2)" by force
  have "adds P s s1" using adds_exec [of P, OF 1(1), of s t] a by simp
  moreover have "adds P s1 s2" using adds_exec [of P, OF 1(2), of s1 t] b by simp
  moreover have "exec_dd t input output s = (if exit_code r = 0 then (True, s1) else (exit_code r2 = 0, s2))"
    by (simp only: exec_dd_def a b prod.case)
  ultimately show ?thesis by (auto intro: adds_trans)
qed

end
