(* ===== verification/Flash_Partition.thy ===== *)
theory Flash_Partition
  imports Device
begin

text \<open>
  The partition flasher, \<^verbatim>\<open>daemon/tamisud_core/src/flash/flash_partition.cpp\<close>: block devices by
  name and slot, the lists of partitions, writing and backing up a partition, the flags of
  vbmeta, the version of the kernel in a boot partition.
\<close>

section \<open>Names\<close>

definition COMMON_PARTITIONS :: "string list" where
  "COMMON_PARTITIONS = [''boot'', ''init_boot'', ''recovery'', ''dtbo'', ''vbmeta'', ''vendor_boot'', ''vendor_kernel_boot'']"

definition DANGEROUS_PARTITIONS :: "string list" where
  "DANGEROUS_PARTITIONS = [''persist'', ''modem'', ''fsg'', ''bluetooth'', ''dsp'', ''nvram'', ''prodinfo'', ''seccfg'']"

definition EXCLUDED_FROM_BATCH :: "string list" where
  "EXCLUDED_FROM_BATCH = [''userdata'', ''data'']"

definition is_dangerous_partition :: "string \<Rightarrow> bool" where
  "is_dangerous_partition partition_name = list_ex (\<lambda>p. partition_name = p) DANGEROUS_PARTITIONS"

definition is_excluded_from_batch :: "string \<Rightarrow> bool" where
  "is_excluded_from_batch partition_name = list_ex (\<lambda>p. partition_name = p) EXCLUDED_FROM_BATCH"

section \<open>Helpers\<close>

definition hex_char :: "nat \<Rightarrow> char" where
  "hex_char d = ''0123456789abcdef'' ! (d mod 16)"

definition bytes_to_hex :: "bytes \<Rightarrow> string" where
  "bytes_to_hex data = concat (map (\<lambda>b. [hex_char (unat b div 16), hex_char (unat b)]) data)"

definition get_file_size :: "tools \<Rightarrow> os \<Rightarrow> path \<Rightarrow> nat" where
  "get_file_size t st p =
     (case node_at st p of
        None \<Rightarrow> 0
      | Some (Blk d) \<Rightarrow> length d
      | Some (Reg _ s) \<Rightarrow> length s
      | _ \<Rightarrow> t_other_size t p)"

definition is_block_device_path :: "os \<Rightarrow> path \<Rightarrow> bool" where
  "is_block_device_path st p \<longleftrightarrow> (case node_at st p of Some (Blk _) \<Rightarrow> True | _ \<Rightarrow> False)"

abbreviation APOS :: char where "APOS \<equiv> CHR 0x27"

definition shell_quote :: "string \<Rightarrow> string" where
  "shell_quote v = APOS # concat (map (\<lambda>c. if c = APOS then [APOS, BACKSLASH, APOS, APOS] else [c]) v) @ [APOS]"

definition exec_cmd :: "tools \<Rightarrow> string \<Rightarrow> dev \<Rightarrow> string \<times> dev" where
  "exec_cmd t line s = (case run_exec t [''/system/bin/sh'', ''-c'', line] [] s of (r, s') \<Rightarrow> (trim (stdout_str r), s'))"

section \<open>Slots and block devices\<close>

definition get_current_slot_suffix :: "tools \<Rightarrow> dev \<Rightarrow> string \<times> dev" where
  "get_current_slot_suffix t s =
     (case run_exec t [''getprop'', ''ro.boot.slot_suffix''] [] s of (r, s') \<Rightarrow> (trim (stdout_str r), s'))"

definition is_ab_device :: "tools \<Rightarrow> dev \<Rightarrow> bool \<times> dev" where
  "is_ab_device t s =
     (case run_exec t [''getprop'', ''ro.build.ab_update''] [] s of
        (r, s1) \<Rightarrow>
          if trim (stdout_str r) \<noteq> ''true'' then (False, s1)
          else (case get_current_slot_suffix t s1 of (sfx, s2) \<Rightarrow> (sfx \<noteq> [], s2)))"

definition last_two :: "string \<Rightarrow> string" where
  "last_two name = drop (length name - 2) name"

definition is_slotful :: "string \<Rightarrow> bool" where
  "is_slotful name \<longleftrightarrow> length name \<ge> 2 \<and> last_two name \<in> set [''_a'', ''_b'']"

definition base_paths :: "path list" where
  "base_paths = [''/dev/block/by-name/'', ''/dev/block/mapper/'', ''/dev/block/bootdevice/by-name/'']"

definition partition_candidates :: "string \<Rightarrow> string \<Rightarrow> path list" where
  "partition_candidates name sfx =
     [base @ n. n \<leftarrow> name # (if sfx \<noteq> [] \<and> \<not> is_slotful name then [name @ sfx] else []), base \<leftarrow> base_paths]"

definition find_partition_block_device :: "tools \<Rightarrow> string \<Rightarrow> string \<Rightarrow> dev \<Rightarrow> path \<times> dev" where
  "find_partition_block_device t partition_name slot_suffix s =
     (case (if is_slotful partition_name then ([], s)
            else if slot_suffix \<noteq> [] then (slot_suffix, s)
            else get_current_slot_suffix t s) of
        (sfx, s1) \<Rightarrow>
          (case find (is_block_device_path (d_os s1)) (partition_candidates partition_name sfx) of
             Some p \<Rightarrow> (p, s1)
           | None \<Rightarrow> ([], s1)))"

definition in_mapper :: "path \<Rightarrow> bool" where
  "in_mapper p \<longleftrightarrow> prefix ''/dev/block/mapper/'' p"

definition is_partition_logical :: "tools \<Rightarrow> string \<Rightarrow> dev \<Rightarrow> bool \<times> dev" where
  "is_partition_logical t partition_name s =
     (case find_partition_block_device t partition_name [] s of
        (block_dev, s1) \<Rightarrow> (block_dev \<noteq> [] \<and> in_mapper block_dev, s1))"

record partition_info =
  pi_name :: string
  pi_block_device :: path
  pi_is_logical :: bool
  pi_size :: nat
  pi_exists :: bool

definition get_partition_info :: "tools \<Rightarrow> string \<Rightarrow> string \<Rightarrow> dev \<Rightarrow> partition_info \<times> dev" where
  "get_partition_info t partition_name slot_suffix s =
     (case find_partition_block_device t partition_name slot_suffix s of
        (device, s1) \<Rightarrow>
          (let there = (device \<noteq> [] \<and> is_block_device_path (d_os s1) device) in
           (\<lparr>pi_name = partition_name, pi_block_device = device,
              pi_is_logical = (device \<noteq> [] \<and> in_mapper device),
              pi_size = (if there then get_file_size t (d_os s1) device else 0),
              pi_exists = there\<rparr>, s1)))"

section \<open>The lists of partitions\<close>

text \<open>The name without the suffix of the slot; \<open>None\<close> for the partition of another slot.\<close>

definition slot_name :: "string \<Rightarrow> string \<Rightarrow> string option" where
  "slot_name sfx name =
     (if sfx \<noteq> [] \<and> length name > 2 \<and> last_two name \<in> set [''_a'', ''_b''] then
        if last_two name = sfx then Some (take (length name - 2) name) else None
      else Some name)"

definition add_partition :: "string \<Rightarrow> string \<Rightarrow> string list \<Rightarrow> string list" where
  "add_partition sfx e partitions =
     (case slot_name sfx e of
        None \<Rightarrow> partitions
      | Some name \<Rightarrow> if name \<in> set partitions then partitions else partitions @ [name])"

definition skip_mapper :: "string \<Rightarrow> bool" where
  "skip_mapper name \<longleftrightarrow>
     name = ''control'' \<or> prefix ''loop'' name \<or> contains ''-verity'' name \<or> contains ''-cow'' name"

definition block_entries :: "os \<Rightarrow> path \<Rightarrow> string list" where
  "block_entries st d =
     (if exists_path st d then filter (\<lambda>e. is_block_device_path st (d @ ''/'' @ e)) (readdir st d) else [])"

definition get_all_partitions :: "tools \<Rightarrow> string \<Rightarrow> dev \<Rightarrow> string list \<times> dev" where
  "get_all_partitions t slot_suffix s =
     (case (if slot_suffix = [] then get_current_slot_suffix t s else (slot_suffix, s)) of
        (sfx, s1) \<Rightarrow>
          (sort (fold (add_partition sfx)
                  (filter (\<lambda>e. \<not> skip_mapper e) (block_entries (d_os s1) ''/dev/block/mapper''))
                  (fold (add_partition sfx) (block_entries (d_os s1) ''/dev/block/by-name'') [])), s1))"

fun keep_found :: "tools \<Rightarrow> string \<Rightarrow> string list \<Rightarrow> dev \<Rightarrow> string list \<times> dev" where
  "keep_found t slot [] s = ([], s)"
| "keep_found t slot (name # names) s =
     (case find_partition_block_device t name slot s of
        (block_dev, s1) \<Rightarrow>
          (case keep_found t slot names s1 of
             (available, s2) \<Rightarrow>
               (if block_dev \<noteq> [] \<and> is_block_device_path (d_os s1) block_dev then name # available else available, s2)))"

definition get_available_partitions :: "tools \<Rightarrow> bool \<Rightarrow> string \<Rightarrow> dev \<Rightarrow> string list \<times> dev" where
  "get_available_partitions t scan_all slot_suffix s =
     (case (if slot_suffix = [] then get_current_slot_suffix t s else (slot_suffix, s)) of
        (effective_slot, s1) \<Rightarrow>
          if scan_all then
            (case get_all_partitions t effective_slot s1 of (names, s2) \<Rightarrow> keep_found t effective_slot names s2)
          else keep_found t effective_slot COMMON_PARTITIONS s1)"

section \<open>Writing a partition\<close>

text \<open>A write at a position of a block device: it ends at the end of the device.\<close>

definition device_write :: "nat \<Rightarrow> string \<Rightarrow> string \<Rightarrow> nat \<times> string" where
  "device_write pos b d =
     (let n = min (length b) (length d - pos) in (n, take pos d @ take n b @ drop (pos + n) d))"

text \<open>The copy loop: pieces of 4096 bytes, until a piece is not written in full.\<close>

function copy_loop :: "nat \<Rightarrow> string \<Rightarrow> string \<Rightarrow> bool \<times> string" where
  "copy_loop pos left d =
     (if left = [] then (True, d)
      else (case device_write pos (take 4096 left) d of
              (n, d') \<Rightarrow>
                if n \<noteq> length (take 4096 left) then (False, d')
                else copy_loop (pos + n) (drop 4096 left) d'))"
  by pat_completeness auto
termination by (relation "measure (\<lambda>(pos, left, d). length left)") auto

declare copy_loop.simps [simp del]

text \<open>What the loop does to the node that was opened.\<close>

definition write_node :: "string \<Rightarrow> node \<Rightarrow> (bool \<times> node) option" where
  "write_node s n =
     (case n of
        Blk d \<Rightarrow> (case copy_loop 0 s d of (ok, d') \<Rightarrow> Some (ok, Blk d'))
      | Reg m d \<Rightarrow> Some (True, Reg m (s @ drop (length s) d))
      | _ \<Rightarrow> None)"

definition write_device :: "path \<Rightarrow> string \<Rightarrow> os \<Rightarrow> (bool \<times> os) option" where
  "write_device p s st =
     (if ro_path st p then None
      else case node_at st p of
             None \<Rightarrow> None
           | Some n \<Rightarrow> (case write_node s n of None \<Rightarrow> None | Some (ok, n') \<Rightarrow> Some (ok, put_node p n' st)))"

definition zero_line :: "path \<Rightarrow> string" where
  "zero_line block_device = ''dd bs=4096 if=/dev/zero of='' @ shell_quote block_device @ '' 2>/dev/null && sync''"

text \<open>The hash, or the word \<^verbatim>\<open>success\<close>; empty on failure.\<close>

definition flash_physical_partition :: "tools \<Rightarrow> path \<Rightarrow> path \<Rightarrow> bool \<Rightarrow> dev \<Rightarrow> string \<times> dev" where
  "flash_physical_partition t image_path block_device verify_hash s =
     (if \<not> exists_path (d_os s) image_path then ([], s)
      else if \<not> is_block_device_path (d_os s) block_device then ([], s)
      else
        (let image_size = get_file_size t (d_os s) image_path;
             partition_size = get_file_size t (d_os s) block_device
         in if image_size > partition_size then ([], s)
            else
              (let s1 = (if image_size < partition_size then snd (exec_cmd t (zero_line block_device) s) else s) in
               case read_file (d_os s1) image_path of
                 None \<Rightarrow> ([], s1)
               | Some content \<Rightarrow>
                   (case write_device block_device content (d_os s1) of
                      None \<Rightarrow> ([], s1)
                    | Some (success, st) \<Rightarrow>
                        (if \<not> success then [] else if verify_hash then bytes_to_hex (t_sha256 t content) else ''success'',
                         s1\<lparr>d_os := st\<rparr>)))))"

definition lptools :: "tools \<Rightarrow> string \<Rightarrow> dev \<Rightarrow> string \<times> dev" where
  "lptools t line s = exec_cmd t (''lptools '' @ line) s"

text \<open>The two ways to write a logical partition: resize it, or replace it by a new one.\<close>

definition flash_resized :: "tools \<Rightarrow> path \<Rightarrow> string \<Rightarrow> nat \<Rightarrow> bool \<Rightarrow> dev \<Rightarrow> string \<times> dev" where
  "flash_resized t image_path full_partition image_size verify_hash s =
     (case lptools t (''unmap '' @ full_partition) s of
        (o1, s1) \<Rightarrow>
          if o1 = [] then ([], s1)
          else (case lptools t (''resize '' @ full_partition @ '' '' @ show_nat image_size) s1 of
                  (o2, s2) \<Rightarrow>
                    if o2 = [] then ([], s2)
                    else (case lptools t (''map '' @ full_partition) s2 of
                            (o3, s3) \<Rightarrow>
                              if o3 = [] then ([], s3)
                              else flash_physical_partition t image_path (''/dev/block/mapper/'' @ full_partition) verify_hash s3)))"

definition flash_replaced :: "tools \<Rightarrow> path \<Rightarrow> string \<Rightarrow> string \<Rightarrow> bool \<Rightarrow> dev \<Rightarrow> string \<times> dev" where
  "flash_replaced t image_path temp_partition full_partition verify_hash s =
     (let s1 = snd (lptools t (''unmap '' @ temp_partition) s);
          s2 = snd (lptools t (''map '' @ temp_partition) s1)
      in case flash_physical_partition t image_path (''/dev/block/mapper/'' @ temp_partition) verify_hash s2 of
           (hash, s3) \<Rightarrow>
             if hash = [] then ([], snd (lptools t (''remove '' @ temp_partition) s3))
             else (case lptools t (''replace '' @ temp_partition @ '' '' @ full_partition) s3 of
                     (out, s4) \<Rightarrow>
                       if out = [] then ([], snd (lptools t (''remove '' @ temp_partition) s4)) else (hash, s4)))"

definition flash_logical_partition :: "tools \<Rightarrow> path \<Rightarrow> string \<Rightarrow> string \<Rightarrow> bool \<Rightarrow> dev \<Rightarrow> string \<times> dev" where
  "flash_logical_partition t image_path partition_name slot_suffix verify_hash s =
     (let image_size = get_file_size t (d_os s) image_path in
      if image_size = 0 then ([], s)
      else
        (let full_partition = partition_name @ slot_suffix; temp_partition = partition_name @ ''_kf'' in
         case lptools t (''create '' @ temp_partition @ '' '' @ show_nat image_size) s of
           (out, s1) \<Rightarrow>
             if \<not> contains ''Created'' out
             then flash_resized t image_path full_partition image_size verify_hash s1
             else flash_replaced t image_path temp_partition full_partition verify_hash s1))"

definition flash_partition :: "tools \<Rightarrow> path \<Rightarrow> string \<Rightarrow> string \<Rightarrow> bool \<Rightarrow> dev \<Rightarrow> bool \<times> dev" where
  "flash_partition t image_path partition_name slot_suffix verify_hash s =
     (case (if slot_suffix = [] then get_current_slot_suffix t s else (slot_suffix, s)) of
        (slot, s1) \<Rightarrow>
          (case get_partition_info t partition_name slot s1 of
             (info, s2) \<Rightarrow>
               if \<not> pi_exists info then (False, s2)
               else
                 (case (if pi_is_logical info
                        then flash_logical_partition t image_path partition_name slot verify_hash s2
                        else flash_physical_partition t image_path (pi_block_device info) verify_hash s2) of
                    (hash, s3) \<Rightarrow> (hash \<noteq> [], s3))))"

definition parent_path :: "path \<Rightarrow> path" where
  "parent_path p = (case rfind_slash p of None \<Rightarrow> [] | Some i \<Rightarrow> if i = 0 then ''/'' else take i p)"

definition backup_line :: "path \<Rightarrow> path \<Rightarrow> string" where
  "backup_line block_device output_path =
     ''dd if='' @ shell_quote block_device @ '' of='' @ shell_quote output_path @ '' bs=4096 2>/dev/null && sync''"

definition backup_partition :: "tools \<Rightarrow> string \<Rightarrow> path \<Rightarrow> string \<Rightarrow> dev \<Rightarrow> bool \<times> dev" where
  "backup_partition t partition_name output_path slot_suffix s =
     (case (if slot_suffix = [] then get_current_slot_suffix t s else (slot_suffix, s)) of
        (slot, s1) \<Rightarrow>
          (case get_partition_info t partition_name slot s1 of
             (info, s2) \<Rightarrow>
               if \<not> pi_exists info then (False, s2)
               else
                 (case (if parent_path output_path = [] then (True, d_os s2)
                        else ensure_dir_exists (parent_path output_path) (d_os s2)) of
                    (False, st) \<Rightarrow> (False, s2\<lparr>d_os := st\<rparr>)
                  | (True, st) \<Rightarrow>
                      (let s3 = snd (exec_cmd t (backup_line (pi_block_device info) output_path) (s2\<lparr>d_os := st\<rparr>)) in
                       (exists_path (d_os s3) output_path \<and> get_file_size t (d_os s3) output_path > 0, s3)))))"

section \<open>Mapping the logical partitions of a slot\<close>

definition common_logical :: "string list" where
  "common_logical = [''system'', ''vendor'', ''product'', ''odm'', ''system_ext'', ''vendor_dlkm'', ''odm_dlkm'']"

fun map_loop :: "tools \<Rightarrow> string \<Rightarrow> string list \<Rightarrow> nat \<Rightarrow> dev \<Rightarrow> nat \<times> dev" where
  "map_loop t slot [] success s = (success, s)"
| "map_loop t slot (part_base # parts) success s =
     (let mapped_path = ''/dev/block/mapper/'' @ part_base @ slot in
      if is_block_device_path (d_os s) mapped_path then map_loop t slot parts (Suc success) s
      else
        (let s1 = snd (exec_cmd t (''dmctl create '' @ part_base @ slot) s) in
         map_loop t slot parts (if is_block_device_path (d_os s1) mapped_path then Suc success else success) s1))"

definition map_logical_partitions :: "tools \<Rightarrow> string \<Rightarrow> dev \<Rightarrow> bool \<times> dev" where
  "map_logical_partitions t slot_suffix s =
     (if \<not> exists_path (d_os s) ''/dev/block/mapper'' then (False, s)
      else
        (let s1 = snd (find_partition_block_device t ''super'' [] s) in
         case map_loop t slot_suffix common_logical 0 s1 of (success, s2) \<Rightarrow> (success > 0, s2)))"

section \<open>The flags of vbmeta\<close>

definition get_avb_status :: "tools \<Rightarrow> dev \<Rightarrow> string \<times> dev" where
  "get_avb_status t s =
     (case find_partition_block_device t ''vbmeta'' [] s of
        (vbmeta_device, s1) \<Rightarrow>
          if vbmeta_device = [] then ([], s1)
          else
            (case read_file (d_os s1) vbmeta_device of
               None \<Rightarrow> ([], s1)
             | Some d \<Rightarrow>
                 (let flags = take 4 (drop 123 d) in
                  if length flags \<noteq> 4 then ([], s1)
                  else if take 3 flags = [NUL, NUL, NUL] \<and> flags ! 3 \<in> set [char_of (2::nat), char_of (3::nat)]
                  then (''disabled'', s1) else (''enabled'', s1))))"

text \<open>A seek behind the end of a block device fails; a write over its end is short.\<close>

definition patch_vbmeta_disable_verification :: "tools \<Rightarrow> dev \<Rightarrow> bool \<times> dev" where
  "patch_vbmeta_disable_verification t s =
     (case find_partition_block_device t ''vbmeta'' [] s of
        (vbmeta_device, s1) \<Rightarrow>
          if vbmeta_device = [] \<or> ro_path (d_os s1) vbmeta_device then (False, s1)
          else
            (case node_at (d_os s1) vbmeta_device of
               Some (Blk d) \<Rightarrow>
                 if length d < 123 then (False, s1)
                 else (case device_write 123 [NUL, NUL, NUL, char_of (3::nat)] d of
                         (n, d') \<Rightarrow> (n = 4, on_dev (put_node vbmeta_device (Blk d')) s1))
             | _ \<Rightarrow> (False, s1)))"

section \<open>The version of a kernel\<close>

definition version_mark :: string where
  "version_mark = ''Linux version ''"

definition find_from :: "char \<Rightarrow> nat \<Rightarrow> string \<Rightarrow> nat option" where
  "find_from c pos s = map_option ((+) pos) (find_char c (drop pos s))"

text \<open>The version in a buffer, when its end is there too.\<close>

definition version_in :: "string \<Rightarrow> string option" where
  "version_in buf =
     (case find_str version_mark buf of
        None \<Rightarrow> None
      | Some pos \<Rightarrow>
          (case (case find_from NUL pos buf of None \<Rightarrow> find_from NL pos buf | Some e \<Rightarrow> Some e) of
             None \<Rightarrow> None
           | Some end_pos \<Rightarrow> Some (take (end_pos - pos) (drop pos buf))))"

definition max_scan :: nat where "max_scan = 64 * 1024 * 1024"

text \<open>The reading loop: a piece that is not full ends it unread.\<close>

function scan_kernel :: "string \<Rightarrow> nat \<Rightarrow> string \<Rightarrow> string" where
  "scan_kernel left total_read buf =
     (if total_read \<ge> max_scan \<or> length left < 4096 then []
      else
        (let buf1 = buf @ take 4096 left in
         case version_in buf1 of
           Some r \<Rightarrow> r
         | None \<Rightarrow>
             scan_kernel (drop 4096 left) (total_read + 4096)
               (if length buf1 > length version_mark + 256 then drop (length buf1 - 256) buf1 else buf1)))"
  by pat_completeness auto
termination by (relation "measure (\<lambda>(left, total_read, buf). length left)") auto

declare scan_kernel.simps [simp del]

definition kernel_version_of :: "tools \<Rightarrow> path \<Rightarrow> dev \<Rightarrow> string \<times> dev" where
  "kernel_version_of t kernel_path s =
     (case run_exec t [''strings'', kernel_path] [] s of
        (r, s1) \<Rightarrow>
          (let line = (if exit_code r \<noteq> 0 then None
                       else find (contains version_mark) (getline_all NL (stdout_str r)))
           in case line of
                Some l \<Rightarrow> (l, s1)
              | None \<Rightarrow> (case read_file (d_os s1) kernel_path of None \<Rightarrow> ([], s1) | Some d \<Rightarrow> (scan_kernel d 0 [], s1))))"

definition get_kernel_version :: "tools \<Rightarrow> string \<Rightarrow> dev \<Rightarrow> string \<times> dev" where
  "get_kernel_version t slot_suffix s =
     (case find_partition_block_device t ''init_boot'' slot_suffix s of
        (init_boot, s1) \<Rightarrow>
          (case find_partition_block_device t (if init_boot \<noteq> [] then ''init_boot'' else ''boot'') slot_suffix s1 of
             (device, s2) \<Rightarrow>
               if device = [] then ([], s2)
               else
                 (case t_mkdtemp t ''/data/local/tmp/tamisu_unpack_XXXXXX'' (d_os s2) of
                    (None, st) \<Rightarrow> ([], s2\<lparr>d_os := st\<rparr>)
                  | (Some workdir, st) \<Rightarrow>
                      (let s3 = s2\<lparr>d_os := st\<rparr> in
                       case find_magiskboot t s3 of
                         None \<Rightarrow> ([], snd (run_exec t [''rm'', ''-rf'', workdir] [] s3))
                       | Some magiskboot \<Rightarrow>
                           (case run_magiskboot t magiskboot [''unpack'', device] workdir s3 of
                              (unpack_result, s4) \<Rightarrow>
                                (case (if exit_code unpack_result = 0
                                       then kernel_version_of t (workdir @ ''/kernel'') s4 else ([], s4)) of
                                   (result, s5) \<Rightarrow> (result, snd (run_exec t [''rm'', ''-rf'', workdir] [] s5))))))))"

definition get_boot_slot_info :: "tools \<Rightarrow> dev \<Rightarrow> string \<times> dev" where
  "get_boot_slot_info t s =
     (case is_ab_device t s of
        (False, s1) \<Rightarrow> (''{'' @ [QUOTE] @ ''is_ab'' @ [QUOTE] @ '':false}'', s1)
      | (True, s1) \<Rightarrow>
          (case get_current_slot_suffix t s1 of
             (current_slot, s2) \<Rightarrow>
               (let other_slot = (if current_slot = ''_a'' then ''_b'' else ''_a'');
                    s3 = snd (run_exec t [''getprop'', ''ro.boot.slot_suffix''] [] s2);
                    s4 = snd (run_exec t [''getprop'', ''ro.boot.slot.unbootable''] [] s3);
                    s5 = snd (run_exec t [''getprop'', ''ro.boot.slot.successful''] [] s4)
                in (''{'' @ [QUOTE] @ ''is_ab'' @ [QUOTE] @ '':true,'' @
                    [QUOTE] @ ''current_slot'' @ [QUOTE] @ '':'' @ [QUOTE] @ current_slot @ [QUOTE] @ '','' @
                    [QUOTE] @ ''other_slot'' @ [QUOTE] @ '':'' @ [QUOTE] @ other_slot @ [QUOTE] @ ''}'', s5))))"

end
