(* ===== verification/Boot_Text.thy ===== *)
theory Boot_Text
  imports Flash_Partition
begin

text \<open>
  The part of the boot image patcher, \<^verbatim>\<open>daemon/tamisud_core/src/boot/boot_patch.cpp\<close>, that works on
  texts and names: the module lists of a ramdisk, the name of the kernel's module interface
  (KMI), the arguments, the slots and the choice of the partition.
\<close>

section \<open>Module lists\<close>

definition ensure_trailing_newline :: "string \<Rightarrow> string" where
  "ensure_trailing_newline s =
     (if s = [] then s else rev (dropWhile (\<lambda>c. c \<in> set [NL, CR]) (rev s)) @ [NL])"

definition names_module :: "string \<Rightarrow> string \<Rightarrow> bool" where
  "names_module needle t \<longleftrightarrow>
     t = needle \<or> t = ''tamisu'' \<or> ends_with t (''/'' @ needle) \<or> ends_with t ''/tamisu''"

definition merge_modules_load :: "string \<Rightarrow> string \<Rightarrow> string" where
  "merge_modules_load existing module_line =
     (let needle = trim module_line in
      if needle = [] then existing
      else if list_ex (\<lambda>line. trim line \<noteq> [] \<and> hd (trim line) \<noteq> CHR ''#'' \<and> names_module needle (trim line))
          (split existing NL)
      then existing
      else ensure_trailing_newline existing @ needle @ [NL])"

definition dep_key :: "string \<Rightarrow> string" where
  "dep_key t = trim (case find_char CHR '':'' t of None \<Rightarrow> t | Some colon \<Rightarrow> take colon t)"

definition is_tamisu_key :: "string \<Rightarrow> bool" where
  "is_tamisu_key key \<longleftrightarrow> key = ''tamisu.ko'' \<or> ends_with key ''/tamisu.ko''"

definition merge_modules_dep :: "string \<Rightarrow> string \<Rightarrow> string" where
  "merge_modules_dep existing dep_line =
     (if list_ex (\<lambda>line. trim line \<noteq> [] \<and> hd (trim line) \<noteq> CHR ''#'' \<and> is_tamisu_key (dep_key (trim line)))
          (split existing NL)
      then existing
      else
        (let out = ensure_trailing_newline existing @ dep_line in
         if out \<noteq> [] \<and> last out = NL then out else out @ [NL]))"

definition is_tamisu_load :: "string \<Rightarrow> bool" where
  "is_tamisu_load t \<longleftrightarrow>
     t = ''tamisu.ko'' \<or> t = ''tamisu'' \<or> ends_with t ''/tamisu.ko'' \<or> ends_with t ''/tamisu''"

definition strip_tamisu_from_modules_load :: "string \<Rightarrow> string" where
  "strip_tamisu_from_modules_load existing =
     unlines NL (filter (\<lambda>line. trim line \<noteq> [] \<and> \<not> is_tamisu_load (trim line)) (split existing NL))"

definition strip_tamisu_from_modules_dep :: "string \<Rightarrow> string" where
  "strip_tamisu_from_modules_dep existing =
     unlines NL (filter (\<lambda>line. trim line \<noteq> [] \<and> \<not> is_tamisu_key (dep_key (trim line))) (split existing NL))"

section \<open>The kernel's module interface\<close>

definition read_kernel_release_from_sysfs :: "os \<Rightarrow> string" where
  "read_kernel_release_from_sysfs st =
     (case read_file st ''/proc/sys/core/osrelease'' of
        None \<Rightarrow> []
      | Some content \<Rightarrow> (case getline_all NL content of [] \<Rightarrow> [] | line # _ \<Rightarrow> line))"

text \<open>The release the daemon works with: the file's, or that of \<^verbatim>\<open>uname\<close>.\<close>

definition kernel_release_of :: "tools \<Rightarrow> os \<Rightarrow> string" where
  "kernel_release_of t st =
     (if read_kernel_release_from_sysfs st \<noteq> [] then read_kernel_release_from_sysfs st
      else (case t_uname t of None \<Rightarrow> [] | Some release \<Rightarrow> release))"

text \<open>The Android version of a KMI with the given kernel version.\<close>

definition kmi_android :: "string \<Rightarrow> string \<Rightarrow> int option" where
  "kmi_android major_minor kmi =
     (case find_char CHR ''-'' kmi of
        None \<Rightarrow> None
      | Some dash \<Rightarrow>
          if drop (dash + 1) kmi \<noteq> major_minor then None
          else if \<not> prefix ''android'' (take dash kmi) then None
          else stoi (drop 7 (take dash kmi)))"

fun best_kmi :: "string \<Rightarrow> string list \<Rightarrow> int \<Rightarrow> string \<Rightarrow> string" where
  "best_kmi major_minor [] best_android best = best"
| "best_kmi major_minor (kmi # kmis) best_android best =
     (case kmi_android major_minor kmi of
        None \<Rightarrow> best_kmi major_minor kmis best_android best
      | Some android_ver \<Rightarrow>
          if android_ver > best_android then best_kmi major_minor kmis android_ver kmi
          else best_kmi major_minor kmis best_android best)"

text \<open>\<^verbatim>\<open>6.6\<close> of \<^verbatim>\<open>6.6.66-android15-8\<close>; \<open>None\<close> without a dot.\<close>

definition major_minor_of :: "string \<Rightarrow> string option" where
  "major_minor_of full_version =
     (case find_char CHR ''.'' full_version of
        None \<Rightarrow> None
      | Some dot1 \<Rightarrow>
          Some (take (case find_from CHR ''.'' (dot1 + 1) full_version of None \<Rightarrow> length full_version | Some d \<Rightarrow> d)
                  full_version))"

definition kmi_of_release :: "string list \<Rightarrow> string \<Rightarrow> string" where
  "kmi_of_release supported full_version =
     (case major_minor_of full_version of
        None \<Rightarrow> []
      | Some major_minor \<Rightarrow>
          (case find_str ''-android'' full_version of
             Some android_pos \<Rightarrow>
               (let ver_start = android_pos + 8;
                    ver_end = (case find_from CHR ''-'' ver_start full_version of
                                 None \<Rightarrow> length full_version | Some e \<Rightarrow> e)
                in ''android'' @ take (ver_end - ver_start) (drop ver_start full_version) @ ''-'' @ major_minor)
           | None \<Rightarrow>
               (let best = best_kmi major_minor supported (- 1) [] in if best \<noteq> [] then best else major_minor)))"

definition get_current_kmi :: "tools \<Rightarrow> os \<Rightarrow> string" where
  "get_current_kmi t st =
     (if read_kernel_release_from_sysfs st = [] \<and> t_uname t = None then []
      else kmi_of_release (t_supported_kmi t) (kernel_release_of t st))"

section \<open>Slots and partitions\<close>

definition get_slot_suffix :: "bool \<Rightarrow> os \<Rightarrow> string" where
  "get_slot_suffix ota st =
     (case getprop ''ro.boot.slot_suffix'' st of
        None \<Rightarrow> []
      | Some sfx \<Rightarrow>
          if sfx = [] then []
          else if ota \<and> sfx = ''_a'' then ''_b''
          else if ota \<and> sfx = ''_b'' then ''_a''
          else sfx)"

definition or_by_name :: "path \<Rightarrow> string \<Rightarrow> path" where
  "or_by_name device name = (if device \<noteq> [] then device else ''/dev/block/by-name/'' @ name)"

definition auto_boot_partition :: "tools \<Rightarrow> string \<Rightarrow> string \<Rightarrow> bool \<Rightarrow> dev \<Rightarrow> path \<times> dev" where
  "auto_boot_partition t kmi slot is_replace_kernel s =
     (case find_partition_block_device t ''init_boot'' slot s of
        (init_boot, s1) \<Rightarrow>
          if \<not> is_replace_kernel \<and> init_boot \<noteq> [] \<and> \<not> prefix ''android12-'' kmi then (init_boot, s1)
          else (case find_partition_block_device t ''boot'' slot s1 of
                  (boot, s2) \<Rightarrow> (or_by_name boot (''boot'' @ slot), s2)))"

definition choose_boot_partition :: "tools \<Rightarrow> string \<Rightarrow> bool \<Rightarrow> string option \<Rightarrow> bool \<Rightarrow> dev \<Rightarrow> path \<times> dev" where
  "choose_boot_partition t kmi ota override_partition is_replace_kernel s =
     (let slot = get_slot_suffix ota (d_os s) in
      case override_partition of
        Some name \<Rightarrow>
          if name \<in> set [''boot'', ''init_boot'', ''vendor_boot''] then
            (case find_partition_block_device t name slot s of (device, s1) \<Rightarrow> (or_by_name device (name @ slot), s1))
          else auto_boot_partition t kmi slot is_replace_kernel s
      | None \<Rightarrow> auto_boot_partition t kmi slot is_replace_kernel s)"

definition get_default_partition_name :: "tools \<Rightarrow> string \<Rightarrow> bool \<Rightarrow> dev \<Rightarrow> string \<times> dev" where
  "get_default_partition_name t kmi is_replace_kernel s =
     (case find_partition_block_device t ''init_boot'' (get_slot_suffix False (d_os s)) s of
        (init_boot, s1) \<Rightarrow>
          (if \<not> is_replace_kernel \<and> init_boot \<noteq> [] \<and> \<not> prefix ''android12-'' kmi then ''init_boot'' else ''boot'', s1))"

section \<open>The information commands\<close>

text \<open>The status and what is printed.\<close>

definition boot_info_current_kmi :: "tools \<Rightarrow> os \<Rightarrow> int \<times> string" where
  "boot_info_current_kmi t st =
     (let kmi = get_current_kmi t st in
      if kmi = [] then (1, ''Failed to get current KMI'' @ [NL]) else (0, kmi @ [NL]))"

definition boot_info_supported_kmis :: "tools \<Rightarrow> int \<times> string" where
  "boot_info_supported_kmis t =
     (if t_supported_kmi t = [] then (1, ''No embedded LKMs found'' @ [NL]) else (0, unlines NL (t_supported_kmi t)))"

definition boot_info_is_ab_device :: "os \<Rightarrow> int \<times> string" where
  "boot_info_is_ab_device st =
     (0, (case getprop ''ro.build.ab_update'' st of
            Some v \<Rightarrow> if trim v = ''true'' then ''true'' else ''false'' | None \<Rightarrow> ''false'') @ [NL])"

definition boot_info_slot_suffix :: "bool \<Rightarrow> os \<Rightarrow> int \<times> string" where
  "boot_info_slot_suffix ota st = (0, get_slot_suffix ota st @ [NL])"

definition boot_info_default_partition :: "tools \<Rightarrow> dev \<Rightarrow> (int \<times> string) \<times> dev" where
  "boot_info_default_partition t s =
     (case get_default_partition_name t (get_current_kmi t (d_os s)) False s of (p, s1) \<Rightarrow> ((0, p @ [NL]), s1))"

fun print_found :: "tools \<Rightarrow> string \<Rightarrow> string list \<Rightarrow> dev \<Rightarrow> string \<times> dev" where
  "print_found t slot [] s = ([], s)"
| "print_found t slot (name # names) s =
     (case find_partition_block_device t name slot s of
        (device, s1) \<Rightarrow>
          (case print_found t slot names s1 of
             (out, s2) \<Rightarrow> ((if device \<noteq> [] then name @ [NL] else []) @ out, s2)))"

definition boot_info_available_partitions :: "tools \<Rightarrow> dev \<Rightarrow> (int \<times> string) \<times> dev" where
  "boot_info_available_partitions t s =
     (case print_found t (get_slot_suffix False (d_os s)) [''boot'', ''init_boot'', ''vendor_boot''] s of
        (out, s1) \<Rightarrow> ((0, out), s1))"

section \<open>Arguments\<close>

record boot_patch_args =
  bp_boot_image :: string
  bp_kernel :: string
  bp_module :: string
  bp_ota :: bool
  bp_flash :: bool
  bp_out :: string
  bp_magiskboot :: string
  bp_mkbootfs_dir :: string
  bp_kmi :: string
  bp_partition :: string
  bp_out_name :: string
  bp_enable_adbd :: bool
  bp_adb_debug_prop :: string

definition default_args :: boot_patch_args where
  "default_args = \<lparr>bp_boot_image = [], bp_kernel = [], bp_module = [], bp_ota = False, bp_flash = False,
     bp_out = [], bp_magiskboot = [], bp_mkbootfs_dir = [], bp_kmi = [], bp_partition = [], bp_out_name = [],
     bp_enable_adbd = False, bp_adb_debug_prop = []\<rparr>"

text \<open>An option that takes a value; a flag.\<close>

definition value_option :: "string \<Rightarrow> (string \<Rightarrow> boot_patch_args \<Rightarrow> boot_patch_args) option" where
  "value_option arg =
     (if arg = ''-b'' \<or> arg = ''--boot'' then Some (\<lambda>v. bp_boot_image_update (\<lambda>_. v))
      else if arg = ''-k'' \<or> arg = ''--kernel'' then Some (\<lambda>v. bp_kernel_update (\<lambda>_. v))
      else if arg = ''-m'' \<or> arg = ''--module'' then Some (\<lambda>v. bp_module_update (\<lambda>_. v))
      else if arg = ''-o'' \<or> arg = ''--out'' then Some (\<lambda>v. bp_out_update (\<lambda>_. v))
      else if arg = ''--magiskboot'' then Some (\<lambda>v. bp_magiskboot_update (\<lambda>_. v))
      else if arg = ''--mkbootfs-dir'' then Some (\<lambda>v. bp_mkbootfs_dir_update (\<lambda>_. v))
      else if arg = ''--kmi'' then Some (\<lambda>v. bp_kmi_update (\<lambda>_. v))
      else if arg = ''--partition'' then Some (\<lambda>v. bp_partition_update (\<lambda>_. v))
      else if arg = ''--out-name'' then Some (\<lambda>v. bp_out_name_update (\<lambda>_. v))
      else if arg = ''--adb-debug-prop'' then Some (\<lambda>v. bp_adb_debug_prop_update (\<lambda>_. v))
      else None)"

definition flag_option :: "string \<Rightarrow> boot_patch_args \<Rightarrow> boot_patch_args" where
  "flag_option arg a =
     (if arg = ''-u'' \<or> arg = ''--ota'' then a\<lparr>bp_ota := True\<rparr>
      else if arg = ''-f'' \<or> arg = ''--flash'' then a\<lparr>bp_flash := True\<rparr>
      else if arg = ''--enable-adbd'' then a\<lparr>bp_enable_adbd := True\<rparr>
      else a)"

fun parse_args_loop :: "string list \<Rightarrow> boot_patch_args \<Rightarrow> boot_patch_args" where
  "parse_args_loop [] a = a"
| "parse_args_loop [arg] a = (if value_option arg = None then flag_option arg a else a)"
| "parse_args_loop (arg # v # args) a =
     (case value_option arg of
        Some set_value \<Rightarrow> parse_args_loop args (set_value v a)
      | None \<Rightarrow> parse_args_loop (v # args) (flag_option arg a))"

definition parse_boot_patch_args :: "string list \<Rightarrow> boot_patch_args" where
  "parse_boot_patch_args args = parse_args_loop args default_args"

record boot_restore_args =
  br_boot_image :: string
  br_flash :: bool
  br_magiskboot :: string
  br_out_name :: string

fun parse_restore_loop :: "string list \<Rightarrow> boot_restore_args \<Rightarrow> boot_restore_args" where
  "parse_restore_loop [] a = a"
| "parse_restore_loop (arg # args) a =
     (if arg = ''-f'' \<or> arg = ''--flash'' then parse_restore_loop args (a\<lparr>br_flash := True\<rparr>)
      else if arg \<in> set [''-b'', ''--boot'', ''--magiskboot'', ''--out-name''] then
        (case args of
           [] \<Rightarrow> a
         | v # rest \<Rightarrow>
             parse_restore_loop rest
               (if arg = ''--magiskboot'' then a\<lparr>br_magiskboot := v\<rparr>
                else if arg = ''--out-name'' then a\<lparr>br_out_name := v\<rparr>
                else a\<lparr>br_boot_image := v\<rparr>))
      else parse_restore_loop args a)"

definition parse_boot_restore_args :: "string list \<Rightarrow> boot_restore_args" where
  "parse_boot_restore_args args =
     parse_restore_loop args \<lparr>br_boot_image = [], br_flash = False, br_magiskboot = [], br_out_name = []\<rparr>"

end
