(* ===== verification/Boot_Patch.thy ===== *)
theory Boot_Patch
  imports Boot_Text
begin

text \<open>
  Patching and restoring a boot image, \<^verbatim>\<open>boot_patch_impl\<close> and \<^verbatim>\<open>boot_restore\<close> of
  \<^verbatim>\<open>boot/boot_patch.cpp\<close>.  The work is cut into the steps the code has; a step gives \<open>None\<close> (or
  \<open>False\<close>) where the code removes the working directory and returns 1.
\<close>

section \<open>Steps\<close>

text \<open>Go on when the step succeeded.\<close>

definition on_ok :: "bool \<times> dev \<Rightarrow> (dev \<Rightarrow> 'a option \<times> dev) \<Rightarrow> 'a option \<times> dev" where
  "on_ok r k = (if fst r then k (snd r) else (None, snd r))"

definition on_some :: "'b option \<times> dev \<Rightarrow> ('b \<Rightarrow> dev \<Rightarrow> 'a option \<times> dev) \<Rightarrow> 'a option \<times> dev" where
  "on_some r k = (case fst r of None \<Rightarrow> (None, snd r) | Some x \<Rightarrow> k x (snd r))"

definition os_step :: "(os \<Rightarrow> bool \<times> os) \<Rightarrow> dev \<Rightarrow> bool \<times> dev" where
  "os_step f s = (case f (d_os s) of (ok, st) \<Rightarrow> (ok, s\<lparr>d_os := st\<rparr>))"

definition writable :: "os \<Rightarrow> path \<Rightarrow> bool" where
  "writable st p \<longleftrightarrow> exists_path st p \<and> \<not> ro_path st p"

section \<open>The ramdisk\<close>

definition do_cpio_cmd :: "tools \<Rightarrow> path \<Rightarrow> path \<Rightarrow> path \<Rightarrow> string \<Rightarrow> dev \<Rightarrow> bool \<times> dev" where
  "do_cpio_cmd t magiskboot workdir cpio_path line s =
     (case run_magiskboot t magiskboot [''cpio'', cpio_path, line] workdir s of (r, s1) \<Rightarrow> (exit_code r = 0, s1))"

definition is_magisk_patched :: "tools \<Rightarrow> path \<Rightarrow> path \<Rightarrow> path \<Rightarrow> dev \<Rightarrow> bool \<times> dev" where
  "is_magisk_patched t magiskboot workdir cpio_path s =
     (case run_magiskboot t magiskboot [''cpio'', cpio_path, ''test''] workdir s of
        (r, s1) \<Rightarrow>
          if exit_code r \<noteq> 1 then (False, s1)
          else (case do_cpio_cmd t magiskboot workdir cpio_path ''exists init.magisk.rc'' s1 of
                  (has_magisk_init, s2) \<Rightarrow>
                    (case do_cpio_cmd t magiskboot workdir cpio_path ''exists overlay.d'' s2 of
                       (has_overlay, s3) \<Rightarrow> (has_magisk_init \<or> has_overlay, s3))))"

definition cpio_lines :: "string \<Rightarrow> string list" where
  "cpio_lines out = List.map_filter
     (\<lambda>line. case find_char TAB line of
        None \<Rightarrow> None
      | Some tab \<Rightarrow> if trim (drop (tab + 1) line) = [] then None else Some (trim (drop (tab + 1) line)))
     (split out NL)"

definition cpio_list_entries :: "tools \<Rightarrow> path \<Rightarrow> path \<Rightarrow> path \<Rightarrow> string \<Rightarrow> bool \<Rightarrow> dev \<Rightarrow> string list \<times> dev" where
  "cpio_list_entries t magiskboot workdir cpio_path p recursive s =
     (case run_magiskboot t magiskboot [''cpio'', cpio_path, (if recursive then ''ls -r '' else ''ls '') @ p] workdir s of
        (r, s1) \<Rightarrow> (if exit_code r \<noteq> 0 \<or> stdout_str r = [] then [] else cpio_lines (stdout_str r), s1))"

definition cpio_entry_exists :: "tools \<Rightarrow> path \<Rightarrow> path \<Rightarrow> path \<Rightarrow> string \<Rightarrow> dev \<Rightarrow> bool \<times> dev" where
  "cpio_entry_exists t magiskboot workdir cpio_path entry s =
     do_cpio_cmd t magiskboot workdir cpio_path (''exists '' @ entry) s"

definition cpio_extract_entry :: "tools \<Rightarrow> path \<Rightarrow> path \<Rightarrow> path \<Rightarrow> string \<Rightarrow> path \<Rightarrow> dev \<Rightarrow> bool \<times> dev" where
  "cpio_extract_entry t magiskboot workdir cpio_path entry outfile_rel s =
     do_cpio_cmd t magiskboot workdir cpio_path (''extract '' @ entry @ '' '' @ outfile_rel) s"

text \<open>The modules directory an entry of the listing stands for.\<close>

definition LIB_MODULES :: string where "LIB_MODULES = ''lib/modules/''"

definition candidate_of :: "string \<Rightarrow> string option" where
  "candidate_of e =
     (if \<not> starts_with e LIB_MODULES then None
      else (let rest = drop (length LIB_MODULES) e in
            case find_char CHR ''/'' rest of
              None \<Rightarrow> if rest \<noteq> [] \<and> rest \<noteq> ''.'' \<and> rest \<noteq> ''..'' then Some (LIB_MODULES @ rest) else None
            | Some slash \<Rightarrow> Some (LIB_MODULES @ take slash rest)))"

definition module_dir_candidates :: "string list \<Rightarrow> string list" where
  "module_dir_candidates entries = remdups_adj (sort (List.map_filter candidate_of entries))"

fun pick_loop ::
  "tools \<Rightarrow> path \<Rightarrow> path \<Rightarrow> path \<Rightarrow> int \<Rightarrow> int \<Rightarrow> string list \<Rightarrow> string \<Rightarrow> dev \<Rightarrow> (string \<times> string) \<times> dev"
where
  "pick_loop t magiskboot workdir cpio_path major minor [] any_with_load s = (([], any_with_load), s)"
| "pick_loop t magiskboot workdir cpio_path major minor (dir # dirs) any_with_load s =
     (case cpio_entry_exists t magiskboot workdir cpio_path (dir @ ''/modules.load'') s of
        (has_load, s1) \<Rightarrow>
          if \<not> has_load then pick_loop t magiskboot workdir cpio_path major minor dirs any_with_load s1
          else
            (let any1 = (if any_with_load = [] then dir else any_with_load) in
             if scan_version (drop (length LIB_MODULES) dir) = (2, major, minor) then ((dir, any1), s1)
             else pick_loop t magiskboot workdir cpio_path major minor dirs any1 s1))"

definition select_modules_dir :: "tools \<Rightarrow> path \<Rightarrow> path \<Rightarrow> path \<Rightarrow> string \<Rightarrow> dev \<Rightarrow> string \<times> dev" where
  "select_modules_dir t magiskboot workdir cpio_path kernel_release s =
     (case cpio_entry_exists t magiskboot workdir cpio_path (LIB_MODULES @ kernel_release @ ''/modules.load'') s of
        (True, s1) \<Rightarrow> (LIB_MODULES @ kernel_release, s1)
      | (False, s1) \<Rightarrow>
          (case cpio_entry_exists t magiskboot workdir cpio_path (LIB_MODULES @ kernel_release) s1 of
             (True, s2) \<Rightarrow> (LIB_MODULES @ kernel_release, s2)
           | (False, s2) \<Rightarrow>
               (case scan_version kernel_release of
                  (_, major, minor) \<Rightarrow>
                    (case cpio_list_entries t magiskboot workdir cpio_path ''lib/modules'' True s2 of
                       (entries, s3) \<Rightarrow>
                         (let candidates = module_dir_candidates entries in
                          case pick_loop t magiskboot workdir cpio_path major minor candidates [] s3 of
                            ((mm_match, any_with_load), s4) \<Rightarrow>
                              (if mm_match \<noteq> [] then mm_match
                               else if any_with_load \<noteq> [] then any_with_load
                               else (case candidates of [] \<Rightarrow> [] | c # _ \<Rightarrow> c), s4))))))"

definition is_tamisu_patched :: "tools \<Rightarrow> path \<Rightarrow> path \<Rightarrow> path \<Rightarrow> dev \<Rightarrow> bool \<times> dev" where
  "is_tamisu_patched t magiskboot workdir cpio_path s =
     (case cpio_entry_exists t magiskboot workdir cpio_path ''tamisu.ko'' s of
        (True, s1) \<Rightarrow> (True, s1)
      | (False, s1) \<Rightarrow>
          (case cpio_list_entries t magiskboot workdir cpio_path ''lib/modules'' True s1 of
             (entries, s2) \<Rightarrow> (list_ex is_tamisu_key entries, s2)))"

section \<open>Repacking with mkbootfs\<close>

definition ensure_clean_dir :: "tools \<Rightarrow> path \<Rightarrow> dev \<Rightarrow> bool \<times> dev" where
  "ensure_clean_dir t p s =
     os_step (ensure_dir_exists p) (if exists_path (d_os s) p then run_system t (''rm -rf '' @ p) s else s)"

definition rename_path :: "path \<Rightarrow> path \<Rightarrow> os \<Rightarrow> bool \<times> os" where
  "rename_path a b st =
     (case node_at st a of
        None \<Rightarrow> (False, st)
      | Some n \<Rightarrow> if ro_path st a \<or> ro_path st b \<or> is_dir st b then (False, st) else (True, del_node a (put_node b n st)))"

definition ramdisk_relative :: "path \<Rightarrow> path \<Rightarrow> path" where
  "ramdisk_relative ramdisk_path workdir =
     (if length ramdisk_path > length workdir \<and> prefix workdir ramdisk_path \<and> ramdisk_path ! length workdir = CHR ''/''
      then drop (length workdir + 1) ramdisk_path else ramdisk_path)"

definition mkbootfs_name :: "int \<Rightarrow> int \<Rightarrow> string" where
  "mkbootfs_name major minor = (if major > 5 \<or> major = 5 \<and> minor \<ge> 15 then ''5_15+-mkbootfs'' else ''5_10-mkbootfs'')"

definition repack_ramdisk_with_mkbootfs :: "tools \<Rightarrow> path \<Rightarrow> path \<Rightarrow> path \<Rightarrow> path \<Rightarrow> dev \<Rightarrow> bool \<times> dev" where
  "repack_ramdisk_with_mkbootfs t magiskboot mkbootfs_dir workdir ramdisk_path s =
     (case t_uname t of
        None \<Rightarrow> (False, s)
      | Some release \<Rightarrow>
          (case scan_version release of
             (n, major, minor) \<Rightarrow>
               (let mkbootfs_path = mkbootfs_dir @ ''/'' @ mkbootfs_name major minor;
                    extract_dir = workdir @ ''/ramdisk_mkbootfs_extract''
                in if n < 2 \<or> \<not> access_x (d_os s) mkbootfs_path then (False, s)
                   else (case ensure_clean_dir t extract_dir s of
                           (False, s1) \<Rightarrow> (False, s1)
                         | (True, s1) \<Rightarrow>
                             (case run_magiskboot t magiskboot
                                [''cpio'', ''../'' @ ramdisk_relative ramdisk_path workdir, ''extract''] extract_dir s1 of
                                (extract_result, s2) \<Rightarrow>
                                  if exit_code extract_result \<noteq> 0 then (False, s2)
                                  else (case run_exec t [mkbootfs_path, ''.''] extract_dir s2 of
                                          (mkbootfs_result, s3) \<Rightarrow>
                                            if exit_code mkbootfs_result \<noteq> 0 then (False, s3)
                                            else (case os_step (write_file (ramdisk_path @ ''.mkbootfs_new'')
                                                      (stdout_str mkbootfs_result)) s3 of
                                                    (False, s4) \<Rightarrow> (False, s4)
                                                  | (True, s4) \<Rightarrow>
                                                      os_step (rename_path (ramdisk_path @ ''.mkbootfs_new'') ramdisk_path) s4)))))))"

section \<open>Flashing and backups\<close>

definition flash_boot :: "tools \<Rightarrow> path \<Rightarrow> path \<Rightarrow> dev \<Rightarrow> bool \<times> dev" where
  "flash_boot t bootdevice new_boot s =
     (if bootdevice = [] then (False, s)
      else exec_dd t new_boot bootdevice (snd (run_exec t [''blockdev'', ''--setrw'', bootdevice] [] s)))"

definition calculate_sha1 :: "tools \<Rightarrow> path \<Rightarrow> dev \<Rightarrow> string \<times> dev" where
  "calculate_sha1 t file_path s =
     (case run_exec t [''sha1sum'', file_path] [] s of
        (r, s1) \<Rightarrow>
          (if exit_code r \<noteq> 0 then []
           else (case find_char CHR 0x20 (stdout_str r) of
                   Some space \<Rightarrow> take space (stdout_str r) | None \<Rightarrow> trim (stdout_str r)), s1))"

definition TAMISU_BACKUP_DIR :: path where "TAMISU_BACKUP_DIR = ''/data/tamisu/''"
definition TAMISU_BACKUP_FILE_PREFIX :: string where "TAMISU_BACKUP_FILE_PREFIX = ''tamisu_backup_''"
definition BACKUP_FILENAME :: string where "BACKUP_FILENAME = ''stock_image.sha1''"

definition do_backup :: "tools \<Rightarrow> path \<Rightarrow> path \<Rightarrow> path \<Rightarrow> path \<Rightarrow> dev \<Rightarrow> bool \<times> dev" where
  "do_backup t magiskboot workdir cpio_path img s =
     (case calculate_sha1 t img s of
        (sha1, s1) \<Rightarrow>
          if sha1 = [] then (False, s1)
          else (case os_step (copy_stream img (TAMISU_BACKUP_DIR @ TAMISU_BACKUP_FILE_PREFIX @ sha1)) s1 of
                  (False, s2) \<Rightarrow> (False, s2)
                | (True, s2) \<Rightarrow>
                    do_cpio_cmd t magiskboot workdir cpio_path (''add 0644 '' @ BACKUP_FILENAME @ '' '' @ BACKUP_FILENAME)
                      (snd (os_step (write_file (workdir @ ''/'' @ BACKUP_FILENAME) sha1) s2))))"

definition clean_one :: "string \<Rightarrow> string \<Rightarrow> os \<Rightarrow> os" where
  "clean_one backup_name name st =
     (if is_reg st (TAMISU_BACKUP_DIR @ name) \<and> name \<noteq> backup_name \<and> starts_with name TAMISU_BACKUP_FILE_PREFIX
      then unlink (TAMISU_BACKUP_DIR @ name) st else st)"

definition clean_backup :: "string \<Rightarrow> dev \<Rightarrow> dev" where
  "clean_backup current_sha1 s =
     on_dev (\<lambda>st. fold (clean_one (TAMISU_BACKUP_FILE_PREFIX @ current_sha1)) (readdir st TAMISU_BACKUP_DIR) st) s"

section \<open>Preparing\<close>

text \<open>Where the working directory is made: \<^verbatim>\<open>TMPDIR\<close>, the current directory, \<^verbatim>\<open>/data/local/tmp\<close>.\<close>

definition workdir_bases :: "tools \<Rightarrow> os \<Rightarrow> path list" where
  "workdir_bases t st =
     (case env_of st ''TMPDIR'' of Some p \<Rightarrow> if writable st p then [p] else [] | None \<Rightarrow> []) @
     (case t_cwd t of Some p \<Rightarrow> if writable st p then [p] else [] | None \<Rightarrow> [])"

fun try_mkdtemp :: "tools \<Rightarrow> path list \<Rightarrow> dev \<Rightarrow> path option \<times> dev" where
  "try_mkdtemp t [] s = (None, s)"
| "try_mkdtemp t (template # templates) s =
     (case t_mkdtemp t template (d_os s) of
        (Some workdir, st) \<Rightarrow> (Some workdir, s\<lparr>d_os := st\<rparr>)
      | (None, st) \<Rightarrow> try_mkdtemp t templates (s\<lparr>d_os := st\<rparr>))"

definition make_workdir :: "tools \<Rightarrow> dev \<Rightarrow> path option \<times> dev" where
  "make_workdir t s =
     try_mkdtemp t (map (\<lambda>p. p @ ''/Tamisu_XXXXXX'') (workdir_bases t (d_os s)) @ [''/data/local/tmp/Tamisu_XXXXXX'']) s"

definition cleanup :: "tools \<Rightarrow> path \<Rightarrow> dev \<Rightarrow> dev" where
  "cleanup t workdir s = run_system t (''rm -rf '' @ workdir) s"

text \<open>The image to work on, and the device it was read from (empty for a file).\<close>

definition locate_boot :: "tools \<Rightarrow> string \<Rightarrow> string \<Rightarrow> bool \<Rightarrow> string option \<Rightarrow> bool \<Rightarrow> path \<Rightarrow> dev \<Rightarrow> (path \<times> path) option \<times> dev" where
  "locate_boot t boot_image kmi ota override_partition is_replace_kernel workdir s =
     (if boot_image \<noteq> [] then
        (if exists_path (d_os s) boot_image then Some (boot_image, []) else None, s)
      else
        (case choose_boot_partition t kmi ota override_partition is_replace_kernel s of
           (partition_name, s1) \<Rightarrow>
             (case exec_dd t partition_name (workdir @ ''/boot.img'') s1 of
                (ok, s2) \<Rightarrow> (if ok then Some (workdir @ ''/boot.img'', partition_name) else None, s2))))"

definition lkm_search_paths :: "string \<Rightarrow> path list" where
  "lkm_search_paths kmi_lkm_name =
     [BINARY_DIR @ kmi_lkm_name, BINARY_DIR @ ''tamisu.ko'', WORKING_DIR @ kmi_lkm_name, WORKING_DIR @ ''tamisu.ko'',
      ''/data/local/tmp/'' @ kmi_lkm_name, ''/data/local/tmp/tamisu.ko'']"

fun search_lkm :: "path list \<Rightarrow> path \<Rightarrow> dev \<Rightarrow> bool \<times> dev" where
  "search_lkm [] kmod_file s = (False, s)"
| "search_lkm (p # ps) kmod_file s =
     (if \<not> exists_path (d_os s) p then search_lkm ps kmod_file s
      else (case os_step (copy_stream p kmod_file) s of
              (True, s1) \<Rightarrow> (True, s1)
            | (False, s1) \<Rightarrow> search_lkm ps kmod_file s1))"

definition prepare_lkm :: "tools \<Rightarrow> string \<Rightarrow> string \<Rightarrow> path \<Rightarrow> dev \<Rightarrow> bool \<times> dev" where
  "prepare_lkm t module_path kmi kmod_file s =
     (if module_path \<noteq> [] then os_step (copy_stream module_path kmod_file) s
      else (case os_step (t_copy_asset t (kmi @ ''_tamisu.ko'') kmod_file) s of
              (True, s1) \<Rightarrow> (True, s1)
            | (False, s1) \<Rightarrow> search_lkm (lkm_search_paths (kmi @ ''_tamisu.ko'')) kmod_file s1))"

section \<open>Unpacking\<close>

definition LZ4_LEGACY_MAGIC :: string where
  "LZ4_LEGACY_MAGIC = [char_of (2::nat), char_of (33::nat), char_of (76::nat), char_of (24::nat)]"

definition is_lz4 :: "os \<Rightarrow> path \<Rightarrow> bool" where
  "is_lz4 st p \<longleftrightarrow> (case read_file st p of Some content \<Rightarrow> take 4 content = LZ4_LEGACY_MAGIC | None \<Rightarrow> False)"

definition SIGSEGV_EXIT :: int where "SIGSEGV_EXIT = 139"

definition unpack_boot :: "tools \<Rightarrow> path \<Rightarrow> path \<Rightarrow> path \<Rightarrow> dev \<Rightarrow> bool \<times> dev" where
  "unpack_boot t magiskboot bootimage workdir s =
     (if \<not> exists_path (d_os s) bootimage then (False, s)
      else
        (case run_magiskboot t magiskboot [''unpack'', bootimage] workdir s of
           (r, s1) \<Rightarrow>
             if exit_code r = SIGSEGV_EXIT then
               (case run_magiskboot t magiskboot [''unpack'', bootimage, ''--skip-decomp''] workdir s1 of
                  (r2, s2) \<Rightarrow> (exit_code r2 = 0 \<and> \<not> is_lz4 (d_os s2) (workdir @ ''/ramdisk.cpio''), s2))
             else (exit_code r = 0, s1)))"

definition ramdisk_candidates :: "path \<Rightarrow> path list" where
  "ramdisk_candidates workdir =
     [workdir @ ''/ramdisk.cpio'', workdir @ ''/vendor_ramdisk/init_boot.cpio'', workdir @ ''/vendor_ramdisk/ramdisk.cpio'']"

definition find_ramdisk :: "tools \<Rightarrow> path \<Rightarrow> path \<Rightarrow> dev \<Rightarrow> path option \<times> dev" where
  "find_ramdisk t magiskboot workdir s =
     (case find (exists_path (d_os s)) (ramdisk_candidates workdir) of
        None \<Rightarrow>
          (case do_cpio_cmd t magiskboot workdir (workdir @ ''/ramdisk.cpio'') ''mkdir 000 .backup'' s of
             (ok, s1) \<Rightarrow> (if ok then Some (workdir @ ''/ramdisk.cpio'') else None, s1))
      | Some ramdisk \<Rightarrow> (if is_lz4 (d_os s) ramdisk then None else Some ramdisk, s))"

section \<open>Injecting the module\<close>

text \<open>The text of an entry of the ramdisk, by way of a file in the working directory.\<close>

definition entry_text :: "tools \<Rightarrow> path \<Rightarrow> path \<Rightarrow> path \<Rightarrow> string \<Rightarrow> path \<Rightarrow> dev \<Rightarrow> string \<times> dev" where
  "entry_text t magiskboot workdir ramdisk entry extracted s =
     (case cpio_entry_exists t magiskboot workdir ramdisk entry s of
        (False, s1) \<Rightarrow> ([], s1)
      | (True, s1) \<Rightarrow>
          (case cpio_extract_entry t magiskboot workdir ramdisk entry extracted s1 of
             (ok, s2) \<Rightarrow>
               (if ok then (case read_file (d_os s2) (workdir @ ''/'' @ extracted) of None \<Rightarrow> [] | Some c \<Rightarrow> c) else [], s2)))"

text \<open>A list of the modules directory, merged and put in the staging tree.\<close>

definition merge_list ::
  "tools \<Rightarrow> path \<Rightarrow> path \<Rightarrow> path \<Rightarrow> string \<Rightarrow> string \<Rightarrow> (string \<Rightarrow> string) \<Rightarrow> dev \<Rightarrow> bool \<times> dev"
where
  "merge_list t magiskboot workdir ramdisk mod_dir name merge s =
     (case entry_text t magiskboot workdir ramdisk (mod_dir @ ''/'' @ name)
             (''modroot/'' @ mod_dir @ ''/'' @ name @ ''.orig'') s of
        (content, s1) \<Rightarrow> os_step (write_file (workdir @ ''/modroot/'' @ mod_dir @ ''/'' @ name) (merge content)) s1)"

text \<open>The directories above and including one, outermost first.\<close>

fun dir_parts :: "string \<Rightarrow> string list \<Rightarrow> string list" where
  "dir_parts acc [] = []"
| "dir_parts acc (part # parts) =
     (if part = [] then dir_parts acc parts
      else (let acc1 = (if acc = [] then part else acc @ ''/'' @ part) in acc1 # dir_parts acc1 parts))"

text \<open>Commands in a row, as long as they succeed.\<close>

fun cpio_all :: "tools \<Rightarrow> path \<Rightarrow> path \<Rightarrow> path \<Rightarrow> string list \<Rightarrow> dev \<Rightarrow> bool \<times> dev" where
  "cpio_all t magiskboot workdir ramdisk [] s = (True, s)"
| "cpio_all t magiskboot workdir ramdisk (line # lines) s =
     (case do_cpio_cmd t magiskboot workdir ramdisk line s of
        (True, s1) \<Rightarrow> cpio_all t magiskboot workdir ramdisk lines s1
      | (False, s1) \<Rightarrow> (False, s1))"

definition inject_lines :: "string \<Rightarrow> string list" where
  "inject_lines mod_dir =
     map (\<lambda>sub. ''mkdir 0755 '' @ sub) (dir_parts [] (split mod_dir CHR ''/'')) @
     map (\<lambda>name. ''add 0644 '' @ mod_dir @ ''/'' @ name @ '' modroot/'' @ mod_dir @ ''/'' @ name)
       [''tamisu.ko'', ''modules.load'', ''modules.dep'']"

definition inject_module :: "tools \<Rightarrow> path \<Rightarrow> path \<Rightarrow> path \<Rightarrow> string \<Rightarrow> path \<Rightarrow> dev \<Rightarrow> unit option \<times> dev" where
  "inject_module t magiskboot workdir ramdisk kernel_release kmod_file s =
     (case select_modules_dir t magiskboot workdir ramdisk kernel_release s of
        (found_dir, s1) \<Rightarrow>
          (let mod_dir = (if found_dir = [] then LIB_MODULES @ kernel_release else found_dir);
               mod_dir_local = workdir @ ''/modroot/'' @ mod_dir
           in on_ok (os_step (ensure_dir_exists mod_dir_local) s1) (\<lambda>s.
              on_ok (os_step (copy_stream kmod_file (mod_dir_local @ ''/tamisu.ko'')) s) (\<lambda>s.
              on_ok (merge_list t magiskboot workdir ramdisk mod_dir ''modules.load''
                       (\<lambda>c. merge_modules_load c ''tamisu.ko'') s) (\<lambda>s.
              on_ok (merge_list t magiskboot workdir ramdisk mod_dir ''modules.dep''
                       (\<lambda>c. merge_modules_dep c ''tamisu.ko:'') s) (\<lambda>s.
              on_ok (cpio_all t magiskboot workdir ramdisk (inject_lines mod_dir) s) (\<lambda>s. (Some (), s))))))))"

section \<open>Debug properties\<close>

definition adb_props :: "boot_patch_args \<Rightarrow> string" where
  "adb_props a =
     (if bp_enable_adbd a
      then ''ro.debuggable=1'' @ [NL] @ ''ro.force.debuggable=1'' @ [NL] @ ''ro.adb.secure=0'' @ [NL] else []) @
     (if bp_adb_debug_prop a \<noteq> []
      then bp_adb_debug_prop a @ (if last (bp_adb_debug_prop a) \<noteq> NL then [NL] else []) else [])"

definition remove_if_there :: "tools \<Rightarrow> path \<Rightarrow> path \<Rightarrow> path \<Rightarrow> string \<Rightarrow> dev \<Rightarrow> dev" where
  "remove_if_there t magiskboot workdir ramdisk entry s =
     (case cpio_entry_exists t magiskboot workdir ramdisk entry s of
        (there, s1) \<Rightarrow> if there then snd (do_cpio_cmd t magiskboot workdir ramdisk (''rm '' @ entry) s1) else s1)"

definition adb_step :: "tools \<Rightarrow> path \<Rightarrow> path \<Rightarrow> path \<Rightarrow> boot_patch_args \<Rightarrow> dev \<Rightarrow> unit option \<times> dev" where
  "adb_step t magiskboot workdir ramdisk a s =
     (if bp_enable_adbd a \<or> bp_adb_debug_prop a \<noteq> [] then
        on_ok (do_cpio_cmd t magiskboot workdir ramdisk ''add 0644 force_debuggable force_debuggable''
                 (on_dev (\<lambda>st. snd (open_trunc (workdir @ ''/force_debuggable'') st)) s)) (\<lambda>s.
        on_ok (os_step (write_file (workdir @ ''/adb_debug.prop'') (adb_props a)) s) (\<lambda>s.
        on_ok (do_cpio_cmd t magiskboot workdir ramdisk ''add 0644 adb_debug.prop adb_debug.prop'' s) (\<lambda>s. (Some (), s))))
      else (Some (), remove_if_there t magiskboot workdir ramdisk ''adb_debug.prop''
                       (remove_if_there t magiskboot workdir ramdisk ''force_debuggable'' s)))"

section \<open>Repacking and output\<close>

definition new_boot_name :: "path \<Rightarrow> path \<Rightarrow> path \<Rightarrow> path" where
  "new_boot_name boot_image bootdevice workdir =
     workdir @ ''/'' @ (if contains ''init_boot'' boot_image \<or> contains ''init_boot'' bootdevice
                        then ''new-init_boot.img'' else ''new-boot.img'')"

definition repack_boot :: "tools \<Rightarrow> path \<Rightarrow> path \<Rightarrow> path \<Rightarrow> path \<Rightarrow> dev \<Rightarrow> bool \<times> dev" where
  "repack_boot t magiskboot bootimage new_boot workdir s =
     (case run_magiskboot t magiskboot [''repack'', bootimage, new_boot] workdir s of
        (r, s1) \<Rightarrow> (exit_code r = 0 \<and> exists_path (d_os s1) new_boot, s1))"

definition output_step :: "tools \<Rightarrow> boot_patch_args \<Rightarrow> path \<Rightarrow> dev \<Rightarrow> bool \<times> dev" where
  "output_step t a new_boot s =
     (if bp_boot_image a = [] then (True, s)
      else os_step (copy_stream new_boot
             ((if bp_out a = [] then ''.'' else bp_out a) @ ''/'' @
              (if bp_out_name a = [] then ''tamisu_patched_'' @ t_now t @ ''.img'' else bp_out_name a))) s)"

definition flash_step :: "tools \<Rightarrow> bool \<Rightarrow> path \<Rightarrow> path \<Rightarrow> dev \<Rightarrow> bool \<times> dev" where
  "flash_step t flash_wanted bootdevice new_boot s =
     (if flash_wanted \<and> bootdevice \<noteq> [] then flash_boot t bootdevice new_boot s else (True, s))"

definition backup_step :: "tools \<Rightarrow> path \<Rightarrow> path \<Rightarrow> path \<Rightarrow> path \<Rightarrow> bool \<Rightarrow> dev \<Rightarrow> dev" where
  "backup_step t magiskboot workdir ramdisk bootimage wanted s =
     (if wanted then snd (do_backup t magiskboot workdir ramdisk bootimage s) else s)"

section \<open>The patcher\<close>

text \<open>From the unpacked image to the repacked one; the value says whether it was patched before.\<close>

definition patch_ramdisk :: "tools \<Rightarrow> path \<Rightarrow> path \<Rightarrow> path \<Rightarrow> path \<Rightarrow> boot_patch_args \<Rightarrow> string \<Rightarrow> path \<Rightarrow> dev \<Rightarrow> unit option \<times> dev" where
  "patch_ramdisk t magiskboot workdir ramdisk bootimage a kernel_release kmod_file s =
     (case is_magisk_patched t magiskboot workdir ramdisk s of
        (True, s1) \<Rightarrow> (None, s1)
      | (False, s1) \<Rightarrow>
          (case is_tamisu_patched t magiskboot workdir ramdisk s1 of
             (already_patched, s2) \<Rightarrow>
               on_some (inject_module t magiskboot workdir ramdisk kernel_release kmod_file s2) (\<lambda>_ s.
               on_some (adb_step t magiskboot workdir ramdisk a s) (\<lambda>_ s.
                 (let s = backup_step t magiskboot workdir ramdisk bootimage (\<not> already_patched \<and> bp_flash a) s in
                  (Some (), if bp_mkbootfs_dir a = [] then s
                            else snd (repack_ramdisk_with_mkbootfs t magiskboot (bp_mkbootfs_dir a) workdir ramdisk s)))))))"

definition patch_image :: "tools \<Rightarrow> path \<Rightarrow> path \<Rightarrow> boot_patch_args \<Rightarrow> string \<Rightarrow> path \<Rightarrow> path \<Rightarrow> dev \<Rightarrow> unit option \<times> dev" where
  "patch_image t magiskboot workdir a kmi bootimage bootdevice s =
     (let kmod_file = workdir @ ''/tamisu.ko'' in
      on_ok (prepare_lkm t (bp_module a) kmi kmod_file s) (\<lambda>s.
        (let kernel_release = kernel_release_of t (d_os s); new_boot = new_boot_name (bp_boot_image a) bootdevice workdir in
         if kernel_release = [] then (None, s)
         else
           on_ok (unpack_boot t magiskboot bootimage workdir s) (\<lambda>s.
           on_some (find_ramdisk t magiskboot workdir s) (\<lambda>ramdisk s.
           on_some (patch_ramdisk t magiskboot workdir ramdisk bootimage a kernel_release kmod_file s) (\<lambda>_ s.
           on_ok (repack_boot t magiskboot bootimage new_boot workdir s) (\<lambda>s.
           on_ok (output_step t a new_boot s) (\<lambda>s.
           on_ok (flash_step t (bp_flash a) bootdevice new_boot s) (\<lambda>s. (Some (), s))))))))))"

definition boot_patch_in :: "tools \<Rightarrow> path \<Rightarrow> boot_patch_args \<Rightarrow> dev \<Rightarrow> unit option \<times> dev" where
  "boot_patch_in t workdir a s =
     (case find_magiskboot t s of
        None \<Rightarrow> (None, s)
      | Some magiskboot \<Rightarrow>
          (let kmi = (if bp_kmi a = [] then get_current_kmi t (d_os s) else bp_kmi a) in
           if kmi = [] \<and> bp_boot_image a = [] then (None, s)
           else
             on_some (locate_boot t (bp_boot_image a) kmi (bp_ota a)
                 (if bp_partition a = [] then None else Some (bp_partition a)) (bp_kernel a \<noteq> []) workdir s)
               (\<lambda>(bootimage, bootdevice). patch_image t magiskboot workdir a kmi bootimage bootdevice)))"

definition boot_patch :: "tools \<Rightarrow> string list \<Rightarrow> dev \<Rightarrow> int \<times> dev" where
  "boot_patch t args s =
     (case make_workdir t s of
        (None, s1) \<Rightarrow> (1, s1)
      | (Some workdir, s1) \<Rightarrow>
          (case boot_patch_in t workdir (parse_boot_patch_args args) s1 of
             (r, s2) \<Rightarrow> (if r = None then 1 else 0, cleanup t workdir s2)))"

end
