(* ===== verification/Boot_Restore.thy ===== *)
theory Boot_Restore
  imports Boot_Patch
begin

text \<open>\<^verbatim>\<open>boot_restore\<close> of \<^verbatim>\<open>boot/boot_patch.cpp\<close>: the stock image from its backup, or the module removed.\<close>

section \<open>Removing the module\<close>

definition strip_entry ::
  "tools \<Rightarrow> path \<Rightarrow> path \<Rightarrow> path \<Rightarrow> string \<Rightarrow> path \<Rightarrow> (string \<Rightarrow> string) \<Rightarrow> dev \<Rightarrow> dev"
where
  "strip_entry t magiskboot workdir ramdisk entry out_rel strip s =
     (case cpio_entry_exists t magiskboot workdir ramdisk entry s of
        (False, s1) \<Rightarrow> s1
      | (True, s1) \<Rightarrow>
          (case cpio_extract_entry t magiskboot workdir ramdisk entry out_rel s1 of
             (False, s2) \<Rightarrow> s2
           | (True, s2) \<Rightarrow>
               (case read_file (d_os s2) (workdir @ ''/'' @ out_rel) of
                  None \<Rightarrow> s2
                | Some content \<Rightarrow>
                    (let stripped = strip content in
                     if stripped = [] then snd (do_cpio_cmd t magiskboot workdir ramdisk (''rm '' @ entry) s2)
                     else (case os_step (write_file (workdir @ ''/'' @ out_rel) stripped) s2 of
                             (False, s3) \<Rightarrow> s3
                           | (True, s3) \<Rightarrow>
                               snd (do_cpio_cmd t magiskboot workdir ramdisk (''add 0644 '' @ entry @ '' '' @ out_rel) s3))))))"

text \<open>The entries of the module removed; the directories they were in.\<close>

fun remove_modules :: "tools \<Rightarrow> path \<Rightarrow> path \<Rightarrow> path \<Rightarrow> string list \<Rightarrow> dev \<Rightarrow> string list \<times> dev" where
  "remove_modules t magiskboot workdir ramdisk [] s = ([], s)"
| "remove_modules t magiskboot workdir ramdisk (e # es) s =
     (if \<not> is_tamisu_key e then remove_modules t magiskboot workdir ramdisk es s
      else
        (case remove_modules t magiskboot workdir ramdisk es
               (snd (do_cpio_cmd t magiskboot workdir ramdisk (''rm '' @ e) s)) of
           (dirs, s1) \<Rightarrow> ((case rfind_slash e of None \<Rightarrow> dirs | Some slash \<Rightarrow> take slash e # dirs), s1)))"

definition strip_dir :: "tools \<Rightarrow> path \<Rightarrow> path \<Rightarrow> path \<Rightarrow> string \<Rightarrow> dev \<Rightarrow> dev" where
  "strip_dir t magiskboot workdir ramdisk dir s =
     strip_entry t magiskboot workdir ramdisk (dir @ ''/modules.dep'') ''modroot_restore/modules.dep''
       strip_tamisu_from_modules_dep
       (strip_entry t magiskboot workdir ramdisk (dir @ ''/modules.load'') ''modroot_restore/modules.load''
         strip_tamisu_from_modules_load s)"

definition restore_dirs :: "string list \<Rightarrow> string \<Rightarrow> string list" where
  "restore_dirs dirs kernel_release =
     remdups_adj (sort (dirs @ (if kernel_release = [] then [] else [LIB_MODULES @ kernel_release])))"

definition remove_tamisu :: "tools \<Rightarrow> path \<Rightarrow> path \<Rightarrow> path \<Rightarrow> string \<Rightarrow> dev \<Rightarrow> dev" where
  "remove_tamisu t magiskboot workdir ramdisk kernel_release s0 =
     (let s = snd (do_cpio_cmd t magiskboot workdir ramdisk ''rm tamisu.ko'' s0) in
      case cpio_list_entries t magiskboot workdir ramdisk ''lib/modules'' True s of
        (mod_entries, s1) \<Rightarrow>
          (case remove_modules t magiskboot workdir ramdisk mod_entries s1 of
             (dirs, s2) \<Rightarrow>
               (let s3 = snd (os_step (ensure_dir_exists (workdir @ ''/modroot_restore'')) s2);
                    s4 = fold (strip_dir t magiskboot workdir ramdisk) (restore_dirs dirs kernel_release) s3;
                    s5 = remove_if_there t magiskboot workdir ramdisk ''kasumi.ko'' s4
                in case cpio_entry_exists t magiskboot workdir ramdisk ''init.real'' s5 of
                     (there, s6) \<Rightarrow>
                       if there then snd (do_cpio_cmd t magiskboot workdir ramdisk ''mv init.real init'' s6) else s6)))"

section \<open>The backup\<close>

definition backup_path :: "string \<Rightarrow> path" where
  "backup_path sha = TAMISU_BACKUP_DIR @ TAMISU_BACKUP_FILE_PREFIX @ sha"

definition find_backup :: "tools \<Rightarrow> path \<Rightarrow> path \<Rightarrow> path \<Rightarrow> dev \<Rightarrow> path option \<times> dev" where
  "find_backup t magiskboot workdir ramdisk s =
     (case cpio_entry_exists t magiskboot workdir ramdisk BACKUP_FILENAME s of
        (False, s1) \<Rightarrow> (None, s1)
      | (True, s1) \<Rightarrow>
          (let backup_file = workdir @ ''/'' @ BACKUP_FILENAME;
               s2 = snd (cpio_extract_entry t magiskboot workdir ramdisk BACKUP_FILENAME backup_file s1)
           in case read_file (d_os s2) backup_file of
                None \<Rightarrow> (None, s2)
              | Some sha_content \<Rightarrow>
                  if exists_path (d_os s2) (backup_path (trim sha_content))
                  then (Some (backup_path (trim sha_content)), clean_backup (trim sha_content) s2)
                  else (None, s2)))"

section \<open>The restorer\<close>

definition unpack_restore :: "tools \<Rightarrow> path \<Rightarrow> path \<Rightarrow> path \<Rightarrow> dev \<Rightarrow> bool \<times> dev" where
  "unpack_restore t magiskboot bootimage workdir s =
     (case run_magiskboot t magiskboot [''unpack'', bootimage] workdir s of
        (r, s1) \<Rightarrow>
          (case (if exit_code r = SIGSEGV_EXIT
                 then run_magiskboot t magiskboot [''unpack'', bootimage, ''--skip-decomp''] workdir s1 else (r, s1)) of
             (r2, s2) \<Rightarrow> (exit_code r2 = 0 \<and> \<not> is_lz4 (d_os s2) (workdir @ ''/ramdisk.cpio''), s2)))"

text \<open>The image to write: the backup, or the one repacked without the module.\<close>

definition restored_image ::
  "tools \<Rightarrow> path \<Rightarrow> path \<Rightarrow> path \<Rightarrow> boot_restore_args \<Rightarrow> string \<Rightarrow> path \<Rightarrow> path \<Rightarrow> dev \<Rightarrow> path option \<times> dev"
where
  "restored_image t magiskboot workdir ramdisk a kernel_release bootimage bootdevice s =
     (case find_backup t magiskboot workdir ramdisk s of
        (Some backup, s1) \<Rightarrow> (Some backup, s1)
      | (None, s1) \<Rightarrow>
          (let out_img = new_boot_name (br_boot_image a) bootdevice workdir in
           case run_magiskboot t magiskboot [''repack'', bootimage, out_img] workdir
                  (remove_tamisu t magiskboot workdir ramdisk kernel_release s1) of
             (r, s2) \<Rightarrow> (if exit_code r \<noteq> 0 then None else Some out_img, s2)))"

definition restore_output :: "tools \<Rightarrow> boot_restore_args \<Rightarrow> path \<Rightarrow> dev \<Rightarrow> bool \<times> dev" where
  "restore_output t a new_boot s =
     (if br_boot_image a = [] then (True, s)
      else os_step (copy_stream new_boot
             (''./'' @ (if br_out_name a = [] then ''tamisu_restore_'' @ t_now t @ ''.img'' else br_out_name a))) s)"

definition restore_image :: "tools \<Rightarrow> path \<Rightarrow> path \<Rightarrow> boot_restore_args \<Rightarrow> string \<Rightarrow> path \<Rightarrow> path \<Rightarrow> dev \<Rightarrow> unit option \<times> dev" where
  "restore_image t magiskboot workdir a kernel_release bootimage bootdevice s =
     on_ok (unpack_restore t magiskboot bootimage workdir s) (\<lambda>s.
       case find (exists_path (d_os s)) (ramdisk_candidates workdir) of
         None \<Rightarrow> (None, s)
       | Some ramdisk \<Rightarrow>
           on_ok (is_tamisu_patched t magiskboot workdir ramdisk s) (\<lambda>s.
           on_some (restored_image t magiskboot workdir ramdisk a kernel_release bootimage bootdevice s) (\<lambda>new_boot s.
           on_ok (restore_output t a new_boot s) (\<lambda>s.
           on_ok (flash_step t (br_flash a) bootdevice new_boot s) (\<lambda>s. (Some (), s))))))"

definition boot_restore_in :: "tools \<Rightarrow> path \<Rightarrow> boot_restore_args \<Rightarrow> dev \<Rightarrow> unit option \<times> dev" where
  "boot_restore_in t workdir a s =
     (case find_magiskboot t s of
        None \<Rightarrow> (None, s)
      | Some magiskboot \<Rightarrow>
          (let kmi = get_current_kmi t (d_os s); kernel_release = kernel_release_of t (d_os s) in
           on_some (locate_boot t (br_boot_image a) kmi False None False workdir s)
             (\<lambda>(bootimage, bootdevice). restore_image t magiskboot workdir a kernel_release bootimage bootdevice)))"

definition boot_restore :: "tools \<Rightarrow> string list \<Rightarrow> dev \<Rightarrow> int \<times> dev" where
  "boot_restore t args s =
     (case t_mkdtemp t ''/data/local/tmp/Tamisu_XXXXXX'' (d_os s) of
        (None, st) \<Rightarrow> (1, s\<lparr>d_os := st\<rparr>)
      | (Some workdir, st) \<Rightarrow>
          (case boot_restore_in t workdir (parse_boot_restore_args args) (s\<lparr>d_os := st\<rparr>) of
             (r, s2) \<Rightarrow> (if r = None then 1 else 0, cleanup t workdir s2)))"

end
