(* ===== verification/Flash_Props.thy ===== *)
theory Flash_Props
  imports Flash_Partition
begin

text \<open>What the partition flasher writes, what it refuses, and which partitions it lists.\<close>

section \<open>The copy loop\<close>

lemma device_write_fits:
  "pos + length b \<le> length d \<Longrightarrow> device_write pos b d = (length b, take pos d @ b @ drop (pos + length b) d)"
  by (simp add: device_write_def Let_def)

lemma copy_loop_fits:
  "pos + length left \<le> length d \<Longrightarrow> copy_loop pos left d = (True, take pos d @ left @ drop (pos + length left) d)"
proof (induction pos left d rule: copy_loop.induct)
  case (1 pos left d)
  show ?case
  proof (cases "left = []")
    case False
    let ?b = "take 4096 left"
    have "length left > 0" using False by simp
    then have lt: "pos < length d" using 1(2) by linarith
    let ?d = "take pos d @ ?b @ drop (pos + length ?b) d"
    have w: "device_write pos ?b d = (length ?b, ?d)"
      using 1(2) by (intro device_write_fits) auto
    have "pos + length ?b + length (drop 4096 left) \<le> length ?d" using 1(2) by simp
    with 1(1) [of "length ?b" ?d] False w
    have "copy_loop (pos + length ?b) (drop 4096 left) ?d =
        (True, take (pos + length ?b) ?d @ drop 4096 left @ drop (pos + length ?b + length (drop 4096 left)) ?d)" by simp
    also have "take (pos + length ?b) ?d = take pos d @ ?b"
      using lt 1(2) by (cases "length left \<le> 4096") (auto simp: min_def)
    also have "drop (pos + length ?b + length (drop 4096 left)) ?d = drop (pos + length left) d"
    proof -
      have "pos + length ?b + length (drop 4096 left) = pos + length left" by simp
      moreover have "length (take pos d @ ?b) = pos + length ?b" using lt by simp
      moreover have "pos + length ?b \<le> pos + length left" by simp
      ultimately show ?thesis
        unfolding append_assoc [symmetric] by (simp only: drop_append drop_drop) (simp add: add.commute)
    qed
    finally have "copy_loop (pos + length ?b) (drop 4096 left) ?d =
        (True, take pos d @ (?b @ drop 4096 left) @ drop (pos + length left) d)" by (simp only: append_assoc)
    then show ?thesis
      unfolding copy_loop.simps [of pos left d] w prod.case append_take_drop_id by (simp only: False if_False simp_thms)
  qed (simp add: copy_loop.simps [of pos "[]"])
qed

section \<open>Writing a partition\<close>

text \<open>
  What is refused is not touched: without the image, for anything but a block device, or for
  an image larger than the partition, no command runs and nothing changes.
\<close>

theorem flash_refuses:
  assumes "\<not> exists_path (d_os s) img \<or> \<not> is_block_device_path (d_os s) device \<or>
      get_file_size t (d_os s) img > get_file_size t (d_os s) device"
  shows "flash_physical_partition t img device verify s = ([], s)"
  using assms by (auto simp: flash_physical_partition_def Let_def)

text \<open>What \<^verbatim>\<open>dd\<close> from \<^verbatim>\<open>/dev/zero\<close> does to a block device: the device is zero, nothing else changed.\<close>

definition zeroes :: "tools \<Rightarrow> path \<Rightarrow> bool" where
  "zeroes t device \<longleftrightarrow>
     (\<forall>st d. node_at st device = Some (Blk d) \<longrightarrow>
        snd (t_exec t [''/system/bin/sh'', ''-c'', zero_line device] [] st) = put_node device (Blk (replicate (length d) NUL)) st)"

text \<open>
  C31: a successful write leaves the image followed by zeroes on the partition, whose size stays,
  and changes nothing else; the result is the hash of the image file, which is not read back
  from the partition.
\<close>

theorem flash_writes_image:
  assumes "flash_physical_partition t img device verify s = (hash, s')" "hash \<noteq> []" "zeroes t device"
    and "node_at (d_os s) device = Some (Blk d)" "read_file (d_os s) img = Some content"
    and "strip_slash img \<noteq> strip_slash device"
  shows "node_at (d_os s') device = Some (Blk (content @ replicate (length d - length content) NUL)) \<and>
     (\<forall>q. strip_slash q \<noteq> strip_slash device \<longrightarrow> node_at (d_os s') q = node_at (d_os s) q) \<and>
     hash = (if verify then bytes_to_hex (t_sha256 t content) else ''success'')"
proof -
  define zs where "zs = replicate (length d) NUL"
  define s1 where "s1 = (if length content < length d then snd (exec_cmd t (zero_line device) s) else s)"
  have size: "get_file_size t (d_os s) img = length content" "get_file_size t (d_os s) device = length d"
    using assms(4,5) by (auto simp: get_file_size_def read_file_def file_text_def split: option.splits node.splits)
  have there: "exists_path (d_os s) img" "is_block_device_path (d_os s) device"
    using assms(4,5) by (auto simp: exists_path_def read_file_def is_block_device_path_def split: option.splits)
  have le: "length content \<le> length d"
    using assms(1,2) there size by (auto simp: flash_physical_partition_def Let_def split: if_splits)
  have z: "d_os (snd (exec_cmd t (zero_line device) s)) = put_node device (Blk zs) (d_os s)"
    using assms(3,4) by (auto simp: exec_cmd_def run_exec_def zeroes_def zs_def case_prod_beta)
  obtain e where e: "node_at (d_os s1) device = Some (Blk e)" "length e = length d"
    "drop (length content) e = replicate (length d - length content) NUL"
    using assms(4) z le by (cases "length content < length d") (auto simp: s1_def zs_def)
  have im: "read_file (d_os s1) img = Some content"
    using assms(5,6) z by (auto simp: s1_def read_file_def)
  have other: "strip_slash q \<noteq> strip_slash device \<Longrightarrow> node_at (d_os s1) q = node_at (d_os s) q" for q
    using z by (simp add: s1_def)
  have flash: "flash_physical_partition t img device verify s =
      (case write_device device content (d_os s1) of
         None \<Rightarrow> ([], s1)
       | Some (success, st) \<Rightarrow>
           (if \<not> success then [] else if verify then bytes_to_hex (t_sha256 t content) else ''success'', s1\<lparr>d_os := st\<rparr>))"
    using there le im by (simp add: flash_physical_partition_def size Let_def s1_def [symmetric])
  have w: "write_device device content (d_os s1) =
      (if ro_path (d_os s1) device then None
       else Some (True, put_node device (Blk (content @ drop (length content) e)) (d_os s1)))"
    using e le copy_loop_fits [of 0 content e] by (simp add: write_device_def write_node_def)
  show ?thesis using assms(1,2) other e(3) unfolding flash w by (auto split: if_splits)
qed

definition zero_tools :: tools where
  "zero_tools = \<lparr>t_exec = (\<lambda>args wd st.
       (exec_failed\<lparr>exit_code := 0\<rparr>,
        if args = [''/system/bin/sh'', ''-c'', zero_line ''/dev/block/by-name/boot''] then
          (case node_at st ''/dev/block/by-name/boot'' of
             Some (Blk d) \<Rightarrow> put_node ''/dev/block/by-name/boot'' (Blk (replicate (length d) NUL)) st | _ \<Rightarrow> st)
        else st)),
     t_magiskboot = (\<lambda>_ _ _ st. (exec_failed, st)), t_system = (\<lambda>_ st. st), t_mkdtemp = (\<lambda>_ st. (None, st)),
     t_self = None, t_uname = None, t_cwd = None, t_now = [], t_sha256 = (\<lambda>_. [10, 255]), t_supported_kmi = [],
     t_copy_asset = (\<lambda>_ _ st. (False, st)), t_other_size = (\<lambda>_. 0)\<rparr>"

definition flash_dev :: dev where
  "flash_dev = \<lparr>d_os = \<lparr>fs = [(''/sdcard/boot.img'', Reg 420 ''abc''), (''/dev/block/by-name/boot'', Blk ''old boot''),
       (''/dev/block/by-name/vbmeta'', Blk (replicate 200 CHR ''v''))],
     ro_path = (\<lambda>_. False), prop_of = (\<lambda>_. []), env_of = (\<lambda>_. None),
     run_of = (\<lambda>_. \<lparr>pipes_ok = True, fork_ok = True, out_reads = [], err_reads = [], wstatus = Exited 0\<rparr>),
     kernel_safemode = False, trace = []\<rparr>, d_log = []\<rparr>"

theorem flash_refuses_witness:
  "flash_physical_partition zero_tools ''/dev/block/by-name/vbmeta'' ''/dev/block/by-name/boot'' True flash_dev = ([], flash_dev)"
proof -
  have "get_file_size zero_tools (d_os flash_dev) ''/dev/block/by-name/vbmeta'' > get_file_size zero_tools (d_os flash_dev) ''/dev/block/by-name/boot''"
    by code_simp
  then show ?thesis by (intro flash_refuses) blast
qed

theorem flash_writes_image_witness:
  "node_at (d_os (snd (flash_physical_partition zero_tools ''/sdcard/boot.img'' ''/dev/block/by-name/boot'' True flash_dev)))
     ''/dev/block/by-name/boot'' = Some (Blk (''abc'' @ replicate 5 NUL)) \<and>
   fst (flash_physical_partition zero_tools ''/sdcard/boot.img'' ''/dev/block/by-name/boot'' True flash_dev) = ''0aff''"
proof -
  let ?r = "flash_physical_partition zero_tools ''/sdcard/boot.img'' ''/dev/block/by-name/boot'' True flash_dev"
  have z: "zeroes zero_tools ''/dev/block/by-name/boot''" by (simp add: zeroes_def zero_tools_def)
  have h: "fst ?r = ''0aff''" by code_simp
  then have r: "?r = (''0aff'', snd ?r)" by (metis prod.collapse)
  have n: "node_at (d_os flash_dev) ''/dev/block/by-name/boot'' = Some (Blk ''old boot'')" by code_simp
  have i: "read_file (d_os flash_dev) ''/sdcard/boot.img'' = Some ''abc''" by code_simp
  have "strip_slash ''/sdcard/boot.img'' \<noteq> strip_slash ''/dev/block/by-name/boot''" by code_simp
  from flash_writes_image [OF r _ z n i this] show ?thesis using h by (simp add: eval_nat_numeral)
qed

section \<open>The flags of vbmeta\<close>

text \<open>Asking for the slot does not change the system and gives the same answer each time.\<close>

definition slot_is :: "tools \<Rightarrow> string \<Rightarrow> bool" where
  "slot_is t cur \<longleftrightarrow> (\<forall>st. snd (t_exec t [''getprop'', ''ro.boot.slot_suffix''] [] st) = st \<and>
     trim (stdout_str (fst (t_exec t [''getprop'', ''ro.boot.slot_suffix''] [] st))) = cur)"

lemma current_slot_is:
  assumes "slot_is t cur"
  shows "fst (get_current_slot_suffix t s) = cur" "d_os (snd (get_current_slot_suffix t s)) = d_os s"
  using assms by (simp_all add: slot_is_def get_current_slot_suffix_def run_exec_def case_prod_beta)

text \<open>The device found depends on the block devices there are only.\<close>

definition found_at :: "string \<Rightarrow> string \<Rightarrow> string \<Rightarrow> os \<Rightarrow> path" where
  "found_at cur name slot st =
     (case find (is_block_device_path st)
        (partition_candidates name (if is_slotful name then [] else if slot \<noteq> [] then slot else cur)) of
        Some p \<Rightarrow> p | None \<Rightarrow> [])"

lemma find_partition_reads:
  assumes "slot_is t cur"
  shows "fst (find_partition_block_device t name slot s) = found_at cur name slot (d_os s)"
    "d_os (snd (find_partition_block_device t name slot s)) = d_os s"
proof -
  define x where "x = (if is_slotful name then ([], s) else if slot \<noteq> [] then (slot, s) else get_current_slot_suffix t s)"
  have x: "fst x = (if is_slotful name then [] else if slot \<noteq> [] then slot else cur)" "d_os (snd x) = d_os s"
    using current_slot_is [OF assms] by (auto simp: x_def)
  have "find_partition_block_device t name slot s =
     (case find (is_block_device_path (d_os (snd x))) (partition_candidates name (fst x)) of
        Some p \<Rightarrow> (p, snd x) | None \<Rightarrow> ([], snd x))"
    by (simp add: find_partition_block_device_def x_def [symmetric] case_prod_beta)
  then show "fst (find_partition_block_device t name slot s) = found_at cur name slot (d_os s)"
    "d_os (snd (find_partition_block_device t name slot s)) = d_os s"
    by (auto simp: found_at_def x split: option.splits)
qed

lemma found_at_same: "is_block_device_path st' = is_block_device_path st \<Longrightarrow> found_at cur name slot st' = found_at cur name slot st"
  by (simp add: found_at_def)

lemma found_at_block: "found_at cur name slot st \<noteq> [] \<Longrightarrow> is_block_device_path st (found_at cur name slot st)"
proof -
  let ?f = "find (is_block_device_path st)
      (partition_candidates name (if is_slotful name then [] else if slot \<noteq> [] then slot else cur))"
  assume "found_at cur name slot st \<noteq> []"
  then obtain p where p: "?f = Some p" unfolding found_at_def by (cases ?f) auto
  then have "is_block_device_path st p" by (auto simp: find_Some_iff)
  then show ?thesis unfolding found_at_def p by simp
qed

lemma block_put: "node_at st p = Some (Blk d) \<Longrightarrow> is_block_device_path (put_node p (Blk e) st) = is_block_device_path st"
  by (auto simp: is_block_device_path_def node_at_put fun_eq_iff) (auto simp: node_at_def)

lemma vbmeta_bytes:
  assumes "device_write 123 [NUL, NUL, NUL, char_of (3::nat)] d = (4, e)" "123 \<le> length d"
  shows "e = take 123 d @ [NUL, NUL, NUL, char_of (3::nat)] @ drop 127 d" "127 \<le> length d"
proof -
  have "fst (device_write 123 [NUL, NUL, NUL, char_of (3::nat)] d) = 4" by (simp add: assms(1))
  then show "127 \<le> length d" using assms(2) by (simp add: device_write_def Let_def min_def split: if_splits)
  with device_write_fits [of 123 "[NUL, NUL, NUL, char_of (3::nat)]" d] assms(1)
  show "e = take 123 d @ [NUL, NUL, NUL, char_of (3::nat)] @ drop 127 d" by simp
qed

text \<open>
  Patching vbmeta makes the daemon report verification as disabled, and changes nothing but
  the four bytes from offset 123 of the device.
\<close>

theorem vbmeta_patch_reports_disabled:
  assumes "patch_vbmeta_disable_verification t s = (True, s')" "slot_is t cur"
  shows "fst (get_avb_status t s') = ''disabled'' \<and>
     (\<exists>dev d. node_at (d_os s) dev = Some (Blk d) \<and>
        d_os s' = put_node dev (Blk (take 123 d @ [NUL, NUL, NUL, char_of (3::nat)] @ drop 127 d)) (d_os s))"
proof -
  let ?dev = "found_at cur ''vbmeta'' [] (d_os s)"
  obtain s1 where f: "find_partition_block_device t ''vbmeta'' [] s = (?dev, s1)" "d_os s1 = d_os s"
    using find_partition_reads [OF assms(2), of "''vbmeta''" "[]" s] by (metis prod.collapse)
  obtain d e where d: "?dev \<noteq> []" "node_at (d_os s) ?dev = Some (Blk d)" "123 \<le> length d"
    "device_write 123 [NUL, NUL, NUL, char_of (3::nat)] d = (4, e)" "s' = on_dev (put_node ?dev (Blk e)) s1"
    using assms(1)
    by (auto simp: patch_vbmeta_disable_verification_def f split: if_splits option.splits node.splits prod.splits)
  have e: "e = take 123 d @ [NUL, NUL, NUL, char_of (3::nat)] @ drop 127 d" "127 \<le> length d"
    using vbmeta_bytes [OF d(4,3)] by auto
  have os: "d_os s' = put_node ?dev (Blk e) (d_os s)" using d(5) f(2) by simp
  obtain s2 where g: "find_partition_block_device t ''vbmeta'' [] s' = (?dev, s2)" "d_os s2 = d_os s'"
    using find_partition_reads [OF assms(2), of "''vbmeta''" "[]" s'] found_at_same [OF block_put [OF d(2)], of cur "''vbmeta''" "[]" e] os
    by (metis prod.collapse)
  have "take 4 (drop 123 e) = [NUL, NUL, NUL, char_of (3::nat)]" using e by simp
  then have "fst (get_avb_status t s') = ''disabled''"
    using d(1) by (simp add: get_avb_status_def g read_file_def os file_text_def)
  with d(2) os e(1) show ?thesis by blast
qed

theorem vbmeta_patch_reports_disabled_witness:
  "fst (patch_vbmeta_disable_verification zero_tools flash_dev) \<and>
   fst (get_avb_status zero_tools flash_dev) = ''enabled'' \<and>
   fst (get_avb_status zero_tools (snd (patch_vbmeta_disable_verification zero_tools flash_dev))) = ''disabled''"
proof -
  have s: "slot_is zero_tools []" by (simp add: slot_is_def zero_tools_def exec_failed_def trim_def)
  have ok: "fst (patch_vbmeta_disable_verification zero_tools flash_dev)"
    "fst (get_avb_status zero_tools flash_dev) = ''enabled''" by code_simp+
  then have "patch_vbmeta_disable_verification zero_tools flash_dev =
      (True, snd (patch_vbmeta_disable_verification zero_tools flash_dev))" by (metis prod.collapse)
  from vbmeta_patch_reports_disabled [OF this s] ok show ?thesis by simp
qed

section \<open>The list of partitions\<close>

lemma add_partition_set:
  "set (add_partition sfx e ps) = (case slot_name sfx e of None \<Rightarrow> set ps | Some n \<Rightarrow> insert n (set ps))"
  by (auto simp: add_partition_def split: option.splits)

lemma add_partition_distinct: "distinct ps \<Longrightarrow> distinct (add_partition sfx e ps)"
  by (simp add: add_partition_def split: option.splits)

lemma add_partitions:
  "x \<in> set (fold (add_partition sfx) es ps) \<longleftrightarrow> x \<in> set ps \<or> (\<exists>e. e \<in> set es \<and> slot_name sfx e = Some x)"
  "distinct ps \<Longrightarrow> distinct (fold (add_partition sfx) es ps)"
proof (induction es arbitrary: ps)
  case (Cons e es)
  { case 1 show ?case by (auto simp: Cons.IH(1) add_partition_set split: option.splits) }
  { case 2 then show ?case by (simp add: Cons.IH(2) add_partition_distinct) }
qed auto

text \<open>
  The list of all partitions of a slot is sorted without duplicates and holds exactly the
  names, less the suffix of the slot, of the block devices by name and in the mapper, virtual
  ones left out; the partitions of the other slot are not in it.
\<close>

theorem all_partitions_listed:
  assumes "slot \<noteq> []"
  shows "sorted (fst (get_all_partitions t slot s)) \<and> distinct (fst (get_all_partitions t slot s)) \<and>
    (x \<in> set (fst (get_all_partitions t slot s)) \<longleftrightarrow>
      (\<exists>e. slot_name slot e = Some x \<and>
         (e \<in> set (block_entries (d_os s) ''/dev/block/by-name'') \<or>
          e \<in> set (block_entries (d_os s) ''/dev/block/mapper'') \<and> \<not> skip_mapper e)))"
proof -
  have r: "fst (get_all_partitions t slot s) =
      sort (fold (add_partition slot) (filter (\<lambda>e. \<not> skip_mapper e) (block_entries (d_os s) ''/dev/block/mapper''))
        (fold (add_partition slot) (block_entries (d_os s) ''/dev/block/by-name'') []))"
    using assms by (simp add: get_all_partitions_def)
  show ?thesis unfolding r by (auto simp: add_partitions)
qed

definition slots_dev :: dev where
  "slots_dev = \<lparr>d_os = \<lparr>fs = map (\<lambda>n. (''/dev/block/by-name/'' @ n, Blk ''x'')) [''vbmeta_b'', ''boot_a'', ''boot_b'', ''misc''] @
       [(''/dev/block/by-name'', Dir), (''/dev/block/mapper'', Dir), (''/dev/block/mapper/system_a'', Blk ''y''),
        (''/dev/block/mapper/system_a-cow'', Blk ''y'')],
     ro_path = (\<lambda>_. False), prop_of = (\<lambda>_. []), env_of = (\<lambda>_. None),
     run_of = (\<lambda>_. \<lparr>pipes_ok = True, fork_ok = True, out_reads = [], err_reads = [], wstatus = Exited 0\<rparr>),
     kernel_safemode = False, trace = []\<rparr>, d_log = []\<rparr>"

theorem all_partitions_listed_witness:
  "fst (get_all_partitions zero_tools ''_a'' slots_dev) = [''boot'', ''misc'', ''system''] \<and>
   ''vbmeta'' \<notin> set (fst (get_all_partitions zero_tools ''_a'' slots_dev)) \<and>
   sorted (fst (get_all_partitions zero_tools ''_a'' slots_dev))"
proof -
  have "fst (get_all_partitions zero_tools ''_a'' slots_dev) = [''boot'', ''misc'', ''system'']" by code_simp
  then show ?thesis using all_partitions_listed [of "''_a''" zero_tools slots_dev "''vbmeta''"] by simp
qed

section \<open>The kernel's version\<close>

lemma scan_kernel_pieces:
  "length left = 4096 * k + r \<Longrightarrow> r < 4096 \<Longrightarrow> scan_kernel left n buf = scan_kernel (take (4096 * k) left) n buf"
proof (induction k arbitrary: left n buf)
  case 0
  then show ?case by (simp add: scan_kernel.simps [of left] scan_kernel.simps [of "[]"])
next
  case (Suc k)
  have "length (drop 4096 left) = 4096 * k + r" using Suc.prems(1) by simp
  note IH = Suc.IH [OF this Suc.prems(2)]
  have t: "take 4096 (take (4096 * Suc k) left) = take 4096 left"
    "drop 4096 (take (4096 * Suc k) left) = take (4096 * k) (drop 4096 left)"
    by (simp_all add: drop_take min_def)
  have l: "\<not> length left < 4096" "\<not> length (take (4096 * Suc k) left) < 4096" using Suc.prems(1) by simp_all
  show ?case
    unfolding scan_kernel.simps [of left n buf] scan_kernel.simps [of "take (4096 * Suc k) left" n buf] t Let_def
    by (simp only: l IH simp_thms)
qed

text \<open>
  Reading the kernel file directly never looks at its last, partial piece of 4096 bytes: a
  version that is only there is not found.
\<close>

theorem last_piece_unread:
  assumes "length d mod 4096 = 0" "length rest < 4096"
  shows "scan_kernel (d @ rest) 0 [] = scan_kernel d 0 []"
proof -
  obtain k where k: "length d = 4096 * k" using assms(1) by (metis mult_div_mod_eq add.right_neutral)
  then show ?thesis using scan_kernel_pieces [of "d @ rest" k "length rest" 0 "[]"] assms(2) by simp
qed

theorem last_piece_unread_witness: "scan_kernel (''Linux version 6.6'' @ [NUL]) 0 [] = []"
proof -
  have "scan_kernel ([] @ ''Linux version 6.6'' @ [NUL]) 0 [] = scan_kernel [] 0 []"
    by (rule last_piece_unread) simp_all
  then show ?thesis by (simp add: scan_kernel.simps)
qed

section \<open>Quoting\<close>

text \<open>The shell's reading of one word (POSIX): quoted pieces, escaped characters, until a blank.\<close>

fun sh_word :: "bool \<Rightarrow> string \<Rightarrow> string \<Rightarrow> (string \<times> string) option" where
  "sh_word quoted [] out = (if quoted then None else Some (out, []))"
| "sh_word True (c # cs) out = (if c = APOS then sh_word False cs out else sh_word True cs (out @ [c]))"
| "sh_word False (c # cs) out =
     (if c = APOS then sh_word True cs out
      else if c = BACKSLASH then (case cs of [] \<Rightarrow> None | d # ds \<Rightarrow> sh_word False ds (out @ [d]))
      else if is_space c then Some (out, c # cs)
      else sh_word False cs (out @ [c]))"

lemma sh_word_quoted:
  "sh_word True (concat (map (\<lambda>c. if c = APOS then [APOS, BACKSLASH, APOS, APOS] else [c]) v) @ APOS # rest) out =
     sh_word False rest (out @ v)"
  by (induction v arbitrary: out) auto

text \<open>
  A quoted argument is one word for the shell and reads back as it was, whatever characters
  it holds, so that a path cannot add a command to the lines \<^verbatim>\<open>dd\<close> is run by.
\<close>

theorem shell_quote_reads_back:
  "sh_word False (shell_quote v @ [CHR 0x20] @ rest) [] = Some (v, [CHR 0x20] @ rest)"
  by (simp add: shell_quote_def sh_word_quoted is_space_def)

end
