(* ===== verification/Boot_Text_Props.thy ===== *)
theory Boot_Text_Props
  imports Boot_Text Flash_Props
begin

text \<open>The module lists, the KMI, the arguments and the choice of the boot partition.\<close>

section \<open>Entries of a module list\<close>

text \<open>What counts in a list: its lines without blanks around them, empty ones left out.\<close>

definition entries :: "string \<Rightarrow> string list" where
  "entries s = filter (\<lambda>l. l \<noteq> []) (map trim (split s NL))"

definition mentions_load :: "string \<Rightarrow> bool" where
  "mentions_load s \<longleftrightarrow> list_ex (\<lambda>l. hd l \<noteq> CHR ''#'' \<and> names_module ''tamisu.ko'' l) (entries s)"

lemma split_append_line:
  "NL \<notin> set l \<Longrightarrow> split (s @ NL # l) NL = split (s @ [NL]) NL @ split l NL"
proof (induction s rule: length_induct)
  case (1 s)
  show ?case
  proof (cases "NL \<in> set s")
    case True
    then obtain a b where s: "s = a @ NL # b" and a: "NL \<notin> set a" by (metis split_list_first)
    then have "length b < length s" by simp
    then have "split (b @ NL # l) NL = split (b @ [NL]) NL @ split l NL" using 1 by blast
    then show ?thesis using a by (simp add: s split_def)
  next
    case False
    then show ?thesis by (simp add: split_def)
  qed
qed

lemma split_append_nl: "split (s @ [NL]) NL = (if s = [] then [[]] else if last s = NL then split s NL @ [[]] else split s NL)"
proof (induction s rule: length_induct)
  case (1 s)
  show ?case
  proof (cases "NL \<in> set s")
    case True
    then obtain a b where s: "s = a @ NL # b" and a: "NL \<notin> set a" by (metis split_list_first)
    then have "length b < length s" by simp
    then have "split (b @ [NL]) NL = (if b = [] then [[]] else if last b = NL then split b NL @ [[]] else split b NL)"
      using 1 by blast
    then show ?thesis using a getline_all_line [OF a, of "[]"] by (auto simp: s split_def)
  next
    case False
    moreover from this have "s \<noteq> [] \<Longrightarrow> last s \<noteq> NL" by (metis last_in_set)
    ultimately show ?thesis using getline_all_line [of NL "[]" "[]"] getline_all_line [of NL s "[]"]
      by (auto simp: split_def getline_all_last)
  qed
qed

lemma entries_nl: "entries (s @ [NL]) = entries s"
  by (auto simp: entries_def split_append_nl) (simp add: split_def)

lemma trim_cr: "trim (s @ [CR]) = trim s"
proof -
  have c: "is_trim_char CR" by (simp add: is_trim_char_def)
  show ?thesis
  proof (cases "dropWhile is_trim_char s = []")
    case True
    then have "dropWhile is_trim_char (s @ [CR]) = []" using c by (simp add: dropWhile_append)
    with True show ?thesis by (simp add: trim_def)
  next
    case False
    then have "dropWhile is_trim_char (s @ [CR]) = dropWhile is_trim_char s @ [CR]"
      by (auto simp: dropWhile_append dropWhile_eq_Nil_conv)
    then show ?thesis using c by (simp add: trim_alt)
  qed
qed

lemma entries_cr: "entries (s @ [CR]) = entries s"
proof (cases "NL \<in> set s")
  case True
  then obtain a b where s: "s = a @ NL # b" and b: "NL \<notin> set b" by (metis split_list_last)
  have "NL \<notin> set (b @ [CR])" using b by simp
  then have "split (s @ [CR]) NL = split (a @ [NL]) NL @ split (b @ [CR]) NL" "split s NL = split (a @ [NL]) NL @ split b NL"
    using split_append_line [of "b @ [CR]" a] split_append_line [OF b, of a] by (simp_all add: s)
  moreover have "filter (\<lambda>l. l \<noteq> []) (map trim (split (b @ [CR]) NL)) = filter (\<lambda>l. l \<noteq> []) (map trim (split b NL))"
    using b trim_cr [of b] by (cases "b = []") (simp_all add: split_def getline_all_last trim_def is_trim_char_def)
  ultimately show ?thesis by (simp add: entries_def)
next
  case False
  then show ?thesis using trim_cr [of s]
    by (cases "s = []") (simp_all add: entries_def split_def getline_all_last trim_def is_trim_char_def)
qed

lemma entries_ends: "(\<And>c. c \<in> set e \<Longrightarrow> c = NL \<or> c = CR) \<Longrightarrow> entries (s @ e) = entries s"
proof (induction e rule: rev_induct)
  case (snoc c e)
  have "entries ((s @ e) @ [c]) = entries (s @ e)" using snoc.prems [of c] entries_nl entries_cr by fastforce
  then show ?case using snoc by simp
qed simp

lemma ensure_newline_split:
  "s \<noteq> [] \<Longrightarrow> \<exists>b e. s = b @ e \<and> ensure_trailing_newline s = b @ [NL] \<and> (\<forall>c \<in> set e. c = NL \<or> c = CR)"
proof -
  assume "s \<noteq> []"
  let ?P = "\<lambda>c. c \<in> set [NL, CR]"
  have "s = rev (dropWhile ?P (rev s)) @ rev (takeWhile ?P (rev s))"
    by (metis rev_append rev_rev_ident takeWhile_dropWhile_id)
  moreover have "ensure_trailing_newline s = rev (dropWhile ?P (rev s)) @ [NL]"
    using \<open>s \<noteq> []\<close> by (simp add: ensure_trailing_newline_def)
  moreover have "\<forall>c \<in> set (rev (takeWhile ?P (rev s))). c = NL \<or> c = CR" by (auto dest: set_takeWhileD)
  ultimately show ?thesis by blast
qed

text \<open>A line added after the newline is one more entry.\<close>

lemma entries_added:
  assumes "NL \<notin> set l" "trim l \<noteq> []"
  shows "entries (ensure_trailing_newline s @ l @ [NL]) = entries s @ [trim l]"
proof (cases "s = []")
  case True
  have "l \<noteq> []" using assms(2) by (auto simp: trim_def)
  then show ?thesis using True assms by (simp add: ensure_trailing_newline_def entries_def split_def getline_all_line [of NL l "[]"])
next
  case False
  then obtain b e where b: "s = b @ e" "ensure_trailing_newline s = b @ [NL]" "\<forall>c \<in> set e. c = NL \<or> c = CR"
    using ensure_newline_split by blast
  have "split (b @ NL # l @ [NL]) NL = split (b @ [NL]) NL @ [l]"
  proof -
    have "split ((b @ NL # l) @ [NL]) NL = split (b @ NL # l) NL"
      using assms(1,2) split_append_nl [of "b @ NL # l"] by (cases l rule: rev_cases) (auto simp: trim_def)
    moreover have "l \<noteq> []" using assms(2) by (auto simp: trim_def)
    ultimately show ?thesis using split_append_line [OF assms(1), of b] getline_all_last [OF assms(1)] by (simp add: split_def)
  qed
  then have "entries (b @ NL # l @ [NL]) = entries (b @ [NL]) @ [trim l]" using assms(2) by (simp add: entries_def)
  moreover have "entries (b @ [NL]) = entries s" using entries_nl entries_ends b by metis
  ultimately show ?thesis using b(2) by simp
qed

lemma merge_load_cases:
  "merge_modules_load s ''tamisu.ko'' =
     (if mentions_load s then s else ensure_trailing_newline s @ ''tamisu.ko'' @ [NL])"
proof -
  have t: "trim ''tamisu.ko'' = ''tamisu.ko''" by (simp add: trim_def is_trim_char_def)
  have "list_ex (\<lambda>line. trim line \<noteq> [] \<and> hd (trim line) \<noteq> CHR ''#'' \<and> names_module ''tamisu.ko'' (trim line)) (split s NL) \<longleftrightarrow>
      mentions_load s"
    by (auto simp: mentions_load_def entries_def list_ex_iff)
  then show ?thesis unfolding merge_modules_load_def Let_def t by simp
qed

lemma entries_merge_load:
  "entries (merge_modules_load s ''tamisu.ko'') = entries s @ (if mentions_load s then [] else [''tamisu.ko''])"
proof -
  have t: "trim ''tamisu.ko'' = ''tamisu.ko''" by (simp add: trim_def is_trim_char_def)
  show ?thesis using entries_added [of "''tamisu.ko''" s] by (simp add: merge_load_cases t)
qed

lemma mentions_merged: "mentions_load (merge_modules_load s ''tamisu.ko'')"
  using entries_merge_load [of s] by (auto simp: mentions_load_def names_module_def split: if_splits)

text \<open>
  Merging the module into the list of a stock ramdisk keeps every entry in its place, adds the
  module at the end unless it is named already, and merging again changes nothing.
\<close>

theorem load_list_merged:
  "entries (merge_modules_load s ''tamisu.ko'') = entries s @ (if mentions_load s then [] else [''tamisu.ko'']) \<and>
   merge_modules_load (merge_modules_load s ''tamisu.ko'') ''tamisu.ko'' = merge_modules_load s ''tamisu.ko''"
  using entries_merge_load [of s] mentions_merged [of s] merge_load_cases [of "merge_modules_load s ''tamisu.ko''"] by simp

lemma entries_unlines:
  "(\<And>l. l \<in> set ls \<Longrightarrow> NL \<notin> set l) \<Longrightarrow> entries (unlines NL ls) = filter (\<lambda>l. l \<noteq> []) (map trim ls)"
  by (simp add: entries_def)

lemma filter_trimmed:
  "filter (\<lambda>l. l \<noteq> []) (map trim (filter (\<lambda>line. trim line \<noteq> [] \<and> \<not> P (trim line)) ls)) =
     filter (\<lambda>l. \<not> P l) (filter (\<lambda>l. l \<noteq> []) (map trim ls))"
  by (induction ls) auto

lemma entries_strip_load:
  "entries (strip_tamisu_from_modules_load s) = filter (\<lambda>l. \<not> is_tamisu_load l) (entries s)"
proof -
  have "\<And>l. l \<in> set (split s NL) \<Longrightarrow> NL \<notin> set l" by (simp add: split_def getline_all_no_delim)
  then have "entries (strip_tamisu_from_modules_load s) =
      filter (\<lambda>l. l \<noteq> []) (map trim (filter (\<lambda>line. trim line \<noteq> [] \<and> \<not> is_tamisu_load (trim line)) (split s NL)))"
    unfolding strip_tamisu_from_modules_load_def by (intro entries_unlines) simp
  also have "\<dots> = filter (\<lambda>l. \<not> is_tamisu_load l) (entries s)"
    unfolding entries_def by (rule filter_trimmed)
  finally show ?thesis .
qed

text \<open>
  Restoring undoes patching on the list of modules: the entries of a list without the module
  come back in their order, and what restoring leaves never names the module.
\<close>

theorem load_list_restored:
  assumes "list_all (\<lambda>l. \<not> is_tamisu_load l) (entries s)"
  shows "entries (strip_tamisu_from_modules_load (merge_modules_load s ''tamisu.ko'')) = entries s"
proof -
  have "filter (\<lambda>l. \<not> is_tamisu_load l) (entries s) = entries s" using assms by (simp add: list_all_iff filter_id_conv)
  moreover have "is_tamisu_load ''tamisu.ko''" by (simp add: is_tamisu_load_def)
  ultimately show ?thesis by (simp add: entries_strip_load entries_merge_load)
qed

theorem load_list_restored_witness:
  "entries (strip_tamisu_from_modules_load (merge_modules_load (''ufs.ko'' @ [NL] @ ''zram.ko'' @ [CR, NL]) ''tamisu.ko'')) =
     [''ufs.ko'', ''zram.ko'']"
proof -
  have e: "entries (''ufs.ko'' @ [NL] @ ''zram.ko'' @ [CR, NL]) = [''ufs.ko'', ''zram.ko'']" by code_simp
  moreover have "list_all (\<lambda>l. \<not> is_tamisu_load l) [''ufs.ko'', ''zram.ko'']" by code_simp
  ultimately show ?thesis using load_list_restored [of "''ufs.ko'' @ [NL] @ ''zram.ko'' @ [CR, NL]"] by metis
qed

section \<open>The KMI\<close>

lemma find_str_after: "CHR ''-'' \<notin> set a \<Longrightarrow> find_str ''-android'' (a @ ''-android'' @ b) = Some (length a)"
proof (induction a)
  case (Cons x a)
  then have "\<not> prefix ''-android'' ((x # a) @ ''-android'' @ b)" by auto
  with Cons show ?case by simp
qed simp

lemma major_minor_release:
  assumes "CHR ''.'' \<notin> set a" "CHR ''.'' \<notin> set b"
  shows "major_minor_of (a @ ''.'' @ b @ ''.'' @ c) = Some (a @ ''.'' @ b)"
proof -
  have 1: "find_char CHR ''.'' (a @ ''.'' @ b @ ''.'' @ c) = Some (length a)"
    using find_char_append [OF assms(1), of "b @ ''.'' @ c"] by simp
  have 2: "find_char CHR ''.'' (b @ ''.'' @ c) = Some (length b)"
    using find_char_append [OF assms(2), of c] by simp
  have "drop (length a + 1) (a @ ''.'' @ b @ ''.'' @ c) = b @ ''.'' @ c" by simp
  then have "find_from CHR ''.'' (length a + 1) (a @ ''.'' @ b @ ''.'' @ c) = Some (length a + 1 + length b)"
    unfolding find_from_def by (simp only: 2 option.map)
  with 1 show ?thesis by (simp add: major_minor_of_def)
qed

text \<open>
  The KMI of a GKI release is its Android version and its major and minor version, whatever
  modules are embedded: \<^verbatim>\<open>6.6.66-android15-8-g29d86\<close> gives \<^verbatim>\<open>android15-6.6\<close>.
\<close>

theorem kmi_of_gki_release:
  assumes "CHR ''.'' \<notin> set a" "CHR ''.'' \<notin> set b" "CHR ''-'' \<notin> set a" "CHR ''-'' \<notin> set b" "CHR ''-'' \<notin> set c"
    and "CHR ''-'' \<notin> set n"
  shows "kmi_of_release supported (a @ ''.'' @ b @ ''.'' @ c @ ''-android'' @ n @ ''-'' @ r) = ''android'' @ n @ ''-'' @ a @ ''.'' @ b"
proof -
  let ?v = "a @ ''.'' @ b @ ''.'' @ c @ ''-android'' @ n @ ''-'' @ r"
  let ?p = "a @ ''.'' @ b @ ''.'' @ c"
  have mm: "major_minor_of ?v = Some (a @ ''.'' @ b)" by (rule major_minor_release) (use assms in auto)
  have "CHR ''-'' \<notin> set ?p" using assms by simp
  from find_str_after [OF this, of "n @ ''-'' @ r"]
  have f: "find_str ''-android'' ?v = Some (length ?p)" by (simp only: append_assoc)
  have "?v = (?p @ ''-android'') @ n @ ''-'' @ r" "length (?p @ ''-android'') = length ?p + 8" by simp_all
  then have d: "drop (length ?p + 8) ?v = n @ ''-'' @ r" by (metis append_eq_conv_conj)
  have "find_from CHR ''-'' (length ?p + 8) ?v = Some (length ?p + 8 + length n)"
    using find_char_append [OF assms(6), of r] unfolding find_from_def d by simp
  then show ?thesis unfolding kmi_of_release_def mm option.case f Let_def d by simp
qed

theorem kmi_of_gki_release_witness: "kmi_of_release [] ''6.6.66-android15-8-g29d86c5fc9dd'' = ''android15-6.6''"
  using kmi_of_gki_release [of "''6''" "''6''" "''66''" "''15''" "[]" "''8-g29d86c5fc9dd''"] by simp

lemma best_kmi_result:
  "best_kmi mm ks v best = best \<and> (\<forall>k \<in> set ks. \<forall>w. kmi_android mm k = Some w \<longrightarrow> w \<le> v) \<or>
   (\<exists>w > v. best_kmi mm ks v best \<in> set ks \<and> kmi_android mm (best_kmi mm ks v best) = Some w \<and>
      (\<forall>k \<in> set ks. \<forall>w'. kmi_android mm k = Some w' \<longrightarrow> w' \<le> w))"
proof (induction ks arbitrary: v best)
  case (Cons k ks)
  show ?case
  proof (cases "kmi_android mm k")
    case None
    then show ?thesis using Cons [of v best] by auto
  next
    case (Some u)
    show ?thesis
    proof (cases "u > v")
      case True
      then show ?thesis using Some Cons [of u k] by fastforce
    next
      case False
      then show ?thesis using Some Cons [of v best] by fastforce
    qed
  qed
qed simp

text \<open>
  For a release without an Android version the KMI is one of the embedded ones, of the same
  kernel version and the highest Android version among those, when there is one; else it is the
  kernel version alone.
\<close>

theorem kmi_fallback_best:
  assumes "major_minor_of v = Some mm" "\<not> contains ''-android'' v" "kmi_android mm k = Some w" "k \<in> set supported" "0 \<le> w"
  shows "kmi_of_release supported v \<in> set supported \<and>
     (\<exists>u. kmi_android mm (kmi_of_release supported v) = Some u \<and> w \<le> u)"
proof -
  have r: "kmi_of_release supported v =
      (if best_kmi mm supported (- 1) [] \<noteq> [] then best_kmi mm supported (- 1) [] else mm)"
    using assms(1,2) by (simp add: kmi_of_release_def contains_def Let_def)
  have e: "kmi_android mm [] = None" by (simp add: kmi_android_def)
  from best_kmi_result [of mm supported "- 1" "[]"] assms(3-5)
  obtain u where u: "best_kmi mm supported (- 1) [] \<in> set supported" "kmi_android mm (best_kmi mm supported (- 1) []) = Some u" "w \<le> u"
    by fastforce
  then have "best_kmi mm supported (- 1) [] \<noteq> []" using e by auto
  with u show ?thesis by (simp add: r)
qed

theorem kmi_fallback_best_witness:
  "kmi_of_release [''android13-6.1'', ''android14-6.1'', ''android15-6.6''] ''6.1.99-custom'' \<in>
     set [''android13-6.1'', ''android14-6.1'', ''android15-6.6''] \<and>
   kmi_of_release [''android13-6.1'', ''android14-6.1'', ''android15-6.6''] ''6.1.99-custom'' = ''android14-6.1''"
proof -
  have m: "major_minor_of ''6.1.99-custom'' = Some ''6.1''" by code_simp
  have c: "\<not> contains ''-android'' ''6.1.99-custom''" by code_simp
  have k: "kmi_android ''6.1'' ''android14-6.1'' = Some 14" by code_simp
  have r: "kmi_of_release [''android13-6.1'', ''android14-6.1'', ''android15-6.6''] ''6.1.99-custom'' = ''android14-6.1''"
    by code_simp
  from kmi_fallback_best [OF m c k, of "[''android13-6.1'', ''android14-6.1'', ''android15-6.6'']"] r show ?thesis by simp
qed

section \<open>The arguments\<close>

definition value_args :: "string \<Rightarrow> string \<Rightarrow> string list" where
  "value_args name v = (if v = [] then [] else [name, v])"

definition render_args :: "boot_patch_args \<Rightarrow> string list" where
  "render_args a =
     value_args ''--boot'' (bp_boot_image a) @ value_args ''--kernel'' (bp_kernel a) @ value_args ''--module'' (bp_module a) @
     value_args ''--out'' (bp_out a) @ value_args ''--magiskboot'' (bp_magiskboot a) @
     value_args ''--mkbootfs-dir'' (bp_mkbootfs_dir a) @ value_args ''--kmi'' (bp_kmi a) @
     value_args ''--partition'' (bp_partition a) @ value_args ''--out-name'' (bp_out_name a) @
     value_args ''--adb-debug-prop'' (bp_adb_debug_prop a) @ (if bp_ota a then [''--ota''] else []) @
     (if bp_flash a then [''--flash''] else []) @ (if bp_enable_adbd a then [''--enable-adbd''] else [])"

lemma parse_value_args:
  "value_option name = Some f \<Longrightarrow> parse_args_loop (value_args name v @ rest) a = parse_args_loop rest (if v = [] then a else f v a)"
  by (simp add: value_args_def)

lemma parse_flag:
  "value_option name = None \<Longrightarrow> parse_args_loop (name # rest) a = parse_args_loop rest (flag_option name a)"
  by (cases rest) simp_all

lemma value_options:
  "value_option ''--boot'' = Some (\<lambda>v. bp_boot_image_update (\<lambda>_. v))"
  "value_option ''--kernel'' = Some (\<lambda>v. bp_kernel_update (\<lambda>_. v))"
  "value_option ''--module'' = Some (\<lambda>v. bp_module_update (\<lambda>_. v))"
  "value_option ''--out'' = Some (\<lambda>v. bp_out_update (\<lambda>_. v))"
  "value_option ''--magiskboot'' = Some (\<lambda>v. bp_magiskboot_update (\<lambda>_. v))"
  "value_option ''--mkbootfs-dir'' = Some (\<lambda>v. bp_mkbootfs_dir_update (\<lambda>_. v))"
  "value_option ''--kmi'' = Some (\<lambda>v. bp_kmi_update (\<lambda>_. v))"
  "value_option ''--partition'' = Some (\<lambda>v. bp_partition_update (\<lambda>_. v))"
  "value_option ''--out-name'' = Some (\<lambda>v. bp_out_name_update (\<lambda>_. v))"
  "value_option ''--adb-debug-prop'' = Some (\<lambda>v. bp_adb_debug_prop_update (\<lambda>_. v))"
  "value_option ''--ota'' = None" "value_option ''--flash'' = None" "value_option ''--enable-adbd'' = None"
  by (simp_all add: value_option_def)

lemma flag_options:
  "flag_option ''--ota'' a = a\<lparr>bp_ota := True\<rparr>" "flag_option ''--flash'' a = a\<lparr>bp_flash := True\<rparr>"
  "flag_option ''--enable-adbd'' a = a\<lparr>bp_enable_adbd := True\<rparr>"
  by (simp_all add: flag_option_def)

text \<open>
  Every combination of options reads back from the arguments that ask for it, also when a
  value looks like an option.
\<close>

theorem patch_args_read_back: "parse_boot_patch_args (render_args a) = a"
proof (cases a)
  case (fields boot_image kernel module_path ota flash out magiskboot mkbootfs_dir kmi partition out_name enable_adbd extra)
  let ?flags = "(if ota then [''--ota''] else []) @ (if flash then [''--flash''] else []) @ (if enable_adbd then [''--enable-adbd''] else [])"
  have flags: "parse_args_loop ?flags b =
      b\<lparr>bp_ota := ota \<or> bp_ota b, bp_flash := flash \<or> bp_flash b, bp_enable_adbd := enable_adbd \<or> bp_enable_adbd b\<rparr>" for b
    by (cases ota; cases flash; cases enable_adbd) (simp_all add: parse_flag value_options flag_options)
  show ?thesis
    unfolding parse_boot_patch_args_def render_args_def fields boot_patch_args.select_convs
    by (simp only: parse_value_args value_options flags) (simp add: default_args_def)
qed

section \<open>The partition of the other slot\<close>

lemma find_in_list: "find P xs = Some x \<Longrightarrow> x \<in> set xs \<and> P x"
  by (auto simp: find_Some_iff)

lemma found_at_slot:
  assumes "\<And>base. base \<in> set base_paths \<Longrightarrow> \<not> is_block_device_path st (base @ name)" "\<not> is_slotful name" "slot \<noteq> []"
  shows "found_at cur name slot st \<in> insert [] {base @ name @ slot | base. base \<in> set base_paths}"
proof (cases "find (is_block_device_path st) (partition_candidates name slot)")
  case (Some p)
  from find_in_list [OF Some] show ?thesis
    using assms Some by (auto simp: found_at_def partition_candidates_def)
qed (simp add: found_at_def assms)

text \<open>
  An update of the other slot never works on the running one: on a device whose boot
  partitions have slots only, the partition chosen for it ends with the suffix of the other slot.
\<close>

theorem ota_takes_other_slot:
  assumes "slot_is t cur" "prop_of (d_os s) ''ro.boot.slot_suffix'' = ''_a''"
    and "\<And>base name. base \<in> set base_paths \<Longrightarrow> name \<in> set [''boot'', ''init_boot'', ''vendor_boot''] \<Longrightarrow>
           \<not> is_block_device_path (d_os s) (base @ name)"
  shows "suffix ''_b'' (fst (choose_boot_partition t kmi True override is_replace_kernel s))"
proof -
  let ?names = "[''boot'', ''init_boot'', ''vendor_boot'']"
  have slot: "get_slot_suffix True (d_os s) = ''_b''" using assms(2) by (simp add: get_slot_suffix_def getprop_def)
  have found: "found_at cur name ''_b'' (d_os s) = [] \<or> suffix ''_b'' (found_at cur name ''_b'' (d_os s))"
    if "name \<in> set ?names" for name
  proof -
    have "\<not> is_slotful name" using that by (auto simp: is_slotful_def last_two_def)
    from found_at_slot [of "d_os s" name "''_b''" cur, OF _ this] assms(3) that
    show ?thesis by (auto simp: suffix_def)
  qed
  have named: "suffix ''_b'' (or_by_name (found_at cur name ''_b'' (d_os s)) (name @ ''_b''))" if "name \<in> set ?names" for name
    using found [OF that] by (auto simp: or_by_name_def suffix_def)
  have auto: "suffix ''_b'' (fst (auto_boot_partition t kmi ''_b'' is_replace_kernel s))"
  proof -
    obtain p s1 where p: "find_partition_block_device t ''init_boot'' ''_b'' s = (p, s1)" by force
    with find_partition_reads [OF assms(1), of "''init_boot''" "''_b''" s]
    have p': "p = found_at cur ''init_boot'' ''_b'' (d_os s)" "d_os s1 = d_os s" by simp_all
    obtain q s2 where q: "find_partition_block_device t ''boot'' ''_b'' s1 = (q, s2)" by force
    with find_partition_reads [OF assms(1), of "''boot''" "''_b''" s1] p'(2)
    have q': "q = found_at cur ''boot'' ''_b'' (d_os s)" by simp
    show ?thesis
      using found [of "''init_boot''"] named [of "''boot''"] by (auto simp: auto_boot_partition_def p q p'(1) q')
  qed
  show ?thesis
  proof (cases "\<exists>name. override = Some name \<and> name \<in> set ?names")
    case True
    then obtain name where n: "override = Some name" "name \<in> set ?names" by blast
    obtain p s1 where p: "find_partition_block_device t name ''_b'' s = (p, s1)" by force
    with find_partition_reads [OF assms(1), of name "''_b''" s] have "p = found_at cur name ''_b'' (d_os s)" by simp
    then show ?thesis using n named [OF n(2)] p by (auto simp: choose_boot_partition_def slot Let_def)
  next
    case False
    then show ?thesis using auto by (auto simp: choose_boot_partition_def slot Let_def split: option.splits)
  qed
qed

theorem ota_takes_other_slot_witness:
  "suffix ''_b'' (fst (choose_boot_partition zero_tools ''android15-6.6'' True None False
     (slots_dev\<lparr>d_os := (d_os slots_dev)\<lparr>prop_of := (\<lambda>_. ''_a'')\<rparr>\<rparr>)))"
proof (rule ota_takes_other_slot)
  show "slot_is zero_tools []" by (simp add: slot_is_def zero_tools_def exec_failed_def trim_def)
  have b: "list_all (\<lambda>base. list_all (\<lambda>name. \<not> is_block_device_path (d_os (slots_dev\<lparr>d_os := (d_os slots_dev)\<lparr>prop_of := (\<lambda>_. ''_a'')\<rparr>\<rparr>))
      (base @ name)) [''boot'', ''init_boot'', ''vendor_boot'']) base_paths" by code_simp
  show "\<not> is_block_device_path (d_os (slots_dev\<lparr>d_os := (d_os slots_dev)\<lparr>prop_of := (\<lambda>_. ''_a'')\<rparr>\<rparr>)) (base @ name)"
    if "base \<in> set base_paths" "name \<in> set [''boot'', ''init_boot'', ''vendor_boot'']" for base name
    using b that unfolding list_all_iff by blast
qed simp

end
