(* ===== verification/Boot_Props.thy ===== *)
theory Boot_Props
  imports Boot_Restore Boot_Text_Props
begin

text \<open>What patching a boot image runs, when it writes the device, and what it does to the ramdisk.\<close>

section \<open>Commands\<close>

text \<open>
  A command that works in the working directory: it neither makes a device writable nor copies
  with \<^verbatim>\<open>dd\<close> to anything but the copy of the boot image there.
\<close>

definition work_command :: "path \<Rightarrow> command \<Rightarrow> bool" where
  "work_command workdir c \<longleftrightarrow>
     (case c of
        Exec args _ \<Rightarrow> args \<noteq> [] \<and> hd args \<noteq> ''blockdev'' \<and> (hd args = ''dd'' \<longrightarrow> dd_to (workdir @ ''/boot.img'') c)
      | _ \<Rightarrow> True)"

definition device_command :: "path \<Rightarrow> command \<Rightarrow> bool" where
  "device_command device c \<longleftrightarrow> c = Exec [''blockdev'', ''--setrw'', device] [] \<or> dd_to device c"

lemma work_magiskboot [simp]: "work_command wd (Magiskboot args p)" "work_command wd (Shell line)"
  by (simp_all add: work_command_def)

lemma work_exec: "args \<noteq> [] \<Longrightarrow> hd args \<noteq> ''blockdev'' \<Longrightarrow> hd args \<noteq> ''dd'' \<Longrightarrow> work_command wd (Exec args p)"
  by (simp add: work_command_def)

lemma dd_work: "dd_to (wd @ ''/boot.img'') c \<Longrightarrow> work_command wd c"
  by (cases c) (auto simp: work_command_def dd_to_def)

named_theorems work_steps \<open>steps whose commands work in the working directory\<close>

lemma work_on_dev [work_steps]: "adds P s (on_dev f s)"
  by simp

lemma work_os_step [work_steps]: "adds P s (snd (os_step f s))"
  by (simp add: os_step_def case_prod_beta)

lemma work_system [work_steps]: "adds (work_command wd) s (run_system t line s)"
  by (rule adds_system) simp

lemma work_mb [work_steps]: "adds (work_command wd) s (snd (run_magiskboot t mb args p s))"
  by (rule adds_magiskboot) simp

lemma work_cpio [work_steps]: "adds (work_command wd) s (snd (do_cpio_cmd t mb p rd line s))"
  using work_mb [of wd s t mb "[''cpio'', rd, line]" p] by (simp add: do_cpio_cmd_def case_prod_beta)

lemma work_exists [work_steps]: "adds (work_command wd) s (snd (cpio_entry_exists t mb p rd e s))"
  by (simp add: cpio_entry_exists_def work_cpio)

lemma work_extract [work_steps]: "adds (work_command wd) s (snd (cpio_extract_entry t mb p rd e f s))"
  by (simp add: cpio_extract_entry_def work_cpio)

lemma work_list [work_steps]: "adds (work_command wd) s (snd (cpio_list_entries t mb p rd e r s))"
  using work_mb [of wd s t mb _ p] by (simp add: cpio_list_entries_def case_prod_beta)

text \<open>Steps in a row.\<close>

lemma adds_case: "adds P s (snd r) \<Longrightarrow> (\<And>x s'. adds P s' (snd (k x s'))) \<Longrightarrow> adds P s (snd (case r of (x, s') \<Rightarrow> k x s'))"
  by (cases r) (auto intro: adds_trans)

lemma adds_on_ok: "adds P s (snd r) \<Longrightarrow> (\<And>s'. adds P s' (snd (k s'))) \<Longrightarrow> adds P s (snd (on_ok r k))"
  by (auto simp: on_ok_def intro: adds_trans)

lemma adds_on_some: "adds P s (snd r) \<Longrightarrow> (\<And>x s'. adds P s' (snd (k x s'))) \<Longrightarrow> adds P s (snd (on_some r k))"
  by (auto simp: on_some_def intro: adds_trans split: option.splits)

lemma adds_if: "adds P s x \<Longrightarrow> adds P s y \<Longrightarrow> adds P s (if b then x else y)"
  by simp

lemma snd_case_bool: "snd (case b of True \<Rightarrow> x | False \<Rightarrow> y) = (if b then snd x else snd y)"
  by (cases b) simp_all

lemma work_getprop [work_steps]: "adds (work_command wd) s (snd (get_current_slot_suffix t s))"
  using adds_exec [of "work_command wd" "[''getprop'', ''ro.boot.slot_suffix'']" "[]" s t]
  by (simp add: get_current_slot_suffix_def case_prod_beta work_exec)

lemma work_find_partition [work_steps]: "adds (work_command wd) s (snd (find_partition_block_device t name slot s))"
  using work_getprop [of wd s t] by (auto simp: find_partition_block_device_def case_prod_beta split: option.splits)

lemma work_auto_partition: "adds (work_command wd) s (snd (auto_boot_partition t kmi slot rk s))"
  unfolding auto_boot_partition_def
  by (rule adds_case, rule work_find_partition) (auto intro!: adds_case work_find_partition)

lemma work_choose [work_steps]: "adds (work_command wd) s (snd (choose_boot_partition t kmi ota ov rk s))"
  unfolding choose_boot_partition_def Let_def
  by (auto split: option.splits intro!: adds_case work_find_partition work_auto_partition)

lemma work_dd: "adds (work_command wd) s (snd (exec_dd t input (wd @ ''/boot.img'') s))"
  by (rule adds_dd) (rule dd_work)

lemma work_locate [work_steps]: "adds (work_command wd) s (snd (locate_boot t img kmi ota ov rk wd s))"
  unfolding locate_boot_def
  by (auto intro!: adds_case work_choose work_dd)

lemma work_search_lkm: "adds P s (snd (search_lkm ps f s))"
proof (induction ps arbitrary: s)
  case (Cons p ps)
  obtain ok s1 where o: "os_step (copy_stream p f) s = (ok, s1)" by force
  with work_os_step [of P s "copy_stream p f"] have "adds P s s1" by simp
  then show ?case using Cons [of s] Cons [of s1] by (auto simp: o intro: adds_trans split: bool.splits)
qed simp

lemma work_prepare [work_steps]: "adds P s (snd (prepare_lkm t m kmi f s))"
proof -
  obtain ok s1 where o: "os_step (t_copy_asset t (kmi @ ''_tamisu.ko'') f) s = (ok, s1)" by force
  with work_os_step [of P s "t_copy_asset t (kmi @ ''_tamisu.ko'') f"] have "adds P s s1" by simp
  then show ?thesis using adds_trans [OF _ work_search_lkm]
    by (auto simp: prepare_lkm_def o work_os_step split: bool.splits)
qed

lemma work_unpack [work_steps]: "adds (work_command wd) s (snd (unpack_boot t mb img p s))"
  unfolding unpack_boot_def by (auto intro!: adds_case work_mb)

lemma work_find_ramdisk [work_steps]: "adds (work_command wd) s (snd (find_ramdisk t mb p s))"
  unfolding find_ramdisk_def by (auto split: option.splits intro!: adds_case work_cpio)

lemma work_magisk [work_steps]: "adds (work_command wd) s (snd (is_magisk_patched t mb p rd s))"
  unfolding is_magisk_patched_def by (auto intro!: adds_case work_mb work_cpio)

lemma work_patched [work_steps]: "adds (work_command wd) s (snd (is_tamisu_patched t mb p rd s))"
  unfolding is_tamisu_patched_def
  by (rule adds_case [OF work_exists]) (auto split: bool.splits intro!: adds_case work_list)

lemma work_pick: "adds (work_command wd) s (snd (pick_loop t mb p rd major minor dirs any s))"
proof (induction dirs arbitrary: any s)
  case (Cons d dirs)
  show ?case unfolding pick_loop.simps Let_def
    by (rule adds_case [OF work_exists]) (auto intro: Cons)
qed simp

lemma work_select [work_steps]: "adds (work_command wd) s (snd (select_modules_dir t mb p rd release s))"
proof -
  obtain e1 s1 where 1: "cpio_entry_exists t mb p rd (LIB_MODULES @ release @ ''/modules.load'') s = (e1, s1)" by force
  obtain e2 s2 where 2: "cpio_entry_exists t mb p rd (LIB_MODULES @ release) s1 = (e2, s2)" by force
  obtain n major minor where v: "scan_version release = (n, major, minor)" by (metis prod_cases3)
  obtain es s3 where 3: "cpio_list_entries t mb p rd ''lib/modules'' True s2 = (es, s3)" by force
  obtain m any s4 where 4: "pick_loop t mb p rd major minor (module_dir_candidates es) [] s3 = ((m, any), s4)"
    by (metis prod_cases3 prod.collapse)
  have steps: "adds (work_command wd) s s1" "adds (work_command wd) s1 s2" "adds (work_command wd) s2 s3" "adds (work_command wd) s3 s4"
    using work_exists work_list work_pick 1 2 3 4 by (metis snd_conv)+
  then have "adds (work_command wd) s s2" "adds (work_command wd) s s4" by (blast intro: adds_trans)+
  with steps(1) show ?thesis
    by (simp add: select_modules_dir_def Let_def 1 2 3 4 v split: bool.splits)
qed

lemma work_entry_text: "adds (work_command wd) s (snd (entry_text t mb p rd e f s))"
  unfolding entry_text_def
  by (rule adds_case [OF work_exists]) (auto split: bool.splits intro!: adds_case work_extract)

lemma work_merge [work_steps]: "adds (work_command wd) s (snd (merge_list t mb p rd d n f s))"
  unfolding merge_list_def by (rule adds_case [OF work_entry_text]) (rule work_os_step)

lemma work_all [work_steps]: "adds (work_command wd) s (snd (cpio_all t mb p rd lines s))"
proof (induction lines arbitrary: s)
  case (Cons line lines)
  show ?case unfolding cpio_all.simps
    by (rule adds_case [OF work_cpio]) (auto split: bool.splits intro: Cons)
qed simp

lemma work_inject [work_steps]: "adds (work_command wd) s (snd (inject_module t mb p rd release kmod s))"
  unfolding inject_module_def Let_def
  by (rule adds_case [OF work_select]) (intro adds_on_ok work_steps, simp)

lemma work_remove [work_steps]: "adds (work_command wd) s (remove_if_there t mb p rd e s)"
proof -
  obtain b s1 where b: "cpio_entry_exists t mb p rd e s = (b, s1)" by force
  with work_exists [of wd s t mb p rd e] have "adds (work_command wd) s s1" by simp
  then show ?thesis using adds_trans [OF _ work_cpio] by (auto simp: remove_if_there_def b)
qed

lemma work_adb [work_steps]: "adds (work_command wd) s (snd (adb_step t mb p rd a s))"
proof -
  have "adds (work_command wd) s (snd (do_cpio_cmd t mb p rd ''add 0644 force_debuggable force_debuggable''
                 (on_dev (\<lambda>st. snd (open_trunc (p @ ''/force_debuggable'') st)) s)))"
    by (rule adds_trans [OF work_on_dev work_cpio])
  then show ?thesis
    unfolding adb_step_def
    by (auto intro!: adds_on_ok work_os_step work_cpio intro: adds_trans [OF work_remove work_remove])
qed

lemma work_sha1: "adds (work_command wd) s (snd (calculate_sha1 t f s))"
  using adds_exec [of "work_command wd" "[''sha1sum'', f]" "[]" s t]
  by (simp add: calculate_sha1_def case_prod_beta work_exec)

lemma work_do_backup: "adds (work_command wd) s (snd (do_backup t mb p rd img s))"
  unfolding do_backup_def
  by (rule adds_case [OF work_sha1])
    (auto split: bool.splits intro!: adds_case work_os_step intro: adds_trans [OF work_os_step work_cpio])

lemma work_backup [work_steps]: "adds (work_command wd) s (backup_step t mb p rd img wanted s)"
  by (simp add: backup_step_def work_do_backup)

lemma work_clean_dir: "adds (work_command wd) s (snd (ensure_clean_dir t d s))"
  unfolding ensure_clean_dir_def by (rule adds_trans [OF adds_if [OF work_system adds_refl] work_os_step])

lemma work_mkbootfs [work_steps]: "adds (work_command wd) s (snd (repack_ramdisk_with_mkbootfs t mb dir p rd s))"
proof -
  have n: "args ! 0 = dir @ ''/'' @ mkbootfs_name major minor \<Longrightarrow> args \<noteq> [] \<Longrightarrow> work_command wd (Exec args q)" for args q major minor
  proof (rule work_exec)
    assume "args ! 0 = dir @ ''/'' @ mkbootfs_name major minor" "args \<noteq> []"
    then have h: "hd args = dir @ ''/'' @ mkbootfs_name major minor" by (simp add: hd_conv_nth)
    have "CHR ''/'' \<in> set (hd args)" unfolding h by simp
    then show "hd args \<noteq> ''blockdev''" "hd args \<noteq> ''dd''" by auto
  qed
  have x: "adds (work_command wd) s (snd (run_exec t [dir @ ''/'' @ mkbootfs_name major minor, ''.''] q s))" for s q major minor
    by (rule adds_exec) (rule n, simp_all)
  show ?thesis
  proof (cases "t_uname t")
    case (Some release)
    obtain k major minor where v: "scan_version release = (k, major, minor)" by (metis prod_cases3)
    show ?thesis
      unfolding repack_ramdisk_with_mkbootfs_def Let_def Some option.case v prod.case
      by (auto split: bool.splits intro!: adds_case [OF work_clean_dir] adds_case [OF work_mb] adds_case [OF x [simplified]]
          adds_case [OF work_os_step] work_os_step)
  qed (simp add: repack_ramdisk_with_mkbootfs_def)
qed

lemma work_patch_ramdisk [work_steps]: "adds (work_command wd) s (snd (patch_ramdisk t mb p rd img a release kmod s))"
proof -
  have fin: "adds (work_command wd) s' (if bp_mkbootfs_dir a = [] then backup_step t mb p rd img w s'
      else snd (repack_ramdisk_with_mkbootfs t mb (bp_mkbootfs_dir a) p rd (backup_step t mb p rd img w s')))" for s' w
    by (auto intro: work_backup adds_trans [OF work_backup work_mkbootfs])
  show ?thesis
    unfolding patch_ramdisk_def Let_def
    by (rule adds_case [OF work_magisk])
      (auto split: bool.splits intro!: adds_case [OF work_patched] adds_on_some work_inject work_adb simp: fin)
qed

section \<open>The device is written last\<close>

text \<open>
  Either only work was done, or the image was repacked and then, flashing being asked for and no
  image file given, commands ran on the device.
\<close>

definition flashes_last :: "tools \<Rightarrow> path \<Rightarrow> boot_patch_args \<Rightarrow> dev \<Rightarrow> dev \<Rightarrow> bool" where
  "flashes_last t wd a s s' \<longleftrightarrow>
     adds (work_command wd) s s' \<or>
     bp_flash a \<and> bp_boot_image a = [] \<and>
     (\<exists>mb img out sr0 sr device post. repack_boot t mb img out wd sr0 = (True, sr) \<and> adds (work_command wd) s sr \<and>
        d_log s' = d_log sr @ post \<and> list_all (device_command device) post)"

lemma flashes_work: "adds (work_command wd) s s' \<Longrightarrow> flashes_last t wd a s s'"
  by (simp add: flashes_last_def)

lemma flashes_after: "adds (work_command wd) s s1 \<Longrightarrow> flashes_last t wd a s1 s' \<Longrightarrow> flashes_last t wd a s s'"
  unfolding flashes_last_def by (blast intro: adds_trans)

lemma flashes_on_ok:
  "adds (work_command wd) s (snd r) \<Longrightarrow> (\<And>s'. flashes_last t wd a s' (snd (k s'))) \<Longrightarrow> flashes_last t wd a s (snd (on_ok r k))"
  by (auto simp: on_ok_def intro: flashes_after flashes_work)

lemma flashes_on_some:
  "adds (work_command wd) s (snd r) \<Longrightarrow> (\<And>x s'. flashes_last t wd a s' (snd (k x s'))) \<Longrightarrow>
     flashes_last t wd a s (snd (on_some r k))"
  by (auto simp: on_some_def intro: flashes_after flashes_work split: option.splits)

lemma adds_flash_boot: "adds (device_command device) s (snd (flash_boot t device img s))"
proof -
  have "adds (device_command device) s (snd (run_exec t [''blockdev'', ''--setrw'', device] [] s))"
    by (rule adds_exec) (simp add: device_command_def)
  moreover have "adds (device_command device) s' (snd (exec_dd t img device s'))" for s'
    by (rule adds_dd) (simp add: device_command_def)
  ultimately show ?thesis by (auto simp: flash_boot_def intro: adds_trans)
qed

lemma work_output: "adds P s (snd (output_step t a img s))"
  by (cases "bp_boot_image a = []") (simp_all add: output_step_def work_os_step)

text \<open>The tail of the patcher: repack, output, flash.\<close>

lemma flashes_tail:
  assumes "bootdevice \<noteq> [] \<Longrightarrow> bp_boot_image a = []"
  shows "flashes_last t wd a s (snd (
     on_ok (repack_boot t mb img new_boot wd s) (\<lambda>s.
     on_ok (output_step t a new_boot s) (\<lambda>s.
     on_ok (flash_step t (bp_flash a) bootdevice new_boot s) (\<lambda>s. (Some (), s))))))"
proof -
  obtain ok sr where r: "repack_boot t mb img new_boot wd s = (ok, sr)" by force
  obtain ok2 so where o: "output_step t a new_boot sr = (ok2, so)" by force
  have wr: "adds (work_command wd) s sr"
    using work_mb [of wd s t mb "[''repack'', img, new_boot]" wd] r by (auto simp: repack_boot_def case_prod_beta)
  have wo: "adds P sr so" for P
    using work_output [of P sr t a new_boot] o by simp
  show ?thesis
  proof (cases "ok \<and> ok2 \<and> bp_flash a \<and> bootdevice \<noteq> []")
    case True
    then have e: "snd (on_ok (repack_boot t mb img new_boot wd s) (\<lambda>s.
       on_ok (output_step t a new_boot s) (\<lambda>s.
       on_ok (flash_step t (bp_flash a) bootdevice new_boot s) (\<lambda>s. (Some (), s))))) =
       snd (flash_boot t bootdevice new_boot so)"
      by (auto simp: r o on_ok_def flash_step_def)
    have "adds (device_command bootdevice) sr (snd (flash_boot t bootdevice new_boot so))"
      by (rule adds_trans [OF wo adds_flash_boot])
    then obtain post where post: "d_log (snd (flash_boot t bootdevice new_boot so)) = d_log sr @ post" "list_all (device_command bootdevice) post"
      unfolding adds_def by blast
    have "repack_boot t mb img new_boot wd s = (True, sr)" using r True by simp
    then show ?thesis unfolding flashes_last_def e using True assms wr post by blast
  next
    case False
    then have "snd (on_ok (repack_boot t mb img new_boot wd s) (\<lambda>s.
       on_ok (output_step t a new_boot s) (\<lambda>s.
       on_ok (flash_step t (bp_flash a) bootdevice new_boot s) (\<lambda>s. (Some (), s))))) \<in> {sr, so}"
      by (auto simp: r o on_ok_def flash_step_def)
    then show ?thesis using wr adds_trans [OF wr wo] by (auto intro!: flashes_work)
  qed
qed

lemma flashes_patch_image:
  assumes "bootdevice \<noteq> [] \<Longrightarrow> bp_boot_image a = []"
  shows "flashes_last t wd a s (snd (patch_image t mb wd a kmi img bootdevice s))"
  unfolding patch_image_def Let_def
proof (intro flashes_on_ok work_prepare)
  fix s1
  have "flashes_last t wd a s1 (snd (
      on_ok (unpack_boot t mb img wd s1) (\<lambda>s. on_some (find_ramdisk t mb wd s) (\<lambda>ramdisk s.
           on_some (patch_ramdisk t mb wd ramdisk img a (kernel_release_of t (d_os s1)) (wd @ ''/tamisu.ko'') s) (\<lambda>_ s.
           on_ok (repack_boot t mb img (new_boot_name (bp_boot_image a) bootdevice wd) wd s) (\<lambda>s.
           on_ok (output_step t a (new_boot_name (bp_boot_image a) bootdevice wd) s) (\<lambda>s.
           on_ok (flash_step t (bp_flash a) bootdevice (new_boot_name (bp_boot_image a) bootdevice wd) s) (\<lambda>s. (Some (), s)))))))))"
    by (intro flashes_on_ok flashes_on_some work_unpack work_find_ramdisk work_patch_ramdisk flashes_tail assms)
  then show "flashes_last t wd a s1 (snd (if kernel_release_of t (d_os s1) = [] then (None, s1) else
      on_ok (unpack_boot t mb img wd s1) (\<lambda>s. on_some (find_ramdisk t mb wd s) (\<lambda>ramdisk s.
           on_some (patch_ramdisk t mb wd ramdisk img a (kernel_release_of t (d_os s1)) (wd @ ''/tamisu.ko'') s) (\<lambda>_ s.
           on_ok (repack_boot t mb img (new_boot_name (bp_boot_image a) bootdevice wd) wd s) (\<lambda>s.
           on_ok (output_step t a (new_boot_name (bp_boot_image a) bootdevice wd) s) (\<lambda>s.
           on_ok (flash_step t (bp_flash a) bootdevice (new_boot_name (bp_boot_image a) bootdevice wd) s) (\<lambda>s. (Some (), s)))))))))"
    by (simp add: flashes_work)
qed

lemma locate_device:
  "fst (locate_boot t boot_image kmi ota ov rk wd s) = Some (img, device) \<Longrightarrow> device \<noteq> [] \<Longrightarrow> boot_image = []"
  by (auto simp: locate_boot_def split: if_splits prod.splits)

lemma flashes_patch_in: "flashes_last t wd a s (snd (boot_patch_in t wd a s))"
proof (cases "find_magiskboot t s")
  case (Some mb)
  define kmi where "kmi = (if bp_kmi a = [] then get_current_kmi t (d_os s) else bp_kmi a)"
  define l where "l = locate_boot t (bp_boot_image a) kmi (bp_ota a)
                 (if bp_partition a = [] then None else Some (bp_partition a)) (bp_kernel a \<noteq> []) wd s"
  have w: "adds (work_command wd) s (snd l)" by (simp add: l_def work_locate)
  have "flashes_last t wd a s (snd (on_some l (\<lambda>(bootimage, bootdevice). patch_image t mb wd a kmi bootimage bootdevice)))"
  proof (cases "fst l")
    case None
    then show ?thesis using w by (simp add: on_some_def flashes_work)
  next
    case (Some p)
    obtain img device where p: "p = (img, device)" by force
    then have "device \<noteq> [] \<Longrightarrow> bp_boot_image a = []" using Some locate_device unfolding l_def by blast
    then show ?thesis using w by (simp add: on_some_def Some p flashes_after [OF _ flashes_patch_image])
  qed
  then show ?thesis
    by (auto simp: boot_patch_in_def Some kmi_def [symmetric] l_def [symmetric] Let_def flashes_work)
qed (simp add: boot_patch_in_def flashes_work)

lemma log_make_workdir: "make_workdir t s = (r, s1) \<Longrightarrow> d_log s1 = d_log s"
proof -
  have "d_log (snd (try_mkdtemp t ps s)) = d_log s" for ps
    by (induction ps arbitrary: s) (auto split: prod.splits option.splits)
  then show "make_workdir t s = (r, s1) \<Longrightarrow> d_log s1 = d_log s" unfolding make_workdir_def by (metis snd_conv)
qed


end
