(* ===== verification/Boot_Ramdisk.thy ===== *)
theory Boot_Ramdisk
  imports Boot_Props
begin

text \<open>
  What injecting the module does to the ramdisk, for a magiskboot that does what its documentation
  says of the \<^verbatim>\<open>cpio\<close> commands the daemon uses.
\<close>

section \<open>The archive tool\<close>

definition word :: "string \<Rightarrow> bool" where
  "word x \<longleftrightarrow> x \<noteq> [] \<and> CHR 0x20 \<notin> set x"

text \<open>
  \<open>ents st\<close> are the entries of the ramdisk, \<open>inside q\<close> the paths the archive is kept at.
\<close>

definition cpio_tool ::
  "tools \<Rightarrow> path \<Rightarrow> path \<Rightarrow> path \<Rightarrow> (os \<Rightarrow> string \<Rightarrow> string option) \<Rightarrow> (path \<Rightarrow> bool) \<Rightarrow> bool"
where
  "cpio_tool t mb wd rd ents inside \<longleftrightarrow>
     (\<forall>st st'. (\<forall>q. inside q \<longrightarrow> node_at st' q = node_at st q) \<longrightarrow> ents st' = ents st) \<and>
     (\<forall>st x r st'. word x \<longrightarrow> t_magiskboot t mb [''cpio'', rd, ''exists '' @ x] wd st = (r, st') \<longrightarrow>
        (exit_code r = 0 \<longleftrightarrow> ents st x \<noteq> None)) \<and>
     (\<forall>st x. snd (t_magiskboot t mb [''cpio'', rd, ''exists '' @ x] wd st) = st) \<and>
     (\<forall>st x. snd (t_magiskboot t mb [''cpio'', rd, ''ls -r '' @ x] wd st) = st) \<and>
     (\<forall>st x f r st'. word x \<longrightarrow> word f \<longrightarrow> t_magiskboot t mb [''cpio'', rd, ''extract '' @ x @ '' '' @ f] wd st = (r, st') \<longrightarrow>
        (case ents st x of
           None \<Rightarrow> exit_code r \<noteq> 0
         | Some c \<Rightarrow> exit_code r = 0 \<and> st' = put_node (wd @ ''/'' @ f) (Reg 420 c) st)) \<and>
     (\<forall>st x f r st' c. word x \<longrightarrow> word f \<longrightarrow> t_magiskboot t mb [''cpio'', rd, ''add 0644 '' @ x @ '' '' @ f] wd st = (r, st') \<longrightarrow>
        read_file st (wd @ ''/'' @ f) = Some c \<longrightarrow> exit_code r = 0 \<longrightarrow>
        ents st' = (ents st)(x \<mapsto> c) \<and> (\<forall>q. \<not> inside q \<longrightarrow> node_at st' q = node_at st q)) \<and>
     (\<forall>st x r st'. word x \<longrightarrow> t_magiskboot t mb [''cpio'', rd, ''mkdir 0755 '' @ x] wd st = (r, st') \<longrightarrow> exit_code r = 0 \<longrightarrow>
        (\<forall>y. y \<noteq> x \<longrightarrow> ents st' y = ents st y) \<and> (\<forall>q. \<not> inside q \<longrightarrow> node_at st' q = node_at st q))"

lemma cpio_toolD:
  assumes "cpio_tool t mb wd rd ents inside"
  shows "\<forall>st st'. (\<forall>q. inside q \<longrightarrow> node_at st' q = node_at st q) \<longrightarrow> ents st' = ents st"
    "\<forall>st x r st'. word x \<longrightarrow> t_magiskboot t mb [''cpio'', rd, ''exists '' @ x] wd st = (r, st') \<longrightarrow>
        (exit_code r = 0 \<longleftrightarrow> ents st x \<noteq> None)"
    "\<forall>st x. snd (t_magiskboot t mb [''cpio'', rd, ''exists '' @ x] wd st) = st"
    "\<forall>st x. snd (t_magiskboot t mb [''cpio'', rd, ''ls -r '' @ x] wd st) = st"
    "\<forall>st x f r st'. word x \<longrightarrow> word f \<longrightarrow> t_magiskboot t mb [''cpio'', rd, ''extract '' @ x @ '' '' @ f] wd st = (r, st') \<longrightarrow>
        (case ents st x of
           None \<Rightarrow> exit_code r \<noteq> 0
         | Some c \<Rightarrow> exit_code r = 0 \<and> st' = put_node (wd @ ''/'' @ f) (Reg 420 c) st)"
    "\<forall>st x f r st' c. word x \<longrightarrow> word f \<longrightarrow> t_magiskboot t mb [''cpio'', rd, ''add 0644 '' @ x @ '' '' @ f] wd st = (r, st') \<longrightarrow>
        read_file st (wd @ ''/'' @ f) = Some c \<longrightarrow> exit_code r = 0 \<longrightarrow>
        ents st' = (ents st)(x \<mapsto> c) \<and> (\<forall>q. \<not> inside q \<longrightarrow> node_at st' q = node_at st q)"
    "\<forall>st x r st'. word x \<longrightarrow> t_magiskboot t mb [''cpio'', rd, ''mkdir 0755 '' @ x] wd st = (r, st') \<longrightarrow> exit_code r = 0 \<longrightarrow>
        (\<forall>y. y \<noteq> x \<longrightarrow> ents st' y = ents st y) \<and> (\<forall>q. \<not> inside q \<longrightarrow> node_at st' q = node_at st q)"
  by (insert assms, unfold cpio_tool_def, (elim conjE, assumption)+)

lemma tool_frame:
  assumes "cpio_tool t mb wd rd ents inside" "\<And>q. inside q \<Longrightarrow> node_at st' q = node_at st q"
  shows "ents st' = ents st"
  using cpio_toolD(1) [OF assms(1)] assms(2) by blast

lemma exists_os:
  assumes "cpio_tool t mb wd rd ents inside"
  shows "d_os (snd (cpio_entry_exists t mb wd rd x s)) = d_os s"
  using cpio_toolD(3) [OF assms, rule_format, of x "d_os s"]
  by (simp add: cpio_entry_exists_def do_cpio_cmd_def run_magiskboot_def case_prod_beta)

lemma tool_exists:
  assumes "cpio_tool t mb wd rd ents inside" "word x" "cpio_entry_exists t mb wd rd x s = (b, s')"
  shows "b \<longleftrightarrow> ents (d_os s) x \<noteq> None"
proof -
  obtain r st where m: "t_magiskboot t mb [''cpio'', rd, ''exists '' @ x] wd (d_os s) = (r, st)" by force
  have "exit_code r = 0 \<longleftrightarrow> ents (d_os s) x \<noteq> None"
    by (rule cpio_toolD(2) [OF assms(1), rule_format, OF assms(2) m])
  with assms(3) show ?thesis
    by (simp only: cpio_entry_exists_def do_cpio_cmd_def run_magiskboot_def m prod.case) auto
qed

lemma list_os:
  assumes "cpio_tool t mb wd rd ents inside"
  shows "d_os (snd (cpio_list_entries t mb wd rd x True s)) = d_os s"
  using cpio_toolD(4) [OF assms, rule_format, of x "d_os s"]
  by (simp add: cpio_list_entries_def run_magiskboot_def case_prod_beta)

lemma tool_extract:
  assumes "cpio_tool t mb wd rd ents inside" "word x" "word f" "cpio_extract_entry t mb wd rd x f s = (b, s')"
    "ents (d_os s) x = Some c"
  shows "b \<and> d_os s' = put_node (wd @ ''/'' @ f) (Reg 420 c) (d_os s)"
proof -
  obtain r st where m: "t_magiskboot t mb [''cpio'', rd, ''extract '' @ x @ '' '' @ f] wd (d_os s) = (r, st)" by force
  have "case ents (d_os s) x of None \<Rightarrow> exit_code r \<noteq> 0
      | Some c \<Rightarrow> exit_code r = 0 \<and> st = put_node (wd @ ''/'' @ f) (Reg 420 c) (d_os s)"
    by (rule cpio_toolD(5) [OF assms(1), rule_format, OF assms(2,3) m])
  with assms(4,5) show ?thesis
    by (simp only: cpio_extract_entry_def do_cpio_cmd_def run_magiskboot_def m prod.case option.case) auto
qed

text \<open>What a successful command that changes the archive leaves: the files outside it.\<close>

definition same_outside :: "(path \<Rightarrow> bool) \<Rightarrow> os \<Rightarrow> os \<Rightarrow> bool" where
  "same_outside inside st st' \<longleftrightarrow> (\<forall>q. \<not> inside q \<longrightarrow> node_at st' q = node_at st q)"

lemma tool_add:
  assumes "cpio_tool t mb wd rd ents inside" "word x" "word f"
    "do_cpio_cmd t mb wd rd (''add 0644 '' @ x @ '' '' @ f) s = (True, s')" "read_file (d_os s) (wd @ ''/'' @ f) = Some c"
  shows "ents (d_os s') = (ents (d_os s))(x \<mapsto> c) \<and> same_outside inside (d_os s) (d_os s')"
proof -
  obtain r st where m: "t_magiskboot t mb [''cpio'', rd, ''add 0644 '' @ x @ '' '' @ f] wd (d_os s) = (r, st)" by force
  from assms(4) have r: "exit_code r = 0" "d_os s' = st"
    by (simp_all only: do_cpio_cmd_def run_magiskboot_def m prod.case) auto
  show ?thesis unfolding r(2) same_outside_def using cpio_toolD(6) [OF assms(1)] assms(2,3,5) m r(1) by blast
qed

lemma tool_mkdir:
  assumes "cpio_tool t mb wd rd ents inside" "word x" "do_cpio_cmd t mb wd rd (''mkdir 0755 '' @ x) s = (True, s')"
  shows "(\<forall>y. y \<noteq> x \<longrightarrow> ents (d_os s') y = ents (d_os s) y) \<and> same_outside inside (d_os s) (d_os s')"
proof -
  obtain r st where m: "t_magiskboot t mb [''cpio'', rd, ''mkdir 0755 '' @ x] wd (d_os s) = (r, st)" by force
  from assms(3) have r: "exit_code r = 0" "d_os s' = st"
    by (simp_all only: do_cpio_cmd_def run_magiskboot_def m prod.case) auto
  show ?thesis unfolding r(2) same_outside_def using cpio_toolD(7) [OF assms(1)] assms(2) m r(1) by blast
qed

section \<open>Choosing the directory changes nothing\<close>

lemma pick_os:
  assumes "cpio_tool t mb wd rd ents inside"
  shows "d_os (snd (pick_loop t mb wd rd major minor dirs any s)) = d_os s"
proof (induction dirs arbitrary: any s)
  case (Cons d dirs)
  obtain b s1 where b: "cpio_entry_exists t mb wd rd (d @ ''/modules.load'') s = (b, s1)" by force
  with exists_os [OF assms, of "d @ ''/modules.load''" s] have "d_os s1 = d_os s" by simp
  then show ?case using Cons by (simp add: b Let_def)
qed simp

lemma select_os:
  assumes "cpio_tool t mb wd rd ents inside"
  shows "d_os (snd (select_modules_dir t mb wd rd release s)) = d_os s"
proof -
  obtain e1 s1 where 1: "cpio_entry_exists t mb wd rd (LIB_MODULES @ release @ ''/modules.load'') s = (e1, s1)" by force
  obtain e2 s2 where 2: "cpio_entry_exists t mb wd rd (LIB_MODULES @ release) s1 = (e2, s2)" by force
  obtain n major minor where v: "scan_version release = (n, major, minor)" by (metis prod_cases3)
  obtain es s3 where 3: "cpio_list_entries t mb wd rd ''lib/modules'' True s2 = (es, s3)" by force
  obtain m any s4 where 4: "pick_loop t mb wd rd major minor (module_dir_candidates es) [] s3 = ((m, any), s4)"
    by (metis prod.collapse)
  have "d_os s1 = d_os s" "d_os s2 = d_os s1" "d_os s3 = d_os s2" "d_os s4 = d_os s3"
    using exists_os [OF assms, of "LIB_MODULES @ release @ ''/modules.load''" s] exists_os [OF assms, of "LIB_MODULES @ release" s1]
      list_os [OF assms, of "''lib/modules''" s2] pick_os [OF assms, of major minor "module_dir_candidates es" "[]" s3] 1 2 3 4
    by simp_all
  then show ?thesis
    by (simp add: select_modules_dir_def Let_def 1 2 3 4 v split: bool.splits)
qed

section \<open>The staging tree\<close>

text \<open>The tree under \<open>p\<close>, and the directories above it, are not the archive.\<close>

definition clear_of :: "(path \<Rightarrow> bool) \<Rightarrow> path \<Rightarrow> bool" where
  "clear_of inside p \<longleftrightarrow>
     (\<forall>q. inside q \<longrightarrow> (\<forall>i. strip_slash q \<noteq> strip_slash (take i p)) \<and> \<not> prefix (p @ ''/'') (strip_slash q))"

definition keeps :: "(path \<Rightarrow> bool) \<Rightarrow> os \<Rightarrow> os \<Rightarrow> bool" where
  "keeps inside st st' \<longleftrightarrow> (\<forall>q. inside q \<longrightarrow> node_at st' q = node_at st q)"

lemma keeps_trans: "keeps inside a b \<Longrightarrow> keeps inside b c \<Longrightarrow> keeps inside a c"
  by (simp add: keeps_def)

lemma keeps_ents: "cpio_tool t mb wd rd ents inside \<Longrightarrow> keeps inside st st' \<Longrightarrow> ents st' = ents st"
  unfolding keeps_def using tool_frame by blast

lemma strip_name: "x \<noteq> [] \<Longrightarrow> last x \<noteq> CHR ''/'' \<Longrightarrow> strip_slash (p @ x) = p @ x"
  by (simp add: strip_slash_def)

lemma keeps_dir: "clear_of inside p \<Longrightarrow> keeps inside st (snd (ensure_dir_exists p st))"
proof (rule ensure_dir_rel)
  show "\<And>i s. clear_of inside p \<Longrightarrow> keeps inside s (snd (mkdir (take i p) s))"
    by (auto simp: keeps_def mkdir_def clear_of_def)
qed (auto simp: keeps_def)

lemma keeps_put:
  assumes "clear_of inside p" "x \<noteq> []" "last x \<noteq> CHR ''/''"
  shows "keeps inside st (put_node (p @ ''/'' @ x) n st)"
proof -
  have "strip_slash (p @ ''/'' @ x) = p @ ''/'' @ x" using strip_name [of x "p @ ''/''"] assms(2,3) by simp
  moreover have "inside q \<Longrightarrow> strip_slash q \<noteq> p @ ''/'' @ x" for q using assms(1) unfolding clear_of_def by (metis append.assoc prefixI)
  ultimately show ?thesis by (simp add: keeps_def node_at_put)
qed

lemma outside_tree:
  assumes "clear_of inside p" "x \<noteq> []" "last x \<noteq> CHR ''/''"
  shows "\<not> inside (p @ ''/'' @ x)"
  using assms strip_name [of x "p @ ''/''"] unfolding clear_of_def by (metis append.assoc prefixI)

lemma keeps_write:
  "clear_of inside p \<Longrightarrow> x \<noteq> [] \<Longrightarrow> last x \<noteq> CHR ''/'' \<Longrightarrow> keeps inside st (snd (write_file (p @ ''/'' @ x) c st))"
  using keeps_put by (simp add: write_file_def) (simp add: keeps_def)

text \<open>A step of the staging: the files of the archive stay, and all but one file of the rest.\<close>

definition stages :: "(path \<Rightarrow> bool) \<Rightarrow> path set \<Rightarrow> os \<Rightarrow> os \<Rightarrow> bool" where
  "stages inside ps st st' \<longleftrightarrow> keeps inside st st' \<and> (\<forall>q. strip_slash q \<notin> ps \<longrightarrow> read_file st' q = read_file st q)"

lemma stages_trans: "stages inside a st st1 \<Longrightarrow> stages inside b st1 st2 \<Longrightarrow> stages inside (a \<union> b) st st2"
  by (auto simp: stages_def intro: keeps_trans)

lemma stages_put:
  assumes "clear_of inside p" "x \<noteq> []" "last x \<noteq> CHR ''/''"
  shows "stages inside {p @ ''/'' @ x} st (put_node (p @ ''/'' @ x) n st)"
  using keeps_put [OF assms] strip_name [of x "p @ ''/''"] assms(2,3) by (auto simp: stages_def read_file_def node_at_put)

lemma stages_write:
  assumes "clear_of inside p" "x \<noteq> []" "last x \<noteq> CHR ''/''"
  shows "stages inside {p @ ''/'' @ x} st (snd (write_file (p @ ''/'' @ x) c st))"
  using stages_put [OF assms] by (simp add: write_file_def) (simp add: stages_def keeps_def)

lemma copy_staged:
  assumes "clear_of inside p" "x \<noteq> []" "last x \<noteq> CHR ''/''" "copy_stream src (p @ ''/'' @ x) st = (True, st')"
    "read_file st src = Some c" "strip_slash src \<noteq> p @ ''/'' @ x"
  shows "stages inside {p @ ''/'' @ x} st st' \<and> read_file st' (p @ ''/'' @ x) = Some c"
proof -
  obtain st1 where o: "open_trunc (p @ ''/'' @ x) st = (True, st1)"
    using assms(4) by (cases "open_trunc (p @ ''/'' @ x) st") (auto simp: copy_stream_def split: if_splits)
  have "strip_slash (p @ ''/'' @ x) = p @ ''/'' @ x" using strip_name [of x "p @ ''/''"] assms(2,3) by simp
  then have "read_file st1 src = Some c" using read_after_write_other [of _ "[]" st True st1 src] o assms(5,6) by (simp add: open_trunc_def)
  moreover have "can_write st1 (p @ ''/'' @ x)" using write_file_again o by (simp add: open_trunc_def)
  ultimately have w: "write_file (p @ ''/'' @ x) c st1 = (True, st')"
    using assms(4,5) o by (auto simp: copy_stream_def write_file_def split: if_splits)
  have "stages inside {p @ ''/'' @ x} st st1" "stages inside {p @ ''/'' @ x} st1 st'"
    using stages_write [OF assms(1-3), of st "[]"] stages_write [OF assms(1-3), of st1 c] o w by (simp_all add: open_trunc_def)
  from stages_trans [OF this] show ?thesis using read_after_write [OF w] by simp
qed

text \<open>The text of an entry; nothing but the extracted copy is written.\<close>

lemma entry_text_staged:
  assumes "cpio_tool t mb wd rd ents inside" "clear_of inside (wd @ ''/'' @ p)" "word e" "word (p @ ''/'' @ x)"
    "x \<noteq> []" "last x \<noteq> CHR ''/''" "entry_text t mb wd rd e (p @ ''/'' @ x) s = (c, s')"
  shows "c = (case ents (d_os s) e of None \<Rightarrow> [] | Some c \<Rightarrow> c) \<and> stages inside {wd @ ''/'' @ p @ ''/'' @ x} (d_os s) (d_os s')"
proof -
  obtain b s1 where b: "cpio_entry_exists t mb wd rd e s = (b, s1)" by force
  have os: "d_os s1 = d_os s" using exists_os [OF assms(1), of e s] b by simp
  have bi: "b \<longleftrightarrow> ents (d_os s) e \<noteq> None" by (rule tool_exists [OF assms(1,3) b])
  show ?thesis
  proof (cases "ents (d_os s) e")
    case None
    then have "\<not> b" using bi by simp
    with assms(7) have "c = []" "s' = s1" by (simp_all add: entry_text_def b)
    then show ?thesis using None os by (simp add: stages_def keeps_def)
  next
    case (Some c0)
    obtain ok s2 where x: "cpio_extract_entry t mb wd rd e (p @ ''/'' @ x) s1 = (ok, s2)" by force
    have "ok \<and> d_os s2 = put_node (wd @ ''/'' @ p @ ''/'' @ x) (Reg 420 c0) (d_os s1)"
      using tool_extract [OF assms(1,3,4) x] Some os by simp
    moreover have b: "cpio_entry_exists t mb wd rd e s = (True, s1)" using b bi Some by simp
    ultimately show ?thesis
      using assms(7) Some os stages_put [OF assms(2,5,6), of "d_os s" "Reg 420 c0"]
      by (auto simp: entry_text_def b x [simplified] read_file_def file_text_def)
  qed
qed

text \<open>A list of the modules directory, merged and staged.\<close>

lemma merge_staged:
  assumes "cpio_tool t mb wd rd ents inside" "clear_of inside (wd @ ''/modroot/'' @ d)" "word d" "word n"
    "last n \<noteq> CHR ''/''" "merge_list t mb wd rd d n f s = (True, s')"
  shows "stages inside {wd @ ''/modroot/'' @ d @ ''/'' @ n @ ''.orig'', wd @ ''/modroot/'' @ d @ ''/'' @ n} (d_os s) (d_os s') \<and>
     read_file (d_os s') (wd @ ''/modroot/'' @ d @ ''/'' @ n) =
       Some (f (case ents (d_os s) (d @ ''/'' @ n) of None \<Rightarrow> [] | Some c \<Rightarrow> c))"
proof -
  let ?m = "''modroot/'' @ d" and ?o = "n @ ''.orig''"
  obtain c s1 where e: "entry_text t mb wd rd (d @ ''/'' @ n) (?m @ ''/'' @ ?o) s = (c, s1)" by force
  have c: "clear_of inside (wd @ ''/'' @ ?m)" using assms(2) by simp
  have w: "word (d @ ''/'' @ n)" "word (?m @ ''/'' @ ?o)" using assms(3,4) by (auto simp: word_def)
  have n: "n \<noteq> []" "n @ ''.orig'' \<noteq> []" "last (n @ ''.orig'') \<noteq> CHR ''/''" using assms(4) by (auto simp: word_def)
  from entry_text_staged [OF assms(1) c w n(2,3) e]
  have 1: "c = (case ents (d_os s) (d @ ''/'' @ n) of None \<Rightarrow> [] | Some c \<Rightarrow> c)"
    "stages inside {wd @ ''/'' @ ?m @ ''/'' @ ?o} (d_os s) (d_os s1)" by auto
  have "os_step (write_file (wd @ ''/modroot/'' @ d @ ''/'' @ n) (f c)) s1 = (True, s')"
    using assms(6) e by (simp add: merge_list_def)
  then have 2: "write_file ((wd @ ''/'' @ ?m) @ ''/'' @ n) (f c) (d_os s1) = (True, d_os s')"
    by (auto simp: os_step_def split: prod.splits)
  have "stages inside {(wd @ ''/'' @ ?m) @ ''/'' @ n} (d_os s1) (d_os s')"
    using stages_write [OF c n(1) assms(5), of "d_os s1" "f c"] unfolding 2 by simp
  from stages_trans [OF 1(2) this] show ?thesis using read_after_write [OF 2] 1(1) by (simp add: insert_commute)
qed

section \<open>The commands\<close>

lemma mkdirs_in_ramdisk:
  assumes "cpio_tool t mb wd rd ents inside" "list_all word ds"
    "cpio_all t mb wd rd (map (\<lambda>sub. ''mkdir 0755 '' @ sub) ds) s = (True, s')"
  shows "(\<forall>y. y \<notin> set ds \<longrightarrow> ents (d_os s') y = ents (d_os s) y) \<and> same_outside inside (d_os s) (d_os s')"
  using assms(2,3)
proof (induction ds arbitrary: s)
  case (Cons x ds)
  obtain s1 where d: "do_cpio_cmd t mb wd rd (''mkdir 0755 '' @ x) s = (True, s1)"
    "cpio_all t mb wd rd (map (\<lambda>sub. ''mkdir 0755 '' @ sub) ds) s1 = (True, s')"
    using Cons.prems(2) by (simp split: prod.splits bool.splits)
  have "word x" "list_all word ds" using Cons.prems by auto
  from tool_mkdir [OF assms(1) this(1) d(1)] Cons.IH [OF this(2) d(2)] show ?case
    by (auto simp: same_outside_def)
qed (simp add: same_outside_def)

lemma cpio_all_append:
  "cpio_all t mb wd rd (a @ b) s = (True, s') \<longleftrightarrow> (\<exists>s1. cpio_all t mb wd rd a s = (True, s1) \<and> cpio_all t mb wd rd b s1 = (True, s'))"
  by (induction a arbitrary: s) (auto split: prod.splits bool.splits)

lemma same_outside_read: "same_outside inside st st' \<Longrightarrow> \<not> inside q \<Longrightarrow> read_file st' q = read_file st q"
  by (simp add: same_outside_def read_file_def)

lemma same_outside_trans: "same_outside inside a b \<Longrightarrow> same_outside inside b c \<Longrightarrow> same_outside inside a c"
  by (simp add: same_outside_def)

text \<open>Adding staged files, one entry after the other.\<close>

fun put_all :: "(string \<times> string) list \<Rightarrow> (string \<Rightarrow> string option) \<Rightarrow> string \<Rightarrow> string option" where
  "put_all [] m = m"
| "put_all ((x, c) # es) m = put_all es (m(x \<mapsto> c))"

lemma adds_in_ramdisk:
  assumes "cpio_tool t mb wd rd ents inside"
    "list_all (\<lambda>(n, c). word (d @ ''/'' @ n) \<and> word (l @ ''/'' @ n) \<and> \<not> inside (wd @ ''/'' @ l @ ''/'' @ n) \<and>
       read_file (d_os s) (wd @ ''/'' @ l @ ''/'' @ n) = Some c) files"
    "cpio_all t mb wd rd (map (\<lambda>(n, c). ''add 0644 '' @ (d @ ''/'' @ n) @ '' '' @ (l @ ''/'' @ n)) files) s = (True, s')"
  shows "ents (d_os s') = put_all (map (\<lambda>(n, c). (d @ ''/'' @ n, c)) files) (ents (d_os s))"
  using assms(2,3)
proof (induction files arbitrary: s)
  case (Cons nc files)
  obtain n c where nc: "nc = (n, c)" by force
  let ?add = "\<lambda>(n, c). ''add 0644 '' @ (d @ ''/'' @ n) @ '' '' @ (l @ ''/'' @ n)"
  have h: "word (d @ ''/'' @ n)" "word (l @ ''/'' @ n)" "read_file (d_os s) (wd @ ''/'' @ l @ ''/'' @ n) = Some c"
    using Cons.prems(1) nc by auto
  obtain s1 where a: "do_cpio_cmd t mb wd rd (''add 0644 '' @ (d @ ''/'' @ n) @ '' '' @ (l @ ''/'' @ n)) s = (True, s1)"
    "cpio_all t mb wd rd (map ?add files) s1 = (True, s')"
    using Cons.prems(2) nc by (simp split: prod.splits bool.splits)
  from tool_add [OF assms(1) h(1,2) a(1) h(3)]
  have e: "ents (d_os s1) = (ents (d_os s))(d @ ''/'' @ n \<mapsto> c)" and o: "same_outside inside (d_os s) (d_os s1)" by auto
  have "list_all (\<lambda>(n, c). word (d @ ''/'' @ n) \<and> word (l @ ''/'' @ n) \<and> \<not> inside (wd @ ''/'' @ l @ ''/'' @ n) \<and>
       read_file (d_os s1) (wd @ ''/'' @ l @ ''/'' @ n) = Some c) files"
    using Cons.prems(1) same_outside_read [OF o] by (auto simp: list_all_iff)
  from Cons.IH [OF this a(2)] show ?case unfolding nc e list.map prod.case put_all.simps .
qed simp

lemma split_chars: "l \<in> set (split s c) \<Longrightarrow> set l \<subseteq> set s"
  unfolding split_def
proof (induction c s rule: getline_all.induct)
  case (1 c s)
  show ?case
  proof (cases "s = []")
    case False
    with "1.prems" have "l = takeWhile (\<lambda>x. x \<noteq> c) s \<or> l \<in> set (getline_all c (drop 1 (dropWhile (\<lambda>x. x \<noteq> c) s)))"
      by (simp add: getline_all.simps [of c s])
    then show ?thesis
    proof
      assume "l \<in> set (getline_all c (drop 1 (dropWhile (\<lambda>x. x \<noteq> c) s)))"
      then have "set l \<subseteq> set (drop 1 (dropWhile (\<lambda>x. x \<noteq> c) s))" by (rule "1.IH" [OF False])
      then show ?thesis using set_drop_subset set_dropWhileD by fastforce
    qed (auto dest: set_takeWhileD)
  qed (use "1.prems" in simp)
qed

lemma dir_parts_words: "CHR 0x20 \<notin> set acc \<Longrightarrow> \<forall>l\<in>set parts. CHR 0x20 \<notin> set l \<Longrightarrow> list_all word (dir_parts acc parts)"
  by (induction acc parts rule: dir_parts.induct) (auto simp: word_def Let_def)

section \<open>The module is merged\<close>

text \<open>
  C29: injecting the module, with a tool that does what the cpio commands say, leaves a ramdisk
  in which the chosen modules directory holds the module, its \<^verbatim>\<open>modules.load\<close> and
  \<^verbatim>\<open>modules.dep\<close> are the old ones with the module merged in, and every other entry is what it
  was, but for the directories above.
\<close>

theorem inject_module_merges:
  assumes "cpio_tool t mb wd rd ents inside" "fst (select_modules_dir t mb wd rd release s) = found"
    "d = (if found = [] then LIB_MODULES @ release else found)" "word d" "clear_of inside (wd @ ''/modroot/'' @ d)"
    "read_file (d_os s) kmod = Some ko" "strip_slash kmod \<noteq> wd @ ''/modroot/'' @ d @ ''/tamisu.ko''"
    "inject_module t mb wd rd release kmod s = (Some (), s')"
  shows "ents (d_os s') (d @ ''/tamisu.ko'') = Some ko \<and>
    ents (d_os s') (d @ ''/modules.load'') =
       Some (merge_modules_load (case ents (d_os s) (d @ ''/modules.load'') of None \<Rightarrow> [] | Some c \<Rightarrow> c) ''tamisu.ko'') \<and>
    ents (d_os s') (d @ ''/modules.dep'') =
       Some (merge_modules_dep (case ents (d_os s) (d @ ''/modules.dep'') of None \<Rightarrow> [] | Some c \<Rightarrow> c) ''tamisu.ko:'') \<and>
    (\<forall>x. x \<notin> {d @ ''/tamisu.ko'', d @ ''/modules.load'', d @ ''/modules.dep''} \<longrightarrow>
       x \<notin> set (dir_parts [] (split d CHR ''/'')) \<longrightarrow> ents (d_os s') x = ents (d_os s) x)"
proof -
  let ?l = "wd @ ''/modroot/'' @ d" and ?m = "''modroot/'' @ d"
  let ?load = "merge_modules_load (case ents (d_os s) (d @ ''/modules.load'') of None \<Rightarrow> [] | Some c \<Rightarrow> c) ''tamisu.ko''"
  let ?dep = "merge_modules_dep (case ents (d_os s) (d @ ''/modules.dep'') of None \<Rightarrow> [] | Some c \<Rightarrow> c) ''tamisu.ko:''"
  let ?files = "[(''tamisu.ko'', ko), (''modules.load'', ?load), (''modules.dep'', ?dep)]"
  obtain s0 where sel: "select_modules_dir t mb wd rd release s = (found, s0)" using assms(2) by (metis prod.collapse)
  have os0: "d_os s0 = d_os s" using select_os [OF assms(1), of release s] sel by simp
  obtain s1 s2 s3 s4 where st: "os_step (ensure_dir_exists ?l) s0 = (True, s1)"
    "os_step (copy_stream kmod (?l @ ''/tamisu.ko'')) s1 = (True, s2)"
    "merge_list t mb wd rd d ''modules.load'' (\<lambda>c. merge_modules_load c ''tamisu.ko'') s2 = (True, s3)"
    "merge_list t mb wd rd d ''modules.dep'' (\<lambda>c. merge_modules_dep c ''tamisu.ko:'') s3 = (True, s4)"
    "cpio_all t mb wd rd (inject_lines d) s4 = (True, s')"
    using assms(8) unfolding inject_module_def sel prod.case Let_def assms(3) [symmetric] on_ok_def
    by (auto split: if_splits simp: prod_eq_iff)
  have dir: "ensure_dir_exists ?l (d_os s) = (True, d_os s1)" using st(1) os0 by (auto simp: os_step_def split: prod.splits)
  have e1: "ents (d_os s1) = ents (d_os s)"
    using keeps_ents [OF assms(1) keeps_dir [OF assms(5), of "d_os s"]] dir by simp
  have "node_at (d_os s1) kmod = node_at (d_os s) kmod"
    using ensure_dir_only_dirs [OF dir, unfolded only_dirs_def, THEN conjunct1, rule_format, of kmod] assms(6)
    by (auto simp: read_file_def split: option.splits)
  then have k1: "read_file (d_os s1) kmod = Some ko" using assms(6) by (simp add: read_file_def)
  have cp: "copy_stream kmod (?l @ ''/'' @ ''tamisu.ko'') (d_os s1) = (True, d_os s2)"
    using st(2) by (auto simp: os_step_def split: prod.splits)
  have 2: "stages inside {?l @ ''/'' @ ''tamisu.ko''} (d_os s1) (d_os s2)" "read_file (d_os s2) (?l @ ''/'' @ ''tamisu.ko'') = Some ko"
    using copy_staged [OF assms(5) _ _ cp k1] assms(7) by auto
  have ents_stage: "stages inside ps st st' \<Longrightarrow> ents st' = ents st" for ps st st'
    using keeps_ents [OF assms(1)] unfolding stages_def by blast
  have w: "word ''modules.load''" "last ''modules.load'' \<noteq> CHR ''/''" "word ''modules.dep''" "last ''modules.dep'' \<noteq> CHR ''/''"
    by (simp_all add: word_def)
  note 3 = merge_staged [OF assms(1,5,4) w(1,2) st(3)]
  note 4 = merge_staged [OF assms(1,5,4) w(3,4) st(4)]
  have e3: "ents (d_os s2) = ents (d_os s)" "ents (d_os s3) = ents (d_os s)" "ents (d_os s4) = ents (d_os s)"
    using ents_stage [OF 2(1)] ents_stage [OF 3 [THEN conjunct1]] ents_stage [OF 4 [THEN conjunct1]] e1 by simp_all
  have strip: "strip_slash (wd @ ''/modroot/'' @ d @ ''/'' @ n) = wd @ ''/modroot/'' @ d @ ''/'' @ n" if "n \<noteq> []" "last n \<noteq> CHR ''/''" for n
    using strip_name [OF that, of "wd @ ''/modroot/'' @ d @ ''/''"] by simp
  have r: "read_file (d_os s4) (wd @ ''/'' @ ?m @ ''/'' @ ''tamisu.ko'') = Some ko"
    "read_file (d_os s4) (wd @ ''/'' @ ?m @ ''/'' @ ''modules.load'') = Some ?load"
    "read_file (d_os s4) (wd @ ''/'' @ ?m @ ''/'' @ ''modules.dep'') = Some ?dep"
    using 2 3 4 strip [of "''tamisu.ko''"] strip [of "''modules.load''"] by (simp_all add: stages_def e3)
  have ni: "\<not> inside (wd @ ''/'' @ ?m @ ''/'' @ n)" if "n \<noteq> []" "last n \<noteq> CHR ''/''" for n
    using outside_tree [OF assms(5) that] by simp
  have lines: "inject_lines d = map (\<lambda>sub. ''mkdir 0755 '' @ sub) (dir_parts [] (split d CHR ''/'')) @
      map (\<lambda>(n, c). ''add 0644 '' @ (d @ ''/'' @ n) @ '' '' @ (?m @ ''/'' @ n)) ?files"
    by (simp add: inject_lines_def)
  obtain s5 where s5: "cpio_all t mb wd rd (map (\<lambda>sub. ''mkdir 0755 '' @ sub) (dir_parts [] (split d CHR ''/''))) s4 = (True, s5)"
    "cpio_all t mb wd rd (map (\<lambda>(n, c). ''add 0644 '' @ (d @ ''/'' @ n) @ '' '' @ (?m @ ''/'' @ n)) ?files) s5 = (True, s')"
    using st(5) unfolding lines cpio_all_append by blast
  have "list_all word (dir_parts [] (split d CHR ''/''))"
    by (rule dir_parts_words) (use assms(4) split_chars [of _ d] in \<open>auto simp: word_def\<close>)
  from mkdirs_in_ramdisk [OF assms(1) this s5(1)]
  have 5: "\<forall>y. y \<notin> set (dir_parts [] (split d CHR ''/'')) \<longrightarrow> ents (d_os s5) y = ents (d_os s) y" "same_outside inside (d_os s4) (d_os s5)"
    using e3 by auto
  have "list_all (\<lambda>(n, c). word (d @ ''/'' @ n) \<and> word (?m @ ''/'' @ n) \<and> \<not> inside (wd @ ''/'' @ ?m @ ''/'' @ n) \<and>
       read_file (d_os s5) (wd @ ''/'' @ ?m @ ''/'' @ n) = Some c) ?files"
    using assms(4) same_outside_read [OF 5(2) ni] r ni by (simp add: word_def)
  from adds_in_ramdisk [OF assms(1) this s5(2)] 5(1) show ?thesis by simp
qed

end
