(* ===== verification/Boot_Example.thy ===== *)
theory Boot_Example
  imports Boot_Ramdisk
begin

text \<open>
  A tool that does what the cpio commands say, with its archive kept beside the file, and a
  device on which patching succeeds: the theorems of \<^verbatim>\<open>Boot_Props\<close> and \<^verbatim>\<open>Boot_Ramdisk\<close> at a
  concrete run.
\<close>

section \<open>A tool that keeps its archive beside the file\<close>

text \<open>
  The tool of the examples: an entry \<open>x\<close> of the archive \<open>rd\<close> is the node at \<open>rd#x.\<close>; unpacking
  and repacking an image succeed, the latter leaving its new image.
\<close>

definition entry_node :: "path \<Rightarrow> string \<Rightarrow> path" where
  "entry_node rd x = rd @ ''#'' @ x @ ''.''"

definition before_space :: "string \<Rightarrow> string" where "before_space s = takeWhile (\<lambda>c. c \<noteq> CHR 0x20) s"
definition after_space :: "string \<Rightarrow> string" where "after_space s = drop 1 (dropWhile (\<lambda>c. c \<noteq> CHR 0x20) s)"

definition demo_cpio :: "path \<Rightarrow> path \<Rightarrow> string \<Rightarrow> os \<Rightarrow> bool \<times> os" where
  "demo_cpio wd rd line st =
     (let cmd = before_space line; arg = after_space line in
      if cmd = ''exists'' then (is_reg st (entry_node rd arg), st)
      else if cmd = ''extract'' then
        (case node_at st (entry_node rd (before_space arg)) of
           Some (Reg m c) \<Rightarrow> (True, put_node (wd @ ''/'' @ after_space arg) (Reg 420 c) st)
         | _ \<Rightarrow> (False, st))
      else if cmd = ''add'' then
        (case read_file st (wd @ ''/'' @ after_space (after_space arg)) of
           Some c \<Rightarrow> (True, put_node (entry_node rd (before_space (after_space arg))) (Reg 420 c) st)
         | None \<Rightarrow> (False, st))
      else if cmd = ''mkdir'' then (True, put_node (entry_node rd (after_space arg)) (Reg 493 []) st)
      else (True, st))"

definition demo_magiskboot :: "path \<Rightarrow> string list \<Rightarrow> path \<Rightarrow> os \<Rightarrow> exec_result \<times> os" where
  "demo_magiskboot mb args wd st =
     (case (case args of
              [c, rd, line] \<Rightarrow> if c = ''cpio'' then demo_cpio wd rd line st
                              else if c = ''repack'' then (True, put_node line (Reg 420 ''new'') st) else (True, st)
            | _ \<Rightarrow> (True, st)) of
        (ok, st') \<Rightarrow> (exec_failed\<lparr>exit_code := (if ok then 0 else 1)\<rparr>, st'))"

definition demo_tools :: tools where
  "demo_tools = \<lparr>t_exec = (\<lambda>args wd st. (exec_failed\<lparr>exit_code := 0\<rparr>, st)),
     t_magiskboot = demo_magiskboot, t_system = (\<lambda>_ st. st), t_mkdtemp = (\<lambda>_ st. (Some ''/w'', st)),
     t_self = Some ''/d'', t_uname = Some ''5.10.1-android13-4'', t_cwd = None, t_now = ''1'', t_sha256 = (\<lambda>_. []),
     t_supported_kmi = [''android13-5.10''], t_copy_asset = (\<lambda>_ dst st. write_file dst ''module'' st),
     t_other_size = (\<lambda>_. 0)\<rparr>"

definition demo_dev :: dev where
  "demo_dev = \<lparr>d_os = \<lparr>fs = [(''/w'', Dir), (''/w/tamisu.ko'', Reg 420 ''module''), (''/d'', Reg 493 []),
       (''/w/modroot/lib/modules/5'', Dir), (''/w/ramdisk.cpio#lib/modules/5/modules.load.'', Reg 420 (''ext4.ko'' @ [NL]))],
     ro_path = (\<lambda>_. False), prop_of = (\<lambda>_. []), env_of = (\<lambda>_. None),
     run_of = (\<lambda>_. \<lparr>pipes_ok = True, fork_ok = True, out_reads = [], err_reads = [], wstatus = Exited 0\<rparr>),
     kernel_safemode = False, trace = []\<rparr>, d_log = []\<rparr>"


lemma spaces_word: "CHR 0x20 \<notin> set a \<Longrightarrow> before_space (a @ CHR 0x20 # b) = a \<and> after_space (a @ CHR 0x20 # b) = b"
  unfolding before_space_def after_space_def by (induction a) auto

lemma before_word: "CHR 0x20 \<notin> set a \<Longrightarrow> before_space a = a"
  unfolding before_space_def by (induction a) auto

lemma demo_line:
  "demo_cpio wd rd (''exists '' @ x) st = (is_reg st (entry_node rd x), st)"
  "fst (demo_cpio wd rd (''exists '' @ x) st) = is_reg st (entry_node rd x)"
  "snd (demo_cpio wd rd (''ls -r '' @ x) st) = st"
  "word x \<Longrightarrow> demo_cpio wd rd (''extract '' @ x @ '' '' @ f) st =
     (case node_at st (entry_node rd x) of Some (Reg m c) \<Rightarrow> (True, put_node (wd @ ''/'' @ f) (Reg 420 c) st) | _ \<Rightarrow> (False, st))"
  "word x \<Longrightarrow> demo_cpio wd rd (''add 0644 '' @ x @ '' '' @ f) st =
     (case read_file st (wd @ ''/'' @ f) of Some c \<Rightarrow> (True, put_node (entry_node rd x) (Reg 420 c) st) | None \<Rightarrow> (False, st))"
  "demo_cpio wd rd (''mkdir 0755 '' @ x) st = (True, put_node (entry_node rd x) (Reg 493 []) st)"
  using spaces_word [of "''exists''" x] spaces_word [of "''ls''" "''-r '' @ x"] spaces_word [of "''extract''" "x @ '' '' @ f"]
    spaces_word [of "''add''" "''0644 '' @ x @ '' '' @ f"] spaces_word [of "''0644''" "x @ '' '' @ f"]
    spaces_word [of x f] spaces_word [of "''mkdir''" "''0755 '' @ x"] spaces_word [of "''0755''" x]
  by (simp_all add: demo_cpio_def word_def Let_def split: option.splits node.splits)

lemma demo_cmd:
  "fst (do_cpio_cmd demo_tools mb wd rd line s) = fst (demo_cpio wd rd line (d_os s))"
  "d_os (snd (do_cpio_cmd demo_tools mb wd rd line s)) = snd (demo_cpio wd rd line (d_os s))"
  by (simp_all add: do_cpio_cmd_def run_magiskboot_def demo_tools_def demo_magiskboot_def exec_failed_def split: prod.splits)

definition demo_entries :: "path \<Rightarrow> os \<Rightarrow> string \<Rightarrow> string option" where
  "demo_entries rd st x = (case node_at st (entry_node rd x) of Some (Reg m c) \<Rightarrow> Some c | _ \<Rightarrow> None)"

definition in_archive :: "path \<Rightarrow> path \<Rightarrow> bool" where
  "in_archive rd q \<longleftrightarrow> prefix (rd @ ''#'') (strip_slash q)"

lemma strip_entry_node [simp]: "strip_slash (entry_node rd x) = entry_node rd x"
  by (simp add: entry_node_def strip_slash_def)

lemma in_archive_entry [simp]: "in_archive rd (entry_node rd x)"
  by (simp add: in_archive_def) (simp add: entry_node_def)

lemma demo_mb: "t_magiskboot demo_tools mb [''cpio'', rd, line] wd st =
    (exec_failed\<lparr>exit_code := (if fst (demo_cpio wd rd line st) then 0 else 1)\<rparr>, snd (demo_cpio wd rd line st))"
  by (simp add: demo_tools_def demo_magiskboot_def split: prod.splits)

lemma demo_is_cpio_tool: "cpio_tool demo_tools mb wd rd (demo_entries rd) (in_archive rd)"
proof -
  have inj: "entry_node rd x = entry_node rd y \<longleftrightarrow> x = y" for x y by (simp add: entry_node_def)
  have out: "\<not> in_archive rd q \<Longrightarrow> strip_slash q \<noteq> entry_node rd x" for q x
    by (auto simp: in_archive_def entry_node_def)
  have e: "(\<forall>q. in_archive rd q \<longrightarrow> node_at st' q = node_at st q) \<Longrightarrow> demo_entries rd st' = demo_entries rd st" for st st'
    by (simp add: demo_entries_def fun_eq_iff)
  have x: "demo_entries rd st x = (case node_at st (entry_node rd x) of Some (Reg m c) \<Rightarrow> Some c | _ \<Rightarrow> None)" for st x
    by (simp add: demo_entries_def)
  show ?thesis
    unfolding cpio_tool_def
    apply (intro conjI)
    subgoal using e by blast
    subgoal by (auto simp: demo_mb demo_line demo_line [simplified] is_reg_def x split: option.splits node.splits)
    subgoal by (auto simp: demo_mb demo_line [simplified])
    subgoal by (auto simp: demo_mb demo_line [simplified])
    subgoal by (auto simp: demo_mb demo_line demo_line [simplified] is_reg_def x split: option.splits node.splits)
    subgoal by (auto simp: demo_mb demo_line demo_line [simplified] is_reg_def x fun_eq_iff node_at_put inj out split: option.splits)
    subgoal by (auto simp: demo_mb demo_line demo_line [simplified] is_reg_def x node_at_put inj out)
    done
qed

section \<open>Injecting succeeds\<close>
text \<open>A directory whose files can be written, and steps that only write regular files.\<close>

definition open_dir :: "path \<Rightarrow> os \<Rightarrow> bool" where
  "open_dir l st \<longleftrightarrow> ro_path st = (\<lambda>_. False) \<and> is_dir st l \<and>
     (\<forall>n. CHR ''/'' \<notin> set n \<longrightarrow> n \<noteq> [] \<longrightarrow> node_at st (l @ ''/'' @ n) = None \<or> is_reg st (l @ ''/'' @ n))"

definition writes_files :: "path \<Rightarrow> os \<Rightarrow> os \<Rightarrow> bool" where
  "writes_files l st st' \<longleftrightarrow> ro_path st' = ro_path st \<and> node_at st' l = node_at st l \<and>
     (\<forall>q. node_at st' q = node_at st q \<or> is_reg st' q)"

lemma writes_files_refl [simp]: "writes_files l st st"
  by (simp add: writes_files_def)

lemma writes_files_trans: "writes_files l a b \<Longrightarrow> writes_files l b c \<Longrightarrow> writes_files l a c"
  unfolding writes_files_def is_reg_def by metis

lemma open_dir_writes: "open_dir l st \<Longrightarrow> writes_files l st st' \<Longrightarrow> open_dir l st'"
  unfolding open_dir_def writes_files_def is_dir_def is_reg_def by metis

lemma writes_put: "strip_slash q \<noteq> strip_slash l \<Longrightarrow> writes_files l st (put_node q (Reg m c) st)"
  by (auto simp: writes_files_def node_at_put is_reg_def)

lemma parent_of_file: "CHR ''/'' \<notin> set n \<Longrightarrow> l \<noteq> [] \<Longrightarrow> parent (l @ ''/'' @ n) = l"
proof -
  assume n: "CHR ''/'' \<notin> set n" and l: "l \<noteq> []"
  have "find_char CHR ''/'' (rev n @ CHR ''/'' # rev l) = Some (length n)"
    using n find_char_append [of "CHR ''/''" "rev n" "rev l"] by simp
  then show ?thesis using l by (simp add: parent_def rfind_slash_def)
qed

lemma file_strip: "CHR ''/'' \<notin> set n \<Longrightarrow> n \<noteq> [] \<Longrightarrow> strip_slash (l @ ''/'' @ n) = l @ ''/'' @ n"
  by (auto simp: strip_slash_def dest: last_in_set)

lemma file_not_dir: "CHR ''/'' \<notin> set n \<Longrightarrow> n \<noteq> [] \<Longrightarrow> strip_slash (l @ ''/'' @ n) \<noteq> strip_slash l"
proof -
  assume *: "CHR ''/'' \<notin> set n" "n \<noteq> []"
  have "length (strip_slash l) \<le> length l" by (simp add: strip_slash_def)
  then have "length (strip_slash l) \<noteq> length (l @ ''/'' @ n)" by simp
  then show ?thesis unfolding file_strip [OF *] by metis
qed

lemma open_dir_file:
  assumes "open_dir l st" "CHR ''/'' \<notin> set n" "n \<noteq> []" "l \<noteq> []"
  shows "fst (write_file (l @ ''/'' @ n) c st)" "writes_files l st (snd (write_file (l @ ''/'' @ n) c st))"
proof -
  have n: "node_at st (l @ ''/'' @ n) = None \<or> is_reg st (l @ ''/'' @ n)" and ro: "ro_path st = (\<lambda>_. False)" and d: "is_dir st l"
    using assms(1-3) by (auto simp: open_dir_def)
  have "parent (strip_slash (l @ ''/'' @ n)) = l" unfolding file_strip [OF assms(2,3)] by (rule parent_of_file [OF assms(2,4)])
  with n ro d have w: "can_write st (l @ ''/'' @ n)"
    by (auto simp only: can_write_def creatable_def is_reg_def split: option.splits node.splits)
  from n have "\<exists>m. retext 420 (node_at st (l @ ''/'' @ n)) c = Reg m c"
    by (auto simp: retext_def is_reg_def split: option.splits node.splits)
  then show "fst (write_file (l @ ''/'' @ n) c st)" "writes_files l st (snd (write_file (l @ ''/'' @ n) c st))"
    using w writes_put [OF file_not_dir [OF assms(2,3)]] by (auto simp: write_file_def)
qed

lemma demo_entry_text:
  assumes "word e" "CHR ''/'' \<notin> set n" "n \<noteq> []"
  shows "writes_files (wd @ ''/'' @ l) (d_os s) (d_os (snd (entry_text demo_tools mb wd rd e (l @ ''/'' @ n) s)))"
proof -
  obtain b s1 where b: "cpio_entry_exists demo_tools mb wd rd e s = (b, s1)" by force
  obtain ok s2 where x: "cpio_extract_entry demo_tools mb wd rd e (l @ ''/'' @ n) s1 = (ok, s2)" by force
  have 1: "d_os s1 = d_os s"
    using exists_os [OF demo_is_cpio_tool, of mb wd rd e s] b by simp
  have "d_os s2 = snd (demo_cpio wd rd (''extract '' @ e @ '' '' @ l @ ''/'' @ n) (d_os s1))"
    using demo_cmd(2) [of mb wd rd "''extract '' @ e @ '' '' @ l @ ''/'' @ n" s1] x
    unfolding cpio_extract_entry_def by simp
  then have "writes_files (wd @ ''/'' @ l) (d_os s1) (d_os s2)"
    using file_not_dir [OF assms(2,3), of "wd @ ''/'' @ l"] demo_line(4) [OF assms(1), of wd rd "l @ ''/'' @ n" "d_os s1"]
    by (auto intro!: writes_put split: option.splits node.splits)
  with 1 show ?thesis by (cases b) (simp_all add: entry_text_def b x [simplified])
qed

lemma demo_merge:
  assumes "word d" "word n" "CHR ''/'' \<notin> set n" "open_dir (wd @ ''/modroot/'' @ d) (d_os s)"
  obtains s' where "merge_list demo_tools mb wd rd d n f s = (True, s')" "writes_files (wd @ ''/modroot/'' @ d) (d_os s) (d_os s')"
    "read_file (d_os s') (wd @ ''/modroot/'' @ d @ ''/'' @ n) \<noteq> None"
proof -
  let ?l = "wd @ ''/modroot/'' @ d"
  obtain c s1 where e: "entry_text demo_tools mb wd rd (d @ ''/'' @ n) (''modroot/'' @ d @ ''/'' @ n @ ''.orig'') s = (c, s1)" by force
  have w: "word (d @ ''/'' @ n)" "n \<noteq> []" using assms(1,2) by (auto simp: word_def)
  have 1: "writes_files ?l (d_os s) (d_os s1)"
    using demo_entry_text [OF w(1), of "n @ ''.orig''" wd "''modroot/'' @ d" s mb rd] assms(3) e by simp
  have 2: "fst (write_file (?l @ ''/'' @ n) (f c) (d_os s1))" "writes_files ?l (d_os s1) (snd (write_file (?l @ ''/'' @ n) (f c) (d_os s1)))"
    by (rule open_dir_file [OF open_dir_writes [OF assms(4) 1] assms(3) w(2)]; simp)+
  let ?w = "write_file (?l @ ''/'' @ n) (f c) (d_os s1)"
  have "merge_list demo_tools mb wd rd d n f s = (fst ?w, s1\<lparr>d_os := snd ?w\<rparr>)"
    unfolding merge_list_def e prod.case os_step_def by (simp add: case_prod_beta)
  moreover have "fst ?w" "writes_files ?l (d_os s) (snd ?w)" using 2 1 by (simp_all add: writes_files_trans)
  moreover have "read_file (snd ?w) (?l @ ''/'' @ n) \<noteq> None"
    using read_after_write [of "?l @ ''/'' @ n" "f c" "d_os s1" "snd ?w"] \<open>fst ?w\<close> by (simp add: prod_eq_iff)
  ultimately show thesis by (intro that [of "s1\<lparr>d_os := snd ?w\<rparr>"]) simp_all
qed

lemma demo_all_mkdirs:
  obtains s' where "cpio_all demo_tools mb wd rd (map (\<lambda>sub. ''mkdir 0755 '' @ sub) ds) s = (True, s')"
    "\<And>p. read_file (d_os s) p \<noteq> None \<Longrightarrow> read_file (d_os s') p \<noteq> None"
proof -
  have "\<exists>s'. cpio_all demo_tools mb wd rd (map (\<lambda>sub. ''mkdir 0755 '' @ sub) ds) s = (True, s') \<and>
      (\<forall>p. read_file (d_os s) p \<noteq> None \<longrightarrow> read_file (d_os s') p \<noteq> None)"
  proof (induction ds arbitrary: s)
    case (Cons d ds)
    obtain ok s1 where d: "do_cpio_cmd demo_tools mb wd rd (''mkdir 0755 '' @ d) s = (ok, s1)" by force
    have ok: ok "d_os s1 = put_node (entry_node rd d) (Reg 493 []) (d_os s)"
      using demo_cmd [of mb wd rd "''mkdir 0755 '' @ d" s] demo_line(6) [of wd rd d "d_os s"] d by simp_all
    then have "read_file (d_os s) p \<noteq> None \<Longrightarrow> read_file (d_os s1) p \<noteq> None" for p
      by (auto simp: read_file_def node_at_put file_text_def)
    then show ?case using Cons [of s1] d ok by auto
  qed simp
  then show thesis using that by blast
qed

lemma demo_all_adds:
  assumes "list_all (\<lambda>n. word (d @ ''/'' @ n) \<and> read_file (d_os s) (wd @ ''/modroot/'' @ d @ ''/'' @ n) \<noteq> None) ns"
  shows "fst (cpio_all demo_tools mb wd rd (map (\<lambda>n. ''add 0644 '' @ d @ ''/'' @ n @ '' modroot/'' @ d @ ''/'' @ n) ns) s)"
  using assms
proof (induction ns arbitrary: s)
  case (Cons n ns)
  let ?line = "''add 0644 '' @ d @ ''/'' @ n @ '' modroot/'' @ d @ ''/'' @ n"
  obtain ok s1 where c: "do_cpio_cmd demo_tools mb wd rd ?line s = (ok, s1)" by force
  obtain x where x: "read_file (d_os s) (wd @ ''/modroot/'' @ d @ ''/'' @ n) = Some x" "word (d @ ''/'' @ n)" using Cons.prems by auto
  have "demo_cpio wd rd ?line (d_os s) = (True, put_node (entry_node rd (d @ ''/'' @ n)) (Reg 420 x) (d_os s))"
    using demo_line(5) [OF x(2), of wd rd "''modroot/'' @ d @ ''/'' @ n" "d_os s"] x(1) by simp
  then have o: ok "d_os s1 = put_node (entry_node rd (d @ ''/'' @ n)) (Reg 420 x) (d_os s)"
    using demo_cmd [of mb wd rd ?line s] c by auto
  have "list_all (\<lambda>n. word (d @ ''/'' @ n) \<and> read_file (d_os s1) (wd @ ''/modroot/'' @ d @ ''/'' @ n) \<noteq> None) ns"
    using Cons.prems by (auto simp: list_all_iff o(2) read_file_def node_at_put file_text_def)
  from Cons.IH [OF this] o(1) c show ?case by simp
qed simp

lemma read_written: "fst (write_file p c st) \<Longrightarrow> read_file (snd (write_file p c st)) p = Some c"
  by (rule read_after_write [of _ _ st]) (simp add: prod_eq_iff)

lemma fst_True: "fst x \<Longrightarrow> \<exists>s. x = (True, s)"
  by (cases x) simp

lemma demo_copy:
  assumes "open_dir l st" "CHR ''/'' \<notin> set n" "n \<noteq> []" "l \<noteq> []" "read_file st src \<noteq> None"
  shows "fst (copy_stream src (l @ ''/'' @ n) st)" "writes_files l st (snd (copy_stream src (l @ ''/'' @ n) st))"
    "read_file (snd (copy_stream src (l @ ''/'' @ n) st)) (l @ ''/'' @ n) \<noteq> None"
proof -
  let ?o = "write_file (l @ ''/'' @ n) [] st"
  note 1 = open_dir_file [OF assms(1-4), of "[]"]
  note 2 = open_dir_file [OF open_dir_writes [OF assms(1) 1(2)] assms(2-4)]
  have o: "open_trunc (l @ ''/'' @ n) st = (True, snd ?o)" using 1(1) by (simp add: open_trunc_def prod_eq_iff)
  have c: "copy_stream src (l @ ''/'' @ n) st = (True, snd (write_file (l @ ''/'' @ n)
      (case read_file (snd ?o) src of None \<Rightarrow> [] | Some s \<Rightarrow> s) (snd ?o)))"
    unfolding copy_stream_def o prod.case using assms(5) by simp
  show "fst (copy_stream src (l @ ''/'' @ n) st)" "writes_files l st (snd (copy_stream src (l @ ''/'' @ n) st))"
    "read_file (snd (copy_stream src (l @ ''/'' @ n) st)) (l @ ''/'' @ n) \<noteq> None"
    unfolding c using writes_files_trans [OF 1(2) 2(2)] read_written [OF 2(1)] by simp_all
qed

lemma writes_read:
  assumes "writes_files l st st'" "read_file st p \<noteq> None"
  shows "read_file st' p \<noteq> None"
proof -
  have "node_at st' p = node_at st p \<or> is_reg st' p" using assms(1) by (simp add: writes_files_def)
  then show ?thesis using assms(2) by (auto simp: read_file_def is_reg_def file_text_def split: option.splits node.splits)
qed

lemma demo_inject:
  assumes "fst (select_modules_dir demo_tools mb wd rd release s) = d" "word d" "open_dir (wd @ ''/modroot/'' @ d) (d_os s)"
    "read_file (d_os s) kmod \<noteq> None"
  shows "fst (inject_module demo_tools mb wd rd release kmod s) = Some ()"
proof -
  let ?l = "wd @ ''/modroot/'' @ d"
  obtain s0 where sel: "select_modules_dir demo_tools mb wd rd release s = (d, s0)" using assms(1) by (metis prod.collapse)
  have d: "d \<noteq> []" using assms(2) by (simp add: word_def)
  have o0: "d_os s0 = d_os s" using select_os [OF demo_is_cpio_tool [of mb wd rd], of release s] sel by simp
  have "ensure_dir_exists ?l (d_os s) = (True, d_os s)"
    using assms(3) by (auto simp: ensure_dir_exists_def exists_path_def is_dir_def open_dir_def)
  with o0 have 1: "os_step (ensure_dir_exists ?l) s0 = (True, s0)" by (simp add: os_step_def)
  have ko: "CHR ''/'' \<notin> set ''tamisu.ko''" "''tamisu.ko'' \<noteq> []" "?l \<noteq> []" by simp_all
  have op0: "open_dir ?l (d_os s0)" and rk: "read_file (d_os s0) kmod \<noteq> None" using assms(3,4) o0 by simp_all
  note cp = demo_copy [OF op0 ko rk]
  define s1 where "s1 = s0\<lparr>d_os := snd (copy_stream kmod (?l @ ''/tamisu.ko'') (d_os s0))\<rparr>"
  have 2: "os_step (copy_stream kmod (?l @ ''/tamisu.ko'')) s0 = (True, s1)"
    using cp(1) by (simp add: os_step_def s1_def case_prod_beta)
  have w1: "writes_files ?l (d_os s0) (d_os s1)" using cp(2) by (simp add: s1_def)
  have r1: "read_file (d_os s1) (?l @ ''/tamisu.ko'') \<noteq> None" using cp(3) by (simp add: s1_def)
  have n: "word ''modules.load''" "CHR ''/'' \<notin> set ''modules.load''" "word ''modules.dep''" "CHR ''/'' \<notin> set ''modules.dep''"
    by (simp_all add: word_def)
  obtain s2 where 3: "merge_list demo_tools mb wd rd d ''modules.load'' (\<lambda>c. merge_modules_load c ''tamisu.ko'') s1 = (True, s2)"
    "writes_files ?l (d_os s1) (d_os s2)" "read_file (d_os s2) (?l @ ''/modules.load'') \<noteq> None"
    by (rule demo_merge [OF assms(2) n(1,2) open_dir_writes [OF op0 w1]]) simp
  obtain s3 where 4: "merge_list demo_tools mb wd rd d ''modules.dep'' (\<lambda>c. merge_modules_dep c ''tamisu.ko:'') s2 = (True, s3)"
    "writes_files ?l (d_os s2) (d_os s3)" "read_file (d_os s3) (?l @ ''/modules.dep'') \<noteq> None"
    by (rule demo_merge [OF assms(2) n(3,4) open_dir_writes [OF open_dir_writes [OF op0 w1] 3(2)]]) simp
  obtain s4 where 5: "cpio_all demo_tools mb wd rd (map (\<lambda>sub. ''mkdir 0755 '' @ sub) (dir_parts [] (split d CHR ''/''))) s3 = (True, s4)"
    "\<And>p. read_file (d_os s3) p \<noteq> None \<Longrightarrow> read_file (d_os s4) p \<noteq> None"
    by (rule demo_all_mkdirs [of mb wd rd _ s3]) blast
  have r3: "read_file (d_os s3) (?l @ ''/tamisu.ko'') \<noteq> None" "read_file (d_os s3) (?l @ ''/modules.load'') \<noteq> None"
    by (rule writes_read [OF 4(2) writes_read [OF 3(2) r1]], rule writes_read [OF 4(2) 3(3)])
  have r4: "read_file (d_os s4) (?l @ ''/tamisu.ko'') \<noteq> None" "read_file (d_os s4) (?l @ ''/modules.load'') \<noteq> None"
    "read_file (d_os s4) (?l @ ''/modules.dep'') \<noteq> None"
    by (rule 5(2), rule r3(1), rule 5(2), rule r3(2), rule 5(2), rule 4(3))
  have w4: "word (d @ ''/'' @ ''tamisu.ko'')" "word (d @ ''/'' @ ''modules.load'')" "word (d @ ''/'' @ ''modules.dep'')"
    using assms(2) by (simp_all add: word_def)
  have "fst (cpio_all demo_tools mb wd rd (map (\<lambda>n. ''add 0644 '' @ d @ ''/'' @ n @ '' modroot/'' @ d @ ''/'' @ n)
      [''tamisu.ko'', ''modules.load'', ''modules.dep'']) s4)"
    by (rule demo_all_adds, unfold list.pred_inject(2), intro conjI w4) (use r4 in simp_all)
  from fst_True [OF this] obtain s5 where 6: "cpio_all demo_tools mb wd rd (map (\<lambda>n. ''add 0644 '' @ d @ ''/'' @ n @ '' modroot/'' @ d @ ''/'' @ n)
      [''tamisu.ko'', ''modules.load'', ''modules.dep'']) s4 = (True, s5)" by (rule exE)
  have "cpio_all demo_tools mb wd rd (inject_lines d) s3 = (True, s5)"
    unfolding inject_lines_def cpio_all_append using 5(1) 6 by blast
  then show ?thesis
    unfolding inject_module_def sel prod.case Let_def using d 1 2 3(1) 4(1) by (simp add: on_ok_def)
qed

theorem inject_module_merges_witness:
  "demo_entries ''/w/ramdisk.cpio'' (d_os (snd (inject_module demo_tools ''/d'' ''/w'' ''/w/ramdisk.cpio'' ''5'' ''/w/tamisu.ko'' demo_dev)))
     ''lib/modules/5/modules.load'' = Some (''ext4.ko'' @ [NL] @ ''tamisu.ko'' @ [NL])"
proof -
  let ?d = "''lib/modules/5''" and ?rd = "''/w/ramdisk.cpio''"
  have sel: "fst (select_modules_dir demo_tools ''/d'' ''/w'' ?rd ''5'' demo_dev) = ?d" by code_simp
  have dd: "?d = (if ?d = [] then LIB_MODULES @ ''5'' else ?d)" by simp
  have w: "word ?d" by (simp add: word_def)
  have c: "clear_of (in_archive ?rd) (''/w'' @ ''/modroot/'' @ ?d)"
    unfolding clear_of_def in_archive_def
  proof (intro allI impI conjI)
    fix q i assume q: "prefix (?rd @ ''#'') (strip_slash q)"
    have s: "prefix (strip_slash x) x" for x by (simp add: strip_slash_def prefixeq_butlast)
    show "strip_slash q \<noteq> strip_slash (take i (''/w'' @ ''/modroot/'' @ ?d))"
    proof
      assume "strip_slash q = strip_slash (take i (''/w'' @ ''/modroot/'' @ ?d))"
      then have "prefix (strip_slash q) (take i (''/w'' @ ''/modroot/'' @ ?d))" by (simp only: s)
      from prefix_order.trans [OF q prefix_order.trans [OF this take_is_prefix]]
      have "prefix (?rd @ ''#'') (''/w'' @ ''/modroot/'' @ ?d)" .
      then show False by simp
    qed
    show "\<not> prefix ((''/w'' @ ''/modroot/'' @ ?d) @ ''/'') (strip_slash q)"
    proof
      assume "prefix ((''/w'' @ ''/modroot/'' @ ?d) @ ''/'') (strip_slash q)"
      from prefix_same_cases [OF q this]
      have "prefix (?rd @ ''#'') ((''/w'' @ ''/modroot/'' @ ?d) @ ''/'') \<or> prefix ((''/w'' @ ''/modroot/'' @ ?d) @ ''/'') (?rd @ ''#'')" .
      then show False by simp
    qed
  qed
  have k: "read_file (d_os demo_dev) ''/w/tamisu.ko'' = Some ''module''" by code_simp
  have n: "strip_slash ''/w/tamisu.ko'' \<noteq> ''/w'' @ ''/modroot/'' @ ?d @ ''/tamisu.ko''" by code_simp
  have o: "open_dir (''/w'' @ ''/modroot/'' @ ?d) (d_os demo_dev)"
    by (auto simp: open_dir_def is_dir_def is_reg_def node_at_def strip_slash_def demo_dev_def)
  have "fst (inject_module demo_tools ''/d'' ''/w'' ?rd ''5'' ''/w/tamisu.ko'' demo_dev) = Some ()"
    by (rule demo_inject [OF sel w o]) (simp add: k)
  then have i: "inject_module demo_tools ''/d'' ''/w'' ?rd ''5'' ''/w/tamisu.ko'' demo_dev =
      (Some (), snd (inject_module demo_tools ''/d'' ''/w'' ?rd ''5'' ''/w/tamisu.ko'' demo_dev))"
    by (metis prod.collapse)
  have e: "demo_entries ?rd (d_os demo_dev) (?d @ ''/modules.load'') = Some (''ext4.ko'' @ [NL])" by code_simp
  have m: "merge_modules_load (''ext4.ko'' @ [NL]) ''tamisu.ko'' = ''ext4.ko'' @ [NL] @ ''tamisu.ko'' @ [NL]" by code_simp
  from inject_module_merges [OF demo_is_cpio_tool sel dd w c k n i, THEN conjunct2, THEN conjunct1]
  show ?thesis unfolding e option.case m by simp
qed


end
