(* ===== verification/Apk_Sign.thy ===== *)
theory Apk_Sign
  imports Flash_Partition Bytes
begin

text \<open>
  The signature of an APK, \<^verbatim>\<open>boot/apk_sign.cpp\<close>: the end record is searched from the end of the
  file, the central directory for the v1 manifest, the signing block for the v2 and v3 pairs.

  A variable the code does not initialise holds \<open>junk\<close> (its name, and where the stream was when
  it was declared); a read that fails leaves it, or what it did not reach of it, as it was.
\<close>

section \<open>The input stream\<close>

record ifs =
  i_buf :: bytes
  i_pos :: nat
  i_fail :: bool

definition tellg :: "ifs \<Rightarrow> int" where
  "tellg s = (if i_fail s then - 1 else int (i_pos s))"

definition seek_to :: "int \<Rightarrow> ifs \<Rightarrow> ifs" where
  "seek_to p s = (if i_fail s then s else if p < 0 then s\<lparr>i_fail := True\<rparr> else s\<lparr>i_pos := nat p\<rparr>)"

definition seek_end :: "int \<Rightarrow> ifs \<Rightarrow> ifs" where
  "seek_end off s = seek_to (int (length (i_buf s)) + off) s"

definition seek_cur :: "int \<Rightarrow> ifs \<Rightarrow> ifs" where
  "seek_cur off s = seek_to (int (i_pos s) + off) s"

text \<open>\<^verbatim>\<open>read\<close> into a variable that holds \<open>old\<close>.\<close>

definition read_into :: "bytes \<Rightarrow> ifs \<Rightarrow> bytes \<times> ifs" where
  "read_into old s =
     (if i_fail s then (old, s)
      else (let data = take (length old) (drop (i_pos s) (i_buf s)) in
            if length data = length old then (data, s\<lparr>i_pos := i_pos s + length old\<rparr>)
            else (data @ drop (length data) old, s\<lparr>i_pos := max (i_pos s) (length (i_buf s)), i_fail := True\<rparr>)))"

type_synonym junk = "string \<Rightarrow> int \<Rightarrow> bytes"

definition uninit :: "junk \<Rightarrow> string \<Rightarrow> ifs \<Rightarrow> nat \<Rightarrow> bytes" where
  "uninit junk v s n = take n (junk v (tellg s) @ replicate n 0)"

definition read_u16 :: "bytes \<Rightarrow> ifs \<Rightarrow> u16 \<times> ifs" where
  "read_u16 old s = (case read_into old s of (b, s1) \<Rightarrow> (of_nat (le_nat b), s1))"

definition read_u32 :: "bytes \<Rightarrow> ifs \<Rightarrow> u32 \<times> ifs" where
  "read_u32 old s = (case read_into old s of (b, s1) \<Rightarrow> (of_nat (le_nat b), s1))"

definition read_u64 :: "bytes \<Rightarrow> ifs \<Rightarrow> u64 \<times> ifs" where
  "read_u64 old s = (case read_into old s of (b, s1) \<Rightarrow> (of_nat (le_nat b), s1))"

section \<open>The result\<close>

record apk_signature =
  a_valid :: bool
  a_v1 :: bool
  a_v2_has :: bool
  a_v2_size :: u32
  a_v2_hash :: string
  a_v3 :: bool
  a_v31 :: bool

definition no_signature :: apk_signature where
  "no_signature = \<lparr>a_valid = False, a_v1 = False, a_v2_has = False, a_v2_size = 0, a_v2_hash = [], a_v3 = False, a_v31 = False\<rparr>"

definition sha256_digest :: "(bytes \<Rightarrow> bytes) \<Rightarrow> bytes \<Rightarrow> string" where
  "sha256_digest sha data = bytes_to_hex (take 32 (sha data))"

section \<open>The v1 manifest\<close>

definition kManifest :: bytes where "kManifest = str_bytes ''META-INF/MANIFEST.MF''"

definition u16_at :: "nat \<Rightarrow> bytes \<Rightarrow> nat" where
  "u16_at i h = le_nat (take 2 (drop i h))"

lemma seek_buf [simp]: "i_buf (seek_to p s) = i_buf s" "i_buf (seek_cur p s) = i_buf s" "i_buf (seek_end p s) = i_buf s"
  by (simp_all add: seek_to_def seek_cur_def seek_end_def)

lemma read_pos:
  assumes "read_into old s = (b, s1)" "\<not> i_fail s1" "old \<noteq> []"
  shows "i_buf s1 = i_buf s" "i_pos s1 = i_pos s + length old" "i_pos s1 \<le> length (i_buf s)" "\<not> i_fail s" "length b = length old"
proof -
  have f: "\<not> i_fail s" using assms by (auto simp: read_into_def)
  then have l: "length (take (length old) (drop (i_pos s) (i_buf s))) = length old"
    "s1 = s\<lparr>i_pos := i_pos s + length old\<rparr>" "b = take (length old) (drop (i_pos s) (i_buf s))"
    using assms by (auto simp: read_into_def Let_def split: if_splits)
  have "length old > 0" using assms(3) by simp
  moreover from l(1) have "min (length (i_buf s) - i_pos s) (length old) = length old" by simp
  ultimately have "i_pos s + length old \<le> length (i_buf s)" using \<open>length old > 0\<close>
    by (cases "i_pos s \<le> length (i_buf s)") (auto simp: min_def split: if_splits)
  then show "i_buf s1 = i_buf s" "i_pos s1 = i_pos s + length old" "i_pos s1 \<le> length (i_buf s)" "\<not> i_fail s" "length b = length old"
    using f l by simp_all
qed

lemma read_buf: "read_into old s = (b, s1) \<Longrightarrow> i_buf s1 = i_buf s"
  by (auto simp: read_into_def Let_def split: if_splits)

lemma read_forward: "read_into old s = (b, s1) \<Longrightarrow> \<not> i_fail s1 \<Longrightarrow> i_buf s1 = i_buf s \<and> i_pos s1 \<ge> i_pos s"
  by (auto simp: read_into_def Let_def split: if_splits)

function v1_loop :: "int \<Rightarrow> ifs \<Rightarrow> bool" where
  "v1_loop cd_end s =
     (if \<not> tellg s < cd_end then False
      else (case read_into (replicate 46 0) s of
              (header, s1) \<Rightarrow>
                if i_fail s1 then False
                else if le_nat (take 4 header) \<noteq> 0x02014b50 then False
                else (case read_into (replicate (u16_at 28 header) 0) s1 of
                        (file_name, s2) \<Rightarrow>
                          if i_fail s2 then False
                          else if file_name = kManifest then True
                          else v1_loop cd_end (seek_cur (int (u16_at 30 header) + int (u16_at 32 header)) s2))))"
  by pat_completeness auto
termination
proof (relation "measure (\<lambda>(e, s). length (i_buf s) - i_pos s)")
  fix cd_end :: int and s header s1 file_name s2
  assume a: "(header, s1) = read_into (replicate 46 0) s" "\<not> i_fail s1"
    "(file_name, s2) = read_into (replicate (u16_at 28 header) 0) s1" "\<not> i_fail s2"
  have 1: "i_buf s1 = i_buf s" "i_pos s1 = i_pos s + 46" "i_pos s1 \<le> length (i_buf s)"
    using read_pos [of "replicate 46 0" s header s1] a by simp_all
  have 2: "i_buf s2 = i_buf s1 \<and> i_pos s2 \<ge> i_pos s1" using a(3,4) by (intro read_forward [of "replicate (u16_at 28 header) 0" s1 file_name s2]) simp_all
  define n where "n = int (u16_at 30 header) + int (u16_at 32 header)"
  then have "n \<ge> 0" by simp
  then have "i_buf (seek_cur n s2) = i_buf s2" "i_pos (seek_cur n s2) \<ge> i_pos s2"
    using a(4) by (simp_all add: seek_cur_def seek_to_def)
  with 1 2 show "((cd_end, seek_cur (int (u16_at 30 header) + int (u16_at 32 header)) s2), cd_end, s)
      \<in> measure (\<lambda>(e, s). length (i_buf s) - i_pos s)"
    unfolding n_def by auto
qed simp

declare v1_loop.simps [simp del]

definition has_v1_signature_file :: "u32 \<Rightarrow> u32 \<Rightarrow> ifs \<Rightarrow> bool \<times> ifs" where
  "has_v1_signature_file cd_offset cd_size s =
     (v1_loop (int (unat cd_offset) + int (unat cd_size)) (seek_to (int (unat cd_offset)) (s\<lparr>i_fail := False\<rparr>)),
      seek_to (tellg s) (s\<lparr>i_fail := False\<rparr>))"

section \<open>The end record\<close>

text \<open>\<open>None\<close> where the code gives up.\<close>

lemma words_buf: "i_buf (snd (read_u16 old s)) = i_buf s" "i_buf (snd (read_u32 old s)) = i_buf s"
  by (simp_all add: read_u16_def read_u32_def case_prod_beta read_buf [OF surjective_pairing])

function eocd_loop :: "junk \<Rightarrow> nat \<Rightarrow> ifs \<Rightarrow> ifs option" where
  "eocd_loop junk i s =
     (case read_u16 (uninit junk ''n'' s 2) (seek_end (- int i - 2) s) of
        (n, s1) \<Rightarrow>
          (case (if unat n = i then read_u32 (uninit junk ''magic'' s1 4) (seek_cur (- 22) s1) else (0, s1)) of
             (magic, s2) \<Rightarrow>
               if unat n = i \<and> magic = 0x06054b50 then Some s2
               else if n = 0xffff then None
               else if Suc i > length (i_buf s) then None
               else eocd_loop junk (Suc i) s2))"
  by pat_completeness auto
termination
proof (relation "measure (\<lambda>(junk, i, s). Suc (length (i_buf s)) - i)")
  fix junk :: junk and i s n s1 magic s2
  assume a: "(n, s1) = read_u16 (uninit junk ''n'' s 2) (seek_end (- int i - 2) s)"
    "(magic, s2) = (if unat n = i then read_u32 (uninit junk ''magic'' s1 4) (seek_cur (- 22) s1) else (0, s1))"
    "\<not> Suc i > length (i_buf s)"
  have "i_buf s1 = i_buf s" using words_buf(1) [of "uninit junk ''n'' s 2" "seek_end (- int i - 2) s"] a(1) by (metis seek_buf(3) snd_conv)
  moreover have "i_buf s2 = i_buf s1"
    using words_buf(2) [of "uninit junk ''magic'' s1 4" "seek_cur (- 22) s1"] a(2) by (metis seek_buf(2) snd_conv)
  ultimately show "((junk, Suc i, s2), junk, i, s) \<in> measure (\<lambda>(junk, i, s). Suc (length (i_buf s)) - i)"
    using a(3) by auto
qed simp

declare eocd_loop.simps [simp del]

section \<open>The signing block\<close>

definition V2_ID :: u32 where "V2_ID = 0x7109871a"
definition V3_ID :: u32 where "V3_ID = 0xf05368c0"
definition V31_ID :: u32 where "V31_ID = 0x1b93ad61"

definition read_v2 :: "junk \<Rightarrow> (bytes \<Rightarrow> bytes) \<Rightarrow> ifs \<Rightarrow> apk_signature \<Rightarrow> apk_signature \<times> ifs" where
  "read_v2 junk sha s info =
     (case read_u32 (uninit junk ''signer_seq_len'' s 4) s of (_, s) \<Rightarrow>
      case read_u32 (uninit junk ''signer_len'' s 4) s of (_, s) \<Rightarrow>
      case read_u32 (uninit junk ''signed_data_len'' s 4) s of (_, s) \<Rightarrow>
      case read_u32 (uninit junk ''digests_len'' s 4) s of (digests_len, s) \<Rightarrow>
      case read_u32 (uninit junk ''certs_len'' s 4) (seek_cur (int (unat digests_len)) s) of (_, s) \<Rightarrow>
      case read_u32 (uninit junk ''cert_len'' s 4) s of (cert_len, s) \<Rightarrow>
      case read_into (replicate (unat cert_len) 0) s of (cert_data, s) \<Rightarrow>
        (info\<lparr>a_v2_has := True, a_v2_size := cert_len, a_v2_hash := sha256_digest sha cert_data\<rparr>, s))"

definition pair_info :: "junk \<Rightarrow> (bytes \<Rightarrow> bytes) \<Rightarrow> u32 \<Rightarrow> ifs \<Rightarrow> apk_signature \<Rightarrow> apk_signature \<times> ifs" where
  "pair_info junk sha pair_id s info =
     (if pair_id = V2_ID then read_v2 junk sha s info
      else if pair_id = V3_ID then (info\<lparr>a_v3 := True\<rparr>, s)
      else if pair_id = V31_ID then (info\<lparr>a_v31 := True\<rparr>, s)
      else (info, s))"

text \<open>The pairs; the loop may go on for ever.\<close>

partial_function (option) pairs_loop ::
  "junk \<Rightarrow> (bytes \<Rightarrow> bytes) \<Rightarrow> u32 \<Rightarrow> u64 \<Rightarrow> ifs \<Rightarrow> apk_signature \<Rightarrow> apk_signature option"
where
  [code]: "pairs_loop junk sha cd_offset block_size s info =
     (if \<not> tellg s < int (unat (cd_offset - 0x18)) then Some info
      else (case read_u64 (uninit junk ''pair_len'' s 8) s of
              (pair_len, s1) \<Rightarrow>
                if i_fail s1 \<or> pair_len < 4 \<or> pair_len = block_size then Some info
                else (case read_u32 (uninit junk ''pair_id'' s 4) s1 of
                        (pair_id, s2) \<Rightarrow>
                          (case pair_info junk sha pair_id s2 info of
                             (info', s3) \<Rightarrow>
                               pairs_loop junk sha cd_offset block_size
                                 (seek_cur (sint (pair_len - 4)) (seek_to (tellg s2) s3)) info'))))"

definition ApkSigBlock42 :: bytes where "ApkSigBlock42 = str_bytes ''APK Sig Block 42''"

definition signing_block :: "junk \<Rightarrow> (bytes \<Rightarrow> bytes) \<Rightarrow> u32 \<Rightarrow> ifs \<Rightarrow> apk_signature \<Rightarrow> apk_signature option" where
  "signing_block junk sha cd_offset s info =
     (if cd_offset < 0x18 then Some info
      else
        (let s1 = seek_to (int (unat (cd_offset - 0x18))) s in
         case read_u64 (uninit junk ''block_size'' s1 8) s1 of
           (block_size, s2) \<Rightarrow>
             (case read_into (replicate 16 0) s2 of
                (magic, s3) \<Rightarrow>
                  if i_fail s3 \<or> magic \<noteq> ApkSigBlock42 then Some info
                  else if block_size + 8 > ucast cd_offset then Some info
                  else
                    (let s4 = seek_to (int (unat (ucast cd_offset - (block_size + 8) :: u64))) s3 in
                     case read_u64 (uninit junk ''block_size_check'' s4 8) s4 of
                       (block_size_check, s5) \<Rightarrow>
                         if block_size \<noteq> block_size_check then Some info
                         else pairs_loop junk sha cd_offset block_size s5 info))))"

definition get_apk_signature :: "junk \<Rightarrow> (bytes \<Rightarrow> bytes) \<Rightarrow> os \<Rightarrow> path \<Rightarrow> apk_signature option" where
  "get_apk_signature junk sha st apk_path =
     (case read_file st apk_path of
        None \<Rightarrow> Some no_signature
      | Some text \<Rightarrow>
          (case eocd_loop junk 0 \<lparr>i_buf = str_bytes text, i_pos = 0, i_fail = False\<rparr> of
             None \<Rightarrow> Some no_signature
           | Some s \<Rightarrow>
               (case read_u32 (replicate 4 0) (seek_cur 8 s) of
                  (cd_size, s1) \<Rightarrow>
                    (case read_u32 (replicate 4 0) s1 of
                       (cd_offset, s2) \<Rightarrow>
                         (case has_v1_signature_file cd_offset cd_size s2 of
                            (v1, s3) \<Rightarrow>
                              signing_block junk sha cd_offset s3 (no_signature\<lparr>a_valid := True, a_v1 := v1\<rparr>))))))"

end
