(* ===== verification/Apk_Props.thy ===== *)
theory Apk_Props
  imports Apk_Sign
begin

text \<open>What the signature reader says of an APK that is laid out as the format says, and one it never returns from.\<close>

section \<open>Reading at a position\<close>

definition stm :: "bytes \<Rightarrow> nat \<Rightarrow> ifs" where
  "stm buf p = \<lparr>i_buf = buf, i_pos = p, i_fail = False\<rparr>"

definition seg :: "bytes \<Rightarrow> nat \<Rightarrow> bytes \<Rightarrow> bool" where
  "seg buf p v \<longleftrightarrow> p + length v \<le> length buf \<and> take (length v) (drop p buf) = v"

lemma stm_simps [simp]: "i_buf (stm buf p) = buf" "i_pos (stm buf p) = p" "\<not> i_fail (stm buf p)"
  "tellg (stm buf p) = int p" "(stm buf p)\<lparr>i_fail := False\<rparr> = stm buf p"
  by (simp_all add: stm_def tellg_def)

lemma seek_stm [simp]:
  "seek_to (int q) (stm buf p) = stm buf q" "seek_cur (int q) (stm buf p) = stm buf (p + q)"
  by (simp_all add: seek_to_def seek_cur_def stm_def nat_add_distrib)

lemma read_seg: "seg buf p v \<Longrightarrow> length old = length v \<Longrightarrow> read_into old (stm buf p) = (v, stm buf (p + length v))"
  by (simp add: read_into_def seg_def stm_def Let_def)

lemma seg_append: "seg buf p (v @ w) \<longleftrightarrow> seg buf p v \<and> seg buf (p + length v) w"
proof
  assume s: "seg buf p (v @ w)"
  then have t: "take (length v + length w) (drop p buf) = v @ w" "p + length v + length w \<le> length buf"
    by (simp_all add: seg_def)
  have "take (length v) (drop p buf) = take (length v) (take (length v + length w) (drop p buf))" by simp
  also have "\<dots> = v" unfolding t(1) by simp
  finally have 1: "take (length v) (drop p buf) = v" .
  have "take (length w) (drop (length v) (drop p buf)) = drop (length v) (take (length v + length w) (drop p buf))"
    by (simp add: take_drop ac_simps)
  also have "\<dots> = w" unfolding t(1) by simp
  finally have "take (length w) (drop (p + length v) buf) = w" by (simp add: ac_simps)
  with 1 t(2) show "seg buf p v \<and> seg buf (p + length v) w" by (simp add: seg_def)
next
  assume "seg buf p v \<and> seg buf (p + length v) w"
  then show "seg buf p (v @ w)"
    by (simp add: seg_def take_add add.commute)
qed

lemma seg_Nil [simp]: "seg buf p [] \<longleftrightarrow> p \<le> length buf"
  by (simp add: seg_def)

lemma seg_at: "seg (a @ v @ b) (length a) v"
  by (simp add: seg_def)

lemma length_uninit [simp]: "length (uninit junk v s n) = n"
  by (simp add: uninit_def)

lemma read_u16_seg: "seg buf p (u16_le w) \<Longrightarrow> length old = 2 \<Longrightarrow> read_u16 old (stm buf p) = (w, stm buf (p + 2))"
  by (simp add: read_u16_def read_seg le_nat_u16_le)

lemma read_u32_seg: "seg buf p (u32_le w) \<Longrightarrow> length old = 4 \<Longrightarrow> read_u32 old (stm buf p) = (w, stm buf (p + 4))"
  by (simp add: read_u32_def read_seg le_nat_u32_le)

lemma read_u64_seg: "seg buf p (u64_le w) \<Longrightarrow> length old = 8 \<Longrightarrow> read_u64 old (stm buf p) = (w, stm buf (p + 8))"
  by (simp add: read_u64_def read_seg le_nat_u64_le)

section \<open>The layout\<close>

datatype sig_pair =
    V2_Pair u32 u32 u32 bytes u32 bytes bytes
  | Other_Pair u32 bytes

definition id_of_pair :: "sig_pair \<Rightarrow> u32" where
  "id_of_pair p = (case p of V2_Pair _ _ _ _ _ _ _ \<Rightarrow> V2_ID | Other_Pair i _ \<Rightarrow> i)"

definition pair_value :: "sig_pair \<Rightarrow> bytes" where
  "pair_value p =
     (case p of
        V2_Pair a b c digests certs_len cert rest \<Rightarrow>
          u32_le a @ u32_le b @ u32_le c @ u32_le (of_nat (length digests)) @ digests @
          u32_le certs_len @ u32_le (of_nat (length cert)) @ cert @ rest
      | Other_Pair _ v \<Rightarrow> v)"

definition pair_bytes :: "sig_pair \<Rightarrow> bytes" where
  "pair_bytes p = u64_le (of_nat (length (pair_value p) + 4)) @ u32_le (id_of_pair p) @ pair_value p"

definition pair_ok :: "sig_pair \<Rightarrow> bool" where
  "pair_ok p \<longleftrightarrow> (case p of Other_Pair i _ \<Rightarrow> i \<noteq> V2_ID | _ \<Rightarrow> True)"

definition sign_info :: "(bytes \<Rightarrow> bytes) \<Rightarrow> sig_pair \<Rightarrow> apk_signature \<Rightarrow> apk_signature" where
  "sign_info sha p info =
     (case p of
        V2_Pair _ _ _ _ _ cert _ \<Rightarrow>
          info\<lparr>a_v2_has := True, a_v2_size := of_nat (length cert), a_v2_hash := sha256_digest sha cert\<rparr>
      | Other_Pair i _ \<Rightarrow>
          if i = V3_ID then info\<lparr>a_v3 := True\<rparr> else if i = V31_ID then info\<lparr>a_v31 := True\<rparr> else info)"

lemma read_v2_seg:
  assumes "seg buf p (pair_value (V2_Pair a b c digests certs_len cert rest))" "length buf < 2 ^ 32"
  shows "\<exists>q. read_v2 junk sha (stm buf p) info =
     (sign_info sha (V2_Pair a b c digests certs_len cert rest) info, stm buf q)"
proof -
  have l: "length digests < 2 ^ 32" "length cert < 2 ^ 32" using assms by (simp_all add: seg_def pair_value_def)
  then have u: "unat (of_nat (length digests) :: u32) = length digests" "unat (of_nat (length cert) :: u32) = length cert"
    by (simp_all add: unat_of_nat)
  let ?p = "p + 4 + 4 + 4 + 4 + length digests"
  have s: "seg buf p (u32_le a)" "seg buf (p + 4) (u32_le b)" "seg buf (p + 4 + 4) (u32_le c)"
    "seg buf (p + 4 + 4 + 4) (u32_le (of_nat (length digests)))" "seg buf ?p (u32_le certs_len)"
    "seg buf (?p + 4) (u32_le (of_nat (length cert)))" "seg buf (?p + 4 + 4) cert"
    using assms(1) by (simp_all add: pair_value_def seg_append add.assoc)
  have r: "read_into (replicate (length cert) 0) (stm buf (?p + 4 + 4)) = (cert, stm buf (?p + 4 + 4 + length cert))"
    by (rule read_seg [OF s(7)]) simp
  have "read_v2 junk sha (stm buf p) info =
     (sign_info sha (V2_Pair a b c digests certs_len cert rest) info, stm buf (?p + 4 + 4 + length cert))"
    by (simp only: read_v2_def read_u32_seg [OF s(1) length_uninit] read_u32_seg [OF s(2) length_uninit]
        read_u32_seg [OF s(3) length_uninit] read_u32_seg [OF s(4) length_uninit] u seek_stm
        read_u32_seg [OF s(5) length_uninit] read_u32_seg [OF s(6) length_uninit] r prod.case sign_info_def sig_pair.case)
  then show ?thesis by blast
qed

section \<open>The pairs\<close>

lemma pairs_step:
  assumes "seg buf p (pair_bytes x)" "pair_ok x" "length buf < 2 ^ 31" "p < unat (cd_offset - 0x18)"
    "unat block_size \<noteq> length (pair_value x) + 4"
  shows "pairs_loop junk sha cd_offset block_size (stm buf p) info =
     pairs_loop junk sha cd_offset block_size (stm buf (p + length (pair_bytes x))) (sign_info sha x info)"
proof -
  let ?n = "length (pair_value x)"
  let ?w = "of_nat (?n + 4) :: u64"
  have n: "?n + 12 \<le> length buf" using assms(1) by (simp add: seg_def pair_bytes_def)
  then have uw: "unat ?w = ?n + 4" using assms(3) by (simp only: unat_of_nat) simp
  have w: "\<not> ?w < 4" "?w \<noteq> block_size" using uw assms(5) by (auto simp: word_less_nat_alt)
  have "?w - 4 = of_nat ?n" by simp
  moreover have "sint (of_nat ?n :: u64) = int ?n" using n assms(3) by (simp add: signed_of_nat signed_take_bit_int_eq_self)
  ultimately have sw: "sint (?w - 4) = int ?n" by simp
  have s: "seg buf p (u64_le ?w)" "seg buf (p + 8) (u32_le (id_of_pair x))" "seg buf (p + 12) (pair_value x)"
    using assms(1) by (simp_all add: pair_bytes_def seg_append add.assoc)
  obtain q where q: "pair_info junk sha (id_of_pair x) (stm buf (p + 12)) info = (sign_info sha x info, stm buf q)"
  proof (cases x)
    case (V2_Pair a b c d e f g)
    then show thesis using read_v2_seg [OF s(3) [unfolded V2_Pair], of junk sha info] assms(3) that
      by (auto simp: pair_info_def id_of_pair_def)
  next
    case (Other_Pair i v)
    then show thesis using assms(2) that [of "p + 12"]
      by (auto simp: pair_info_def id_of_pair_def pair_ok_def sign_info_def)
  qed
  have k: "seek_cur (sint (?w - 4)) (seek_to (tellg (stm buf (p + 12))) (stm buf q)) = stm buf (p + length (pair_bytes x))"
    unfolding sw stm_simps seek_stm by (simp add: pair_bytes_def)
  have c: "(tellg (stm buf p) < int (unat (cd_offset - 0x18))) = True" "(i_fail (stm buf (p + 8)) \<or> ?w < 4 \<or> ?w = block_size) = False"
    using assms(4) w by (simp_all only: stm_simps of_nat_less_iff simp_thms)
  have r: "read_u64 (uninit junk ''pair_len'' (stm buf p) 8) (stm buf p) = (?w, stm buf (p + 8))"
    "read_u32 (uninit junk ''pair_id'' (stm buf p) 4) (stm buf (p + 8)) = (id_of_pair x, stm buf (p + 12))"
    using read_u64_seg [OF s(1)] read_u32_seg [OF s(2)] by (simp_all add: numeral_eq_Suc)
  show ?thesis
    by (subst pairs_loop.simps) (simp only: c r q k prod.case not_True_eq_False if_False)
qed

lemma pairs_all:
  assumes "seg buf p (concat (map pair_bytes ps))" "list_all pair_ok ps" "length buf < 2 ^ 31"
    "unat (cd_offset - 0x18) = p + length (concat (map pair_bytes ps))"
    "\<forall>x\<in>set ps. unat block_size \<noteq> length (pair_value x) + 4"
  shows "pairs_loop junk sha cd_offset block_size (stm buf p) info = Some (fold (sign_info sha) ps info)"
  using assms(1,2,4,5)
proof (induction ps arbitrary: p info)
  case Nil
  then show ?case by (subst pairs_loop.simps) simp
next
  case (Cons x ps)
  have "length (pair_bytes x) > 0" by (simp add: pair_bytes_def)
  then have lt: "p < unat (cd_offset - 0x18)" using Cons.prems(3) by simp
  have 1: "pairs_loop junk sha cd_offset block_size (stm buf p) info =
     pairs_loop junk sha cd_offset block_size (stm buf (p + length (pair_bytes x))) (sign_info sha x info)"
    by (rule pairs_step [OF _ _ assms(3) lt]) (use Cons.prems in \<open>auto simp: seg_append\<close>)
  show ?case unfolding 1
    using Cons.prems by (subst Cons.IH) (auto simp: seg_append)
qed

section \<open>The directory\<close>

record entry =
  e_head :: bytes
  e_tail :: bytes
  e_name :: bytes
  e_extra :: bytes
  e_comment :: bytes

definition entry_bytes :: "entry \<Rightarrow> bytes" where
  "entry_bytes e =
     u32_le 0x02014b50 @ e_head e @ u16_le (of_nat (length (e_name e))) @ u16_le (of_nat (length (e_extra e))) @
     u16_le (of_nat (length (e_comment e))) @ e_tail e @ e_name e @ e_extra e @ e_comment e"

definition entry_ok :: "entry \<Rightarrow> bool" where
  "entry_ok e \<longleftrightarrow> length (e_head e) = 24 \<and> length (e_tail e) = 12 \<and>
     length (e_name e) < 2 ^ 16 \<and> length (e_extra e) < 2 ^ 16 \<and> length (e_comment e) < 2 ^ 16"

lemma u16_field: "length h = i \<Longrightarrow> n < 2 ^ 16 \<Longrightarrow> u16_at i (h @ u16_le (of_nat n) @ r) = n"
  by (simp add: u16_at_def u16_le_def le_nat_nat_le unat_of_nat)

lemma v1_loop_entries:
  assumes "seg buf p (concat (map entry_bytes es))" "list_all entry_ok es" "cd_end = int p + int (length (concat (map entry_bytes es)))"
  shows "v1_loop cd_end (stm buf p) \<longleftrightarrow> kManifest \<in> set (map e_name es)"
  using assms
proof (induction es arbitrary: p)
  case Nil
  then show ?case by (simp add: v1_loop.simps)
next
  case (Cons e es)
  let ?n = "length (e_name e)" and ?x = "length (e_extra e)" and ?c = "length (e_comment e)"
  let ?h = "u32_le 0x02014b50 @ e_head e @ u16_le (of_nat ?n) @ u16_le (of_nat ?x) @ u16_le (of_nat ?c) @ e_tail e"
  have ok: "length (e_head e) = 24" "length (e_tail e) = 12" "?n < 2 ^ 16" "?x < 2 ^ 16" "?c < 2 ^ 16"
    using Cons.prems(2) by (simp_all add: entry_ok_def)
  have lh: "length ?h = 46" using ok by simp
  have eb: "entry_bytes e = ?h @ e_name e @ e_extra e @ e_comment e" by (simp add: entry_bytes_def)
  have seg: "seg buf p ?h" "seg buf (p + 46) (e_name e)" "seg buf (p + length (entry_bytes e)) (concat (map entry_bytes es))"
    using Cons.prems(1) unfolding list.map concat.simps eb seg_append append_assoc lh by (simp_all add: ok ac_simps)
  have f: "le_nat (take 4 ?h) = 0x02014b50" "u16_at 28 ?h = ?n" "u16_at 30 ?h = ?x" "u16_at 32 ?h = ?c"
    subgoal by (simp add: u32_le_def le_nat_nat_le)
    subgoal using u16_field [of "u32_le 0x02014b50 @ e_head e" 28 ?n] ok by simp
    subgoal using u16_field [of "u32_le 0x02014b50 @ e_head e @ u16_le (of_nat ?n)" 30 ?x] ok by simp
    subgoal using u16_field [of "u32_le 0x02014b50 @ e_head e @ u16_le (of_nat ?n) @ u16_le (of_nat ?x)" 32 ?c] ok by simp
    done
  have r1: "read_into (replicate 46 0) (stm buf p) = (?h, stm buf (p + 46))"
    using read_seg [OF seg(1), of "replicate 46 0"] lh by simp
  have r2: "read_into (replicate ?n 0) (stm buf (p + 46)) = (e_name e, stm buf (p + 46 + ?n))"
    using read_seg [OF seg(2)] by simp
  have le: "length (entry_bytes e) = 46 + ?n + ?x + ?c" unfolding eb using lh by simp
  have k: "seek_cur (int ?x + int ?c) (stm buf (p + 46 + ?n)) = stm buf (p + length (entry_bytes e))"
    using seek_stm(2) [of "?x + ?c" buf "p + 46 + ?n"] by (simp add: le add.assoc)
  have lt: "int p < cd_end" unfolding Cons.prems(3) by (simp add: le)
  have ih: "v1_loop cd_end (stm buf (p + length (entry_bytes e))) \<longleftrightarrow> kManifest \<in> set (map e_name es)"
    by (rule Cons.IH [OF seg(3)]) (use Cons.prems(2,3) in simp_all)
  show ?case
    by (subst v1_loop.simps) (simp only: lt r1 r2 f k prod.case not_True_eq_False if_False stm_simps simp_thms ih, auto)
qed

section \<open>A whole file\<close>

text \<open>Contents, signing block, central directory, end record without a comment.\<close>

record apk =
  k_contents :: bytes
  k_pairs :: bytes
  k_entries :: "entry list"
  k_counts :: bytes

definition directory_bytes :: "apk \<Rightarrow> bytes" where
  "directory_bytes k = concat (map entry_bytes (k_entries k))"

definition block_size_of :: "apk \<Rightarrow> u64" where
  "block_size_of k = of_nat (length (k_pairs k) + 24)"

definition directory_at :: "apk \<Rightarrow> nat" where
  "directory_at k = length (k_contents k) + length (k_pairs k) + 32"

definition apk_bytes :: "apk \<Rightarrow> bytes" where
  "apk_bytes k =
     k_contents k @ u64_le (block_size_of k) @ k_pairs k @ u64_le (block_size_of k) @ ApkSigBlock42 @
     directory_bytes k @
     u32_le 0x06054b50 @ k_counts k @ u32_le (of_nat (length (directory_bytes k))) @ u32_le (of_nat (directory_at k)) @ u16_le 0"

definition apk_ok :: "apk \<Rightarrow> bool" where
  "apk_ok k \<longleftrightarrow> list_all entry_ok (k_entries k) \<and> length (k_counts k) = 8 \<and>
     length (apk_bytes k) < 2 ^ 31"

lemma apk_segs:
  assumes "apk_ok k"
  defines "c \<equiv> length (k_contents k)" and "d \<equiv> directory_at k" and "e \<equiv> directory_at k + length (directory_bytes k)"
  shows "length (apk_bytes k) = e + 22" "seg (apk_bytes k) c (u64_le (block_size_of k))" "seg (apk_bytes k) (c + 8) (k_pairs k)"
    "seg (apk_bytes k) (d - 24) (u64_le (block_size_of k))" "seg (apk_bytes k) (d - 16) ApkSigBlock42"
    "seg (apk_bytes k) d (directory_bytes k)" "seg (apk_bytes k) e (u32_le 0x06054b50)"
    "seg (apk_bytes k) (e + 12) (u32_le (of_nat (length (directory_bytes k))))"
    "seg (apk_bytes k) (e + 16) (u32_le (of_nat d))" "seg (apk_bytes k) (e + 20) (u16_le 0)" "d = c + 8 + length (k_pairs k) + 24"
proof -
  have m: "length ApkSigBlock42 = 16" by (simp add: ApkSigBlock42_def)
  have k: "length (k_counts k) = 8" using assms(1) by (simp add: apk_ok_def)
  show l: "length (apk_bytes k) = e + 22"
    by (simp add: apk_bytes_def e_def directory_at_def m k)
  show dd: "d = c + 8 + length (k_pairs k) + 24" by (simp add: d_def c_def directory_at_def)
  have "seg (apk_bytes k) 0 (apk_bytes k)" by (simp add: seg_def)
  then have s: "seg (apk_bytes k) c (u64_le (block_size_of k)) \<and> seg (apk_bytes k) (c + 8) (k_pairs k) \<and>
    seg (apk_bytes k) (c + 8 + length (k_pairs k)) (u64_le (block_size_of k)) \<and>
    seg (apk_bytes k) (c + 8 + length (k_pairs k) + 8) ApkSigBlock42 \<and>
    seg (apk_bytes k) (c + 8 + length (k_pairs k) + 24) (directory_bytes k) \<and>
    seg (apk_bytes k) (c + 8 + length (k_pairs k) + 24 + length (directory_bytes k)) (u32_le 0x06054b50) \<and>
    seg (apk_bytes k) (c + 8 + length (k_pairs k) + 24 + length (directory_bytes k) + 12) (u32_le (of_nat (length (directory_bytes k)))) \<and>
    seg (apk_bytes k) (c + 8 + length (k_pairs k) + 24 + length (directory_bytes k) + 16) (u32_le (of_nat (directory_at k))) \<and>
    seg (apk_bytes k) (c + 8 + length (k_pairs k) + 24 + length (directory_bytes k) + 20) (u16_le 0)"
    by (subst (asm) (2) apk_bytes_def) (simp add: seg_append m k c_def ac_simps)
  have e: "e = c + 8 + length (k_pairs k) + 24 + length (directory_bytes k)" using dd by (simp add: e_def d_def)
  have p: "d - 24 = c + 8 + length (k_pairs k)" "d - 16 = c + 8 + length (k_pairs k) + 8" using dd by simp_all
  note s = s [folded d_def dd e]
  show "seg (apk_bytes k) c (u64_le (block_size_of k))" "seg (apk_bytes k) (c + 8) (k_pairs k)"
    "seg (apk_bytes k) (d - 24) (u64_le (block_size_of k))" "seg (apk_bytes k) (d - 16) ApkSigBlock42"
    "seg (apk_bytes k) d (directory_bytes k)" "seg (apk_bytes k) e (u32_le 0x06054b50)"
    "seg (apk_bytes k) (e + 12) (u32_le (of_nat (length (directory_bytes k))))"
    "seg (apk_bytes k) (e + 16) (u32_le (of_nat d))" "seg (apk_bytes k) (e + 20) (u16_le 0)"
    unfolding p using s by blast+
qed

lemma eocd_found:
  assumes "apk_ok k"
  shows "eocd_loop junk 0 (stm (apk_bytes k) 0) = Some (stm (apk_bytes k) (directory_at k + length (directory_bytes k) + 4))"
proof -
  let ?e = "directory_at k + length (directory_bytes k)"
  note g = apk_segs [OF assms]
  have 1: "seek_end (- int 0 - 2) (stm (apk_bytes k) 0) = stm (apk_bytes k) (?e + 20)"
    using seek_stm(1) [of "?e + 20" "apk_bytes k" 0] by (simp add: seek_end_def g(1) ac_simps)
  have 2: "seek_cur (- 22) (stm (apk_bytes k) (?e + 20 + 2)) = stm (apk_bytes k) ?e"
    using seek_stm(1) [of ?e "apk_bytes k" "?e + 20 + 2"] by (simp add: seek_cur_def)
  show ?thesis
    by (subst eocd_loop.simps)
      (simp add: 1 [simplified] read_u16_seg [OF g(10), simplified] 2 [simplified] read_u32_seg [OF g(7), simplified])
qed

lemma signing_block_pairs:
  assumes "apk_ok k"
  shows "signing_block junk sha (of_nat (directory_at k)) (stm (apk_bytes k) q) info =
     pairs_loop junk sha (of_nat (directory_at k)) (block_size_of k) (stm (apk_bytes k) (length (k_contents k) + 8)) info"
    "unat (of_nat (directory_at k) - 0x18 :: u32) = directory_at k - 24" "unat (block_size_of k) = length (k_pairs k) + 24"
proof -
  let ?d = "directory_at k" and ?c = "length (k_contents k)" and ?l = "length (k_pairs k)" and ?b = "apk_bytes k"
  note g = apk_segs [OF assms]
  have len: "length ?b < 2 ^ 31" using assms by (simp add: apk_ok_def)
  then have d31: "?d < 2 ^ 31" using g(1) by simp
  have ge: "32 \<le> ?d" "?l + 32 \<le> ?d" "?d - (?l + 32) = ?c" "?d - 24 + 8 = ?d - 16" "?d - 16 + 16 = ?d" "?d - 24 = ?c + 8 + ?l"
    using g(11) by simp_all
  have ud: "unat (of_nat ?d :: u32) = ?d" using d31 by (simp add: unat_of_nat)
  have d24: "unat (of_nat ?d - 0x18 :: u32) = ?d - 24" using ud ge by (simp add: unat_sub word_le_nat_alt)
  have nlt: "\<not> (of_nat ?d :: u32) < 0x18" using ud ge by (simp add: word_less_nat_alt)
  have ub: "unat (block_size_of k) = ?l + 24" using d31 ge unfolding block_size_of_def by (simp only: unat_of_nat) simp
  have ub8: "unat (block_size_of k + 8) = ?l + 32"
    using ub d31 ge by (subst unat_add_lem [THEN iffD1]) simp_all
  have uc: "unat (ucast (of_nat ?d :: u32) :: u64) = ?d" using ud d31 by (simp add: unsigned_ucast_eq take_bit_nat_eq_self)
  have fit: "\<not> block_size_of k + 8 > ucast (of_nat ?d :: u32)" using ub8 uc ge by (simp add: word_less_nat_alt)
  have start: "unat (ucast (of_nat ?d :: u32) - (block_size_of k + 8) :: u64) = ?c"
    using ub8 uc ge by (subst unat_sub) (simp_all add: word_le_nat_alt)
  have r: "read_u64 (uninit junk ''block_size'' (stm ?b (?d - 24)) 8) (stm ?b (?d - 24)) = (block_size_of k, stm ?b (?d - 16))"
    "read_into (replicate 16 0) (stm ?b (?d - 16)) = (ApkSigBlock42, stm ?b ?d)"
    "read_u64 (uninit junk ''block_size_check'' (stm ?b ?c) 8) (stm ?b ?c) = (block_size_of k, stm ?b (?c + 8))"
    subgoal using read_u64_seg [OF g(4), of "uninit junk ''block_size'' (stm ?b (?d - 24)) 8"] ge by simp
    subgoal using read_seg [OF g(5), of "replicate 16 0"] ge by (simp add: ApkSigBlock42_def)
    subgoal using read_u64_seg [OF g(2), of "uninit junk ''block_size_check'' (stm ?b ?c) 8"] by simp
    done
  show "signing_block junk sha (of_nat ?d) (stm ?b q) info =
      pairs_loop junk sha (of_nat ?d) (block_size_of k) (stm ?b (?c + 8)) info"
    unfolding signing_block_def Let_def
    by (simp only: nlt if_False d24 seek_stm r prod.case stm_simps fit start simp_thms)
  show "unat (of_nat ?d - 0x18 :: u32) = ?d - 24" "unat (block_size_of k) = ?l + 24" by (fact d24, fact ub)
qed

text \<open>The reader gets to the pairs.\<close>

lemma apk_signature_pairs:
  assumes "apk_ok k" "read_file st p = Some (bytes_str (apk_bytes k))"
  shows "get_apk_signature junk sha st p =
     pairs_loop junk sha (of_nat (directory_at k)) (block_size_of k) (stm (apk_bytes k) (length (k_contents k) + 8))
       (no_signature\<lparr>a_valid := True, a_v1 := kManifest \<in> set (map e_name (k_entries k))\<rparr>)"
proof -
  let ?d = "directory_at k" and ?b = "apk_bytes k"
  let ?e = "?d + length (directory_bytes k)"
  note g = apk_segs [OF assms(1)]
  have len: "length ?b < 2 ^ 31" using assms(1) by (simp add: apk_ok_def)
  then have u: "unat (of_nat ?d :: u32) = ?d" "unat (of_nat (length (directory_bytes k)) :: u32) = length (directory_bytes k)"
    using g(1) by (simp_all add: unat_of_nat)
  have st: "\<lparr>i_buf = str_bytes (bytes_str ?b), i_pos = 0, i_fail = False\<rparr> = stm ?b 0" by (simp add: stm_def)
  have s8: "seek_cur 8 (stm ?b (?e + 4)) = stm ?b (?e + 12)" using seek_stm(2) [of 8 ?b "?e + 4"] by simp
  have r: "read_u32 (replicate 4 0) (stm ?b (?e + 12)) = (of_nat (length (directory_bytes k)), stm ?b (?e + 16))"
    "read_u32 (replicate 4 0) (stm ?b (?e + 16)) = (of_nat ?d, stm ?b (?e + 20))"
    using read_u32_seg [OF g(8), of "replicate 4 0"] read_u32_seg [OF g(9), of "replicate 4 0"] by simp_all
  have v: "has_v1_signature_file (of_nat ?d) (of_nat (length (directory_bytes k))) (stm ?b (?e + 20)) =
      (kManifest \<in> set (map e_name (k_entries k)), stm ?b (?e + 20))"
    unfolding has_v1_signature_file_def stm_simps u seek_stm
    using v1_loop_entries [OF g(6) [unfolded directory_bytes_def], of "int ?d + int (length (directory_bytes k))"] assms(1)
    by (simp add: directory_bytes_def apk_ok_def)
  show ?thesis
    unfolding get_apk_signature_def assms(2) option.case st eocd_found [OF assms(1)] s8 r prod.case v
    by (rule signing_block_pairs(1) [OF assms(1)])
qed

text \<open>
  C28: for an APK laid out as the format says (contents, signing block, central directory, end
  record without a comment), the reader returns, finds the v1 manifest exactly when an entry of
  the directory is named so, and reports of the pairs the v3 marks present and the size and the
  digest of the certificate of the last v2 pair.
\<close>

theorem apk_signature_read:
  assumes "apk_ok k" "k_pairs k = concat (map pair_bytes ps)" "list_all pair_ok ps"
    "read_file st p = Some (bytes_str (apk_bytes k))"
  shows "get_apk_signature junk sha st p =
     Some (fold (sign_info sha) ps (no_signature\<lparr>a_valid := True, a_v1 := kManifest \<in> set (map e_name (k_entries k))\<rparr>))"
  unfolding apk_signature_pairs [OF assms(1,4)]
proof (rule pairs_all [OF _ assms(3)])
  note g = apk_segs [OF assms(1)] and s = signing_block_pairs [OF assms(1)]
  show "seg (apk_bytes k) (length (k_contents k) + 8) (concat (map pair_bytes ps))" using g(3) assms(2) by simp
  show "length (apk_bytes k) < 2 ^ 31" using assms(1) by (simp add: apk_ok_def)
  show "unat (of_nat (directory_at k) - 0x18 :: u32) = length (k_contents k) + 8 + length (concat (map pair_bytes ps))"
    unfolding s(2) using g(11) assms(2) by simp
  show "\<forall>x\<in>set ps. unat (block_size_of k) \<noteq> length (pair_value x) + 4"
  proof
    fix x assume "x \<in> set ps"
    then obtain a b where "ps = a @ x # b" by (metis split_list)
    then have "length (pair_bytes x) \<le> length (k_pairs k)" unfolding assms(2) by simp
    then show "unat (block_size_of k) \<noteq> length (pair_value x) + 4" unfolding s(3) by (simp add: pair_bytes_def)
  qed
qed

section \<open>A pair that comes round again\<close>

text \<open>A pair whose length is minus eight is followed by itself.\<close>

lemma pairs_round:
  assumes "seg buf p (u64_le (- 8))" "seg buf (p + 8) (u32_le i)" "i \<noteq> V2_ID" "p < unat (cd_offset - 0x18)"
    "block_size \<noteq> - 8"
  shows "pairs_loop junk sha cd_offset block_size (stm buf p) info = None"
proof (cases "pairs_loop junk sha cd_offset block_size (stm buf p) info")
  case (Some r)
  have "cd_offset = cd_offset \<longrightarrow> block_size = block_size \<longrightarrow> stm buf p \<noteq> stm buf p"
  proof (rule pairs_loop.raw_induct [where P = "\<lambda>j sh cd bs s inf res. cd = cd_offset \<longrightarrow> bs = block_size \<longrightarrow> s \<noteq> stm buf p", OF _ Some])
    fix f j sh cd bs s inf res
    assume ih: "\<And>j sh cd bs s inf res. f j sh cd bs s inf = Some res \<Longrightarrow> cd = cd_offset \<longrightarrow> bs = block_size \<longrightarrow> s \<noteq> stm buf p"
      and eq: "(if \<not> tellg s < int (unat (cd - 0x18)) then Some inf
      else (case read_u64 (uninit j ''pair_len'' s 8) s of
              (pair_len, s1) \<Rightarrow>
                if i_fail s1 \<or> pair_len < 4 \<or> pair_len = bs then Some inf
                else (case read_u32 (uninit j ''pair_id'' s 4) s1 of
                        (pair_id, s2) \<Rightarrow>
                          (case pair_info j sh pair_id s2 inf of
                             (info', s3) \<Rightarrow>
                               f j sh cd bs
                                 (seek_cur (sint (pair_len - 4)) (seek_to (tellg s2) s3)) info')))) = Some res"
    show "cd = cd_offset \<longrightarrow> bs = block_size \<longrightarrow> s \<noteq> stm buf p"
    proof (intro impI notI)
      assume a: "cd = cd_offset" "bs = block_size" "s = stm buf p"
      obtain inf' where inf': "pair_info j sh i (stm buf (p + 8 + 4)) inf = (inf', stm buf (p + 8 + 4))"
        using assms(3) by (cases "i = V3_ID"; cases "i = V31_ID") (auto simp: pair_info_def)
      have go_back: "seek_cur (sint (- 8 - 4 :: u64)) (seek_to (tellg (stm buf (p + 8 + 4))) (stm buf (p + 8 + 4))) = stm buf p"
        unfolding stm_simps seek_stm using seek_stm(1) [of p buf "p + 8 + 4"] by (simp add: seek_cur_def)
      have c: "(int p < int (unat (cd_offset - 0x18))) = True" "(- 8 < (4 :: u64)) = False" "(- 8 = block_size) = False"
        using assms(4,5) by (simp_all only: of_nat_less_iff simp_thms) (auto simp: word_less_nat_alt)
      have "f j sh cd_offset block_size (stm buf p) inf' = Some res"
        using eq unfolding a
        by (simp only: stm_simps c read_u64_seg [OF assms(1) length_uninit] read_u32_seg [OF assms(2) length_uninit]
            prod.case inf' go_back [unfolded stm_simps] simp_thms if_False if_True not_True_eq_False)
      then show False using ih by blast
    qed
  qed
  then show ?thesis by simp
qed

text \<open>
  Reading the signature of an APK whose signing block starts with a pair of the length minus
  eight (as 64 bits) and any identifier but that of the v2 scheme never returns: the skip to the
  next pair goes back to the start of this one.
\<close>

theorem apk_signature_hangs:
  assumes "apk_ok k" "k_pairs k = u64_le (- 8) @ u32_le i @ rest" "i \<noteq> V2_ID"
    "read_file st p = Some (bytes_str (apk_bytes k))"
  shows "get_apk_signature junk sha st p = None"
  unfolding apk_signature_pairs [OF assms(1,4)]
proof (rule pairs_round)
  note g = apk_segs [OF assms(1)] and s = signing_block_pairs [OF assms(1)]
  show "seg (apk_bytes k) (length (k_contents k) + 8) (u64_le (- 8))" "seg (apk_bytes k) (length (k_contents k) + 8 + 8) (u32_le i)"
    using g(3) unfolding assms(2) seg_append by simp_all
  show "i \<noteq> V2_ID" by (fact assms(3))
  show "length (k_contents k) + 8 < unat (of_nat (directory_at k) - 0x18 :: u32)"
    unfolding s(2) using g(11) assms(2) by simp
  have "length (k_pairs k) < 2 ^ 31" using assms(1) g(1,11) by (simp add: apk_ok_def)
  then have "unat (block_size_of k) \<noteq> unat (- 8 :: u64)" unfolding s(3) by simp
  then show "block_size_of k \<noteq> - 8" by metis
qed

definition demo_apk :: "bytes \<Rightarrow> apk" where
  "demo_apk pairs = \<lparr>k_contents = [1, 2, 3], k_pairs = pairs,
     k_entries = [\<lparr>e_head = replicate 24 0, e_tail = replicate 12 0, e_name = kManifest, e_extra = [], e_comment = []\<rparr>],
     k_counts = replicate 8 0\<rparr>"

definition demo_pairs :: "sig_pair list" where
  "demo_pairs = [V2_Pair 0 0 0 [1] 0 [7, 7] [], Other_Pair V3_ID [9]]"

definition apk_os :: "bytes \<Rightarrow> os" where
  "apk_os content = \<lparr>fs = [(''/a.apk'', Reg 420 (bytes_str content))], ro_path = (\<lambda>_. False), prop_of = (\<lambda>_. []),
     env_of = (\<lambda>_. None), run_of = (\<lambda>_. \<lparr>pipes_ok = True, fork_ok = True, out_reads = [], err_reads = [], wstatus = Exited 0\<rparr>),
     kernel_safemode = False, trace = []\<rparr>"

lemma read_apk_os: "read_file (apk_os content) ''/a.apk'' = Some (bytes_str content)"
  by (simp add: read_file_def node_at_def apk_os_def strip_slash_def file_text_def)

lemma demo_apk_ok: "length pairs < 1000 \<Longrightarrow> apk_ok (demo_apk pairs)"
  by (simp add: apk_ok_def demo_apk_def entry_ok_def apk_bytes_def directory_bytes_def entry_bytes_def kManifest_def ApkSigBlock42_def)

theorem apk_signature_read_witness:
  "get_apk_signature (\<lambda>_ _. []) (\<lambda>_. replicate 32 0xab) (apk_os (apk_bytes (demo_apk (concat (map pair_bytes demo_pairs))))) ''/a.apk'' =
   Some \<lparr>a_valid = True, a_v1 = True, a_v2_has = True, a_v2_size = 2, a_v2_hash = concat (replicate 32 ''ab''), a_v3 = True, a_v31 = False\<rparr>"
proof -
  let ?k = "demo_apk (concat (map pair_bytes demo_pairs))"
  have ok: "apk_ok ?k" by (rule demo_apk_ok) (simp add: demo_pairs_def pair_bytes_def pair_value_def)
  have p: "k_pairs ?k = concat (map pair_bytes demo_pairs)" by (simp add: demo_apk_def)
  have a: "list_all pair_ok demo_pairs" by code_simp
  have v1: "kManifest \<in> set (map e_name (k_entries ?k))" by (simp add: demo_apk_def)
  have h: "sha256_digest (\<lambda>_. replicate 32 0xab) [7, 7] = concat (replicate 32 ''ab'')" by code_simp
  from apk_signature_read [OF ok p a read_apk_os, of "\<lambda>_ _. []" "\<lambda>_. replicate 32 0xab"] show ?thesis
    by (simp only: v1) (simp add: demo_pairs_def sign_info_def h V3_ID_def no_signature_def)
qed

theorem apk_signature_hangs_witness:
  "get_apk_signature (\<lambda>_ _. []) (\<lambda>_. []) (apk_os (apk_bytes (demo_apk (u64_le (- 8) @ u32_le 1 @ [])))) ''/a.apk'' = None"
proof -
  have ok: "apk_ok (demo_apk (u64_le (- 8) @ u32_le 1 @ []))" by (rule demo_apk_ok) simp
  have p: "k_pairs (demo_apk (u64_le (- 8) @ u32_le 1 @ [])) = u64_le (- 8) @ u32_le 1 @ []" by (simp add: demo_apk_def)
  show ?thesis by (rule apk_signature_hangs [OF ok p _ read_apk_os]) (simp add: V2_ID_def)
qed

end
