(* ===== verification/Slots.thy ===== *)
theory Slots
  imports Prelude
begin

text \<open>
  The fixed tables of the kernel module: an array whose entries carry a key, one value of the key
  marking a free entry.  The interface \<open>slot_table\<close> says what searching, claiming and clearing
  an entry keep of the table.
\<close>

section \<open>Searching\<close>

text \<open>The \<^verbatim>\<open>for\<close> loop that returns the first entry with a key.\<close>

primrec slot_of :: "('a \<Rightarrow> 'k) \<Rightarrow> 'k \<Rightarrow> 'a list \<Rightarrow> nat option" where
  "slot_of key k [] = None"
| "slot_of key k (x # xs) = (if key x = k then Some 0 else map_option Suc (slot_of key k xs))"

text \<open>No key but the free one occurs in two entries.\<close>

definition one_each :: "('a \<Rightarrow> 'k) \<Rightarrow> 'k \<Rightarrow> 'a list \<Rightarrow> bool" where
  "one_each key free xs \<longleftrightarrow>
     (\<forall>i<length xs. \<forall>j<length xs. key (xs ! i) = key (xs ! j) \<longrightarrow> key (xs ! i) \<noteq> free \<longrightarrow> i = j)"

lemma slot_of_Some:
  "slot_of key k xs = Some i \<Longrightarrow> i < length xs \<and> key (xs ! i) = k \<and> (\<forall>j<i. key (xs ! j) \<noteq> k)"
proof (induction xs arbitrary: i)
  case (Cons x xs)
  show ?case
  proof (cases "key x = k")
    case False
    then obtain j where j: "slot_of key k xs = Some j" "i = Suc j" using Cons.prems by auto
    have "\<forall>m<i. key ((x # xs) ! m) \<noteq> k" using Cons.IH [OF j(1)] j(2) False by (auto simp: nth_Cons split: nat.splits)
    with Cons.IH [OF j(1)] j(2) show ?thesis by simp
  qed (use Cons.prems in auto)
qed simp

lemma slot_of_None: "slot_of key k xs = None \<longleftrightarrow> k \<notin> key ` set xs"
  by (induction xs) auto

lemma slot_of_index: "i < length xs \<Longrightarrow> key (xs ! i) = k \<Longrightarrow> (\<forall>j<i. key (xs ! j) \<noteq> k) \<Longrightarrow> slot_of key k xs = Some i"
proof -
  assume a: "i < length xs" "key (xs ! i) = k" "\<forall>j<i. key (xs ! j) \<noteq> k"
  then obtain j where j: "slot_of key k xs = Some j" by (cases "slot_of key k xs") (auto simp: slot_of_None)
  with a slot_of_Some [OF j] show ?thesis by (metis linorder_neqE_nat)
qed

lemma uniqueD:
  "one_each key free xs \<Longrightarrow> i < length xs \<Longrightarrow> j < length xs \<Longrightarrow> key (xs ! i) = key (xs ! j) \<Longrightarrow>
     key (xs ! i) \<noteq> free \<Longrightarrow> i = j"
  unfolding one_each_def by blast

lemma one_each_update:
  assumes "one_each key free xs" "\<And>j. j < length xs \<Longrightarrow> j \<noteq> i \<Longrightarrow> key (xs ! j) = key y \<Longrightarrow> key y = free"
  shows "one_each key free (xs[i := y])"
  unfolding one_each_def
proof (intro allI impI)
  fix a b assume ab: "a < length (xs[i := y])" "b < length (xs[i := y])"
    "key (xs[i := y] ! a) = key (xs[i := y] ! b)" "key (xs[i := y] ! a) \<noteq> free"
  consider "a = i" "b = i" | "a = i" "b \<noteq> i" | "a \<noteq> i" "b = i" | "a \<noteq> i" "b \<noteq> i" by blast
  then show "a = b"
  proof cases
    case 2
    then show ?thesis using ab assms(2) [of b] by simp
  next
    case 3
    then show ?thesis using ab assms(2) [of a] by simp
  next
    case 4
    then show ?thesis using ab uniqueD [OF assms(1), of a b] by simp
  qed simp
qed

section \<open>The interface\<close>

locale slot_table =
  fixes key :: "'a \<Rightarrow> 'k"
    and free :: "'k"
    and claim :: "'k \<Rightarrow> 'a list \<Rightarrow> nat option"
  assumes claim_eq: "claim k xs = (case slot_of key k xs of Some i \<Rightarrow> Some i | None \<Rightarrow> slot_of key free xs)"
begin

lemma claim_index:
  assumes "claim k xs = Some i"
  shows "i < length xs" "key (xs ! i) = k \<or> key (xs ! i) = free" "j < length xs \<Longrightarrow> key (xs ! j) = k \<Longrightarrow> key (xs ! i) = k"
proof -
  show "i < length xs" "key (xs ! i) = k \<or> key (xs ! i) = free"
    using assms slot_of_Some [of key _ xs i] by (auto simp: claim_eq split: option.splits)
  assume j: "j < length xs" "key (xs ! j) = k"
  then have "slot_of key k xs \<noteq> None" by (auto simp: slot_of_None)
  then show "key (xs ! i) = k" using assms slot_of_Some [of key k xs i] by (auto simp: claim_eq)
qed

lemma claim_None: "claim k xs = None \<longleftrightarrow> k \<notin> key ` set xs \<and> free \<notin> key ` set xs"
  by (auto simp: claim_eq slot_of_None split: option.splits dest: slot_of_Some)

lemma claimed_ok:
  assumes "one_each key free xs" "claim k xs = Some i" "key y = k"
  shows "one_each key free (xs[i := y])"
proof (rule one_each_update [OF assms(1)])
  note c = claim_index [OF assms(2)]
  fix j assume j: "j < length xs" "j \<noteq> i" "key (xs ! j) = key y"
  then have "key (xs ! i) = key (xs ! j)" using c(3) [of j] assms(3) by simp
  then show "key y = free" using uniqueD [OF assms(1) c(1) j(1)] j(2,3) by auto
qed

text \<open>Changing an entry without its key, and clearing it.\<close>

lemma updated_ok:
  assumes "one_each key free xs" "i < length xs" "key y = key (xs ! i) \<or> key y = free"
  shows "one_each key free (xs[i := y])"
proof (rule one_each_update [OF assms(1)])
  fix j assume j: "j < length xs" "j \<noteq> i" "key (xs ! j) = key y"
  show "key y = free" using assms(3) uniqueD [OF assms(1,2) j(1)] j(2,3) by (cases "key y = free") auto
qed

lemma replicate_ok: "key y = free \<Longrightarrow> one_each key free (replicate n y)"
  by (simp add: one_each_def)

lemma live_unique: "one_each key free xs \<Longrightarrow> i < length xs \<Longrightarrow> k \<noteq> free \<Longrightarrow> key (xs ! i) = k \<Longrightarrow> slot_of key k xs = Some i"
proof (rule slot_of_index)
  assume a: "one_each key free xs" "i < length xs" "k \<noteq> free" "key (xs ! i) = k"
  show "i < length xs" "key (xs ! i) = k" by fact+
  show "\<forall>j<i. key (xs ! j) \<noteq> k"
  proof (intro allI impI notI)
    fix j assume "j < i" "key (xs ! j) = k"
    then show False using uniqueD [OF a(1,2), of j] a by simp
  qed
qed

end

end
