(* ===== verification/Zygote_Kernel.thy ===== *)
theory Zygote_Kernel
  imports Slots Bytes "HOL-Library.Multiset"
begin

text \<open>
  The life of an application process as the kernel module follows it: \<^verbatim>\<open>core/tamisu_zygote_orch.c\<close>
  (fork, specialization, end), the hand-over of module files, \<^verbatim>\<open>core/tamisu_zygote_ctl.c\<close>, the
  receiving side of the event channel, \<^verbatim>\<open>core/tamisu_zygote_nl.c\<close>, and the user-id hook,
  \<^verbatim>\<open>core/tamisu_setuid_hook.c\<close>.

  A section under a spin lock is one step.  Files are numbers; \<open>held\<close> is the multiset of the
  references the module holds.  The task works queued on a process are listed in \<open>works\<close>.
\<close>

section \<open>State\<close>

type_synonym kfile = nat

datatype zo_state = ZO_FORKED | ZO_SPECIALIZED

record zo_child =
  zo_pid :: u32
  zo_uid :: u32
  zo_st :: zo_state

text \<open>The files of a pending hand-over are the first \<^verbatim>\<open>n\<close> of its array.\<close>

record yz_pending =
  yp_pid :: u32
  yp_appid :: u32
  yp_flags :: u32
  yp_files :: "kfile list"

record zk =
  zo_children :: "zo_child list"
  yz_slots :: "yz_pending list"
  held :: "kfile multiset"
  works :: "(u32 \<times> nat) list"
  given :: "(u32 \<times> kfile) list"
  yz_sock :: bool
  sent :: "(u32 \<times> u32 \<times> u32) list"

definition ZO_MAX_CHILDREN :: nat where "ZO_MAX_CHILDREN = 512"
definition YZ_MAX_PENDING :: nat where "YZ_MAX_PENDING = 64"
definition YZ_MAX_MODULE_FDS :: nat where "YZ_MAX_MODULE_FDS = 8"

definition no_child :: zo_child where
  "no_child = \<lparr>zo_pid = 0, zo_uid = 0, zo_st = ZO_FORKED\<rparr>"

definition no_pending :: yz_pending where
  "no_pending = \<lparr>yp_pid = 0, yp_appid = 0, yp_flags = 0, yp_files = []\<rparr>"

definition zk_start :: "bool \<Rightarrow> zk" where
  "zk_start sock = \<lparr>zo_children = replicate ZO_MAX_CHILDREN no_child, yz_slots = replicate YZ_MAX_PENDING no_pending,
     held = {#}, works = [], given = [], yz_sock = sock, sent = []\<rparr>"

section \<open>The event channel\<close>

definition YZ_EV_SPECIALIZE :: u32 where "YZ_EV_SPECIALIZE = 1"
definition YZ_EV_REPORT_SPECIALIZE :: u32 where "YZ_EV_REPORT_SPECIALIZE = 3"

definition multicast :: "u32 \<times> u32 \<times> u32 \<Rightarrow> zk \<Rightarrow> zk" where
  "multicast ev s = (if yz_sock s then s\<lparr>sent := sent s @ [ev]\<rparr> else s)"

section \<open>The orchestrator\<close>

definition zo_slot_of :: "u32 \<Rightarrow> zk \<Rightarrow> nat option" where
  "zo_slot_of pid s = slot_of zo_pid pid (zo_children s)"

definition zo_track :: "u32 \<Rightarrow> zk \<Rightarrow> zk" where
  "zo_track pid s =
     (case zo_slot_of pid s of
        Some _ \<Rightarrow> s
      | None \<Rightarrow>
          (case zo_slot_of 0 s of
             None \<Rightarrow> s
           | Some i \<Rightarrow> s\<lparr>zo_children := (zo_children s)[i := \<lparr>zo_pid = pid, zo_uid = - 1, zo_st = ZO_FORKED\<rparr>]\<rparr>))"

text \<open>\<open>from_zygote\<close> is \<^verbatim>\<open>is_zygote\<close> of the credentials of the parent.\<close>

definition zo_on_fork :: "bool \<Rightarrow> u32 \<Rightarrow> u32 \<Rightarrow> zk \<Rightarrow> zk" where
  "zo_on_fork from_zygote pid tgid s =
     (if pid \<noteq> tgid then s else if \<not> from_zygote then s else zo_track pid s)"

definition zo_specialize :: "u32 \<Rightarrow> u32 \<Rightarrow> zk \<Rightarrow> zk" where
  "zo_specialize pid uid s =
     (case zo_slot_of pid s of
        Some i \<Rightarrow>
          if zo_st (zo_children s ! i) = ZO_FORKED
          then multicast (YZ_EV_SPECIALIZE, pid, uid mod 100000)
                 (s\<lparr>zo_children := (zo_children s)[i := (zo_children s ! i)\<lparr>zo_uid := uid, zo_st := ZO_SPECIALIZED\<rparr>]\<rparr>)
          else s
      | None \<Rightarrow> s)"

definition tamisu_zygote_orch_on_uid_change :: "u32 \<Rightarrow> u32 \<Rightarrow> u32 \<Rightarrow> zk \<Rightarrow> zk" where
  "tamisu_zygote_orch_on_uid_change pid old_uid new_uid s =
     (if new_uid < 10000 then s else if new_uid mod 100000 \<ge> 90000 then s else zo_specialize pid new_uid s)"

definition tamisu_zygote_orch_on_userspace_report :: "u32 \<Rightarrow> u32 \<Rightarrow> zk \<Rightarrow> zk" where
  "tamisu_zygote_orch_on_userspace_report pid uid s =
     (if uid < 10000 then s else if uid mod 100000 \<ge> 90000 then s else zo_specialize pid uid s)"

text \<open>The hook behind every change of the user id; \<open>original\<close> is the result of the hook it replaces.\<close>

definition my_task_fix_setuid :: "int \<Rightarrow> u32 \<Rightarrow> u32 \<Rightarrow> u32 \<Rightarrow> zk \<Rightarrow> int \<times> zk" where
  "my_task_fix_setuid original pid old_uid new_uid s =
     (if original \<noteq> 0 then (original, s)
      else (0, if old_uid \<noteq> new_uid then tamisu_zygote_orch_on_uid_change pid old_uid new_uid s else s))"

text \<open>A datagram from a process; the length it claims is not compared with the length it has, \<open>beyond\<close> follows it in memory.\<close>

definition tamisu_zygote_nl_recv :: "bytes \<Rightarrow> bytes \<Rightarrow> zk \<Rightarrow> zk" where
  "tamisu_zygote_nl_recv beyond skb s =
     (let mem = skb @ beyond;
          word = (\<lambda>i. of_nat (le_nat (take 4 (drop i mem))) :: u32)
      in if word 0 < 16 + 12 then s
         else if word 16 = YZ_EV_REPORT_SPECIALIZE then tamisu_zygote_orch_on_userspace_report (word 20) (word 24) s
         else s)"

section \<open>The hand-over of files\<close>

definition yz_slot_of :: "u32 \<Rightarrow> yz_pending list \<Rightarrow> nat option" where
  "yz_slot_of pid ps = slot_of yp_pid pid ps"

definition handoff_slot :: "u32 \<Rightarrow> yz_pending list \<Rightarrow> nat option" where
  "handoff_slot pid ps = (case yz_slot_of pid ps of Some i \<Rightarrow> Some i | None \<Rightarrow> yz_slot_of 0 ps)"

definition fput_all :: "kfile list \<Rightarrow> zk \<Rightarrow> zk" where
  "fput_all fs s = s\<lparr>held := held s - mset fs\<rparr>"

record handoff_cmd =
  h_pid :: u32
  h_appid :: u32
  h_flags :: u32
  h_n_fds :: u32
  h_fds :: "int list"

text \<open>The references taken before a descriptor that is not open, and whether all were open.\<close>

fun fget_all :: "(int \<Rightarrow> kfile option) \<Rightarrow> int list \<Rightarrow> kfile list \<times> bool" where
  "fget_all fdt [] = ([], True)"
| "fget_all fdt (fd # rest) =
     (case fdt fd of
        None \<Rightarrow> ([], False)
      | Some f \<Rightarrow> (case fget_all fdt rest of (fs, ok) \<Rightarrow> (f # fs, ok)))"

definition E_BADF :: int where "E_BADF = 9"
definition E_NOSPC :: int where "E_NOSPC = 28"
definition E_INVAL :: int where "E_INVAL = 22"

text \<open>
  \<open>fdt\<close> are the descriptors of the caller, \<open>task\<close> says whether a process has the pid (then its
  task work can be queued unless it is past its exit, \<open>queue_ok\<close>).
\<close>

definition tamisu_zygote_ctl_handoff :: "(int \<Rightarrow> kfile option) \<Rightarrow> bool \<Rightarrow> bool \<Rightarrow> handoff_cmd \<Rightarrow> zk \<Rightarrow> int \<times> zk" where
  "tamisu_zygote_ctl_handoff fdt task queue_ok cmd s =
     (if unat (h_n_fds cmd) > YZ_MAX_MODULE_FDS then (- E_INVAL, s)
      else
        (case fget_all fdt (take (unat (h_n_fds cmd)) (h_fds cmd)) of
           (files, ok) \<Rightarrow>
             (let s1 = s\<lparr>held := held s + mset files\<rparr> in
              if \<not> ok then (- E_BADF, fput_all files s1)
              else (case handoff_slot (h_pid cmd) (yz_slots s1) of
                      None \<Rightarrow> (- E_NOSPC, fput_all files s1)
                    | Some i \<Rightarrow>
                        (let old = yp_files (yz_slots s1 ! i);
                             p = \<lparr>yp_pid = h_pid cmd, yp_appid = h_appid cmd, yp_flags = h_flags cmd, yp_files = files\<rparr>;
                             s2 = s1\<lparr>yz_slots := (yz_slots s1)[i := p],
                                     works := (if task \<and> queue_ok then works s1 @ [(h_pid cmd, i)] else works s1)\<rparr>
                         in (0, fput_all old s2))))))"

text \<open>
  The delivery, in the context of a process that runs the work of a slot: installing a file passes
  the reference to the process; \<open>fd_ok\<close> says which of the files find a free descriptor.
\<close>

fun install_files :: "u32 \<Rightarrow> (kfile \<Rightarrow> bool) \<Rightarrow> kfile list \<Rightarrow> zk \<Rightarrow> zk" where
  "install_files pid fd_ok [] s = s"
| "install_files pid fd_ok (f # fs) s =
     install_files pid fd_ok fs
       (if fd_ok f then s\<lparr>held := held s - {#f#}, given := given s @ [(pid, f)]\<rparr>
        else fput_all [f] s)"

definition yz_deliver_cb :: "u32 \<Rightarrow> bool \<Rightarrow> (kfile \<Rightarrow> bool) \<Rightarrow> nat \<Rightarrow> zk \<Rightarrow> zk" where
  "yz_deliver_cb current_pid exiting fd_ok i s =
     (let files = yp_files (yz_slots s ! i);
          s1 = s\<lparr>yz_slots := (yz_slots s)[i := no_pending]\<rparr>
      in if exiting then fput_all files s1 else install_files current_pid fd_ok files s1)"

definition tamisu_zygote_ctl_release :: "u32 \<Rightarrow> zk \<Rightarrow> zk" where
  "tamisu_zygote_ctl_release pid s =
     (case yz_slot_of pid (yz_slots s) of
        None \<Rightarrow> s
      | Some i \<Rightarrow> fput_all (yp_files (yz_slots s ! i)) (s\<lparr>yz_slots := (yz_slots s)[i := no_pending]\<rparr>))"

definition tamisu_zygote_ctl_exit :: "zk \<Rightarrow> zk" where
  "tamisu_zygote_ctl_exit s =
     fput_all (concat (map yp_files (yz_slots s)))
       (s\<lparr>yz_slots := map (\<lambda>p. p\<lparr>yp_pid := 0, yp_files := []\<rparr>) (yz_slots s)\<rparr>)"

text \<open>A process is freed.\<close>

definition zo_on_free :: "u32 \<Rightarrow> u32 \<Rightarrow> zk \<Rightarrow> zk" where
  "zo_on_free pid tgid s =
     (if pid \<noteq> tgid then s
      else (case zo_slot_of pid s of
              None \<Rightarrow> s
            | Some i \<Rightarrow>
                tamisu_zygote_ctl_release pid
                  (s\<lparr>zo_children := (zo_children s)[i := (zo_children s ! i)\<lparr>zo_pid := 0\<rparr>]\<rparr>)))"

section \<open>Steps\<close>

datatype zk_step =
    Fork bool u32 u32
  | Free u32 u32
  | SetUid int u32 u32 u32
  | Datagram bytes bytes
  | Handoff "int \<Rightarrow> kfile option" bool bool handoff_cmd
  | Deliver u32 nat bool "kfile \<Rightarrow> bool"
  | CtlExit

definition zk_do :: "zk_step \<Rightarrow> zk \<Rightarrow> zk" where
  "zk_do e s =
     (case e of
        Fork z pid tgid \<Rightarrow> zo_on_fork z pid tgid s
      | Free pid tgid \<Rightarrow> zo_on_free pid tgid s
      | SetUid r pid old new \<Rightarrow> snd (my_task_fix_setuid r pid old new s)
      | Datagram beyond skb \<Rightarrow> tamisu_zygote_nl_recv beyond skb s
      | Handoff fdt task queue_ok cmd \<Rightarrow> snd (tamisu_zygote_ctl_handoff fdt task queue_ok cmd s)
      | Deliver pid i exiting fd_ok \<Rightarrow>
          yz_deliver_cb pid exiting fd_ok i (s\<lparr>works := remove1 (pid, i) (works s)\<rparr>)
      | CtlExit \<Rightarrow> tamisu_zygote_ctl_exit s)"

text \<open>A work runs only when it is queued.\<close>

inductive zk_reach :: "bool \<Rightarrow> zk \<Rightarrow> bool" for sock where
  start: "zk_reach sock (zk_start sock)"
| step: "zk_reach sock s \<Longrightarrow> (\<And>pid i x f. e = Deliver pid i x f \<Longrightarrow> (pid, i) \<in> set (works s)) \<Longrightarrow> zk_reach sock (zk_do e s)"

end
