(* ===== verification/Zygote_Kernel_Props.thy ===== *)
theory Zygote_Kernel_Props
  imports Zygote_Kernel Zygiskd_Events
begin

text \<open>
  What the kernel's tables keep: pids occur once, every reference to a file is in exactly one
  slot, a process is announced at most once per fork; and what goes wrong with reports and with a
  second hand-over.
\<close>

section \<open>The tables\<close>

interpretation zo: slot_table zo_pid 0 "\<lambda>k xs. case slot_of zo_pid k xs of Some i \<Rightarrow> Some i | None \<Rightarrow> slot_of zo_pid 0 xs"
  by unfold_locales simp

interpretation yz: slot_table yp_pid 0 handoff_slot
  by unfold_locales (simp add: handoff_slot_def yz_slot_of_def split: option.splits)

lemma fput_all_simps [simp]:
  "zo_children (fput_all l s) = zo_children s" "yz_slots (fput_all l s) = yz_slots s" "works (fput_all l s) = works s"
  "given (fput_all l s) = given s" "yz_sock (fput_all l s) = yz_sock s" "sent (fput_all l s) = sent s"
  "held (fput_all l s) = held s - mset l"
  by (simp_all add: fput_all_def)

lemma multicast_simps [simp]:
  "zo_children (multicast ev s) = zo_children s" "yz_slots (multicast ev s) = yz_slots s" "works (multicast ev s) = works s"
  "given (multicast ev s) = given s" "yz_sock (multicast ev s) = yz_sock s" "held (multicast ev s) = held s"
  "sent (multicast ev s) = (if yz_sock s then sent s @ [ev] else sent s)"
  by (simp_all add: multicast_def)

lemma install_files_simps [simp]:
  "zo_children (install_files p ok l s) = zo_children s" "yz_slots (install_files p ok l s) = yz_slots s"
  "works (install_files p ok l s) = works s" "yz_sock (install_files p ok l s) = yz_sock s"
  "sent (install_files p ok l s) = sent s" "held (install_files p ok l s) = held s - mset l"
  "given (install_files p ok l s) = given s @ map (Pair p) (filter ok l)"
  by (induction l arbitrary: s) (auto simp: add_mset_commute diff_diff_add)

lemma handoff_children [simp]:
  "zo_children (snd (tamisu_zygote_ctl_handoff fdt t q c s)) = zo_children s"
  "sent (snd (tamisu_zygote_ctl_handoff fdt t q c s)) = sent s"
  "yz_sock (snd (tamisu_zygote_ctl_handoff fdt t q c s)) = yz_sock s"
  "given (snd (tamisu_zygote_ctl_handoff fdt t q c s)) = given s"
  by (auto simp: tamisu_zygote_ctl_handoff_def Let_def split: prod.splits option.splits)

lemma deliver_children [simp]:
  "zo_children (yz_deliver_cb p x ok i s) = zo_children s" "sent (yz_deliver_cb p x ok i s) = sent s"
  "yz_sock (yz_deliver_cb p x ok i s) = yz_sock s" "works (yz_deliver_cb p x ok i s) = works s"
  by (simp_all add: yz_deliver_cb_def Let_def)

lemma release_children [simp]:
  "zo_children (tamisu_zygote_ctl_release p s) = zo_children s" "sent (tamisu_zygote_ctl_release p s) = sent s"
  "yz_sock (tamisu_zygote_ctl_release p s) = yz_sock s" "works (tamisu_zygote_ctl_release p s) = works s"
  "given (tamisu_zygote_ctl_release p s) = given s"
  by (auto simp: tamisu_zygote_ctl_release_def split: option.splits)

lemma ctl_exit_children [simp]:
  "zo_children (tamisu_zygote_ctl_exit s) = zo_children s" "sent (tamisu_zygote_ctl_exit s) = sent s"
  "yz_sock (tamisu_zygote_ctl_exit s) = yz_sock s" "works (tamisu_zygote_ctl_exit s) = works s"
  by (simp_all add: tamisu_zygote_ctl_exit_def)

section \<open>References\<close>

definition slot_files :: "yz_pending list \<Rightarrow> kfile multiset" where
  "slot_files ps = mset (concat (map yp_files ps))"

definition ctl_inv :: "zk \<Rightarrow> bool" where
  "ctl_inv s \<longleftrightarrow> length (yz_slots s) = YZ_MAX_PENDING \<and> one_each yp_pid 0 (yz_slots s) \<and>
     list_all (\<lambda>p. length (yp_files p) \<le> YZ_MAX_MODULE_FDS) (yz_slots s) \<and>
     list_all (\<lambda>(p, i). i < YZ_MAX_PENDING) (works s) \<and> held s = slot_files (yz_slots s)"

lemma slot_files_update:
  assumes "i < length ps"
  shows "slot_files (ps[i := p]) + mset (yp_files (ps ! i)) = slot_files ps + mset (yp_files p)"
proof -
  have 1: "slot_files (ps[i := p]) = slot_files (take i ps) + mset (yp_files p) + slot_files (drop (Suc i) ps)"
    unfolding upd_conv_take_nth_drop [OF assms] slot_files_def by simp
  have 2: "slot_files ps = slot_files (take i ps) + mset (yp_files (ps ! i)) + slot_files (drop (Suc i) ps)"
    by (subst id_take_nth_drop [OF assms]) (simp add: slot_files_def)
  show ?thesis unfolding 1 2 by (simp add: ac_simps)
qed

lemma slot_files_clear:
  "i < length ps \<Longrightarrow> yp_files p = [] \<Longrightarrow> slot_files (ps[i := p]) = slot_files ps - mset (yp_files (ps ! i))"
  using slot_files_update [of i ps p] by (metis add_diff_cancel_right' add.right_neutral mset.simps(1))

lemma fget_all_length: "length (fst (fget_all fdt fds)) \<le> length fds"
  by (induction fds) (auto split: option.splits prod.splits)

lemma list_all_update: "list_all P xs \<Longrightarrow> P y \<Longrightarrow> list_all P (xs[i := y])"
  by (auto simp: list_all_iff dest: set_update_subset_insert [THEN subsetD])

lemma no_pending_simps [simp]: "yp_pid no_pending = 0" "yp_files no_pending = []"
  by (simp_all add: no_pending_def)

lemma clear_slot_inv:
  assumes "ctl_inv s" "i < YZ_MAX_PENDING"
  shows "ctl_inv (s\<lparr>yz_slots := (yz_slots s)[i := no_pending], held := held s - mset (yp_files (yz_slots s ! i))\<rparr>)"
proof -
  have i: "i < length (yz_slots s)" using assms by (simp add: ctl_inv_def)
  have "one_each yp_pid 0 ((yz_slots s)[i := no_pending])"
    using assms by (intro yz.updated_ok [OF _ i]) (simp_all add: ctl_inv_def)
  then show ?thesis
    using assms slot_files_clear [OF i, of no_pending] by (simp add: ctl_inv_def list_all_update)
qed

lemma ctl_inv_cong:
  "yz_slots s' = yz_slots s \<Longrightarrow> works s' = works s \<Longrightarrow> held s' = held s \<Longrightarrow> ctl_inv s' = ctl_inv s"
  by (simp add: ctl_inv_def)

lemma release_inv: "ctl_inv s \<Longrightarrow> ctl_inv (tamisu_zygote_ctl_release p s)"
proof (cases "yz_slot_of p (yz_slots s)")
  case (Some i)
  assume inv: "ctl_inv s"
  then have "i < YZ_MAX_PENDING" using slot_of_Some Some by (fastforce simp: ctl_inv_def yz_slot_of_def)
  from clear_slot_inv [OF inv this] show ?thesis
    by (simp add: tamisu_zygote_ctl_release_def Some fput_all_def)
qed (simp add: tamisu_zygote_ctl_release_def)

lemma deliver_inv:
  assumes "ctl_inv s" "i < YZ_MAX_PENDING"
  shows "ctl_inv (yz_deliver_cb p x ok i s)"
  using clear_slot_inv [OF assms] by (simp add: yz_deliver_cb_def Let_def ctl_inv_def)

lemma handoff_inv:
  assumes "ctl_inv s"
  shows "ctl_inv (snd (tamisu_zygote_ctl_handoff fdt task q cmd s))"
proof -
  obtain files ok where g: "fget_all fdt (take (unat (h_n_fds cmd)) (h_fds cmd)) = (files, ok)" by force
  let ?slot = "handoff_slot (h_pid cmd) (yz_slots s)"
  show ?thesis
  proof (cases "unat (h_n_fds cmd) > YZ_MAX_MODULE_FDS \<or> \<not> ok \<or> ?slot = None")
    case True
    then show ?thesis using assms g
      by (auto simp: tamisu_zygote_ctl_handoff_def Let_def ctl_inv_def split: option.splits)
  next
    case False
    then obtain i where i: "?slot = Some i" by auto
    let ?p = "\<lparr>yp_pid = h_pid cmd, yp_appid = h_appid cmd, yp_flags = h_flags cmd, yp_files = files\<rparr>"
    have len: "i < length (yz_slots s)" by (rule yz.claim_index [OF i])
    have n: "length files \<le> YZ_MAX_MODULE_FDS"
      using fget_all_length [of fdt "take (unat (h_n_fds cmd)) (h_fds cmd)"] g False by simp
    have "held s + mset files - mset (yp_files (yz_slots s ! i)) = slot_files ((yz_slots s)[i := ?p])"
      using slot_files_update [OF len, of ?p] assms by (simp add: ctl_inv_def) (metis add_diff_cancel_right')
    moreover have "one_each yp_pid 0 ((yz_slots s)[i := ?p])"
      using assms by (intro yz.claimed_ok [OF _ i]) (simp_all add: ctl_inv_def)
    ultimately show ?thesis
      using assms False g i len n by (simp add: tamisu_zygote_ctl_handoff_def Let_def ctl_inv_def list_all_update)
  qed
qed

lemma exit_inv:
  assumes "ctl_inv s"
  shows "ctl_inv (tamisu_zygote_ctl_exit s)"
proof -
  have "one_each yp_pid 0 (map (\<lambda>p. p\<lparr>yp_pid := 0, yp_files := []\<rparr>) (yz_slots s))" by (simp add: one_each_def)
  then show ?thesis using assms
    by (simp add: ctl_inv_def tamisu_zygote_ctl_exit_def slot_files_def list_all_iff comp_def)
qed

lemma zo_specialize_ctl [simp]:
  "yz_slots (zo_specialize p u s) = yz_slots s" "works (zo_specialize p u s) = works s"
  "held (zo_specialize p u s) = held s" "yz_sock (zo_specialize p u s) = yz_sock s" "given (zo_specialize p u s) = given s"
  by (auto simp: zo_specialize_def split: option.splits)

lemma zo_track_ctl [simp]:
  "yz_slots (zo_track p s) = yz_slots s" "works (zo_track p s) = works s" "held (zo_track p s) = held s"
  "yz_sock (zo_track p s) = yz_sock s" "sent (zo_track p s) = sent s" "given (zo_track p s) = given s"
  by (auto simp: zo_track_def split: option.splits)

lemmas zk_orch_defs = zo_on_fork_def my_task_fix_setuid_def tamisu_zygote_orch_on_uid_change_def
  tamisu_zygote_orch_on_userspace_report_def tamisu_zygote_nl_recv_def Let_def

lemma zk_do_inv:
  assumes "ctl_inv s" "\<And>p i x f. e = Deliver p i x f \<Longrightarrow> (p, i) \<in> set (works s)"
  shows "ctl_inv (zk_do e s)"
proof (cases e)
  case (Free p t)
  have "ctl_inv (tamisu_zygote_ctl_release p (s\<lparr>zo_children := c\<rparr>))" for c
    using assms(1) by (intro release_inv) (simp add: ctl_inv_def)
  then show ?thesis using Free assms(1) by (auto simp: zk_do_def zo_on_free_def split: option.splits)
next
  case (Deliver p i x f)
  have "i < YZ_MAX_PENDING" "list_all (\<lambda>(p, i). i < YZ_MAX_PENDING) (remove1 (p, i) (works s))"
    using assms Deliver by (auto simp: ctl_inv_def list_all_iff dest: notin_set_remove1 set_remove1_subset [THEN subsetD])
  then show ?thesis using Deliver assms(1)
    by (simp add: zk_do_def) (rule deliver_inv, simp_all add: ctl_inv_def)
next
  case (Handoff fdt t q c)
  then show ?thesis using handoff_inv [OF assms(1)] by (simp add: zk_do_def)
next
  case CtlExit
  then show ?thesis using exit_inv [OF assms(1)] by (simp add: zk_do_def)
qed (use assms(1) in \<open>simp_all add: zk_do_def zk_orch_defs ctl_inv_def\<close>)

lemma zk_reach_inv: "zk_reach sock s \<Longrightarrow> ctl_inv s"
proof (induction rule: zk_reach.induct)
  case start
  have "one_each yp_pid 0 (replicate YZ_MAX_PENDING no_pending)" by (rule yz.replicate_ok) simp
  then show ?case by (simp add: ctl_inv_def zk_start_def slot_files_def list_all_iff)
next
  case (step s e)
  then show ?case using zk_do_inv by blast
qed

text \<open>
  C12: in every state the kernel can reach, whatever the sequence of forks, ends, changes of the
  user id, reports, hand-overs and deliveries, each reference the module holds on a file is in
  exactly one pending slot (none is lost, none is dropped twice), and no two slots are of one process.
\<close>

theorem handoff_references_balanced:
  assumes "zk_reach sock s"
  shows "held s = mset (concat (map yp_files (yz_slots s))) \<and> one_each yp_pid 0 (yz_slots s) \<and>
    length (yz_slots s) = 64 \<and> list_all (\<lambda>p. length (yp_files p) \<le> 8) (yz_slots s)"
  using zk_reach_inv [OF assms] by (simp add: ctl_inv_def slot_files_def YZ_MAX_PENDING_def YZ_MAX_MODULE_FDS_def)

section \<open>Announced once\<close>

definition orch_inv :: "zk \<Rightarrow> bool" where
  "orch_inv s \<longleftrightarrow> one_each zo_pid 0 (zo_children s)"

definition announced :: "u32 \<Rightarrow> zk \<Rightarrow> nat" where
  "announced pid s = length (filter (\<lambda>(t, p, a). t = YZ_EV_SPECIALIZE \<and> p = pid) (sent s))"

definition unannounced :: "u32 \<Rightarrow> zk \<Rightarrow> nat" where
  "unannounced pid s =
     (case zo_slot_of pid s of None \<Rightarrow> 0 | Some i \<Rightarrow> if zo_st (zo_children s ! i) = ZO_FORKED then 1 else 0)"

definition forks_of :: "u32 \<Rightarrow> zk_step list \<Rightarrow> nat" where
  "forks_of pid es = length (filter (\<lambda>e. e = Fork True pid pid) es)"

lemma slot_of_update_other:
  assumes "i < length xs" "key (xs ! i) \<noteq> k" "key y \<noteq> k"
  shows "slot_of key k (xs[i := y]) = slot_of key k xs"
  using assms by (induction xs arbitrary: i) (auto split: nat.splits)

lemma unannounced_other:
  assumes "i < length (zo_children s)" "zo_pid (zo_children s ! i) \<noteq> pid" "zo_pid y \<noteq> pid" "zo_children s' = (zo_children s)[i := y]"
  shows "unannounced pid s' = unannounced pid s"
proof -
  have "zo_slot_of pid s' = zo_slot_of pid s" unfolding zo_slot_of_def assms(4) by (rule slot_of_update_other [OF assms(1-3)])
  moreover have "zo_slot_of pid s = Some j \<Longrightarrow> zo_children s' ! j = zo_children s ! j" for j
    using slot_of_Some [of zo_pid pid "zo_children s" j] assms(2,4) by (cases "i = j") (auto simp: zo_slot_of_def)
  ultimately show ?thesis by (simp add: unannounced_def split: option.splits)
qed

lemma unannounced_cong: "zo_children s' = zo_children s \<Longrightarrow> unannounced pid s' = unannounced pid s"
  by (simp add: unannounced_def zo_slot_of_def split: option.splits)

lemma track_unannounced:
  assumes "pid \<noteq> 0"
  shows "unannounced pid (zo_track p s) \<le> unannounced pid s + (if p = pid then 1 else 0)"
proof (cases "zo_slot_of p s = None \<and> zo_slot_of 0 s \<noteq> None")
  case True
  then obtain i where i: "zo_slot_of 0 s = Some i" by auto
  let ?y = "\<lparr>zo_pid = p, zo_uid = - 1, zo_st = ZO_FORKED\<rparr>"
  have t: "zo_track p s = s\<lparr>zo_children := (zo_children s)[i := ?y]\<rparr>" using True i by (simp add: zo_track_def)
  have l: "i < length (zo_children s)" "zo_pid (zo_children s ! i) = 0" using slot_of_Some i by (fastforce simp: zo_slot_of_def)+
  show ?thesis
  proof (cases "p = pid")
    case True
    then show ?thesis by (simp add: unannounced_def split: option.splits)
  next
    case False
    then show ?thesis using unannounced_other [of i s pid ?y "zo_track p s"] l assms t by simp
  qed
next
  case False
  then have "zo_track p s = s" by (auto simp: zo_track_def split: option.splits)
  then show ?thesis by simp
qed

lemma specialize_potential:
  assumes "pid \<noteq> 0" "orch_inv s"
  shows "announced pid (zo_specialize p u s) + unannounced pid (zo_specialize p u s) \<le> announced pid s + unannounced pid s"
proof (cases "zo_slot_of p s")
  case (Some i)
  let ?c = "zo_children s"
  let ?y = "(?c ! i)\<lparr>zo_uid := u, zo_st := ZO_SPECIALIZED\<rparr>"
  have l: "i < length ?c" "zo_pid (?c ! i) = p" using slot_of_Some Some by (fastforce simp: zo_slot_of_def)+
  show ?thesis
  proof (cases "zo_st (?c ! i) = ZO_FORKED")
    case True
    then have c: "zo_children (zo_specialize p u s) = ?c[i := ?y]" by (simp add: zo_specialize_def Some)
    show ?thesis
    proof (cases "p = pid")
      case True
      have "one_each zo_pid 0 (?c[i := ?y])" using assms(2) l by (intro zo.updated_ok) (simp_all add: orch_inv_def)
      then have "slot_of zo_pid pid (?c[i := ?y]) = Some i"
        using l True assms(1) by (intro zo.live_unique) simp_all
      then have "unannounced pid (zo_specialize p u s) = 0" using c l by (simp add: unannounced_def zo_slot_of_def)
      moreover have "unannounced pid s = 1" using Some True \<open>zo_st (?c ! i) = ZO_FORKED\<close> by (simp add: unannounced_def)
      moreover have "announced pid (zo_specialize p u s) \<le> announced pid s + 1"
        using Some by (simp add: zo_specialize_def announced_def)
      ultimately show ?thesis by simp
    next
      case False
      have "unannounced pid (zo_specialize p u s) = unannounced pid s"
        by (rule unannounced_other [OF l(1) _ _ c]) (use l False in simp_all)
      moreover have "announced pid (zo_specialize p u s) = announced pid s"
        using Some False by (simp add: zo_specialize_def announced_def)
      ultimately show ?thesis by simp
    qed
  next
    case False
    then show ?thesis by (simp add: zo_specialize_def Some)
  qed
qed (simp add: zo_specialize_def)

lemma track_inv: "orch_inv s \<Longrightarrow> orch_inv (zo_track p s)"
  unfolding orch_inv_def zo_track_def zo_slot_of_def
  by (auto split: option.splits intro!: zo.claimed_ok [of _ p] simp: zo_slot_of_def)

lemma specialize_inv: "orch_inv s \<Longrightarrow> orch_inv (zo_specialize p u s)"
proof (cases "zo_slot_of p s")
  case (Some i)
  assume inv: "orch_inv s"
  have "i < length (zo_children s)" using slot_of_Some Some by (fastforce simp: zo_slot_of_def)
  then show ?thesis using inv by (auto simp: orch_inv_def zo_specialize_def Some intro: zo.updated_ok)
qed (simp add: zo_specialize_def)

lemma free_inv: "orch_inv s \<Longrightarrow> orch_inv (zo_on_free p t s)"
proof (cases "zo_slot_of p s")
  case (Some i)
  assume inv: "orch_inv s"
  have "i < length (zo_children s)" using slot_of_Some Some by (fastforce simp: zo_slot_of_def)
  then show ?thesis using inv Some by (auto simp: orch_inv_def zo_on_free_def intro!: zo.updated_ok)
qed (auto simp: zo_on_free_def)

lemma orch_inv_cong: "zo_children s' = zo_children s \<Longrightarrow> orch_inv s' = orch_inv s"
  by (simp add: orch_inv_def)

lemma announced_cong: "sent s' = sent s \<Longrightarrow> announced pid s' = announced pid s"
  by (simp add: announced_def)

lemma free_unannounced:
  assumes "pid \<noteq> 0" "orch_inv s"
  shows "unannounced pid (zo_on_free p t s) \<le> unannounced pid s"
proof (cases "p = t \<and> zo_slot_of p s \<noteq> None")
  case True
  then obtain i where i: "zo_slot_of p s = Some i" "p = t" by auto
  have l: "i < length (zo_children s)" "zo_pid (zo_children s ! i) = p" using slot_of_Some i by (fastforce simp: zo_slot_of_def)+
  let ?y = "(zo_children s ! i)\<lparr>zo_pid := 0\<rparr>"
  have c: "zo_children (zo_on_free p t s) = (zo_children s)[i := ?y]" using i by (simp add: zo_on_free_def)
  show ?thesis
  proof (cases "p = pid")
    case True
    have "slot_of zo_pid pid ((zo_children s)[i := ?y]) = None"
      unfolding slot_of_None
    proof
      assume "pid \<in> zo_pid ` set ((zo_children s)[i := ?y])"
      then obtain j where j: "j < length (zo_children s)" "zo_pid ((zo_children s)[i := ?y] ! j) = pid"
        by (metis (no_types, lifting) imageE in_set_conv_nth length_list_update)
      then show False
        using assms l True uniqueD [of zo_pid 0 "zo_children s" i j] by (cases "j = i") (auto simp: orch_inv_def)
    qed
    then show ?thesis by (simp add: unannounced_def zo_slot_of_def c)
  next
    case False
    have "unannounced pid (zo_on_free p t s) = unannounced pid s"
      by (rule unannounced_other [OF l(1) _ _ c]) (use l False assms in simp_all)
    then show ?thesis by simp
  qed
next
  case False
  then have "zo_on_free p t s = s" by (auto simp: zo_on_free_def)
  then show ?thesis by simp
qed

definition potential :: "u32 \<Rightarrow> zk \<Rightarrow> nat" where
  "potential pid s = announced pid s + unannounced pid s"

lemma potential_cong: "zo_children s' = zo_children s \<Longrightarrow> sent s' = sent s \<Longrightarrow> potential pid s' = potential pid s"
  unfolding potential_def using announced_cong [of s' s pid] unannounced_cong [of s' s pid] by simp

lemma zk_do_potential:
  assumes "pid \<noteq> 0" "orch_inv s"
  shows "orch_inv (zk_do e s) \<and> potential pid (zk_do e s) \<le> potential pid s + (if e = Fork True pid pid then 1 else 0)"
proof -
  note spec = specialize_potential [OF assms, folded potential_def] specialize_inv [OF assms(2)]
  have id: "orch_inv s' \<and> potential pid s' \<le> potential pid s" if "zo_children s' = zo_children s" "sent s' = sent s" for s'
    using that assms(2) orch_inv_cong [OF that(1)] potential_cong [OF that, of pid] by simp
  show ?thesis
  proof (cases e)
    case (Fork z p t)
    have "announced pid (zo_track p s) = announced pid s" by (rule announced_cong) simp
    then show ?thesis using Fork track_unannounced [OF assms(1), of p s] track_inv [OF assms(2), of p] assms(2)
      by (auto simp: zk_do_def zo_on_fork_def potential_def split: if_splits)
  next
    case (Free p t)
    have "sent (zo_on_free p t s) = sent s" by (auto simp: zo_on_free_def split: option.splits)
    then show ?thesis using Free free_unannounced [OF assms, of p t] free_inv [OF assms(2), of p t] announced_cong [of "zo_on_free p t s" s pid]
      by (simp add: zk_do_def potential_def)
  next
    case (SetUid r p old new)
    then show ?thesis using spec [of p new] assms(2)
      by (simp add: zk_do_def my_task_fix_setuid_def tamisu_zygote_orch_on_uid_change_def)
  next
    case (Datagram b k)
    then show ?thesis using spec assms(2)
      by (simp add: zk_do_def tamisu_zygote_nl_recv_def Let_def tamisu_zygote_orch_on_userspace_report_def)
  next
    case (Handoff fdt t q c)
    then show ?thesis using id by (simp add: zk_do_def)
  next
    case (Deliver p i x f)
    then show ?thesis using id by (simp add: zk_do_def)
  next
    case CtlExit
    then show ?thesis using id by (simp add: zk_do_def)
  qed
qed

lemma run_potential:
  assumes "pid \<noteq> 0" "orch_inv s"
  shows "orch_inv (fold zk_do es s) \<and> potential pid (fold zk_do es s) \<le> potential pid s + forks_of pid es"
  using assms(2)
proof (induction es arbitrary: s)
  case (Cons e es)
  note step = zk_do_potential [OF assms(1) Cons.prems, of e]
  from Cons.IH [of "zk_do e s"] step show ?case by (auto simp: forks_of_def split: if_splits)
qed (simp add: forks_of_def)

lemma start_inv: "orch_inv (zk_start sock)"
  by (simp add: orch_inv_def zk_start_def no_child_def one_each_def)

lemma start_potential: "pid \<noteq> 0 \<Longrightarrow> potential pid (zk_start sock) = 0"
  by (simp add: potential_def announced_def unannounced_def zk_start_def zo_slot_of_def no_child_def slot_of_None
      split: option.splits) (metis in_set_replicate imageE slot_of_None option.distinct(1) zo_child.select_convs(1))

text \<open>
  C11: over any run of the kernel module a process id other than zero is announced to the daemon at
  most as many times as the zygote forked a process of that id.
\<close>

theorem announced_once_per_fork:
  assumes "pid \<noteq> 0"
  shows "announced pid (fold zk_do es (zk_start sock)) \<le> forks_of pid es"
  using run_potential [OF assms start_inv, of es sock] start_potential [OF assms, of sock] by (simp add: potential_def)

theorem announced_once_per_fork_witness:
  "announced 7 (fold zk_do [Fork True 7 7, SetUid 0 7 0 10123, SetUid 0 7 10123 10124] (zk_start True)) \<le> 1"
  using announced_once_per_fork [of 7 "[Fork True 7 7, SetUid 0 7 0 10123, SetUid 0 7 10123 10124]" True]
  by (simp add: forks_of_def)

section \<open>Reports from processes\<close>

lemma report_read:
  "tamisu_zygote_nl_recv beyond (emit_event YZ_EV_REPORT_SPECIALIZE pid uid) s = tamisu_zygote_orch_on_userspace_report pid uid s"
proof -
  have w: "of_nat (le_nat (take 4 (u32_le x @ r))) = x" for x :: u32 and r by (simp only: le_nat_take_u32) simp
  have d: "drop 16 (emit_event YZ_EV_REPORT_SPECIALIZE pid uid @ beyond) = u32_le YZ_EV_REPORT_SPECIALIZE @ u32_le pid @ u32_le uid @ beyond"
    "drop 20 (emit_event YZ_EV_REPORT_SPECIALIZE pid uid @ beyond) = u32_le pid @ u32_le uid @ beyond"
    "drop 24 (emit_event YZ_EV_REPORT_SPECIALIZE pid uid @ beyond) = u32_le uid @ beyond"
    "drop 0 (emit_event YZ_EV_REPORT_SPECIALIZE pid uid @ beyond) =
      u32_le 28 @ u16_le 16 @ u16_le 0 @ u32_le 0 @ u32_le 0 @ u32_le YZ_EV_REPORT_SPECIALIZE @ u32_le pid @ u32_le uid @ beyond"
    by (simp_all add: emit_event_def)
  show ?thesis unfolding tamisu_zygote_nl_recv_def Let_def d w by simp
qed

lemma slot_of_update_same:
  "i < length xs \<Longrightarrow> key y = key (xs ! i) \<Longrightarrow> slot_of key k (xs[i := y]) = slot_of key k xs"
  by (induction xs arbitrary: i) (auto split: nat.splits)

lemma specialize_fresh:
  assumes "zo_slot_of pid s = Some i" "zo_st (zo_children s ! i) = ZO_FORKED"
  shows "sent (zo_specialize pid uid s) = (if yz_sock s then sent s @ [(YZ_EV_SPECIALIZE, pid, uid mod 100000)] else sent s)"
    "zo_specialize pid uid' (zo_specialize pid uid s) = zo_specialize pid uid s"
proof -
  let ?y = "(zo_children s ! i)\<lparr>zo_uid := uid, zo_st := ZO_SPECIALIZED\<rparr>"
  have l: "i < length (zo_children s)" using slot_of_Some assms(1) by (fastforce simp: zo_slot_of_def)
  show "sent (zo_specialize pid uid s) = (if yz_sock s then sent s @ [(YZ_EV_SPECIALIZE, pid, uid mod 100000)] else sent s)"
    using assms by (simp add: zo_specialize_def)
  have c: "zo_children (zo_specialize pid uid s) = (zo_children s)[i := ?y]" using assms by (simp add: zo_specialize_def)
  have "zo_slot_of pid (zo_specialize pid uid s) = Some i"
    unfolding zo_slot_of_def c using assms(1) l by (simp add: slot_of_update_same zo_slot_of_def)
  then show "zo_specialize pid uid' (zo_specialize pid uid s) = zo_specialize pid uid s"
    unfolding zo_specialize_def [of pid uid'] using c l by simp
qed

definition app_uid :: "u32 \<Rightarrow> bool" where
  "app_uid uid \<longleftrightarrow> uid \<ge> 10000 \<and> uid mod 100000 < 90000"

lemma app_uidD: "app_uid uid \<Longrightarrow> \<not> uid < 10000" "app_uid uid \<Longrightarrow> \<not> 90000 \<le> uid mod 100000"
  by (auto simp: app_uid_def)

text \<open>
  The module does not look at who sent a report: a datagram that names a child of the zygote
  which has not dropped its privileges announces it under the user id of the datagram, and the
  change to its own user id is then not announced.
\<close>

theorem report_is_not_checked:
  assumes "zo_slot_of pid s = Some i" "zo_st (zo_children s ! i) = ZO_FORKED" "app_uid forged" "yz_sock s"
  shows "sent (snd (my_task_fix_setuid 0 pid 0 own_uid
           (tamisu_zygote_nl_recv beyond (emit_event YZ_EV_REPORT_SPECIALIZE pid forged) s))) =
      sent s @ [(YZ_EV_SPECIALIZE, pid, forged mod 100000)]"
proof -
  have r: "tamisu_zygote_nl_recv beyond (emit_event YZ_EV_REPORT_SPECIALIZE pid forged) s = zo_specialize pid forged s"
    unfolding report_read using assms(3) by (simp add: tamisu_zygote_orch_on_userspace_report_def app_uidD)
  show ?thesis unfolding r
    using specialize_fresh [OF assms(1,2)] assms(4)
    by (simp add: my_task_fix_setuid_def tamisu_zygote_orch_on_uid_change_def)
qed

lemma start_slot: "zo_slot_of 0 (zk_start sock) = Some 0" "zo_st (zo_children (zk_start sock) ! 0) = ZO_FORKED"
  by (simp_all add: zo_slot_of_def zk_start_def no_child_def ZO_MAX_CHILDREN_def numeral_eq_Suc)

lemma demo_fork:
  defines "s \<equiv> zo_on_fork True 7 7 (zk_start True)"
  shows "zo_slot_of 7 s = Some 0" "zo_st (zo_children s ! 0) = ZO_FORKED" "sent s = []" "yz_sock s"
proof -
  have n: "zo_slot_of 7 (zk_start True) = None"
    by (auto simp: zo_slot_of_def slot_of_None zk_start_def no_child_def ZO_MAX_CHILDREN_def)
  have f: "zo_children s = (replicate 512 no_child)[0 := \<lparr>zo_pid = 7, zo_uid = - 1, zo_st = ZO_FORKED\<rparr>]"
    unfolding s_def using n start_slot by (simp add: zo_on_fork_def zo_track_def zk_start_def ZO_MAX_CHILDREN_def)
  show "zo_slot_of 7 s = Some 0" unfolding zo_slot_of_def f by (rule slot_of_index) simp_all
  show "zo_st (zo_children s ! 0) = ZO_FORKED" unfolding f by simp
  show "sent s = []" "yz_sock s" unfolding s_def by (simp_all add: zo_on_fork_def zk_start_def)
qed

theorem report_is_not_checked_witness:
  "sent (snd (my_task_fix_setuid 0 7 0 10200
     (tamisu_zygote_nl_recv [] (emit_event YZ_EV_REPORT_SPECIALIZE 7 10100) (zo_on_fork True 7 7 (zk_start True))))) =
     [(YZ_EV_SPECIALIZE, 7, 10100)]"
  using report_is_not_checked [OF demo_fork(1,2), of 10100 10200 "[]"] demo_fork(3,4) by (simp add: app_uid_def)

text \<open>A report for the process id zero finds a free entry of the table, which counts as forked.\<close>

lemma report_for_free_entry:
  assumes "app_uid uid"
  shows "sent (tamisu_zygote_nl_recv beyond (emit_event YZ_EV_REPORT_SPECIALIZE 0 uid) (zk_start True)) = [(YZ_EV_SPECIALIZE, 0, uid mod 100000)]"
proof -
  have "tamisu_zygote_nl_recv beyond (emit_event YZ_EV_REPORT_SPECIALIZE 0 uid) (zk_start True) = zo_specialize 0 uid (zk_start True)"
    unfolding report_read using assms by (simp add: tamisu_zygote_orch_on_userspace_report_def app_uidD)
  then show ?thesis using specialize_fresh(1) [OF start_slot] by (simp add: zk_start_def)
qed

section \<open>Delivered to the right process\<close>

text \<open>A second hand-over for a process queues the task work of its slot once more while it is queued.\<close>

lemma handoff_again:
  assumes "yz_slot_of (h_pid c) (yz_slots s) = Some i" "unat (h_n_fds c) \<le> YZ_MAX_MODULE_FDS" "h_n_fds c = 0" "(h_pid c, i) \<in> set (works s)"
  shows "\<not> distinct (works (snd (tamisu_zygote_ctl_handoff fdt True True c s)))"
  using assms by (simp add: tamisu_zygote_ctl_handoff_def Let_def handoff_slot_def)

text \<open>
  Runs in which a process is handed files only when none of its works is queued, and is freed after
  its works ran; the set is what was handed over.
\<close>

inductive zk_proper :: "bool \<Rightarrow> zk \<Rightarrow> (u32 \<times> kfile) set \<Rightarrow> bool" for sock where
  start: "zk_proper sock (zk_start sock) {}"
| fork: "zk_proper sock s H \<Longrightarrow> zk_proper sock (zk_do (Fork z p t) s) H"
| set_uid: "zk_proper sock s H \<Longrightarrow> zk_proper sock (zk_do (SetUid r p old new) s) H"
| datagram: "zk_proper sock s H \<Longrightarrow> zk_proper sock (zk_do (Datagram b k) s) H"
| free: "zk_proper sock s H \<Longrightarrow> p \<notin> fst ` set (works s) \<Longrightarrow> zk_proper sock (zk_do (Free p t) s) H"
| handoff: "zk_proper sock s H \<Longrightarrow> h_pid c \<noteq> 0 \<Longrightarrow> h_pid c \<notin> fst ` set (works s) \<Longrightarrow>
    zk_proper sock (zk_do (Handoff fdt t q c) s)
      (H \<union> Pair (h_pid c) ` set (fst (fget_all fdt (take (unat (h_n_fds c)) (h_fds c)))))"
| deliver: "zk_proper sock s H \<Longrightarrow> (p, i) \<in> set (works s) \<Longrightarrow> zk_proper sock (zk_do (Deliver p i x f) s) H"

definition owned :: "(u32 \<times> kfile) set \<Rightarrow> yz_pending \<Rightarrow> bool" where
  "owned H y \<longleftrightarrow> Pair (yp_pid y) ` set (yp_files y) \<subseteq> H"

definition proper_inv :: "zk \<Rightarrow> (u32 \<times> kfile) set \<Rightarrow> bool" where
  "proper_inv s H \<longleftrightarrow> ctl_inv s \<and> distinct (map fst (works s)) \<and>
     (\<forall>(p, i)\<in>set (works s). p \<noteq> 0 \<and> yp_pid (yz_slots s ! i) = p) \<and>
     list_all (owned H) (yz_slots s) \<and> set (given s) \<subseteq> H"

lemma owned_blank [simp]: "owned H no_pending"
  by (simp add: owned_def)

lemma owned_mono: "list_all (owned H) xs \<Longrightarrow> H \<subseteq> H' \<Longrightarrow> list_all (owned H') xs"
  by (auto simp: list_all_iff owned_def)

lemma proper_inv_cong:
  "yz_slots s' = yz_slots s \<Longrightarrow> works s' = works s \<Longrightarrow> held s' = held s \<Longrightarrow> given s' = given s \<Longrightarrow>
     proper_inv s' H = proper_inv s H"
  using ctl_inv_cong [of s' s] by (simp add: proper_inv_def)

lemma proper_works:
  assumes "proper_inv s H" "(p, i) \<in> set (works s)"
  shows "i < length (yz_slots s)" "p \<noteq> 0" "yp_pid (yz_slots s ! i) = p"
  using assms by (auto simp: proper_inv_def ctl_inv_def list_all_iff)

lemma proper_clear:
  assumes "proper_inv s H" "i < length (yz_slots s)" "\<And>p. (p, i) \<notin> set ws" "set ws \<subseteq> set (works s)" "distinct (map fst ws)"
    "yz_slots s' = (yz_slots s)[i := no_pending]" "works s' = ws" "ctl_inv s'" "set (given s') \<subseteq> H"
  shows "proper_inv s' H"
proof -
  have "yp_pid (yz_slots s' ! j) = p \<and> p \<noteq> 0" if "(p, j) \<in> set ws" for p j
  proof -
    have "j \<noteq> i" using that assms(3) by blast
    moreover have "(p, j) \<in> set (works s)" using that assms(4) by blast
    ultimately show ?thesis using proper_works [OF assms(1)] assms(6) by simp
  qed
  then show ?thesis using assms by (auto simp: proper_inv_def list_all_update)
qed

lemma proper_handoff:
  assumes inv: "proper_inv s H" and c: "h_pid c \<noteq> 0" "h_pid c \<notin> fst ` set (works s)"
  shows "proper_inv (snd (tamisu_zygote_ctl_handoff fdt t q c s))
      (H \<union> Pair (h_pid c) ` set (fst (fget_all fdt (take (unat (h_n_fds c)) (h_fds c)))))" (is "proper_inv ?s ?H")
proof -
  have ctl: "ctl_inv ?s" using inv by (intro handoff_inv) (simp add: proper_inv_def)
  obtain files ok where g: "fget_all fdt (take (unat (h_n_fds c)) (h_fds c)) = (files, ok)" by force
  let ?slot = "handoff_slot (h_pid c) (yz_slots s)"
  show ?thesis
  proof (cases "unat (h_n_fds c) > YZ_MAX_MODULE_FDS \<or> \<not> ok \<or> ?slot = None")
    case True
    then have "yz_slots ?s = yz_slots s" "works ?s = works s" "given ?s = given s"
      using g by (auto simp: tamisu_zygote_ctl_handoff_def Let_def split: option.splits)
    with ctl inv show ?thesis by (auto simp: proper_inv_def intro: owned_mono)
  next
    case False
    then obtain i where i: "?slot = Some i" by auto
    let ?p = "\<lparr>yp_pid = h_pid c, yp_appid = h_appid c, yp_flags = h_flags c, yp_files = files\<rparr>"
    have s: "yz_slots ?s = (yz_slots s)[i := ?p]" "works ?s = (if t \<and> q then works s @ [(h_pid c, i)] else works s)" "given ?s = given s"
      using False g i by (auto simp: tamisu_zygote_ctl_handoff_def Let_def)
    have l: "i < length (yz_slots s)" by (rule yz.claim_index [OF i])
    have ne: "j \<noteq> i" if "(p, j) \<in> set (works s)" for p j
    proof
      assume "j = i"
      then have "p = h_pid c \<or> p = 0" using proper_works [OF inv that] yz.claim_index(2) [OF i] by simp
      then show False using proper_works [OF inv that] c that by force
    qed
    have w: "yp_pid (yz_slots ?s ! j) = p \<and> p \<noteq> 0" if "(p, j) \<in> set (works ?s)" for p j
      using that proper_works [OF inv, of p j] ne [of p j] s(1,2) l c by (auto split: if_splits)
    have "list_all (owned ?H) (yz_slots ?s)"
      unfolding s(1) using inv g by (intro list_all_update) (auto simp: proper_inv_def owned_def intro: owned_mono)
    moreover have "distinct (map fst (works ?s))" using s(2) c(2) inv by (auto simp: proper_inv_def)
    ultimately show ?thesis using ctl w s(3) inv by (auto simp: proper_inv_def)
  qed
qed

lemma distinct_map_remove1: "distinct (map f xs) \<Longrightarrow> distinct (map f (remove1 x xs))"
  by (induction xs) (auto dest: set_remove1_subset [THEN subsetD])

lemma proper_deliver:
  assumes inv: "proper_inv s H" and w: "(p, i) \<in> set (works s)"
  shows "proper_inv (zk_do (Deliver p i x f) s) H"
proof (rule proper_clear [OF inv proper_works(1) [OF inv w], where ws = "remove1 (p, i) (works s)"])
  let ?s = "zk_do (Deliver p i x f) s"
  have d: "distinct (works s)" "distinct (map fst (works s))" using inv by (auto simp: proper_inv_def distinct_map)
  show "(q, i) \<notin> set (remove1 (p, i) (works s))" for q
  proof
    assume "(q, i) \<in> set (remove1 (p, i) (works s))"
    then have "(q, i) \<in> set (works s)" "(q, i) \<noteq> (p, i)" using d(1) by auto
    then show False using proper_works [OF inv] w by blast
  qed
  show "set (remove1 (p, i) (works s)) \<subseteq> set (works s)" by (rule set_remove1_subset)
  show "distinct (map fst (remove1 (p, i) (works s)))" using d(2) by (simp add: distinct_map_remove1)
  show "yz_slots ?s = (yz_slots s)[i := no_pending]" "works ?s = remove1 (p, i) (works s)"
    by (simp_all add: zk_do_def yz_deliver_cb_def Let_def)
  show "ctl_inv ?s" using inv w by (intro zk_do_inv) (auto simp: proper_inv_def)
  have "owned H (yz_slots s ! i)" using inv proper_works(1) [OF inv w] by (auto simp: proper_inv_def list_all_length)
  then show "set (given ?s) \<subseteq> H"
    using inv proper_works(3) [OF inv w]
    by (auto simp: zk_do_def yz_deliver_cb_def Let_def owned_def proper_inv_def)
qed

lemma proper_free:
  assumes inv: "proper_inv s H" and w: "p \<notin> fst ` set (works s)"
  shows "proper_inv (zk_do (Free p t) s) H"
proof -
  let ?s = "zk_do (Free p t) s"
  have "ctl_inv ?s" using inv by (intro zk_do_inv) (simp_all add: proper_inv_def)
  moreover have "given ?s = given s" "works ?s = works s"
    by (auto simp: zk_do_def zo_on_free_def split: option.splits)
  moreover have "yz_slots ?s = yz_slots s \<or> (\<exists>i. yz_slot_of p (yz_slots s) = Some i \<and> yz_slots ?s = (yz_slots s)[i := no_pending])"
    by (auto simp: zk_do_def zo_on_free_def tamisu_zygote_ctl_release_def split: option.splits)
  moreover have "proper_inv ?s H" if i: "yz_slot_of p (yz_slots s) = Some i" "yz_slots ?s = (yz_slots s)[i := no_pending]" for i
  proof (rule proper_clear [OF inv _ _ order.refl _ i(2)])
    have l: "i < length (yz_slots s)" "yp_pid (yz_slots s ! i) = p" using slot_of_Some i(1) by (fastforce simp: yz_slot_of_def)+
    show "i < length (yz_slots s)" by (fact l)
    show "(q, i) \<notin> set (works s)" for q
    proof
      assume "(q, i) \<in> set (works s)"
      then have "q = p" using proper_works [OF inv] l by blast
      with \<open>(q, i) \<in> set (works s)\<close> w show False by force
    qed
  qed (use inv calculation in \<open>auto simp: proper_inv_def\<close>)
  ultimately show ?thesis using inv by (auto simp: proper_inv_def)
qed

lemma proper_reach: "zk_proper sock s H \<Longrightarrow> proper_inv s H"
proof (induction rule: zk_proper.induct)
  case start
  have "ctl_inv (zk_start sock)" by (rule zk_reach_inv [OF zk_reach.start])
  then show ?case by (simp add: proper_inv_def zk_start_def list_all_iff)
next
  case (fork s H z p t)
  then show ?case using proper_inv_cong [of "zk_do (Fork z p t) s" s H] by (simp add: zk_do_def zo_on_fork_def)
next
  case (set_uid s H r p old new)
  then show ?case using proper_inv_cong [of "zk_do (SetUid r p old new) s" s H]
    by (simp add: zk_do_def my_task_fix_setuid_def tamisu_zygote_orch_on_uid_change_def)
next
  case (datagram s H b k)
  then show ?case using proper_inv_cong [of "zk_do (Datagram b k) s" s H]
    by (simp add: zk_do_def tamisu_zygote_nl_recv_def Let_def tamisu_zygote_orch_on_userspace_report_def)
next
  case (free s H p t)
  then show ?case using proper_free by blast
next
  case (handoff s H c fdt t q)
  then show ?case using proper_handoff by (simp add: zk_do_def)
next
  case (deliver s H p i x f)
  then show ?case using proper_deliver by blast
qed

text \<open>
  When a process is handed files only while nothing is queued for it, every file a process
  receives was handed over for that process.
\<close>

theorem files_reach_their_process:
  assumes "zk_proper sock s H"
  shows "set (given s) \<subseteq> H"
  using proper_reach [OF assms] by (simp add: proper_inv_def)

definition demo_handoff :: handoff_cmd where
  "demo_handoff = \<lparr>h_pid = 7, h_appid = 10123, h_flags = 0, h_n_fds = 2, h_fds = [3, 4]\<rparr>"

definition demo_fds :: "int \<Rightarrow> kfile option" where
  "demo_fds fd = (if fd = 3 then Some 30 else if fd = 4 then Some 40 else None)"

lemma demo_get: "fget_all demo_fds [3, 4] = ([30, 40], True)"
  by (simp add: demo_fds_def)

lemma demo_handed:
  defines "s \<equiv> zk_do (Handoff demo_fds True True demo_handoff) (zk_start True)"
  shows "works s = [(7, 0)]" "yp_files (yz_slots s ! 0) = [30, 40]" "length (yz_slots s) = 64"
    "zk_reach True s" "zk_proper True s {(7, 30), (7, 40)}"
proof -
  have sl: "handoff_slot 7 (replicate YZ_MAX_PENDING no_pending) = Some 0"
    by (auto simp: handoff_slot_def yz_slot_of_def slot_of_None YZ_MAX_PENDING_def no_pending_def numeral_eq_Suc split: option.splits)
  have e: "tamisu_zygote_ctl_handoff demo_fds True True demo_handoff (zk_start True) =
     (0, (zk_start True)\<lparr>held := {#30, 40#},
        yz_slots := (replicate YZ_MAX_PENDING no_pending)[0 := \<lparr>yp_pid = 7, yp_appid = 10123, yp_flags = 0, yp_files = [30, 40]\<rparr>],
        works := [(7, 0)]\<rparr>)"
    using sl demo_get
    by (simp add: tamisu_zygote_ctl_handoff_def Let_def demo_handoff_def zk_start_def YZ_MAX_MODULE_FDS_def fput_all_def YZ_MAX_PENDING_def)
  show "works s = [(7, 0)]" "yp_files (yz_slots s ! 0) = [30, 40]" "length (yz_slots s) = 64"
    unfolding s_def by (simp_all add: zk_do_def e YZ_MAX_PENDING_def)
  show "zk_reach True s" unfolding s_def by (rule zk_reach.step [OF zk_reach.start]) simp
  have "zk_proper True s ({} \<union> Pair (h_pid demo_handoff) ` set (fst (fget_all demo_fds (take (unat (h_n_fds demo_handoff)) (h_fds demo_handoff)))))"
    unfolding s_def by (rule zk_proper.handoff [OF zk_proper.start]) (simp_all add: demo_handoff_def zk_start_def)
  then show "zk_proper True s {(7, 30), (7, 40)}" using demo_get by (simp add: demo_handoff_def insert_commute)
qed

theorem files_reach_their_process_witness:
  defines "s \<equiv> zk_do (Deliver 7 0 False (\<lambda>_. True)) (zk_do (Handoff demo_fds True True demo_handoff) (zk_start True))"
  shows "given s = [(7, 30), (7, 40)] \<and> set (given s) \<subseteq> {(7, 30), (7, 40)}"
proof
  let ?s = "zk_do (Handoff demo_fds True True demo_handoff) (zk_start True)"
  have "given ?s = []" by (simp add: zk_do_def) (simp add: zk_start_def)
  then show "given s = [(7, 30), (7, 40)]"
    unfolding s_def using demo_handed(2) by (simp add: zk_do_def yz_deliver_cb_def Let_def)
  have "zk_proper True s {(7, 30), (7, 40)}"
    unfolding s_def by (rule zk_proper.deliver [OF demo_handed(5)]) (simp add: demo_handed(1))
  from files_reach_their_process [OF this] show "set (given s) \<subseteq> {(7, 30), (7, 40)}" .
qed

theorem handoff_references_balanced_witness:
  "held (zk_do (Handoff demo_fds True True demo_handoff) (zk_start True)) =
     mset (concat (map yp_files (yz_slots (zk_do (Handoff demo_fds True True demo_handoff) (zk_start True)))))"
  using handoff_references_balanced [OF demo_handed(4)] by blast

section \<open>From the kernel to the daemon\<close>

lemma sent_types:
  "zk_reach sock s \<Longrightarrow> list_all (\<lambda>ev. fst ev = 1) (sent s)"
proof (induction rule: zk_reach.induct)
  case (step s e)
  have sp: "list_all (\<lambda>ev. fst ev = 1) (sent (zo_specialize p u s))" for p u
    using step.IH by (auto simp: zo_specialize_def YZ_EV_SPECIALIZE_def split: option.splits)
  show ?case
    using step.IH sp
    by (cases e) (simp_all add: zk_do_def zo_on_fork_def zo_on_free_def my_task_fix_setuid_def tamisu_zygote_orch_on_uid_change_def
        tamisu_zygote_nl_recv_def Let_def tamisu_zygote_orch_on_userspace_report_def split: option.splits)
qed (simp add: zk_start_def)

lemma tagged: "list_all (\<lambda>ev. fst ev = t) l \<Longrightarrow> map (Pair t) (map snd l) = l"
  by (induction l) auto

text \<open>
  What the kernel announces over any run is what zygiskd records: it counts one injection per
  announcement and keeps the applications announced last, most recent first.
\<close>

theorem announcements_recorded:
  assumes "zk_reach True s" "length (sent s) \<le> 146"
  shows "nl_drain ub st (concat (map (\<lambda>(t, p, a). emit_event t p a) (sent s))) z =
     Ret (z\<lparr>g_inject_count := g_inject_count z + of_nat (length (sent s)),
            g_recent := fold touch_appid (map (snd \<circ> snd) (sent s)) (g_recent z)\<rparr>)"
proof -
  have e: "sent s = map (Pair 1) (map snd (sent s))"
    using tagged [OF sent_types [OF assms(1)]] by simp
  show ?thesis
    unfolding drain_frames [OF assms(2)] by (subst e) (simp add: on_specializations del: map_map, simp)
qed

theorem announcements_recorded_witness:
  "nl_drain (\<lambda>_. 0) (zd_os []) (emit_event 1 7 10123) zd_start = Ret (zd_start\<lparr>g_inject_count := 1, g_recent := [10123]\<rparr>)"
proof -
  let ?s = "zk_do (SetUid 0 7 0 10123) (zk_do (Fork True 7 7) (zk_start True))"
  have "sent ?s = [(1, 7, 10123)]"
    using specialize_fresh(1) [OF demo_fork(1,2), of 10123] demo_fork(3,4)
    by (simp add: zk_do_def my_task_fix_setuid_def tamisu_zygote_orch_on_uid_change_def YZ_EV_SPECIALIZE_def)
  moreover have "zk_reach True ?s" by (intro zk_reach.step zk_reach.start) simp_all
  ultimately show ?thesis
    using announcements_recorded [of ?s "\<lambda>_. 0" "zd_os []" zd_start]
    by (simp add: touch_appid_def pop_over_def kRecentMax_def zd_start_def)
qed

end
