(* ===== verification/Zygote_Probe.thy ===== *)
theory Zygote_Probe
  imports Slots Kernel_Feature
begin

text \<open>
  What \<^verbatim>\<open>core/tamisu_zygote_probe.c\<close> decides before it injects: which program is a target, the
  arguments of a zygote, the guard that counts the restarts of a zygote, and the bookkeeping of
  the policy additions made for a native target.
\<close>

section \<open>State\<close>

record zp_zygote_guard =
  zg_name :: string
  zg_last_pid :: u32
  zg_crashes :: u32

datatype target_type = TARGET_NAME | TARGET_PATH

record zp = probe +
  zp_guards :: "zp_zygote_guard list"
  zp_safemode_active :: bool
  zp_safemode_zygote_crashes :: u32
  zp_safemode_zygote :: string
  zp_dlopen_off :: u64
  zp_dlsym_off :: u64
  zp_zygisk_linker_enabled :: bool
  zp_native_targets :: "(target_type \<times> string) list"
  zp_sent :: "(u32 \<times> u32) list"

definition ZP_ZYGOTE_GUARD_MAX :: nat where "ZP_ZYGOTE_GUARD_MAX = 4"
definition YZ_ZYGOTE_NAME_MAX :: nat where "YZ_ZYGOTE_NAME_MAX = 64"
definition YZ_ZYGOTE_CRASH_THRESHOLD :: u32 where "YZ_ZYGOTE_CRASH_THRESHOLD = 5"
definition YZ_NATIVE_TARGET_MAX :: nat where "YZ_NATIVE_TARGET_MAX = 64"
definition YZ_NATIVE_TARGET_VALUE_MAX :: nat where "YZ_NATIVE_TARGET_VALUE_MAX = 256"

definition no_guard :: zp_zygote_guard where
  "no_guard = \<lparr>zg_name = [], zg_last_pid = 0, zg_crashes = 0\<rparr>"

definition zp_start :: zp where
  "zp_start = \<lparr>zygisk_enabled = False, zp_guards = replicate ZP_ZYGOTE_GUARD_MAX no_guard, zp_safemode_active = False,
     zp_safemode_zygote_crashes = 0, zp_safemode_zygote = [], zp_dlopen_off = 0, zp_dlsym_off = 0,
     zp_zygisk_linker_enabled = False, zp_native_targets = [], zp_sent = []\<rparr>"

definition tamisu_zygote_probe_set_dlopen_off :: "u64 \<Rightarrow> u64 \<Rightarrow> zp \<Rightarrow> zp" where
  "tamisu_zygote_probe_set_dlopen_off dlopen_off dlsym_off s = s\<lparr>zp_dlopen_off := dlopen_off, zp_dlsym_off := dlsym_off\<rparr>"

definition tamisu_zygote_probe_set_zygisk_linker :: "bool \<Rightarrow> zp \<Rightarrow> zp" where
  "tamisu_zygote_probe_set_zygisk_linker enabled s = s\<lparr>zp_zygisk_linker_enabled := enabled\<rparr>"

section \<open>Names\<close>

definition zp_basename :: "string \<Rightarrow> string" where
  "zp_basename path = rev (takeWhile (\<lambda>c. c \<noteq> CHR ''/'') (rev path))"

definition zp_is_app_process_path :: "string option \<Rightarrow> bool" where
  "zp_is_app_process_path filename =
     (case filename of None \<Rightarrow> False | Some f \<Rightarrow> prefix ''app_process'' (zp_basename f))"

text \<open>At most \<^verbatim>\<open>dst_len - 1\<close> characters, up to the first NUL.\<close>

definition zp_copy_name :: "nat \<Rightarrow> string \<Rightarrow> string" where
  "zp_copy_name dst_len src = take (dst_len - 1) (c_str src)"

section \<open>Native targets\<close>

text \<open>An entry of the command: its type byte and its value array.\<close>

definition native_target :: "nat \<times> string \<Rightarrow> (target_type \<times> string) option" where
  "native_target t =
     (case t of (ty, val) \<Rightarrow>
        if ty \<noteq> 1 \<and> ty \<noteq> 2 then None
        else if c_str val = [] then None
        else Some (if ty = 1 then TARGET_NAME else TARGET_PATH, take (YZ_NATIVE_TARGET_VALUE_MAX - 1) (c_str val)))"

definition tamisu_zygote_probe_set_native_targets :: "u32 \<Rightarrow> (nat \<times> string) list \<Rightarrow> zp \<Rightarrow> zp" where
  "tamisu_zygote_probe_set_native_targets cnt targets s =
     s\<lparr>zp_native_targets := List.map_filter native_target (take (min (unat cnt) YZ_NATIVE_TARGET_MAX) targets)\<rparr>"

definition target_matches :: "string \<Rightarrow> target_type \<times> string \<Rightarrow> bool" where
  "target_matches filename t =
     (case fst t of TARGET_NAME \<Rightarrow> zp_basename filename = snd t | TARGET_PATH \<Rightarrow> filename = snd t)"

text \<open>The label of the first target that matches.\<close>

definition zp_match_native_target :: "string option \<Rightarrow> zp \<Rightarrow> string option" where
  "zp_match_native_target filename s =
     (case filename of
        None \<Rightarrow> None
      | Some f \<Rightarrow> map_option (\<lambda>t. zp_copy_name 64 (snd t)) (List.find (target_matches f) (zp_native_targets s)))"

section \<open>The arguments of a zygote\<close>

text \<open>
  The argument area of the process, from \<^verbatim>\<open>arg_start\<close> to \<^verbatim>\<open>arg_end\<close>; \<open>None\<close> is a byte that
  cannot be read.
\<close>

type_synonym umem = "char option list"

text \<open>The loop that copies; \<open>n\<close> is the room left, \<open>c\<close> the last character read.\<close>

fun read_arg :: "nat \<Rightarrow> umem \<Rightarrow> string \<Rightarrow> char \<Rightarrow> (string \<times> char \<times> umem) option" where
  "read_arg 0 m arg c = Some (arg, c, m)"
| "read_arg (Suc n) [] arg c = Some (arg, c, [])"
| "read_arg (Suc n) (None # m) arg c = None"
| "read_arg (Suc n) (Some ch # m) arg c = (if ch = NUL then Some (arg, ch, m) else read_arg n m (arg @ [ch]) ch)"

text \<open>The loop that skips the rest of an argument that was cut.\<close>

fun skip_arg :: "char \<Rightarrow> umem \<Rightarrow> umem option" where
  "skip_arg c [] = Some []"
| "skip_arg c (x # m) = (if c = NUL then Some (x # m) else case x of None \<Rightarrow> None | Some ch \<Rightarrow> skip_arg ch m)"

definition zp_next_arg :: "nat \<Rightarrow> umem \<Rightarrow> (string \<times> umem) option" where
  "zp_next_arg arg_len m =
     (if m = [] then None
      else (case read_arg (arg_len - 1) m [] NUL of
              None \<Rightarrow> None
            | Some (arg, c, m') \<Rightarrow> map_option (Pair arg) (skip_arg c m')))"

definition socket_prefix :: string where "socket_prefix = ''--socket-name=''"

text \<open>At most \<open>n\<close> more arguments.\<close>

fun zygote_args_loop :: "nat \<Rightarrow> umem \<Rightarrow> bool \<Rightarrow> string \<Rightarrow> (bool \<times> string) option" where
  "zygote_args_loop 0 m found socket_name = Some (found, socket_name)"
| "zygote_args_loop (Suc n) m found socket_name =
     (if m = [] then Some (found, socket_name)
      else (case zp_next_arg 96 m of
              None \<Rightarrow> None
            | Some (arg, m') \<Rightarrow>
                if arg = ''-Xzygote'' then zygote_args_loop n m' True socket_name
                else if prefix socket_prefix arg
                then zygote_args_loop n m' found (zp_copy_name 64 (drop (length socket_prefix) arg))
                else zygote_args_loop n m' found socket_name))"

text \<open>The socket name of a zygote, \<open>None\<close> when the process is none.\<close>

definition zp_parse_zygote_args :: "umem \<Rightarrow> string option" where
  "zp_parse_zygote_args m =
     (case zygote_args_loop 64 m False [] of
        Some (True, socket_name) \<Rightarrow> Some (if socket_name = [] then ''zygote'' else socket_name)
      | _ \<Rightarrow> None)"

section \<open>The guard\<close>

definition zp_safemode_is_active :: "zp \<Rightarrow> bool" where
  "zp_safemode_is_active s = zp_safemode_active s"

definition zp_zygote_guard_slot :: "string \<Rightarrow> zp_zygote_guard list \<Rightarrow> nat option" where
  "zp_zygote_guard_slot name gs =
     (case slot_of zg_name name gs of Some i \<Rightarrow> Some i | None \<Rightarrow> slot_of zg_name [] gs)"

definition guard_name :: "string \<Rightarrow> string" where
  "guard_name name = zp_copy_name YZ_ZYGOTE_NAME_MAX (if c_str name \<noteq> [] then name else ''zygote'')"

definition zp_zygote_safemode_should_skip :: "string \<Rightarrow> u32 \<Rightarrow> zp \<Rightarrow> bool \<times> zp" where
  "zp_zygote_safemode_should_skip name pid s =
     (let zygote = guard_name name in
      if zp_safemode_active s then (True, s)
      else (case zp_zygote_guard_slot zygote (zp_guards s) of
              None \<Rightarrow> (False, s)
            | Some i \<Rightarrow>
                (let guard = (zp_guards s ! i)\<lparr>zg_name := zygote\<rparr> in
                 if zg_last_pid guard = 0
                 then (False, s\<lparr>zp_guards := (zp_guards s)[i := guard\<lparr>zg_last_pid := pid\<rparr>]\<rparr>)
                 else if zg_last_pid guard \<noteq> pid
                 then (let crashes = zg_crashes guard + 1;
                           s1 = s\<lparr>zp_guards := (zp_guards s)[i := guard\<lparr>zg_last_pid := pid, zg_crashes := crashes\<rparr>]\<rparr>
                       in if crashes \<ge> YZ_ZYGOTE_CRASH_THRESHOLD
                          then (True, s1\<lparr>zp_safemode_active := True, zp_safemode_zygote_crashes := crashes,
                                       zp_safemode_zygote := zp_copy_name YZ_ZYGOTE_NAME_MAX zygote,
                                       zp_sent := zp_sent s @ [(pid, crashes)]\<rparr>)
                          else (False, s1))
                 else (False, s\<lparr>zp_guards := (zp_guards s)[i := guard]\<rparr>))))"

definition tamisu_zygote_probe_get_safemode :: "zp \<Rightarrow> u32 \<times> u32 \<times> string" where
  "tamisu_zygote_probe_get_safemode s =
     (if zp_safemode_active s then 1 else 0, zp_safemode_zygote_crashes s,
      zp_copy_name YZ_ZYGOTE_NAME_MAX (zp_safemode_zygote s))"

section \<open>The hook after an exec\<close>

datatype inject_kind = INJECT_ZYGOTE | INJECT_NATIVE string

text \<open>The task work the hook queues, if any; \<open>alloc_ok\<close> is the allocation and the queueing of it.\<close>

definition my_bprm_committed_creds :: "bool \<Rightarrow> string option \<Rightarrow> zp \<Rightarrow> inject_kind option" where
  "my_bprm_committed_creds alloc_ok filename s =
     (if \<not> zygisk_enabled s then None
      else if zp_safemode_is_active s then None
      else
        (let by_path = zp_is_app_process_path filename;
             by_native = (if by_path then None else zp_match_native_target filename s)
         in if (by_path \<or> by_native \<noteq> None) \<and> alloc_ok
            then Some (case by_native of Some label \<Rightarrow> INJECT_NATIVE (zp_copy_name 64 label) | None \<Rightarrow> INJECT_ZYGOTE)
            else None))"

section \<open>Policy additions for native targets\<close>

record file_load_policy =
  fl_src :: u32
  fl_tgt :: u32
  fl_tmpfs :: u32
  fl_class :: u16
  fl_added :: u32
  fl_tmpfs_added :: u32

definition no_additions :: file_load_policy where
  "no_additions = \<lparr>fl_src = 0, fl_tgt = 0, fl_tmpfs = 0, fl_class = 0, fl_added = 0, fl_tmpfs_added = 0\<rparr>"

definition zp_native_policy_has_additions :: "file_load_policy \<Rightarrow> bool" where
  "zp_native_policy_has_additions p \<longleftrightarrow> fl_added p \<noteq> 0 \<or> fl_tmpfs_added p \<noteq> 0"

record zp_entry =
  ze_id :: nat
  ze_tgid :: u32
  ze_state :: file_load_policy

text \<open>
  \<open>pend\<close> is the list under the mutex, \<open>todo\<close> the entries a thread took out of it and has not
  finished, \<open>unarmed\<close> the entries whose publisher has not started their timer, \<open>timers\<close> the
  timers that run, \<open>freed\<close> the entries given back; \<open>bad\<close> is a timer started on such an entry.
\<close>

record np =
  pend :: "zp_entry list"
  todo :: "zp_entry list"
  unarmed :: "nat list"
  timers :: "nat list"
  freed :: "nat list"
  restored :: "file_load_policy list"
  published :: "file_load_policy list"
  next_id :: nat
  bad :: bool

definition np_start :: np where
  "np_start = \<lparr>pend = [], todo = [], unarmed = [], timers = [], freed = [], restored = [], published = [], next_id = 0, bad = False\<rparr>"

definition of_tgid :: "u32 \<Rightarrow> zp_entry \<Rightarrow> bool" where "of_tgid tgid e \<longleftrightarrow> ze_tgid e = tgid"

text \<open>\<^verbatim>\<open>zp_publish_native_policy_state\<close> up to the end of its critical section.\<close>

definition publish_insert :: "bool \<Rightarrow> u32 \<Rightarrow> file_load_policy \<Rightarrow> np \<Rightarrow> np" where
  "publish_insert alloc_ok tgid p s =
     (if \<not> zp_native_policy_has_additions p then s
      else if \<not> alloc_ok then s\<lparr>published := published s @ [p], restored := restored s @ [p]\<rparr>
      else s\<lparr>published := published s @ [p],
             pend := filter (\<lambda>e. \<not> of_tgid tgid e) (pend s) @ [\<lparr>ze_id = next_id s, ze_tgid = tgid, ze_state = p\<rparr>],
             todo := todo s @ filter (of_tgid tgid) (pend s),
             unarmed := unarmed s @ [next_id s], next_id := Suc (next_id s)\<rparr>)"

text \<open>\<^verbatim>\<open>schedule_delayed_work\<close>, after it.\<close>

definition publish_schedule :: "nat \<Rightarrow> np \<Rightarrow> np" where
  "publish_schedule i s =
     (if i \<in> set (freed s) then s\<lparr>unarmed := remove1 i (unarmed s), bad := True\<rparr>
      else s\<lparr>unarmed := remove1 i (unarmed s), timers := timers s @ [i]\<rparr>)"

text \<open>One turn of the loops that cancel the timer of an entry, undo its additions and free it.\<close>

definition finish_entry :: "zp_entry \<Rightarrow> np \<Rightarrow> np" where
  "finish_entry e s =
     s\<lparr>todo := remove1 e (todo s), timers := removeAll (ze_id e) (timers s),
       restored := restored s @ [ze_state e], freed := freed s @ [ze_id e]\<rparr>"

text \<open>\<^verbatim>\<open>tamisu_zygote_probe_restore_native_policy\<close> up to the end of its critical section.\<close>

definition restore_take :: "u32 \<Rightarrow> np \<Rightarrow> int \<times> np" where
  "restore_take tgid s =
     (if sint tgid \<le> 0 then (- K_EINVAL, s)
      else (0, s\<lparr>pend := filter (\<lambda>e. \<not> of_tgid tgid e) (pend s), todo := todo s @ filter (of_tgid tgid) (pend s)\<rparr>))"

definition zp_native_policy_timeout :: "nat \<Rightarrow> np \<Rightarrow> np" where
  "zp_native_policy_timeout i s =
     (case List.find (\<lambda>e. ze_id e = i) (pend s) of
        None \<Rightarrow> s\<lparr>timers := remove1 i (timers s)\<rparr>
      | Some e \<Rightarrow> s\<lparr>timers := remove1 i (timers s), pend := remove1 e (pend s),
                     restored := restored s @ [ze_state e], freed := freed s @ [i]\<rparr>)"

inductive np_reach :: "np \<Rightarrow> bool" where
  start: "np_reach np_start"
| publish: "np_reach s \<Longrightarrow> np_reach (publish_insert alloc_ok tgid p s)"
| schedule: "np_reach s \<Longrightarrow> i \<in> set (unarmed s) \<Longrightarrow> np_reach (publish_schedule i s)"
| finish: "np_reach s \<Longrightarrow> e \<in> set (todo s) \<Longrightarrow> np_reach (finish_entry e s)"
| restore: "np_reach s \<Longrightarrow> np_reach (snd (restore_take tgid s))"
| timeout: "np_reach s \<Longrightarrow> i \<in> set (timers s) \<Longrightarrow> np_reach (zp_native_policy_timeout i s)"

end
