(* ===== verification/Zygote_Inject.thy ===== *)
theory Zygote_Inject
  imports Zygote_Probe
begin

text \<open>
  The injection itself, \<^verbatim>\<open>zp_inject_tw_func\<close> of \<^verbatim>\<open>core/tamisu_zygote_probe.c\<close>, on arm64: find the
  AT_ENTRY word on the stack of the process, stage the payload files, write the stub and let
  AT_ENTRY point to it.

  User memory is a map from addresses to eight-byte words.  What the kernel answers (whether a
  file opens, a mapping is made, a copy succeeds) is in the records \<open>stage\<close> and \<open>answers\<close>.
\<close>

section \<open>State\<close>

type_synonym words = "u64 \<Rightarrow> u64 option"

datatype policy_act = PAllow file_load_policy | PRestore file_load_policy

record tgt =
  tg_mem :: words
  tg_fds :: "int list"
  tg_maps :: "u64 list"
  tg_policy :: file_load_policy
  tg_acts :: "policy_act list"
  tg_published :: "file_load_policy option"

record stage =
  st_open :: int
  st_reg :: bool
  st_size :: int
  st_alloc :: bool
  st_read :: int
  st_allow :: file_load_policy
  st_shmem :: int
  st_write :: int
  st_fd :: int

definition I_ENOENT :: int where "I_ENOENT = 2"
definition I_EIO :: int where "I_EIO = 5"
definition I_ENOMEM :: int where "I_ENOMEM = 12"
definition I_EINVAL :: int where "I_EINVAL = 22"
definition ZP_LOADER_MAX_SZ :: int where "ZP_LOADER_MAX_SZ = 8 * 2 ^ 20"

section \<open>Staging a payload\<close>

definition zp_restore_native_policy_state :: "tgt \<Rightarrow> tgt" where
  "zp_restore_native_policy_state t =
     (if \<not> zp_native_policy_has_additions (tg_policy t) then t
      else t\<lparr>tg_acts := tg_acts t @ [PRestore (tg_policy t)], tg_policy := no_additions\<rparr>)"

text \<open>\<open>st_allow\<close> is the state \<^verbatim>\<open>tamisu_file_load_policy_allow_current\<close> leaves, cleared when it fails.\<close>

definition allow_current :: "bool \<Rightarrow> stage \<Rightarrow> tgt \<Rightarrow> tgt" where
  "allow_current native g t =
     (if native then t\<lparr>tg_policy := st_allow g, tg_acts := tg_acts t @ [PAllow (st_allow g)]\<rparr> else t)"

definition restore_if :: "bool \<Rightarrow> tgt \<Rightarrow> tgt" where
  "restore_if native t = (if native then zp_restore_native_policy_state t else t)"

definition zp_stage_fd :: "bool \<Rightarrow> stage \<Rightarrow> tgt \<Rightarrow> int \<times> tgt" where
  "zp_stage_fd native g t =
     (if st_open g \<noteq> 0 then (- I_ENOENT, t)
      else if \<not> st_reg g then (- I_EINVAL, t)
      else if st_size g \<le> 0 \<or> st_size g > ZP_LOADER_MAX_SZ then (- I_EINVAL, t)
      else if \<not> st_alloc g then (- I_ENOMEM, t)
      else if st_read g \<noteq> st_size g then (if st_read g < 0 then st_read g else - I_EIO, t)
      else
        (let t1 = allow_current native g t in
         if st_shmem g < 0 then (st_shmem g, restore_if native t1)
         else if st_write g \<noteq> st_size g then (if st_write g < 0 then st_write g else - I_EIO, restore_if native t1)
         else if st_fd g < 0 then (st_fd g, restore_if native t1)
         else (st_fd g, t1\<lparr>tg_fds := tg_fds t1 @ [st_fd g]\<rparr>)))"

definition zp_stage_file_fd :: "bool \<Rightarrow> stage \<Rightarrow> tgt \<Rightarrow> int \<times> tgt" where
  "zp_stage_file_fd native g t =
     (if st_open g \<noteq> 0 then (st_open g, t)
      else if \<not> st_reg g then (- I_EINVAL, t)
      else if st_size g \<le> 0 \<or> st_size g > ZP_LOADER_MAX_SZ then (- I_EINVAL, t)
      else
        (let t1 = allow_current native g t in
         if st_fd g < 0 then (st_fd g, restore_if native t1)
         else (st_fd g, t1\<lparr>tg_fds := tg_fds t1 @ [st_fd g]\<rparr>)))"

definition zp_close_current_fd :: "int \<Rightarrow> tgt \<Rightarrow> tgt" where
  "zp_close_current_fd fd t = t\<lparr>tg_fds := remove1 fd (tg_fds t)\<rparr>"

section \<open>The auxiliary vector\<close>

definition AT_NULL :: u64 where "AT_NULL = 0"
definition AT_BASE :: u64 where "AT_BASE = 7"
definition AT_ENTRY :: u64 where "AT_ENTRY = 9"

text \<open>The copy the kernel keeps: the entry point and the base of the loader.\<close>

fun scan_saved_auxv :: "(u64 \<times> u64) list \<Rightarrow> u64 \<times> u64 \<Rightarrow> u64 \<times> u64" where
  "scan_saved_auxv [] (saved, at_base) = (saved, at_base)"
| "scan_saved_auxv ((t, v) # rest) (saved, at_base) =
     (if t = AT_NULL then (saved, at_base)
      else scan_saved_auxv rest
        (if t = AT_ENTRY then (v, at_base) else if t = AT_BASE then (saved, v) else (saved, at_base)))"

text \<open>
  The loops over the stack: \<open>None\<close> when one does not end, \<open>Some None\<close> when a word cannot be
  read.
\<close>

partial_function (option) skip_envp :: "words \<Rightarrow> u64 \<Rightarrow> u64 option option" where
  [code]: "skip_envp m p =
     (case m p of None \<Rightarrow> Some None | Some word \<Rightarrow> if word = 0 then Some (Some (p + 8)) else skip_envp m (p + 8))"

text \<open>The address and the value of AT_ENTRY, zero for both when there is none.\<close>

partial_function (option) walk_auxv :: "words \<Rightarrow> u64 \<Rightarrow> (u64 \<times> u64) option option" where
  [code]: "walk_auxv m p =
     (case (m p, m (p + 8)) of
        (Some word, Some val) \<Rightarrow>
          if word = AT_NULL then Some (Some (0, 0))
          else if word = AT_ENTRY then Some (Some (p + 8, val))
          else walk_auxv m (p + 16)
      | _ \<Rightarrow> Some None)"

definition find_at_entry :: "words \<Rightarrow> u64 \<Rightarrow> (u64 \<times> u64) option option" where
  "find_at_entry m sp =
     (case m sp of
        None \<Rightarrow> Some None
      | Some word \<Rightarrow>
          (case skip_envp m (sp + 8 + (scast (ucast word + 1 :: u32) :: u64) * 8) of
             None \<Rightarrow> None
           | Some None \<Rightarrow> Some None
           | Some (Some p) \<Rightarrow> walk_auxv m p))"

section \<open>The stub\<close>

unbundle bit_operations_syntax

text \<open>The immediates of four instructions.\<close>

definition patch_imm :: "u64 \<Rightarrow> nat \<Rightarrow> u32 \<Rightarrow> u32" where
  "patch_imm v i insn = (insn AND NOT (push_bit 5 0xffff)) OR push_bit 5 (ucast (drop_bit (16 * i) v AND 0xffff))"

definition zp_patch_imm64 :: "nat \<Rightarrow> u64 \<Rightarrow> u32 list \<Rightarrow> u32 list" where
  "zp_patch_imm64 at v code =
     code[at := patch_imm v 0 (code ! at), at + 1 := patch_imm v 1 (code ! (at + 1)),
          at + 2 := patch_imm v 2 (code ! (at + 2)), at + 3 := patch_imm v 3 (code ! (at + 3))]"

definition stub_template :: "u32 list" where
  "stub_template =
    [0x10000013, 0xd10103ff, 0xd2800014, 0xf2a00014, 0xf2c00014,
     0xf2e00014, 0xd2800015, 0xf2a00015, 0xf2c00015, 0xf2e00015,
     0xd2800017, 0xf2a00017, 0xf2c00017, 0xf2e00017, 0xf90003f3,
     0xf90007f4, 0xf9000bf7, 0xf9000fe0, 0x5289c430, 0x72aa4830,
     0xb9080270, 0x91300260, 0xd2800041, 0x91280262, 0xaa1403e3,
     0xd63f02a0, 0xf94003f3, 0xf9040660, 0xf90013e0, 0xb94a1e60,
     0xd2800728, 0xd4000001, 0xf94003f3, 0xf94013e0, 0xb40000c0,
     0x91340261, 0xf94007e2, 0xf9400bf7, 0xd63f02e0, 0xb50000a0,
     0xd2800000, 0xd2800728, 0xd4000001, 0x14000004, 0xaa0003f9,
     0xd2800000, 0xd63f0320, 0xf9400fe0, 0xf94007f4, 0x910103ff,
     0xaa1403f0, 0xd61f0200]"

definition fd_insn :: "int \<Rightarrow> u32" where
  "fd_insn fd = 0xd2800000 OR push_bit 5 ((of_int fd :: u32) AND 0xffff)"

definition stub_code :: "u64 \<Rightarrow> u64 \<Rightarrow> u64 \<Rightarrow> int \<Rightarrow> u32 list" where
  "stub_code saved dlopen_addr dlsym_addr fd =
     (zp_patch_imm64 10 dlsym_addr (zp_patch_imm64 6 dlopen_addr (zp_patch_imm64 2 saved stub_template)))
       [40 := fd_insn fd, 45 := fd_insn fd]"

record stub =
  sb_code :: "u32 list"
  sb_flags :: u64
  sb_library_fd :: int
  sb_lib :: string
  sb_entry :: string

definition make_stub :: "bool \<Rightarrow> bool \<Rightarrow> u64 \<Rightarrow> u64 \<Rightarrow> u64 \<Rightarrow> int \<Rightarrow> int \<Rightarrow> stub" where
  "make_stub native use_linker saved dlopen_addr dlsym_addr loader_fd core_fd =
     \<lparr>sb_code = stub_code saved dlopen_addr dlsym_addr (if use_linker then core_fd else - 1),
      sb_flags = 0x10 OR (if native then 0x40 else 0), sb_library_fd = loader_fd,
      sb_lib = (if use_linker then ''libzygisk_linker.so'' else if native then ''libzygisk_zncore.so'' else ''libzygisk.so''),
      sb_entry = (if use_linker then ''zygisk_bootstrap'' else ''zygisk_core_entry_direct'')\<rparr>"

section \<open>The injection\<close>

record answers =
  an_loader :: stage
  an_core :: stage
  an_mmap :: "u64 option"
  an_copy :: bool
  an_put :: bool

text \<open>Give back what was staged.\<close>

definition drop_staged :: "bool \<Rightarrow> int \<Rightarrow> int \<Rightarrow> tgt \<Rightarrow> tgt" where
  "drop_staged use_linker loader_fd core_fd t =
     zp_restore_native_policy_state
       (if use_linker then zp_close_current_fd core_fd (zp_close_current_fd loader_fd t)
        else zp_close_current_fd loader_fd t)"

definition redirect :: "answers \<Rightarrow> bool \<Rightarrow> zp \<Rightarrow> u64 \<Rightarrow> u64 \<Rightarrow> u64 \<Rightarrow> tgt \<Rightarrow> stub option \<times> tgt" where
  "redirect a native s saved at_base at_entry t =
     (if at_base = 0 \<or> zp_dlopen_off s = 0 \<or> zp_dlsym_off s = 0 then (None, t)
      else
        (let use_linker = native \<or> zp_zygisk_linker_enabled s in
         case (if use_linker then zp_stage_fd native (an_loader a) t
               else if native then zp_stage_file_fd native (an_core a) t
               else zp_stage_fd False (an_core a) t) of
           (loader_fd, t1) \<Rightarrow>
             if loader_fd < 0 then (None, t1)
             else
               (case (if use_linker then zp_stage_fd False (an_core a) t1 else (loader_fd, t1)) of
                  (core_fd, t2) \<Rightarrow>
                    if use_linker \<and> core_fd < 0
                    then (None, zp_restore_native_policy_state (zp_close_current_fd loader_fd t2))
                    else
                      (case an_mmap a of
                         None \<Rightarrow> (None, drop_staged use_linker loader_fd core_fd t2)
                       | Some page \<Rightarrow>
                           (let t3 = t2\<lparr>tg_maps := tg_maps t2 @ [page]\<rparr>;
                                undo = (\<lambda>t. drop_staged use_linker loader_fd core_fd (t\<lparr>tg_maps := remove1 page (tg_maps t)\<rparr>))
                            in if \<not> an_copy a then (None, undo t3)
                               else if \<not> an_put a then (None, undo t3)
                               else
                                 (Some (make_stub native use_linker saved (at_base + zp_dlopen_off s) (at_base + zp_dlsym_off s)
                                          loader_fd core_fd),
                                  t3\<lparr>tg_mem := (tg_mem t3)(at_entry \<mapsto> page),
                                     tg_published := (if native \<and> zp_native_policy_has_additions (tg_policy t3) then Some (tg_policy t3)
                                                      else tg_published t3)\<rparr>))))))"

text \<open>Whether the work goes on, and the guard after it was asked.\<close>

definition inject_wanted :: "inject_kind \<Rightarrow> u32 \<Rightarrow> umem \<Rightarrow> zp \<Rightarrow> bool \<times> zp" where
  "inject_wanted kind pid args s =
     (case kind of
        INJECT_NATIVE label \<Rightarrow> (\<not> zp_safemode_is_active s, s)
      | INJECT_ZYGOTE \<Rightarrow>
          (case zp_parse_zygote_args args of
             None \<Rightarrow> (False, s)
           | Some socket_name \<Rightarrow>
               (case zp_zygote_safemode_should_skip socket_name pid s of (skip, s1) \<Rightarrow> (\<not> skip, s1))))"

text \<open>
  The task work, for a 64-bit process: \<open>args\<close> is its argument area, \<open>auxv\<close> the saved vector,
  \<open>sp\<close> the stack pointer.  \<open>None\<close> when a loop over the stack does not end.
\<close>

definition zp_inject_tw_func ::
  "answers \<Rightarrow> inject_kind \<Rightarrow> u32 \<Rightarrow> umem \<Rightarrow> (u64 \<times> u64) list \<Rightarrow> u64 \<Rightarrow> zp \<Rightarrow> tgt \<Rightarrow> (stub option \<times> zp \<times> tgt) option"
where
  "zp_inject_tw_func a kind pid args auxv sp s t =
     (case inject_wanted kind pid args s of
        (go, s1) \<Rightarrow>
          if \<not> go then Some (None, s1, t)
          else
            (case scan_saved_auxv auxv (0, 0) of
               (saved, at_base) \<Rightarrow>
                 (case find_at_entry (tg_mem t) sp of
                    None \<Rightarrow> None
                  | Some None \<Rightarrow> Some (None, s1, t)
                  | Some (Some (at_entry, val)) \<Rightarrow>
                      if zygisk_enabled s1 \<and> at_entry \<noteq> 0 \<and> val = saved \<and> saved \<noteq> 0
                      then (case redirect a (kind \<noteq> INJECT_ZYGOTE) s1 saved at_base at_entry t of
                              (r, t1) \<Rightarrow> Some (r, s1, t1))
                      else Some (None, s1, t))))"

end
