(* ===== verification/Zygote_Probe_Props.thy ===== *)
theory Zygote_Probe_Props
  imports Zygote_Probe "HOL-Library.Multiset"
begin

text \<open>
  What the decisions of the injector mean: the arguments of a zygote are read as they were laid
  out, five restarts of one zygote turn the safe mode on for good, and every policy addition is
  undone exactly once.
\<close>

section \<open>Arguments\<close>

definition arg_bytes :: "string \<Rightarrow> umem" where
  "arg_bytes a = map Some a @ [Some NUL]"

definition arg_ok :: "string \<Rightarrow> bool" where
  "arg_ok a \<longleftrightarrow> NUL \<notin> set a \<and> length a < 95"

lemma read_arg_ok: "NUL \<notin> set a \<Longrightarrow> length a < n \<Longrightarrow> read_arg n (arg_bytes a @ m) pre c = Some (pre @ a, NUL, m)"
proof (induction a arbitrary: n pre c)
  case Nil
  then obtain k where "n = Suc k" by (cases n) auto
  then show ?case by (simp add: arg_bytes_def)
next
  case (Cons x a)
  then obtain k where k: "n = Suc k" "length a < k" by (cases n) auto
  then show ?case using Cons.IH [of k "pre @ [x]" x] Cons.prems by (auto simp: arg_bytes_def)
qed

lemma next_arg_ok: "arg_ok a \<Longrightarrow> zp_next_arg 96 (arg_bytes a @ m) = Some (a, m)"
proof -
  assume a: "arg_ok a"
  have "skip_arg NUL m = Some m" by (cases m) simp_all
  moreover have "arg_bytes a @ m \<noteq> []" by (simp add: arg_bytes_def)
  ultimately show ?thesis using read_arg_ok [of a 95 m "[]" NUL] a by (simp add: zp_next_arg_def arg_ok_def)
qed

definition socket_of :: "string \<Rightarrow> string list \<Rightarrow> string" where
  "socket_of old args =
     (case filter (prefix socket_prefix) args of
        [] \<Rightarrow> old
      | l \<Rightarrow> zp_copy_name 64 (drop (length socket_prefix) (last l)))"

lemma not_both: "prefix socket_prefix a \<Longrightarrow> a \<noteq> ''-Xzygote''"
  by (auto simp: socket_prefix_def)

lemma arg_bytes_not_Nil [simp]: "arg_bytes a \<noteq> []"
  by (simp add: arg_bytes_def)

lemma args_loop_ok:
  "list_all arg_ok args \<Longrightarrow> length args \<le> n \<Longrightarrow>
     zygote_args_loop n (concat (map arg_bytes args)) found sock =
       Some (found \<or> ''-Xzygote'' \<in> set args, socket_of sock args)"
proof (induction args arbitrary: n found sock)
  case Nil
  then show ?case by (cases n) (simp_all add: socket_of_def)
next
  case (Cons a args)
  then obtain k where k: "n = Suc k" "length args \<le> k" by (cases n) auto
  have ne: "arg_bytes a @ concat (map arg_bytes args) \<noteq> []" by (simp add: arg_bytes_def)
  have na: "zp_next_arg 96 (arg_bytes a @ concat (map arg_bytes args)) = Some (a, concat (map arg_bytes args))"
    using Cons.prems by (intro next_arg_ok) simp
  have so: "socket_of (zp_copy_name 64 (drop (length socket_prefix) a)) args = socket_of sock (a # args)" if "prefix socket_prefix a"
    using that by (cases "filter (prefix socket_prefix) args") (simp_all add: socket_of_def)
  have so': "socket_of sock args = socket_of sock (a # args)" if "\<not> prefix socket_prefix a"
    using that by (simp add: socket_of_def)
  show ?case
    using Cons.IH [OF _ k(2)] Cons.prems(1) so so' not_both [of a]
    by (cases "prefix socket_prefix a") (auto simp: k(1) ne na)
qed

text \<open>
  From the argument area of a process (at most 64 arguments of at most 94 characters) the
  parser takes a process for a zygote exactly when an argument is -Xzygote, and its socket name
  from the last argument that gives one, cut to 63 characters, or zygote.
\<close>

theorem zygote_args_read:
  assumes "list_all arg_ok args" "length args \<le> 64"
  shows "zp_parse_zygote_args (concat (map arg_bytes args)) =
     (if ''-Xzygote'' \<in> set args
      then Some (if socket_of [] args = [] then ''zygote'' else socket_of [] args) else None)"
  using args_loop_ok [OF assms, of False "[]"] by (simp add: zp_parse_zygote_args_def)

theorem zygote_args_read_witness:
  "zp_parse_zygote_args (concat (map arg_bytes [''app_process64'', ''-Xzygote'', ''--socket-name=zygote64''])) = Some ''zygote64''"
  using zygote_args_read [of "[''app_process64'', ''-Xzygote'', ''--socket-name=zygote64'']"]
  by (simp add: arg_ok_def socket_of_def socket_prefix_def zp_copy_name_def c_str_def)

section \<open>Targets\<close>

lemma find_target: "List.find P xs \<noteq> None \<longleftrightarrow> (\<exists>x\<in>set xs. P x)"
  by (auto simp: find_None_iff)

text \<open>
  After a list of native targets is set, a program is a native target exactly when its name or
  its path is the value of one of the first 64 entries that is of a known kind.
\<close>

theorem native_targets_matched:
  assumes "cnt \<le> 64"
  shows "zp_match_native_target (Some f) (tamisu_zygote_probe_set_native_targets cnt targets s) \<noteq> None \<longleftrightarrow>
     (\<exists>(ty, val)\<in>set (take (unat cnt) targets). c_str val \<noteq> [] \<and>
        (ty = 1 \<and> take 255 (c_str val) = zp_basename f \<or> ty = 2 \<and> take 255 (c_str val) = f))"
proof -
  have c: "min (unat cnt) YZ_NATIVE_TARGET_MAX = unat cnt"
    using assms by (simp add: YZ_NATIVE_TARGET_MAX_def word_le_nat_alt)
  have "zp_match_native_target (Some f) (tamisu_zygote_probe_set_native_targets cnt targets s) \<noteq> None \<longleftrightarrow>
     (\<exists>t\<in>set (List.map_filter native_target (take (unat cnt) targets)). target_matches f t)"
    unfolding zp_match_native_target_def tamisu_zygote_probe_set_native_targets_def c
    using find_target [of "target_matches f"] by simp
  also have "\<dots> \<longleftrightarrow> (\<exists>x\<in>set (take (unat cnt) targets). \<exists>t. native_target x = Some t \<and> target_matches f t)"
    by (force simp: List.map_filter_def)
  also have "\<dots> \<longleftrightarrow> (\<exists>(ty, val)\<in>set (take (unat cnt) targets). c_str val \<noteq> [] \<and>
        (ty = 1 \<and> take 255 (c_str val) = zp_basename f \<or> ty = 2 \<and> take 255 (c_str val) = f))"
    by (intro bex_cong refl) (auto simp: native_target_def target_matches_def YZ_NATIVE_TARGET_VALUE_MAX_def split: if_splits)
  finally show ?thesis .
qed

theorem native_targets_matched_witness:
  "zp_match_native_target (Some ''/system/bin/surfaceflinger'')
     (tamisu_zygote_probe_set_native_targets 1 [(1, ''surfaceflinger'')] zp_start) \<noteq> None"
  using native_targets_matched [of 1 "''/system/bin/surfaceflinger''" "[(1, ''surfaceflinger'')]" zp_start]
  by (simp add: zp_basename_def c_str_def)

section \<open>The guard\<close>

interpretation guards: slot_table zg_name "[]" zp_zygote_guard_slot
  by unfold_locales (simp add: zp_zygote_guard_slot_def)

text \<open>What the starts of a zygote are answered, one after the other.\<close>

fun starts :: "string \<Rightarrow> u32 list \<Rightarrow> zp \<Rightarrow> bool list \<times> zp" where
  "starts name [] s = ([], s)"
| "starts name (pid # pids) s =
     (case zp_zygote_safemode_should_skip name pid s of
        (skip, s1) \<Rightarrow> (case starts name pids s1 of (rs, s2) \<Rightarrow> (skip # rs, s2)))"

fun restarts :: "u32 \<Rightarrow> u32 list \<Rightarrow> bool" where
  "restarts p [] = True"
| "restarts p (q # qs) = (q \<noteq> p \<and> q \<noteq> 0 \<and> restarts q qs)"

lemma guard_name_not_Nil: "guard_name name \<noteq> []"
  by (auto simp: guard_name_def zp_copy_name_def YZ_ZYGOTE_NAME_MAX_def c_str_def)

lemma active_skips: "zp_safemode_active s \<Longrightarrow> starts name pids s = (replicate (length pids) True, s)"
  by (induction pids) (simp_all add: zp_zygote_safemode_should_skip_def Let_def)

definition guarded :: "string \<Rightarrow> u32 \<Rightarrow> u32 \<Rightarrow> zp \<Rightarrow> bool" where
  "guarded name p n s \<longleftrightarrow> \<not> zp_safemode_active s \<and>
     (\<exists>i. slot_of zg_name (guard_name name) (zp_guards s) = Some i \<and>
        zg_last_pid (zp_guards s ! i) = p \<and> zg_crashes (zp_guards s ! i) = n)"

lemma slot_of_claimed:
  assumes "slot_of key k xs = Some i" "key y = k"
  shows "slot_of key k (xs[i := y]) = Some i"
  using slot_of_Some [OF assms(1)] assms(2) by (intro slot_of_index) auto

lemma restart_step:
  assumes "guarded name p n s" "p \<noteq> 0" "q \<noteq> p" "n < 4"
  shows "\<exists>s'. zp_zygote_safemode_should_skip name q s = (False, s') \<and> guarded name q (n + 1) s'"
proof -
  obtain i where i: "slot_of zg_name (guard_name name) (zp_guards s) = Some i"
    "zg_last_pid (zp_guards s ! i) = p" "zg_crashes (zp_guards s ! i) = n" "\<not> zp_safemode_active s"
    using assms(1) by (auto simp: guarded_def)
  note l = slot_of_Some [OF i(1)]
  let ?g = "(zp_guards s ! i)\<lparr>zg_name := guard_name name, zg_last_pid := q, zg_crashes := n + 1\<rparr>"
  have m: "\<not> n + 1 \<ge> YZ_ZYGOTE_CRASH_THRESHOLD"
    using assms(4) unfolding YZ_ZYGOTE_CRASH_THRESHOLD_def by unat_arith
  have "zp_zygote_safemode_should_skip name q s = (False, s\<lparr>zp_guards := (zp_guards s)[i := ?g]\<rparr>)"
    using i assms m by (simp add: zp_zygote_safemode_should_skip_def Let_def zp_zygote_guard_slot_def)
  moreover have "guarded name q (n + 1) (s\<lparr>zp_guards := (zp_guards s)[i := ?g]\<rparr>)"
    using slot_of_claimed [OF i(1), of ?g] l i(4) by (simp add: guarded_def)
  ultimately show ?thesis by blast
qed

lemma last_restart:
  assumes "guarded name p 4 s" "p \<noteq> 0" "q \<noteq> p"
  shows "\<exists>s'. zp_zygote_safemode_should_skip name q s = (True, s') \<and> zp_safemode_active s'"
  using assms by (auto simp: guarded_def zp_zygote_safemode_should_skip_def Let_def zp_zygote_guard_slot_def YZ_ZYGOTE_CRASH_THRESHOLD_def)

lemma restarts_counted:
  assumes "guarded name p (of_nat k) s" "k \<le> 4" "p \<noteq> 0" "restarts p pids"
  shows "fst (starts name pids s) = map (\<lambda>i. k + i \<ge> 4) [0..<length pids] \<and>
    (zp_safemode_active (snd (starts name pids s)) \<longleftrightarrow> k + length pids \<ge> 5)"
  using assms
proof (induction pids arbitrary: p k s)
  case Nil
  then show ?case by (simp add: guarded_def)
next
  case (Cons q pids)
  show ?case
  proof (cases "k = 4")
    case True
    then obtain s' where "zp_zygote_safemode_should_skip name q s = (True, s')" "zp_safemode_active s'"
      using last_restart [of name p s q] Cons.prems by auto
    then show ?thesis using active_skips [of s' name pids] True
      by (simp add: map_replicate_trivial [symmetric] map_upt_Suc) (simp add: map_replicate_const replicate_append_same)
  next
    case False
    then have k: "k < 4" using Cons.prems(2) by simp
    then have "(of_nat k :: u32) < 4" by (simp add: word_less_nat_alt unat_of_nat)
    then obtain s' where s': "zp_zygote_safemode_should_skip name q s = (False, s')" "guarded name q (of_nat (Suc k)) s'"
      using restart_step [OF Cons.prems(1,3), of q] Cons.prems(4) by (auto simp: add.commute)
    from Cons.IH [OF s'(2)] k Cons.prems(4) show ?thesis
      using s'(1) by (simp add: case_prod_beta map_upt_Suc del: upt_Suc)
  qed
qed

lemma first_start:
  assumes "\<not> zp_safemode_active s" "guard_name name \<notin> zg_name ` set (zp_guards s)" "no_guard \<in> set (zp_guards s)" 
    "list_all (\<lambda>g. zg_name g = [] \<longrightarrow> g = no_guard) (zp_guards s)"
  shows "\<exists>s'. zp_zygote_safemode_should_skip name p s = (False, s') \<and> guarded name p 0 s'"
proof -
  have n: "slot_of zg_name (guard_name name) (zp_guards s) = None" using assms(2) by (simp add: slot_of_None)
  obtain i where i: "slot_of zg_name [] (zp_guards s) = Some i"
    using assms(3) slot_of_None [of zg_name "[]" "zp_guards s"]
    by (cases "slot_of zg_name [] (zp_guards s)") (force simp: no_guard_def)+
  note l = slot_of_Some [OF i]
  then have g: "zp_guards s ! i = no_guard" using assms(4) by (simp add: list_all_length)
  let ?g = "no_guard\<lparr>zg_name := guard_name name, zg_last_pid := p\<rparr>"
  have e: "zp_zygote_safemode_should_skip name p s = (False, s\<lparr>zp_guards := (zp_guards s)[i := ?g]\<rparr>)"
    using assms(1) n i g by (simp add: zp_zygote_safemode_should_skip_def Let_def zp_zygote_guard_slot_def no_guard_def)
  have "slot_of zg_name (guard_name name) ((zp_guards s)[i := ?g]) = Some i"
  proof (rule slot_of_index)
    show "\<forall>j<i. zg_name ((zp_guards s)[i := ?g] ! j) \<noteq> guard_name name"
    proof (intro allI impI)
      fix j assume j: "j < i"
      then have "zp_guards s ! j \<in> set (zp_guards s)" using l by simp
      then show "zg_name ((zp_guards s)[i := ?g] ! j) \<noteq> guard_name name" using assms(2) j by force
    qed
  qed (use l in simp_all)
  then have "guarded name p 0 (s\<lparr>zp_guards := (zp_guards s)[i := ?g]\<rparr>)"
    using assms(1) l by (simp add: guarded_def no_guard_def)
  with e show ?thesis by blast
qed

text \<open>
  Of the successive starts of one zygote (each with a process id other than the one before) the
  first five are injected and every later one is left alone: the sixth turns the safe mode on, and
  nothing turns it off.
\<close>

theorem five_restarts_enable_safemode:
  assumes "\<not> zp_safemode_active s" "guard_name name \<notin> zg_name ` set (zp_guards s)" "no_guard \<in> set (zp_guards s)"
    "list_all (\<lambda>g. zg_name g = [] \<longrightarrow> g = no_guard) (zp_guards s)" "p \<noteq> 0" "restarts p pids"
  shows "fst (starts name (p # pids) s) = map (\<lambda>i. i \<ge> 5) [0..<length (p # pids)] \<and>
    (zp_safemode_active (snd (starts name (p # pids) s)) \<longleftrightarrow> length (p # pids) \<ge> 6)"
proof -
  obtain s' where s': "zp_zygote_safemode_should_skip name p s = (False, s')" "guarded name p (of_nat 0) s'"
    using first_start [OF assms(1-4)] by auto
  have "map (\<lambda>i. i \<ge> 5) [0..<length (p # pids)] = False # map (\<lambda>i. i \<ge> 4) [0..<length pids]"
    by (simp add: map_upt_Suc del: upt_Suc)
  then show ?thesis
    using restarts_counted [OF s'(2) _ assms(5,6)] s'(1) by (simp add: case_prod_beta del: upt_Suc)
qed

theorem five_restarts_enable_safemode_witness:
  "fst (starts ''zygote64'' [10, 11, 12, 13, 14, 15, 16] zp_start) = [False, False, False, False, False, True, True]"
proof -
  have g: "set (zp_guards zp_start) = {no_guard}" "zg_name no_guard = []" "\<not> zp_safemode_active zp_start"
    by (simp_all add: zp_start_def no_guard_def ZP_ZYGOTE_GUARD_MAX_def)
  have r: "restarts 10 [11, 12, 13, 14, 15, 16]" by simp
  have "fst (starts ''zygote64'' [10, 11, 12, 13, 14, 15, 16] zp_start) = map (\<lambda>i. i \<ge> 5) [0..<length [10 :: u32, 11, 12, 13, 14, 15, 16]]"
    using five_restarts_enable_safemode [OF g(3) _ _ _ _ r, of "''zygote64''"] guard_name_not_Nil [of "''zygote64''"] g
    by (simp add: list_all_iff del: starts.simps)
  also have "\<dots> = [False, False, False, False, False, True, True]" by (simp add: upt_rec)
  finally show ?thesis .
qed

section \<open>Additions are undone\<close>

definition entry_states :: "zp_entry list \<Rightarrow> file_load_policy multiset" where
  "entry_states es = mset (map ze_state es)"

text \<open>Entries carry different numbers, none of them that of an entry given back.\<close>

definition np_ids :: "np \<Rightarrow> bool" where
  "np_ids s \<longleftrightarrow> distinct (map ze_id (pend s @ todo s)) \<and> ze_id ` set (pend s @ todo s) \<inter> set (freed s) = {} \<and>
     ze_id ` set (pend s @ todo s) \<union> set (freed s) \<subseteq> {..<next_id s}"

definition np_armed :: "np \<Rightarrow> bool" where
  "np_armed s \<longleftrightarrow> ze_id ` set (pend s) \<subseteq> set (unarmed s) \<union> set (timers s)"

definition np_accounts :: "np \<Rightarrow> bool" where
  "np_accounts s \<longleftrightarrow> mset (published s) = entry_states (pend s) + entry_states (todo s) + mset (restored s)"

lemma entry_states_split: "entry_states (filter (\<lambda>e. \<not> P e) es) + entry_states (filter P es) = entry_states es"
  by (induction es) (auto simp: entry_states_def)

lemma entry_states_append [simp]: "entry_states (a @ b) = entry_states a + entry_states b"
  by (simp add: entry_states_def)

lemma entry_states_remove: "e \<in> set es \<Longrightarrow> entry_states es = add_mset (ze_state e) (entry_states (remove1 e es))"
  by (induction es) (auto simp: entry_states_def)

lemma distinct_remove1_map: "distinct (map f xs) \<Longrightarrow> distinct (map f (remove1 x xs))"
  by (induction xs) (auto dest: set_remove1_subset [THEN subsetD])

lemma split_ids:
  assumes "distinct (map f (p @ t))"
  shows "distinct (map f (filter (\<lambda>e. \<not> P e) p @ t @ filter P p))"
    "f ` set (filter (\<lambda>e. \<not> P e) p @ t @ filter P p) = f ` set (p @ t)"
proof -
  have "mset (filter (\<lambda>e. \<not> P e) p @ t @ filter P p) = mset (p @ t)"
    by (induction p) auto
  then have m: "mset (map f (filter (\<lambda>e. \<not> P e) p @ t @ filter P p)) = mset (map f (p @ t))" by (metis mset_map)
  show "distinct (map f (filter (\<lambda>e. \<not> P e) p @ t @ filter P p))" using mset_eq_imp_distinct_iff [OF m] assms by simp
  show "f ` set (filter (\<lambda>e. \<not> P e) p @ t @ filter P p) = f ` set (p @ t)" using mset_eq_setD [OF m] by (simp only: set_map)
qed

lemma np_ids_remove:
  assumes "np_ids s" "e \<in> set (pend s @ todo s)" "pend s' @ todo s' = remove1 e (pend s @ todo s)"
    "freed s' = freed s @ [ze_id e]" "next_id s' = next_id s"
  shows "np_ids s'"
proof -
  let ?l = "pend s @ todo s"
  have d: "distinct (map ze_id ?l)" "distinct ?l" using assms(1) by (auto simp: np_ids_def distinct_map)
  have r: "set (remove1 e ?l) = set ?l - {e}" using d(2) by (rule set_remove1_eq)
  have ne: "ze_id e \<notin> ze_id ` (set ?l - {e})"
  proof
    assume "ze_id e \<in> ze_id ` (set ?l - {e})"
    then obtain x where x: "ze_id e = ze_id x" "x \<in> set ?l - {e}" by (rule imageE)
    have "inj_on ze_id (set ?l)" using d(1) unfolding distinct_map by blast
    from inj_onD [OF this x(1) assms(2)] x(2) show False by simp
  qed
  have dr: "distinct (map ze_id (remove1 e ?l))" by (rule distinct_remove1_map [OF d(1)])
  show ?thesis unfolding np_ids_def assms(3,4,5)
  proof (intro conjI)
    show "distinct (map ze_id (remove1 e ?l))" by (fact dr)
    show "ze_id ` set (remove1 e ?l) \<inter> set (freed s @ [ze_id e]) = {}"
      unfolding r using ne assms(1) by (auto simp: np_ids_def)
    show "ze_id ` set (remove1 e ?l) \<union> set (freed s @ [ze_id e]) \<subseteq> {..<next_id s}"
      unfolding r using assms(1,2) by (auto simp: np_ids_def)
  qed
qed

lemma np_reach_ids: "np_reach s \<Longrightarrow> np_ids s"
proof (induction rule: np_reach.induct)
  case start
  show ?case by (simp add: np_ids_def np_start_def)
next
  case (publish s alloc_ok tgid p)
  let ?s = "publish_insert alloc_ok tgid p s"
  show ?case
  proof (cases "zp_native_policy_has_additions p \<and> alloc_ok")
    case True
    let ?new = "\<lparr>ze_id = next_id s, ze_tgid = tgid, ze_state = p\<rparr>"
    let ?keep = "filter (\<lambda>e. \<not> of_tgid tgid e) (pend s)" and ?old = "filter (of_tgid tgid) (pend s)"
    have f: "pend ?s = ?keep @ [?new]" "todo ?s = todo s @ ?old" "freed ?s = freed s" "next_id ?s = Suc (next_id s)"
      using True by (simp_all add: publish_insert_def)
    note sp = split_ids [of ze_id "pend s" "todo s" "of_tgid tgid"]
    have i: "distinct (map ze_id (pend s @ todo s))" using publish.IH by (simp add: np_ids_def)
    have fresh: "next_id s \<notin> ze_id ` set (pend s @ todo s)" "next_id s \<notin> set (freed s)" using publish.IH by (auto simp: np_ids_def)
    have perm: "mset (map ze_id (pend ?s @ todo ?s)) = add_mset (next_id s) (mset (map ze_id (?keep @ todo s @ ?old)))"
      unfolding f by simp
    have d: "distinct (map ze_id (pend ?s @ todo ?s))"
      unfolding mset_eq_imp_distinct_iff [OF perm [folded mset.simps(2)]] distinct.simps set_map sp(2) [OF i]
      using sp(1) [OF i] fresh(1) by simp
    have im: "ze_id ` set (pend ?s @ todo ?s) = insert (next_id s) (ze_id ` set (pend s @ todo s))"
      using mset_eq_setD [OF perm [folded mset.simps(2)]] unfolding set_map list.set sp(2) [OF i] .
    show ?thesis unfolding np_ids_def im using d fresh publish.IH f(3,4) by (auto simp: np_ids_def)
  next
    case False
    then show ?thesis using publish.IH by (auto simp: publish_insert_def np_ids_def)
  qed
next
  case (schedule s i)
  then show ?case by (simp add: np_ids_def publish_schedule_def)
next
  case (finish s e)
  have "e \<notin> set (pend s)" using finish by (auto simp: np_ids_def)
  then show ?case using finish by (intro np_ids_remove [OF finish.IH, of e]) (simp_all add: finish_entry_def remove1_append)
next
  case (restore s tgid)
  have i: "distinct (map ze_id (pend s @ todo s))" using restore.IH by (simp add: np_ids_def)
  show ?case using restore.IH split_ids [OF i, of "of_tgid tgid"] by (simp add: np_ids_def restore_take_def del: map_append set_append)
next
  case (timeout s i)
  show ?case
  proof (cases "List.find (\<lambda>e. ze_id e = i) (pend s)")
    case None
    then show ?thesis using timeout.IH by (simp add: zp_native_policy_timeout_def np_ids_def)
  next
    case (Some e)
    then have e: "e \<in> set (pend s)" "ze_id e = i" by (auto simp: find_Some_iff)
    then show ?thesis using Some
      by (intro np_ids_remove [OF timeout.IH, of e]) (simp_all add: zp_native_policy_timeout_def remove1_append)
  qed
qed

lemma np_reach_armed: "np_reach s \<Longrightarrow> np_armed s \<and> np_accounts s \<and> distinct (map ze_tgid (pend s))"
proof (induction rule: np_reach.induct)
  case start
  show ?case by (simp add: np_armed_def np_accounts_def np_start_def entry_states_def)
next
  case (publish s alloc_ok tgid p)
  have k: "distinct (map ze_tgid (filter (\<lambda>e. \<not> of_tgid tgid e) (pend s)))" using publish.IH by (simp add: distinct_map_filter)
  have n: "tgid \<notin> ze_tgid ` set (filter (\<lambda>e. \<not> of_tgid tgid e) (pend s))" by (auto simp: of_tgid_def)
  show ?case
    using publish.IH k n entry_states_split [of "of_tgid tgid" "pend s"]
    by (auto simp: publish_insert_def np_armed_def np_accounts_def entry_states_def ac_simps)
next
  case (schedule s i)
  have "i \<in> set (freed s) \<Longrightarrow> i \<notin> ze_id ` set (pend s)" using np_reach_ids [OF schedule.hyps(1)] by (auto simp: np_ids_def)
  then show ?case using schedule.IH
    by (auto simp: publish_schedule_def np_armed_def np_accounts_def) (metis in_set_remove1 subsetD UnE imageI)+
next
  case (finish s e)
  have "ze_id e \<notin> ze_id ` set (pend s)" using np_reach_ids [OF finish.hyps(1)] finish.hyps(2) by (auto simp: np_ids_def)
  then have "\<And>x. x \<in> set (pend s) \<Longrightarrow> ze_id x \<noteq> ze_id e" by (metis imageI)
  then show ?case using finish.IH entry_states_remove [OF finish.hyps(2)]
    by (auto simp: finish_entry_def np_armed_def np_accounts_def)
next
  case (restore s tgid)
  then show ?case using entry_states_split [of "of_tgid tgid" "pend s"]
    by (auto simp: restore_take_def np_armed_def np_accounts_def distinct_map_filter ac_simps)
next
  case (timeout s i)
  have d: "distinct (map ze_id (pend s))" using np_reach_ids [OF timeout.hyps(1)] by (simp add: np_ids_def)
  show ?case
  proof (cases "List.find (\<lambda>e. ze_id e = i) (pend s)")
    case None
    then have "i \<notin> ze_id ` set (pend s)" by (auto simp: find_None_iff)
    then show ?thesis using timeout.IH None
      by (auto simp: zp_native_policy_timeout_def np_armed_def np_accounts_def) (metis in_set_remove1 subsetD UnE imageI)
  next
    case (Some e)
    then have e: "e \<in> set (pend s)" "ze_id e = i" by (auto simp: find_Some_iff)
    have "ze_id ` set (remove1 e (pend s)) \<subseteq> ze_id ` set (pend s) - {i}"
      using d e by (auto simp: distinct_map set_remove1_eq inj_on_def)
    moreover have "ze_id ` set (pend s) \<subseteq> set (unarmed s) \<union> set (timers s)" using timeout.IH by (simp add: np_armed_def)
    ultimately have "ze_id ` set (remove1 e (pend s)) \<subseteq> set (unarmed s) \<union> (set (timers s) - {i})" by blast
    moreover have "set (timers s) - {i} \<subseteq> set (remove1 i (timers s))" by (metis DiffE in_set_remove1 singletonI subsetI)
    ultimately have "ze_id ` set (remove1 e (pend s)) \<subseteq> set (unarmed s) \<union> set (remove1 i (timers s))" by blast
    then show ?thesis using timeout.IH Some entry_states_remove [OF e(1)]
      by (simp add: zp_native_policy_timeout_def np_armed_def np_accounts_def distinct_remove1_map)
  qed
qed

text \<open>
  C34: in every interleaving of publishing, timers and restores each policy addition is either
  waiting in one entry of the list, being undone by one thread, or undone once; an entry that waits
  has a timer or a publisher about to start it, and a process has at most one.
\<close>

theorem additions_undone_once:
  assumes "np_reach s"
  shows "mset (published s) = mset (map ze_state (pend s)) + mset (map ze_state (todo s)) + mset (restored s) \<and>
    ze_id ` set (pend s) \<subseteq> set (unarmed s) \<union> set (timers s) \<and> distinct (map ze_tgid (pend s))"
  using np_reach_armed [OF assms] by (simp add: np_armed_def np_accounts_def entry_states_def)

definition demo_additions :: file_load_policy where
  "demo_additions = \<lparr>fl_src = 1, fl_tgt = 2, fl_tmpfs = 0, fl_class = 3, fl_added = 4, fl_tmpfs_added = 0\<rparr>"

definition demo_np :: np where
  "demo_np = snd (restore_take 9 (publish_insert True 9 demo_additions np_start))"

lemma demo_np_eq:
  "demo_np = np_start\<lparr>todo := [\<lparr>ze_id = 0, ze_tgid = 9, ze_state = demo_additions\<rparr>], unarmed := [0],
     published := [demo_additions], next_id := 1\<rparr>"
proof -
  have "\<not> sint (9 :: u32) \<le> 0" by (simp add: signed_of_nat)
  then show ?thesis
    by (simp add: demo_np_def restore_take_def publish_insert_def np_start_def demo_additions_def
        zp_native_policy_has_additions_def of_tgid_def)
qed

lemma demo_np_reach: "np_reach demo_np"
  unfolding demo_np_def by (intro np_reach.restore np_reach.publish np_reach.start)

theorem additions_undone_once_witness:
  "mset (published demo_np) = mset (map ze_state (pend demo_np)) + mset (map ze_state (todo demo_np)) + mset (restored demo_np)"
  using additions_undone_once [OF demo_np_reach] by blast

text \<open>
  A publisher can start the timer of an entry that was given back: a restore for the process
  that runs between the insertion and the start of the timer undoes the entry and frees it.
\<close>

theorem timer_started_after_free:
  "\<exists>s. np_reach s \<and> bad s \<and> restored s = published s \<and> pend s = []"
proof -
  let ?e = "\<lparr>ze_id = 0, ze_tgid = 9, ze_state = demo_additions\<rparr>"
  let ?s = "publish_schedule 0 (finish_entry ?e demo_np)"
  have "np_reach (finish_entry ?e demo_np)"
    by (rule np_reach.finish [OF demo_np_reach]) (simp add: demo_np_eq)
  then have "np_reach ?s" by (rule np_reach.schedule) (simp add: finish_entry_def demo_np_eq)
  moreover have "bad ?s \<and> restored ?s = published ?s \<and> pend ?s = []"
    by (simp add: publish_schedule_def finish_entry_def demo_np_eq np_start_def)
  ultimately show ?thesis by blast
qed

end
