(* ===== verification/Zygote_Inject_Props.thy ===== *)
theory Zygote_Inject_Props
  imports Zygote_Inject Zygote_Probe_Props
begin

text \<open>
  The stub puts the three addresses into its registers; the AT_ENTRY word of a well-formed stack
  is found; an injection redirects the process or leaves nothing behind.
\<close>

section \<open>The instructions of the stub\<close>

unbundle bit_operations_syntax

text \<open>MOVZ and MOVK of AArch64 on 64-bit registers.\<close>

definition exec_mov :: "u32 \<Rightarrow> (u32 \<Rightarrow> u64) \<Rightarrow> (u32 \<Rightarrow> u64)" where
  "exec_mov insn regs =
     (let rd = insn AND mask 5;
          sh = 16 * unat (drop_bit 21 insn AND mask 2);
          imm = ucast (drop_bit 5 insn AND mask 16) :: u64
      in if drop_bit 23 insn = 0x1a5 then regs(rd := push_bit sh imm)
         else if drop_bit 23 insn = 0x1e5 then regs(rd := (regs rd AND NOT (push_bit sh (mask 16))) OR push_bit sh imm)
         else regs)"

lemma ffff: "(0xffff :: u32) = mask 16" "(0xffff :: u64) = mask 16"
  by (simp_all add: mask_eq_exp_minus_1)

lemma patch_fields:
  "patch_imm v i insn AND mask 5 = insn AND mask 5"
  "drop_bit 21 (patch_imm v i insn) = drop_bit 21 insn"
  "drop_bit 23 (patch_imm v i insn) = drop_bit 23 insn"
  "(ucast (drop_bit 5 (patch_imm v i insn) AND mask 16) :: u64) = drop_bit (16 * i) v AND mask 16"
  unfolding patch_imm_def ffff
  subgoal by (rule bit_word_eqI) (auto simp: bit_simps)
  subgoal by (rule bit_word_eqI) (auto simp: bit_simps dest: bit_imp_le_length)
  subgoal by (rule bit_word_eqI) (auto simp: bit_simps dest: bit_imp_le_length)
  subgoal by (rule bit_word_eqI) (auto simp: bit_simps)
  done

text \<open>Four instructions that move the four parts of a register.\<close>

definition mov_wide :: "u32 \<Rightarrow> u32 list" where
  "mov_wide rd = [0xd2800000 OR rd, 0xf2a00000 OR rd, 0xf2c00000 OR rd, 0xf2e00000 OR rd]"

lemma wide_parts:
  "((((((push_bit 0 (drop_bit 0 v AND mask 16)) AND NOT (push_bit 16 (mask 16))) OR push_bit 16 (drop_bit 16 v AND mask 16))
       AND NOT (push_bit 32 (mask 16))) OR push_bit 32 (drop_bit 32 v AND mask 16))
       AND NOT (push_bit 48 (mask 16))) OR push_bit 48 (drop_bit 48 v AND mask 16) = (v :: u64)"
proof (rule bit_word_eqI)
  fix n assume "n < LENGTH(64)"
  then have "n < 64" by simp
  consider "n < 16" | "16 \<le> n" "n < 32" | "32 \<le> n" "n < 48" | "48 \<le> n" by linarith
  then show "bit (((((((push_bit 0 (drop_bit 0 v AND mask 16)) AND NOT (push_bit 16 (mask 16))) OR push_bit 16 (drop_bit 16 v AND mask 16))
       AND NOT (push_bit 32 (mask 16))) OR push_bit 32 (drop_bit 32 v AND mask 16))
       AND NOT (push_bit 48 (mask 16))) OR push_bit 48 (drop_bit 48 v AND mask 16)) n = bit v n"
    using \<open>n < 64\<close> by cases (auto simp: bit_simps)
qed

lemma wide_insns:
  assumes "rd \<in> {20, 21, 23}"
  shows "map (\<lambda>i. i AND mask 5) (mov_wide rd) = [rd, rd, rd, rd]"
    "map (drop_bit 23) (mov_wide rd) = [0x1a5, 0x1e5, 0x1e5, 0x1e5]"
    "map (\<lambda>i. unat (drop_bit 21 i AND mask 2)) (mov_wide rd) = [0, 1, 2, 3]"
  using assms by (auto simp: mov_wide_def mask_eq_exp_minus_1 drop_bit_eq_div)

lemma patched_loads:
  assumes "rd \<in> {20, 21, 23}" "mov_wide rd = [a, b, c, d]"
  shows "fold exec_mov [patch_imm v 0 a, patch_imm v 1 b, patch_imm v 2 c, patch_imm v 3 d] regs = regs(rd := v)"
proof -
  note w = wide_insns [OF assms(1), unfolded assms(2), simplified]
  show ?thesis using w wide_parts [of v]
    by (simp add: exec_mov_def Let_def patch_fields)
qed

lemma mov_templates:
  "mov_wide 20 = [0xd2800014, 0xf2a00014, 0xf2c00014, 0xf2e00014]"
  "mov_wide 21 = [0xd2800015, 0xf2a00015, 0xf2c00015, 0xf2e00015]"
  "mov_wide 23 = [0xd2800017, 0xf2a00017, 0xf2c00017, 0xf2e00017]"
  by (simp_all add: mov_wide_def)

lemma stub_head:
  "take 12 (drop 2 (stub_code saved dl ds fd)) =
     [patch_imm saved 0 0xd2800014, patch_imm saved 1 0xf2a00014, patch_imm saved 2 0xf2c00014, patch_imm saved 3 0xf2e00014,
      patch_imm dl 0 0xd2800015, patch_imm dl 1 0xf2a00015, patch_imm dl 2 0xf2c00015, patch_imm dl 3 0xf2e00015,
      patch_imm ds 0 0xd2800017, patch_imm ds 1 0xf2a00017, patch_imm ds 2 0xf2c00017, patch_imm ds 3 0xf2e00017]"
  by (simp add: stub_code_def zp_patch_imm64_def stub_template_def)

lemma stub_moves:
  "fold exec_mov (take 12 (drop 2 (stub_code saved dlopen_addr dlsym_addr fd))) regs =
     regs(20 := saved, 21 := dlopen_addr, 23 := dlsym_addr)"
  unfolding stub_head
  using patched_loads [OF _ mov_templates(1), of saved regs] patched_loads [OF _ mov_templates(2), of dlopen_addr "regs(20 := saved)"]
    patched_loads [OF _ mov_templates(3), of dlsym_addr "regs(20 := saved, 21 := dlopen_addr)"]
  by simp

text \<open>
  Whatever the three addresses are, the twelve move instructions of the stub leave the entry
  point of the program in x20, dlopen in x21 and dlsym in x23.
\<close>

theorem stub_loads_addresses:
  "fold exec_mov (take 12 (drop 2 (stub_code saved dlopen_addr dlsym_addr fd))) regs =
     regs(20 := saved, 21 := dlopen_addr, 23 := dlsym_addr)"
  by (rule stub_moves)

section \<open>The stack\<close>

primrec words_at :: "words \<Rightarrow> u64 \<Rightarrow> u64 list \<Rightarrow> bool" where
  "words_at m p [] = True"
| "words_at m p (w # ws) = (m p = Some w \<and> words_at m (p + 8) ws)"

lemma words_at_append: "words_at m p (a @ b) \<longleftrightarrow> words_at m p a \<and> words_at m (p + 8 * of_nat (length a)) b"
  by (induction a arbitrary: p) (simp_all add: algebra_simps)

lemma skip_envp_ok:
  "words_at m p (env @ [0]) \<Longrightarrow> 0 \<notin> set env \<Longrightarrow> skip_envp m p = Some (Some (p + 8 * of_nat (length env) + 8))"
proof (induction env arbitrary: p)
  case Nil
  then show ?case by (subst skip_envp.simps) simp
next
  case (Cons w env)
  then show ?case using Cons.IH [of "p + 8"] by (subst skip_envp.simps) (simp add: algebra_simps)
qed

definition aux_words :: "(u64 \<times> u64) list \<Rightarrow> u64 list" where
  "aux_words aux = concat (map (\<lambda>(t, v). [t, v]) aux)"

lemma walk_auxv_ok:
  "words_at m p (aux_words (pre @ [(AT_ENTRY, v)])) \<Longrightarrow> list_all (\<lambda>(t, v). t \<noteq> AT_NULL \<and> t \<noteq> AT_ENTRY) pre \<Longrightarrow>
     walk_auxv m p = Some (Some (p + 16 * of_nat (length pre) + 8, v))"
proof (induction pre arbitrary: p)
  case Nil
  then show ?case by (subst walk_auxv.simps) (simp add: aux_words_def AT_ENTRY_def AT_NULL_def)
next
  case (Cons e pre)
  obtain t w where e: "e = (t, w)" by force
  have "walk_auxv m (p + 16) = Some (Some (p + 16 + 16 * of_nat (length pre) + 8, v))"
    by (rule Cons.IH) (use Cons.prems e in \<open>simp_all add: aux_words_def algebra_simps\<close>)
  then show ?case using Cons.prems e
    by (subst walk_auxv.simps) (simp add: aux_words_def algebra_simps)
qed

text \<open>The stack of a process at its start: the number of arguments, the arguments, the environment, the auxiliary vector.\<close>

definition stack_words :: "u64 list \<Rightarrow> u64 list \<Rightarrow> (u64 \<times> u64) list \<Rightarrow> u64 \<Rightarrow> u64 list" where
  "stack_words argv envp pre entry =
     of_nat (length argv) # argv @ [0] @ (envp @ [0]) @ aux_words (pre @ [(AT_ENTRY, entry)])"

definition entry_word :: "u64 list \<Rightarrow> u64 list \<Rightarrow> (u64 \<times> u64) list \<Rightarrow> nat" where
  "entry_word argv envp pre = length argv + length envp + 2 * length pre + 4"

lemma argc_read:
  assumes "length argv < 2 ^ 31 - 1"
  shows "(scast (ucast (of_nat (length argv) :: u64) + 1 :: u32) :: u64) = of_nat (length argv + 1)"
proof -
  have "(ucast (of_nat (length argv) :: u64) + 1 :: u32) = of_nat (length argv + 1)"
    using assms by (simp add: unsigned_of_nat take_bit_nat_eq_self)
  moreover have "sint (of_nat (length argv + 1) :: u32) = int (length argv + 1)"
    using assms by (subst signed_of_nat) (simp add: signed_take_bit_int_eq_self)
  ultimately show ?thesis by (simp only: scast_eq of_int_of_nat_eq) 
qed

lemma find_at_entry_ok:
  assumes "words_at m sp (stack_words argv envp pre entry)" "length argv < 2 ^ 31 - 1" "0 \<notin> set envp"
    "list_all (\<lambda>(t, v). t \<noteq> AT_NULL \<and> t \<noteq> AT_ENTRY) pre"
  shows "find_at_entry m sp = Some (Some (sp + 8 * of_nat (entry_word argv envp pre), entry))"
proof -
  let ?p = "sp + 8 + of_nat (length argv + 1) * 8"
  have w: "m sp = Some (of_nat (length argv))" "words_at m ?p (envp @ [0])"
    "words_at m (?p + 8 * of_nat (length envp) + 8) (aux_words (pre @ [(AT_ENTRY, entry)]))"
    using assms(1) by (simp_all add: stack_words_def words_at_append algebra_simps)
  have "find_at_entry m sp = walk_auxv m (?p + 8 * of_nat (length envp) + 8)"
    unfolding find_at_entry_def w(1) option.case argc_read [OF assms(2)] skip_envp_ok [OF w(2) assms(3)] ..
  also have "\<dots> = Some (Some (?p + 8 * of_nat (length envp) + 8 + 16 * of_nat (length pre) + 8, entry))"
    by (rule walk_auxv_ok [OF w(3) assms(4)])
  also have "?p + 8 * of_nat (length envp) + 8 + 16 * of_nat (length pre) + 8 = sp + 8 * of_nat (entry_word argv envp pre)"
    by (simp add: entry_word_def algebra_simps)
  finally show ?thesis .
qed

section \<open>All or nothing\<close>

text \<open>The additions made were undone (or there were none).\<close>

definition undone :: "policy_act list \<Rightarrow> bool" where
  "undone acts \<longleftrightarrow> acts = [] \<or>
     (\<exists>p. acts = [PAllow p] \<and> \<not> zp_native_policy_has_additions p) \<or> (\<exists>p. acts = [PAllow p, PRestore p])"

definition idle :: "tgt \<Rightarrow> bool" where
  "idle t \<longleftrightarrow> tg_policy t = no_additions"

lemma no_additions_none [simp]: "\<not> zp_native_policy_has_additions no_additions"
  by (simp add: zp_native_policy_has_additions_def no_additions_def)

text \<open>What the process keeps: its memory, descriptors, mappings and what was published.\<close>

definition untouched :: "tgt \<Rightarrow> tgt \<Rightarrow> bool" where
  "untouched t t' \<longleftrightarrow> tg_mem t' = tg_mem t \<and> tg_fds t' = tg_fds t \<and> tg_maps t' = tg_maps t \<and>
     tg_published t' = tg_published t \<and> (\<exists>acts. tg_acts t' = tg_acts t @ acts \<and> undone acts)"

lemma untouched_refl [simp]: "untouched t t"
  by (simp add: untouched_def undone_def)

text \<open>The process after a payload was staged as \<open>fd\<close>.\<close>

definition staged :: "bool \<Rightarrow> stage \<Rightarrow> tgt \<Rightarrow> tgt" where
  "staged native g t = (let t1 = allow_current native g t in t1\<lparr>tg_fds := tg_fds t1 @ [st_fd g]\<rparr>)"

lemma restore_untouched: "idle t \<Longrightarrow> untouched t (restore_if native (allow_current native g t))"
  by (auto simp: restore_if_def allow_current_def zp_restore_native_policy_state_def untouched_def undone_def)

lemma stage_fd_cases:
  assumes "idle t"
  shows "fst (zp_stage_fd native g t) < 0 \<and> untouched t (snd (zp_stage_fd native g t)) \<or>
    zp_stage_fd native g t = (st_fd g, staged native g t) \<and> 0 \<le> st_fd g"
  using restore_untouched [OF assms, of native g]
  by (auto simp: zp_stage_fd_def Let_def staged_def I_ENOENT_def I_EINVAL_def I_ENOMEM_def I_EIO_def)

lemma stage_file_fd_cases:
  assumes "idle t" "st_open g \<le> 0"
  shows "fst (zp_stage_file_fd native g t) < 0 \<and> untouched t (snd (zp_stage_file_fd native g t)) \<or>
    zp_stage_file_fd native g t = (st_fd g, staged native g t) \<and> 0 \<le> st_fd g"
  using restore_untouched [OF assms(1), of native g] assms(2)
  by (auto simp: zp_stage_file_fd_def Let_def staged_def I_EINVAL_def)

lemma drop_staged_untouched:
  assumes "idle t" "st_fd g \<notin> set (tg_fds t)"
  shows "untouched t (zp_restore_native_policy_state (zp_close_current_fd (st_fd g) (staged native g t)))"
  using assms
  by (auto simp: zp_restore_native_policy_state_def zp_close_current_fd_def staged_def Let_def allow_current_def
      untouched_def undone_def idle_def remove1_append)

lemma stage_plain:
  "fst (zp_stage_fd False g t) < 0 \<and> snd (zp_stage_fd False g t) = t \<or>
    zp_stage_fd False g t = (st_fd g, t\<lparr>tg_fds := tg_fds t @ [st_fd g]\<rparr>) \<and> 0 \<le> st_fd g"
  by (auto simp: zp_stage_fd_def Let_def restore_if_def allow_current_def I_ENOENT_def I_EINVAL_def I_ENOMEM_def I_EIO_def)

definition fresh_answers :: "answers \<Rightarrow> tgt \<Rightarrow> bool" where
  "fresh_answers a t \<longleftrightarrow> st_fd (an_loader a) \<notin> set (tg_fds t) \<and> st_fd (an_core a) \<notin> set (tg_fds t) \<and>
     st_fd (an_loader a) \<noteq> st_fd (an_core a) \<and> (case an_mmap a of None \<Rightarrow> True | Some page \<Rightarrow> page \<notin> set (tg_maps t))"

text \<open>What a redirection leaves: the AT_ENTRY word, the page of the stub, and additions that are published.\<close>

definition redirected :: "answers \<Rightarrow> u64 \<Rightarrow> tgt \<Rightarrow> tgt \<Rightarrow> bool" where
  "redirected a at_entry t t' \<longleftrightarrow>
     (\<exists>page. an_mmap a = Some page \<and> tg_mem t' = (tg_mem t)(at_entry \<mapsto> page) \<and> tg_maps t' = tg_maps t @ [page]) \<and>
     (\<exists>acts. tg_acts t' = tg_acts t @ acts \<and>
        (acts = [] \<or> (\<exists>p. acts = [PAllow p] \<and> (zp_native_policy_has_additions p \<longrightarrow> tg_published t' = Some p))))"

lemma redirect_direct:
  assumes "idle t" "fresh_answers a t" "\<not> native" "\<not> zp_zygisk_linker_enabled s"
    "redirect a native s saved at_base at_entry t = (r, t')"
  shows "r = None \<and> untouched t t' \<or> r \<noteq> None \<and> redirected a at_entry t t'"
  using stage_plain [of "an_core a" t]
proof
  assume "fst (zp_stage_fd False (an_core a) t) < 0 \<and> snd (zp_stage_fd False (an_core a) t) = t"
  then obtain n where "zp_stage_fd False (an_core a) t = (n, t)" "n < 0" by (metis prod.collapse)
  then show ?thesis using assms(3-5) by (auto simp: redirect_def Let_def split: if_splits)
next
  assume st: "zp_stage_fd False (an_core a) t = (st_fd (an_core a), t\<lparr>tg_fds := tg_fds t @ [st_fd (an_core a)]\<rparr>) \<and> 0 \<le> st_fd (an_core a)"
  then show ?thesis
    using assms
    by (cases "an_mmap a")
      (auto simp: redirect_def Let_def drop_staged_def zp_close_current_fd_def zp_restore_native_policy_state_def idle_def
        fresh_answers_def remove1_append redirected_def untouched_def undone_def split: if_splits)
qed

lemma staged_twice:
  "staged native g t\<lparr>tg_fds := tg_fds (staged native g t) @ [fd]\<rparr> =
     (allow_current native g t)\<lparr>tg_fds := tg_fds t @ [st_fd g, fd]\<rparr>"
  by (simp add: staged_def Let_def allow_current_def)

lemma undo_staged:
  assumes "idle t" "fresh_answers a t" "t2 = (allow_current native (an_loader a) t)\<lparr>tg_fds := tg_fds t @ [st_fd (an_loader a), st_fd (an_core a)]\<rparr>"
  shows "untouched t (drop_staged True (st_fd (an_loader a)) (st_fd (an_core a)) t2)"
  using assms
  by (auto simp: drop_staged_def zp_restore_native_policy_state_def zp_close_current_fd_def allow_current_def
      untouched_def undone_def idle_def remove1_append fresh_answers_def)

lemma redirect_linker:
  assumes "idle t" "fresh_answers a t" "native \<or> zp_zygisk_linker_enabled s"
    "redirect a native s saved at_base at_entry t = (r, t')"
  shows "r = None \<and> untouched t t' \<or> r \<noteq> None \<and> redirected a at_entry t t'"
proof (cases "at_base = 0 \<or> zp_dlopen_off s = 0 \<or> zp_dlsym_off s = 0")
  case True
  then show ?thesis using assms(4) by (simp add: redirect_def)
next
  case False
  let ?g = "an_loader a" and ?c = "an_core a"
  from stage_fd_cases [OF assms(1), of native ?g] show ?thesis
  proof
    assume "fst (zp_stage_fd native ?g t) < 0 \<and> untouched t (snd (zp_stage_fd native ?g t))"
    then obtain n t1 where "zp_stage_fd native ?g t = (n, t1)" "n < 0" "untouched t t1" by (metis prod.collapse)
    then show ?thesis using assms(3,4) False by (auto simp: redirect_def Let_def split: if_splits)
  next
    assume st: "zp_stage_fd native ?g t = (st_fd ?g, staged native ?g t) \<and> 0 \<le> st_fd ?g"
    let ?t1 = "staged native ?g t"
    have fr: "st_fd ?g \<notin> set (tg_fds t)" using assms(2) by (simp add: fresh_answers_def)
    from stage_plain [of ?c ?t1] show ?thesis
    proof
      assume "fst (zp_stage_fd False ?c ?t1) < 0 \<and> snd (zp_stage_fd False ?c ?t1) = ?t1"
      then obtain n where "zp_stage_fd False ?c ?t1 = (n, ?t1)" "n < 0" by (metis prod.collapse)
      then show ?thesis using assms(3,4) False st drop_staged_untouched [OF assms(1) fr, of native]
        by (auto simp: redirect_def Let_def split: if_splits)
    next
      assume sc: "zp_stage_fd False ?c ?t1 = (st_fd ?c, ?t1\<lparr>tg_fds := tg_fds ?t1 @ [st_fd ?c]\<rparr>) \<and> 0 \<le> st_fd ?c"
      define t2 where "t2 = (allow_current native ?g t)\<lparr>tg_fds := tg_fds t @ [st_fd ?g, st_fd ?c]\<rparr>"
      note sc = sc [unfolded staged_twice, folded t2_def]
      note u = undo_staged [OF assms(1,2) t2_def]
      have m: "tg_maps t2 = tg_maps t" "tg_mem t2 = tg_mem t" "tg_acts t2 = (if native then tg_acts t @ [PAllow (st_allow ?g)] else tg_acts t)"
        "native \<Longrightarrow> tg_policy t2 = st_allow ?g"
        by (simp_all add: t2_def allow_current_def)
      show ?thesis
      proof (cases "an_mmap a")
        case None
        then show ?thesis using assms(3,4) False st sc u by (simp add: redirect_def Let_def)
      next
        case (Some page)
        have "page \<notin> set (tg_maps t)" using assms(2) Some by (simp add: fresh_answers_def)
        then have id: "t2\<lparr>tg_maps := remove1 page (tg_maps t @ [page])\<rparr> = t2" by (simp add: remove1_append m(1) [symmetric])
        show ?thesis
          using assms(3,4) False st sc u m id Some
          by (auto simp: redirect_def Let_def redirected_def split: if_splits)
      qed
    qed
  qed
qed

lemma inject_cases:
  assumes "zp_inject_tw_func a kind pid args auxv sp s t = Some (r, s', t')"
  shows "r = None \<and> t' = t \<or> (\<exists>native s1 saved at_base at_entry. redirect a native s1 saved at_base at_entry t = (r, t'))"
proof -
  obtain go s1 where w: "inject_wanted kind pid args s = (go, s1)" by force
  obtain saved at_base where sv: "scan_saved_auxv auxv (0, 0) = (saved, at_base)" by force
  show ?thesis
  proof (cases "find_at_entry (tg_mem t) sp")
    case None
    then show ?thesis using assms by (auto simp: zp_inject_tw_func_def w sv split: if_splits)
  next
    case (Some f)
    show ?thesis
    proof (cases f)
      case None
      then show ?thesis using assms Some by (auto simp: zp_inject_tw_func_def w sv split: if_splits)
    next
      case (Some e)
      obtain at_entry val where e: "e = (at_entry, val)" by force
      obtain r1 t1 where r1: "redirect a (kind \<noteq> INJECT_ZYGOTE) s1 saved at_base at_entry t = (r1, t1)" by force
      show ?thesis using assms \<open>find_at_entry (tg_mem t) sp = Some f\<close>
        by (simp add: zp_inject_tw_func_def w sv Some e r1 split: if_splits) (use r1 in blast)
    qed
  qed
qed


definition stage_good :: "stage \<Rightarrow> bool" where
  "stage_good g \<longleftrightarrow> st_open g = 0 \<and> st_reg g \<and> 0 < st_size g \<and> st_size g \<le> ZP_LOADER_MAX_SZ \<and> st_alloc g \<and>
     st_read g = st_size g \<and> 0 \<le> st_shmem g \<and> st_write g = st_size g \<and> 0 \<le> st_fd g"

lemma stage_good_fd: "stage_good g \<Longrightarrow> zp_stage_fd native g t = (st_fd g, staged native g t)"
  by (auto simp: stage_good_def zp_stage_fd_def staged_def Let_def)

lemma redirect_good:
  assumes "at_base \<noteq> 0" "zp_dlopen_off s \<noteq> 0" "zp_dlsym_off s \<noteq> 0" "stage_good (an_loader a)" "stage_good (an_core a)"
    "an_mmap a = Some page" "an_copy a" "an_put a"
  shows "\<exists>sb t'. redirect a native s saved at_base at_entry t = (Some sb, t') \<and> tg_mem t' = (tg_mem t)(at_entry \<mapsto> page) \<and>
    (\<exists>fd. sb_code sb = stub_code saved (at_base + zp_dlopen_off s) (at_base + zp_dlsym_off s) fd)"
proof -
  have "\<not> st_fd (an_loader a) < 0" "\<not> st_fd (an_core a) < 0" using assms(4,5) by (auto simp: stage_good_def)
  moreover have "tg_mem (staged n g t) = tg_mem t" for n g t by (simp add: staged_def allow_current_def Let_def)
  ultimately show ?thesis
    using assms by (cases "native \<or> zp_zygisk_linker_enabled s") (auto simp: redirect_def Let_def stage_good_fd make_stub_def)
qed

text \<open>
  C14: a process whose stack is laid out as the kernel lays it out, with the same entry point on the
  stack and in the saved vector, is redirected when every step succeeds: its AT_ENTRY word, at the
  place the layout gives, holds the page of the stub, and the stub loads the entry point and the
  addresses of dlopen and dlsym.
\<close>

theorem inject_redirects:
  assumes "inject_wanted kind pid args s = (True, s1)" "zygisk_enabled s1"
    "scan_saved_auxv auxv (0, 0) = (entry, at_base)" "at_base \<noteq> 0" "entry \<noteq> 0" "zp_dlopen_off s1 \<noteq> 0" "zp_dlsym_off s1 \<noteq> 0"
    "words_at (tg_mem t) sp (stack_words argv envp pre entry)" "length argv < 2 ^ 31 - 1" "0 \<notin> set envp"
    "list_all (\<lambda>(t, v). t \<noteq> AT_NULL \<and> t \<noteq> AT_ENTRY) pre" "sp + 8 * of_nat (entry_word argv envp pre) \<noteq> 0"
    "stage_good (an_loader a)" "stage_good (an_core a)" "an_mmap a = Some page" "an_copy a" "an_put a"
  shows "\<exists>sb t'. zp_inject_tw_func a kind pid args auxv sp s t = Some (Some sb, s1, t') \<and>
     tg_mem t' = (tg_mem t)(sp + 8 * of_nat (entry_word argv envp pre) \<mapsto> page) \<and>
     fold exec_mov (take 12 (drop 2 (sb_code sb))) regs =
       regs(20 := entry, 21 := at_base + zp_dlopen_off s1, 23 := at_base + zp_dlsym_off s1)"
proof -
  let ?at = "sp + 8 * of_nat (entry_word argv envp pre)"
  note f = find_at_entry_ok [OF assms(8-11)]
  obtain sb t' fd where r: "redirect a (kind \<noteq> INJECT_ZYGOTE) s1 entry at_base ?at t = (Some sb, t')"
    "tg_mem t' = (tg_mem t)(?at \<mapsto> page)"
    "sb_code sb = stub_code entry (at_base + zp_dlopen_off s1) (at_base + zp_dlsym_off s1) fd"
    using redirect_good [OF assms(4,6,7,13-17)] by blast
  have p: "fold exec_mov (take 12 (drop 2 (stub_code sv a b fd))) regs = regs(20 := sv, 21 := a, 23 := b)" for sv a b
    by (rule stub_moves)
  have "zp_inject_tw_func a kind pid args auxv sp s t = Some (Some sb, s1, t')"
    using assms(2,5,12) by (simp add: zp_inject_tw_func_def assms(1,3) f r(1))
  then show ?thesis using r(2,3) p by auto
qed

definition demo_stage :: "int \<Rightarrow> stage" where
  "demo_stage fd = \<lparr>st_open = 0, st_reg = True, st_size = 100, st_alloc = True, st_read = 100, st_allow = no_additions,
     st_shmem = 0, st_write = 100, st_fd = fd\<rparr>"

definition demo_answers :: answers where
  "demo_answers = \<lparr>an_loader = demo_stage 5, an_core = demo_stage 6, an_mmap = Some 0x7000, an_copy = True, an_put = True\<rparr>"

definition demo_words :: words where
  "demo_words = [0x1000 \<mapsto> 1, 0x1008 \<mapsto> 0x2000, 0x1010 \<mapsto> 0, 0x1018 \<mapsto> 0, 0x1020 \<mapsto> 9, 0x1028 \<mapsto> 0x4000]"

definition demo_tgt :: tgt where
  "demo_tgt = \<lparr>tg_mem = demo_words, tg_fds = [], tg_maps = [], tg_policy = no_additions, tg_acts = [], tg_published = None\<rparr>"

definition demo_zp :: zp where
  "demo_zp = zp_start\<lparr>zygisk_enabled := True, zp_dlopen_off := 0x100, zp_dlsym_off := 0x200\<rparr>"

theorem inject_redirects_witness:
  "\<exists>sb t'. zp_inject_tw_func demo_answers (INJECT_NATIVE ''surfaceflinger'') 7 [] [(9, 0x4000), (7, 0x10000)] 0x1000 demo_zp demo_tgt =
     Some (Some sb, demo_zp, t') \<and> tg_mem t' 0x1028 = Some 0x7000"
proof -
  have w: "inject_wanted (INJECT_NATIVE ''surfaceflinger'') 7 [] demo_zp = (True, demo_zp)"
    by (simp add: inject_wanted_def zp_safemode_is_active_def demo_zp_def zp_start_def)
  have m: "words_at (tg_mem demo_tgt) 0x1000 (stack_words [0x2000] [] [] 0x4000)"
    by (simp add: stack_words_def aux_words_def demo_tgt_def demo_words_def AT_ENTRY_def)
  have k: "(0x1000 :: u64) + 8 * of_nat (entry_word [0x2000] [] []) = 0x1028" by (simp add: entry_word_def)
  have x: "scan_saved_auxv [(9, 0x4000), (7, 0x10000)] (0, 0) = (0x4000, 0x10000)"
    by (simp add: AT_NULL_def AT_ENTRY_def AT_BASE_def)
  have z: "zygisk_enabled demo_zp" "zp_dlopen_off demo_zp \<noteq> 0" "zp_dlsym_off demo_zp \<noteq> 0"
    by (simp_all add: demo_zp_def)
  have g: "stage_good (an_loader demo_answers)" "stage_good (an_core demo_answers)" "an_mmap demo_answers = Some 0x7000"
    "an_copy demo_answers" "an_put demo_answers"
    by (simp_all add: stage_good_def demo_answers_def demo_stage_def ZP_LOADER_MAX_SZ_def)
  obtain sb t' where
    "zp_inject_tw_func demo_answers (INJECT_NATIVE ''surfaceflinger'') 7 [] [(9, 0x4000), (7, 0x10000)] 0x1000 demo_zp demo_tgt =
       Some (Some sb, demo_zp, t')" "tg_mem t' = (tg_mem demo_tgt)(0x1028 \<mapsto> 0x7000)"
    using inject_redirects [OF w z(1) x _ _ z(2,3) m _ _ _ _ g, of "\<lambda>_. 0"] unfolding k by auto
  then show ?thesis by auto
qed


end
