(* ===== verification/Rc_Inject.thy ===== *)
theory Rc_Inject
  imports Preinit_Rc
begin

text \<open>
  How the kernel module adds to the init rc file while init reads it: the read and fstat hooks of
  \<^verbatim>\<open>core/tamisu_daemon_integration.c\<close>.

  The file init reads is the text that is left of it; \<open>k\<close> is what the file system answers to one
  read (negative for an error, otherwise a bound on the bytes given).  What the copy to user memory
  answers is a parameter.
\<close>

section \<open>State\<close>

record rc =
  tamisu_rc_pos :: nat
  module_rc_buf :: string
  module_rc_len :: nat
  module_rc_pos :: nat
  rc_loaded :: bool
  rc_hooked :: bool
  rc_stop :: bool

definition rc_start :: rc where
  "rc_start = \<lparr>tamisu_rc_pos = 0, module_rc_buf = [], module_rc_len = 0, module_rc_pos = 0, rc_loaded = False,
     rc_hooked = False, rc_stop = False\<rparr>"

definition daemon_exec :: "string \<Rightarrow> string" where
  "daemon_exec event = ''    exec u:r:su:s0 root -- /data/tamisu_daemon '' @ event"

definition TAMISU_RC :: string where
  "TAMISU_RC = unlines NL
    ['''',
     ''on post-fs-data'', ''    start logd'', daemon_exec ''post-fs-data'', '''',
     ''on nonencrypted'', daemon_exec ''services'', '''',
     ''on property:vold.decrypt=trigger_restart_framework'', daemon_exec ''services'', '''',
     ''on property:sys.boot_completed=1'', daemon_exec ''boot-completed'', '''',
     '''']"

definition tamisu_rc_len :: nat where "tamisu_rc_len = length TAMISU_RC"

section \<open>The rc file of the modules\<close>

definition MODULE_RC_PATH_WATCHDOG :: path where "MODULE_RC_PATH_WATCHDOG = ''/metadata/watchdog/tamisu/modules.rc''"
definition MODULE_RC_PATH_DEFAULT :: path where "MODULE_RC_PATH_DEFAULT = ''/metadata/tamisu/modules.rc''"

definition open_module_rc :: "os \<Rightarrow> node option" where
  "open_module_rc st =
     (case node_at st MODULE_RC_PATH_WATCHDOG of Some n \<Rightarrow> Some n | None \<Rightarrow> node_at st MODULE_RC_PATH_DEFAULT)"

text \<open>\<open>norc\<close> is the parameter of the module, \<open>alloc_ok\<close> the allocation, \<open>kread\<close> the result of the read.\<close>

definition load_module_rc_once :: "bool \<Rightarrow> bool \<Rightarrow> int \<Rightarrow> os \<Rightarrow> rc \<Rightarrow> rc" where
  "load_module_rc_once norc alloc_ok kread st s =
     (if rc_loaded s then s
      else
        (let s1 = s\<lparr>rc_loaded := True\<rparr> in
         if norc then s1
         else (case open_module_rc st of
                 Some (Reg m text) \<Rightarrow>
                   if text = [] then s1
                   else if \<not> alloc_ok then s1
                   else if kread \<le> 0 then s1\<lparr>module_rc_buf := []\<rparr>
                   else s1\<lparr>module_rc_buf := take (nat kread) text, module_rc_len := length (take (nat kread) text)\<rparr>
               | _ \<Rightarrow> s1)))"

definition free_module_rc :: "rc \<Rightarrow> rc" where
  "free_module_rc s = s\<lparr>module_rc_buf := [], module_rc_len := 0\<rparr>"

section \<open>Reading\<close>

text \<open>The read of the file system below.\<close>

definition orig_read :: "int \<Rightarrow> nat \<Rightarrow> string \<Rightarrow> (int + string) \<times> string" where
  "orig_read k n left =
     (if k < 0 then (Inl k, left)
      else (let m = min (nat k) (min n (length left)) in (Inr (take m left), drop m left)))"

definition append_module :: "nat \<Rightarrow> bool \<Rightarrow> string \<Rightarrow> rc \<Rightarrow> string \<times> rc" where
  "append_module n copy_ok ret s =
     (if module_rc_pos s < module_rc_len s \<and> length ret < n
      then
        (let append_count = min (module_rc_len s - module_rc_pos s) (n - length ret) in
         if \<not> copy_ok then (ret, s)
         else
           (let s1 = s\<lparr>module_rc_pos := module_rc_pos s + append_count\<rparr> in
            (ret @ take append_count (drop (module_rc_pos s) (module_rc_buf s)),
             if module_rc_pos s1 = module_rc_len s then free_module_rc s1 else s1)))
      else (ret, s))"

definition append_rc :: "nat \<Rightarrow> bool \<Rightarrow> bool \<Rightarrow> rc \<Rightarrow> string \<times> rc" where
  "append_rc n copy_ok copy2_ok s =
     (if tamisu_rc_pos s < tamisu_rc_len
      then
        (let append_count = min (tamisu_rc_len - tamisu_rc_pos s) n in
         if \<not> copy_ok then ([], s)
         else append_module n copy2_ok (take append_count (drop (tamisu_rc_pos s) TAMISU_RC))
                (s\<lparr>tamisu_rc_pos := tamisu_rc_pos s + append_count\<rparr>))
      else append_module n copy2_ok [] s)"

definition rc_done :: "rc \<Rightarrow> bool" where
  "rc_done s \<longleftrightarrow> tamisu_rc_pos s \<ge> tamisu_rc_len \<and> module_rc_pos s \<ge> module_rc_len s"

definition read_proxy :: "nat \<Rightarrow> int \<Rightarrow> bool \<Rightarrow> bool \<Rightarrow> string \<times> rc \<Rightarrow> (int + string) \<times> string \<times> rc" where
  "read_proxy n k copy_ok copy2_ok f =
     (case f of (left, s) \<Rightarrow>
        if tamisu_rc_pos s \<noteq> 0 \<and> tamisu_rc_pos s < tamisu_rc_len
        then (case append_rc n copy_ok copy2_ok s of (ret, s1) \<Rightarrow> (Inr ret, left, s1))
        else if tamisu_rc_pos s \<ge> tamisu_rc_len \<and> module_rc_pos s < module_rc_len s
        then (case append_module n copy2_ok [] s of (ret, s1) \<Rightarrow> (Inr ret, left, s1))
        else
          (case orig_read k n left of
             (r, left1) \<Rightarrow>
               if r \<noteq> Inr [] then (r, left1, s)
               else if rc_done s then (r, left1, s)
               else (case append_rc n copy_ok copy2_ok s of (ret, s1) \<Rightarrow> (Inr ret, left1, s1))))"

text \<open>
  The variant on iterators: \<open>n\<close> is the room of the iterator, \<open>good\<close> the bytes before the first
  address that cannot be written.
\<close>

definition append_module_iter :: "nat \<Rightarrow> string \<Rightarrow> rc \<Rightarrow> string \<times> rc" where
  "append_module_iter room ret s =
     (if module_rc_pos s < module_rc_len s
      then
        (let append_count = min (module_rc_len s - module_rc_pos s) room in
         if append_count = 0 then (ret, s)
         else
           (let s1 = s\<lparr>module_rc_pos := module_rc_pos s + append_count\<rparr> in
            (ret @ take append_count (drop (module_rc_pos s) (module_rc_buf s)),
             if module_rc_pos s1 = module_rc_len s then free_module_rc s1 else s1)))
      else (ret, s))"

definition append_rc_iter :: "nat \<Rightarrow> rc \<Rightarrow> string \<times> rc" where
  "append_rc_iter room s =
     (if tamisu_rc_pos s < tamisu_rc_len
      then
        (let append_count = min (tamisu_rc_len - tamisu_rc_pos s) room in
         if append_count = 0 then ([], s)
         else append_module_iter (room - append_count) (take append_count (drop (tamisu_rc_pos s) TAMISU_RC))
                (s\<lparr>tamisu_rc_pos := tamisu_rc_pos s + append_count\<rparr>))
      else append_module_iter room [] s)"

definition read_iter_proxy :: "nat \<Rightarrow> nat \<Rightarrow> int \<Rightarrow> string \<times> rc \<Rightarrow> (int + string) \<times> string \<times> rc" where
  "read_iter_proxy n good k f =
     (case f of (left, s) \<Rightarrow>
        if tamisu_rc_pos s \<noteq> 0 \<and> tamisu_rc_pos s < tamisu_rc_len
        then (case append_rc_iter (min n good) s of (ret, s1) \<Rightarrow> (Inr ret, left, s1))
        else if tamisu_rc_pos s \<ge> tamisu_rc_len \<and> module_rc_pos s < module_rc_len s
        then (case append_module_iter (min n good) [] s of (ret, s1) \<Rightarrow> (Inr ret, left, s1))
        else
          (case orig_read k n left of
             (r, left1) \<Rightarrow>
               if r \<noteq> Inr [] then (r, left1, s)
               else if rc_done s then (r, left1, s)
               else (case append_rc_iter (min n good) s of (ret, s1) \<Rightarrow> (Inr ret, left1, s1))))"

section \<open>The hooks\<close>

record rc_file =
  rf_reg :: bool
  rf_name :: string
  rf_path :: string

text \<open>The path is put into a buffer of 256 bytes.\<close>

definition is_init_rc :: "string \<Rightarrow> rc_file \<Rightarrow> bool" where
  "is_init_rc comm f \<longleftrightarrow> comm = ''init'' \<and> rf_reg f \<and> rf_name f = ''init.rc'' \<and> length (rf_path f) < 256 \<and>
     rf_path f = ''/system/etc/init/hw/init.rc''"

text \<open>Whether the file is read through the proxies from now on.\<close>

definition tamisu_handle_sys_read :: "bool \<Rightarrow> bool \<Rightarrow> int \<Rightarrow> os \<Rightarrow> string \<Rightarrow> rc_file option \<Rightarrow> rc \<Rightarrow> bool \<times> rc" where
  "tamisu_handle_sys_read norc alloc_ok kread st comm f s =
     (case f of
        None \<Rightarrow> (False, s)
      | Some f \<Rightarrow>
          if \<not> is_init_rc comm f then (False, s)
          else if rc_hooked s then (False, s\<lparr>rc_stop := True\<rparr>)
          else (True, load_module_rc_once norc alloc_ok kread st (s\<lparr>rc_hooked := True\<rparr>)))"

text \<open>\<open>orig\<close> is the result of the call, \<open>sz\<close> the size it stored, \<open>None\<close> when it cannot be read back.\<close>

definition tamisu_sys_fstat ::
  "bool \<Rightarrow> bool \<Rightarrow> int \<Rightarrow> os \<Rightarrow> string \<Rightarrow> rc_file option \<Rightarrow> int \<Rightarrow> u64 option \<Rightarrow> rc \<Rightarrow> int \<times> u64 option \<times> rc"
where
  "tamisu_sys_fstat norc alloc_ok kread st comm f orig sz s =
     (if orig \<noteq> 0 then (orig, sz, s)
      else (case f of
              None \<Rightarrow> (orig, sz, s)
            | Some f \<Rightarrow>
                if is_init_rc comm f
                then (let s1 = load_module_rc_once norc alloc_ok kread st s;
                          extra = tamisu_rc_len + module_rc_len s1
                      in (orig, map_option (\<lambda>n. n + of_nat extra) sz, s1))
                else (orig, sz, s)))"

end
