(* ===== verification/Rc_Props.thy ===== *)
theory Rc_Props
  imports Rc_Inject Preinit_Props
begin

text \<open>
  Init reads its rc file, then the lines of the module, then the rc files of the modules, whatever
  the sizes of its reads; the size it is told is the length of that text.
\<close>

section \<open>What is left to read\<close>

definition rc_ok :: "string \<times> rc \<Rightarrow> bool" where
  "rc_ok f \<longleftrightarrow> (case f of (left, s) \<Rightarrow>
     tamisu_rc_pos s \<le> tamisu_rc_len \<and> module_rc_len s = length (module_rc_buf s) \<and>
     (tamisu_rc_pos s \<noteq> 0 \<longrightarrow> left = []) \<and> (tamisu_rc_pos s < tamisu_rc_len \<longrightarrow> module_rc_pos s = 0))"

definition rc_left :: "string \<times> rc \<Rightarrow> string" where
  "rc_left f = (case f of (left, s) \<Rightarrow> left @ drop (tamisu_rc_pos s) TAMISU_RC @ drop (module_rc_pos s) (module_rc_buf s))"

definition got :: "int + string \<Rightarrow> string" where
  "got r = (case r of Inl _ \<Rightarrow> [] | Inr t \<Rightarrow> t)"

lemma rc_len_pos [simp]: "0 < tamisu_rc_len"
  by (simp add: tamisu_rc_len_def TAMISU_RC_def unlines_def)

lemma piece: "take m (drop p b) @ drop (p + m) b = drop p b"
  by (metis add.commute append_take_drop_id drop_drop)

lemma piece_minus: "l \<le> n \<Longrightarrow> take (n - l) (drop p b) @ drop (p + n - l) b = drop p b"
  using piece [of "n - l" p b] by simp

lemma append_module_ok:
  assumes "append_module n ok ret s = (ret', s')" "module_rc_len s = length (module_rc_buf s)"
  shows "ret' @ drop (module_rc_pos s') (module_rc_buf s') = ret @ drop (module_rc_pos s) (module_rc_buf s)"
    "tamisu_rc_pos s' = tamisu_rc_pos s" "module_rc_len s' = length (module_rc_buf s')"
  using assms
  by (auto simp: append_module_def Let_def free_module_rc_def min_def piece_minus split: if_splits)

lemma append_module_iter_ok:
  assumes "append_module_iter n ret s = (ret', s')" "module_rc_len s = length (module_rc_buf s)"
  shows "ret' @ drop (module_rc_pos s') (module_rc_buf s') = ret @ drop (module_rc_pos s) (module_rc_buf s)"
    "tamisu_rc_pos s' = tamisu_rc_pos s" "module_rc_len s' = length (module_rc_buf s')"
  using assms
  by (auto simp: append_module_iter_def Let_def free_module_rc_def min_def piece split: if_splits)

text \<open>What both ways to append do to the state.\<close>

definition appended :: "rc \<Rightarrow> string \<times> rc \<Rightarrow> bool" where
  "appended s r \<longleftrightarrow> (case r of (ret, s') \<Rightarrow>
     rc_ok ([], s') \<and> ret @ rc_left ([], s') = rc_left ([], s))"

lemma rc_ok_simp: "rc_ok (left, s) \<longleftrightarrow> tamisu_rc_pos s \<le> tamisu_rc_len \<and> module_rc_len s = length (module_rc_buf s) \<and>
    (tamisu_rc_pos s \<noteq> 0 \<longrightarrow> left = []) \<and> (tamisu_rc_pos s < tamisu_rc_len \<longrightarrow> module_rc_pos s = 0)"
  by (simp add: rc_ok_def)

lemma appended_module:
  assumes "rc_ok ([], s)" "tamisu_rc_pos s = tamisu_rc_len"
  shows "appended s (append_module n ok [] s)" "appended s (append_module_iter n [] s)"
proof -
  obtain ret s' where r: "append_module n ok [] s = (ret, s')" by force
  show "appended s (append_module n ok [] s)"
    using append_module_ok [OF r] assms unfolding r
    by (simp add: appended_def rc_ok_simp rc_left_def tamisu_rc_len_def)
  obtain ret s' where r: "append_module_iter n [] s = (ret, s')" by force
  show "appended s (append_module_iter n [] s)"
    using append_module_iter_ok [OF r] assms unfolding r
    by (simp add: appended_def rc_ok_simp rc_left_def tamisu_rc_len_def)
qed

text \<open>The lines of the module, a piece of \<open>m\<close> characters, before those of the modules.\<close>

lemma appended_both:
  assumes s: "rc_ok ([], s)" and m: "m \<le> tamisu_rc_len - tamisu_rc_pos s"
    and t: "t = take m (drop (tamisu_rc_pos s) TAMISU_RC)" "s1 = s\<lparr>tamisu_rc_pos := tamisu_rc_pos s + m\<rparr>"
  shows "tamisu_rc_pos s + m = tamisu_rc_len \<Longrightarrow> appended s (append_module n ok t s1)"
    "tamisu_rc_pos s + m = tamisu_rc_len \<Longrightarrow> appended s (append_module_iter n t s1)" "appended s (t, s1)"
proof -
  have p: "t @ drop (tamisu_rc_pos s + m) TAMISU_RC = drop (tamisu_rc_pos s) TAMISU_RC" unfolding t by (rule piece)
  show "appended s (t, s1)" using s m p by (auto simp: appended_def rc_ok_simp rc_left_def t(2))
  assume e: "tamisu_rc_pos s + m = tamisu_rc_len"
  obtain ret s' where r: "append_module n ok t s1 = (ret, s')" by force
  show "appended s (append_module n ok t s1)"
    using append_module_ok [OF r] s p e unfolding r by (auto simp: appended_def rc_ok_simp rc_left_def t(2) tamisu_rc_len_def)
  obtain ret s' where r: "append_module_iter n t s1 = (ret, s')" by force
  show "appended s (append_module_iter n t s1)"
    using append_module_iter_ok [OF r] s p e unfolding r by (auto simp: appended_def rc_ok_simp rc_left_def t(2) tamisu_rc_len_def)
qed

lemma append_rc_appended:
  assumes "rc_ok ([], s)"
  shows "appended s (append_rc n ok ok2 s)"
proof (cases "tamisu_rc_pos s < tamisu_rc_len \<and> ok")
  case True
  let ?m = "min (tamisu_rc_len - tamisu_rc_pos s) n" and ?t = "\<lambda>m. take m (drop (tamisu_rc_pos s) TAMISU_RC)"
  have m: "?m \<le> tamisu_rc_len - tamisu_rc_pos s" by simp
  note b = appended_both [OF assms m refl refl]
  have e: "append_rc n ok ok2 s = append_module n ok2 (?t ?m) (s\<lparr>tamisu_rc_pos := tamisu_rc_pos s + ?m\<rparr>)"
    using True by (simp add: append_rc_def Let_def)
  show ?thesis
  proof (cases "tamisu_rc_pos s + ?m = tamisu_rc_len")
    case True
    then show ?thesis unfolding e by (rule b(1))
  next
    case False
    then have "length (?t ?m) = n" using True by (auto simp: tamisu_rc_len_def)
    then show ?thesis unfolding e using b(3) by (simp add: append_module_def)
  qed
next
  case False
  then show ?thesis
    using assms appended_module(1) [OF assms, of n ok2]
    by (auto simp: append_rc_def Let_def appended_def rc_ok_simp)
qed

lemma append_rc_iter_appended:
  assumes "rc_ok ([], s)"
  shows "appended s (append_rc_iter n s)"
proof (cases "tamisu_rc_pos s < tamisu_rc_len \<and> n \<noteq> 0")
  case True
  let ?m = "min (tamisu_rc_len - tamisu_rc_pos s) n" and ?t = "\<lambda>m. take m (drop (tamisu_rc_pos s) TAMISU_RC)"
  have m: "?m \<le> tamisu_rc_len - tamisu_rc_pos s" by simp
  note b = appended_both [OF assms m refl refl]
  have e: "append_rc_iter n s = append_module_iter (n - ?m) (?t ?m) (s\<lparr>tamisu_rc_pos := tamisu_rc_pos s + ?m\<rparr>)"
    using True by (auto simp: append_rc_iter_def Let_def min_def)
  show ?thesis
  proof (cases "tamisu_rc_pos s + ?m = tamisu_rc_len")
    case True
    then show ?thesis unfolding e by (rule b(2))
  next
    case False
    then have "n - ?m = 0" using True by auto
    then show ?thesis unfolding e using b(3) by (simp add: append_module_iter_def)
  qed
next
  case False
  then show ?thesis
    using assms appended_module(2) [OF assms, of n]
    by (auto simp: append_rc_iter_def Let_def appended_def rc_ok_simp)
qed

section \<open>One read\<close>

text \<open>A regular file never answers zero before its end.\<close>

lemma orig_read_ok:
  assumes "orig_read k n left = (r, left')" "k \<noteq> 0"
  shows "got r @ left' = left" "r = Inr [] \<Longrightarrow> n \<noteq> 0 \<Longrightarrow> left = []"
  using assms by (auto simp: orig_read_def got_def Let_def min_def split: if_splits)

definition delivers :: "string \<times> rc \<Rightarrow> (int + string) \<times> string \<times> rc \<Rightarrow> bool" where
  "delivers f r \<longleftrightarrow> rc_ok (snd r) \<and> got (fst r) @ rc_left (snd r) = rc_left f"

lemma delivers_appended:
  assumes "appended s (ret, s')" "rc_ok (left, s)" "left = []"
  shows "delivers (left, s) (Inr ret, left, s')"
  using assms by (simp add: appended_def delivers_def got_def)

lemma nothing_appended:
  "append_rc 0 ok ok2 s = ([], s)" "append_rc_iter 0 s = ([], s)" if "rc_ok (left, s)" "left \<noteq> []"
  using that by (auto simp: append_rc_def append_module_def append_rc_iter_def append_module_iter_def rc_ok_simp)

text \<open>The two proxies differ only in how they append.\<close>

definition proxy :: "(rc \<Rightarrow> string \<times> rc) \<Rightarrow> (rc \<Rightarrow> string \<times> rc) \<Rightarrow> nat \<Rightarrow> int \<Rightarrow> string \<times> rc \<Rightarrow> (int + string) \<times> string \<times> rc" where
  "proxy both modules n k f =
     (case f of (left, s) \<Rightarrow>
        if tamisu_rc_pos s \<noteq> 0 \<and> tamisu_rc_pos s < tamisu_rc_len
        then (case both s of (ret, s1) \<Rightarrow> (Inr ret, left, s1))
        else if tamisu_rc_pos s \<ge> tamisu_rc_len \<and> module_rc_pos s < module_rc_len s
        then (case modules s of (ret, s1) \<Rightarrow> (Inr ret, left, s1))
        else
          (case orig_read k n left of
             (r, left1) \<Rightarrow>
               if r \<noteq> Inr [] then (r, left1, s)
               else if rc_done s then (r, left1, s)
               else (case both s of (ret, s1) \<Rightarrow> (Inr ret, left1, s1))))"

lemma proxies:
  "read_proxy n k ok ok2 = proxy (append_rc n ok ok2) (append_module n ok2 []) n k"
  "read_iter_proxy n good k = proxy (append_rc_iter (min n good)) (append_module_iter (min n good) []) n k"
  by (simp_all add: fun_eq_iff proxy_def read_proxy_def read_iter_proxy_def)

lemma proxy_delivers:
  assumes f: "rc_ok f" "k \<noteq> 0"
    and both: "\<And>s. rc_ok ([], s) \<Longrightarrow> appended s (both s)"
    and modules: "\<And>s. rc_ok ([], s) \<Longrightarrow> tamisu_rc_pos s = tamisu_rc_len \<Longrightarrow> appended s (modules s)"
    and zero: "\<And>s. n = 0 \<Longrightarrow> rc_ok f \<Longrightarrow> fst f \<noteq> [] \<Longrightarrow> both (snd f) = ([], snd f)"
  shows "delivers f (proxy both modules n k f)"
proof -
  obtain left s where f': "f = (left, s)" by force
  obtain r left1 where o: "orig_read k n left = (r, left1)" by force
  obtain ret s1 where b: "both s = (ret, s1)" by force
  obtain ret' s2 where m: "modules s = (ret', s2)" by force
  note ok = f(1) [unfolded f']
  have whole: "rc_ok ([], s)" using ok by (auto simp: rc_ok_simp)
  consider (rc) "tamisu_rc_pos s \<noteq> 0" "tamisu_rc_pos s < tamisu_rc_len"
    | (mod) "tamisu_rc_pos s \<ge> tamisu_rc_len" "module_rc_pos s < module_rc_len s"
    | (orig) "tamisu_rc_pos s = 0 \<or> rc_done s" unfolding rc_done_def by linarith
  then show ?thesis
  proof cases
    case rc
    then show ?thesis using ok both [OF whole] delivers_appended [of s ret s1 left]
      by (simp add: f' proxy_def b rc_ok_simp)
  next
    case mod
    then have "tamisu_rc_pos s = tamisu_rc_len" "left = []" using ok rc_len_pos by (auto simp: rc_ok_simp)
    then show ?thesis using mod ok modules [OF whole] delivers_appended [of s ret' s2 left] by (simp add: f' proxy_def m)
  next
    case orig
    then have e: "proxy both modules n k f = (if r \<noteq> Inr [] \<or> rc_done s then (r, left1, s) else (Inr ret, left1, s1))"
      using rc_len_pos unfolding rc_done_def by (elim disjE) (simp_all add: f' proxy_def o b rc_done_def del: rc_len_pos)
    have left1: "left = [] \<Longrightarrow> left1 = []" using orig_read_ok(1) [OF o f(2)] by simp
    have kept: "delivers f (r, left1, s)"
      using ok orig_read_ok(1) [OF o f(2)] left1
      by (auto simp: delivers_def f' rc_left_def rc_ok_simp)
    show ?thesis
    proof (cases "r \<noteq> Inr [] \<or> rc_done s")
      case True
      then show ?thesis unfolding e using kept by simp
    next
      case r: False
      show ?thesis
      proof (cases "left = []")
        case True
        then show ?thesis using r ok both [OF whole] delivers_appended [of s ret s1 left] left1 unfolding e by (simp add: f' b)
      next
        case False
        then have "n = 0" using r orig_read_ok(2) [OF o f(2)] by auto
        then have "both s = ([], s)" using zero f(1) False by (simp add: f')
        then show ?thesis using r kept unfolding e by (simp add: b got_def)
      qed
    qed
  qed
qed

section \<open>All reads\<close>

datatype rc_read = Rd nat int bool bool | RdIter nat nat int

fun rc_step :: "rc_read \<Rightarrow> string \<times> rc \<Rightarrow> (int + string) \<times> string \<times> rc" where
  "rc_step (Rd n k ok ok2) f = read_proxy n k ok ok2 f"
| "rc_step (RdIter n good k) f = read_iter_proxy n good k f"

fun file_answer :: "rc_read \<Rightarrow> int" where
  "file_answer (Rd n k ok ok2) = k"
| "file_answer (RdIter n good k) = k"

lemma step_delivers: "rc_ok f \<Longrightarrow> file_answer e \<noteq> 0 \<Longrightarrow> delivers f (rc_step e f)"
proof (cases e)
  case (Rd n k ok ok2)
  assume "rc_ok f" "file_answer e \<noteq> 0"
  then show ?thesis using Rd
    by (auto simp: proxies intro!: proxy_delivers append_rc_appended appended_module nothing_appended(1) [of "fst f"])
next
  case (RdIter n good k)
  assume "rc_ok f" "file_answer e \<noteq> 0"
  then show ?thesis using RdIter
    by (auto simp: proxies intro!: proxy_delivers append_rc_iter_appended appended_module nothing_appended(2) [of "fst f"])
qed

text \<open>The text a sequence of reads gives, and what is left after it.\<close>

fun rc_reads :: "rc_read list \<Rightarrow> string \<times> rc \<Rightarrow> string \<times> string \<times> rc" where
  "rc_reads [] f = ([], f)"
| "rc_reads (e # es) f = (case rc_step e f of (r, f1) \<Rightarrow> (case rc_reads es f1 of (t, f2) \<Rightarrow> (got r @ t, f2)))"

lemma reads_deliver:
  "rc_ok f \<Longrightarrow> list_all (\<lambda>e. file_answer e \<noteq> 0) es \<Longrightarrow>
     rc_ok (snd (rc_reads es f)) \<and> fst (rc_reads es f) @ rc_left (snd (rc_reads es f)) = rc_left f"
proof (induction es arbitrary: f)
  case (Cons e es)
  obtain r f1 where r: "rc_step e f = (r, f1)" by (cases "rc_step e f")
  then have "rc_ok f1" "got r @ rc_left f1 = rc_left f" using step_delivers [of f e] Cons.prems by (auto simp: delivers_def)
  then show ?case using Cons.IH [of f1] Cons.prems by (auto simp: r split: prod.splits)
qed simp

text \<open>A read with room that finds no error.\<close>

definition clean_read :: "rc_read \<Rightarrow> bool" where
  "clean_read e = (case e of Rd n k ok ok2 \<Rightarrow> 0 < n \<and> 0 < k \<and> ok \<and> ok2 | RdIter n good k \<Rightarrow> 0 < n \<and> 0 < good \<and> 0 < k)"

lemma append_some:
  assumes "rc_ok ([], s)" "\<not> rc_done s" "0 < n"
  shows "fst (append_rc n True True s) \<noteq> []" "fst (append_rc_iter n s) \<noteq> []"
    "tamisu_rc_pos s \<ge> tamisu_rc_len \<Longrightarrow> fst (append_module n True [] s) \<noteq> []"
    "tamisu_rc_pos s \<ge> tamisu_rc_len \<Longrightarrow> fst (append_module_iter n [] s) \<noteq> []"
  using assms
  by (auto simp: append_rc_def append_rc_iter_def append_module_def append_module_iter_def Let_def rc_done_def rc_ok_simp
      tamisu_rc_len_def min_def split: if_splits)

lemma proxy_end:
  assumes "rc_ok (left, s)" "0 < n" "0 < k"
    and "\<And>s. rc_ok ([], s) \<Longrightarrow> \<not> rc_done s \<Longrightarrow> fst (both s) \<noteq> []"
    and "\<And>s. rc_ok ([], s) \<Longrightarrow> \<not> rc_done s \<Longrightarrow> tamisu_rc_pos s \<ge> tamisu_rc_len \<Longrightarrow> fst (modules s) \<noteq> []"
    and "fst (proxy both modules n k (left, s)) = Inr []"
  shows "left = [] \<and> rc_done s"
proof -
  have whole: "rc_ok ([], s)" using assms(1) by (auto simp: rc_ok_simp)
  obtain r left1 where o: "orig_read k n left = (r, left1)" by force
  have "left = []" if "r = Inr []" using orig_read_ok(2) [OF o] that assms(2,3) by simp
  then show ?thesis
    using assms(4,5) [OF whole] assms(1,6)
    by (auto simp: proxy_def o rc_ok_simp rc_done_def split: if_splits prod.splits)
qed

lemma step_end:
  assumes "rc_ok f" "clean_read e" "fst (rc_step e f) = Inr []"
  shows "rc_left f = []"
proof -
  obtain left s where f: "f = (left, s)" by force
  have "left = [] \<and> rc_done s"
  proof (cases e)
    case (Rd n k ok ok2)
    then have c: "0 < n" "0 < k" "ok" "ok2" using assms(2) by (simp_all add: clean_read_def)
    show ?thesis
      by (rule proxy_end [of left s n k "append_rc n True True" "append_module n True []"])
        (use assms c in \<open>simp_all add: f Rd proxies append_some\<close>)
  next
    case (RdIter n good k)
    then have c: "0 < n" "0 < k" "0 < min n good" using assms(2) by (simp_all add: clean_read_def)
    show ?thesis
      by (rule proxy_end [of left s n k "append_rc_iter (min n good)" "append_module_iter (min n good) []"])
        (use assms c append_some(2,4) [OF _ _ c(3)] in \<open>simp_all add: f RdIter proxies\<close>)
  qed
  then show ?thesis using assms(1) by (simp add: f rc_left_def rc_done_def rc_ok_simp tamisu_rc_len_def)
qed

section \<open>What init reads\<close>

text \<open>The state after the hook loaded the rc file of the modules.\<close>

definition rc_fresh :: "rc \<Rightarrow> bool" where
  "rc_fresh s \<longleftrightarrow> tamisu_rc_pos s = 0 \<and> module_rc_pos s = 0 \<and> module_rc_len s = length (module_rc_buf s) \<and>
     (\<not> rc_loaded s \<longrightarrow> module_rc_buf s = [])"

lemma fresh_ok: "rc_fresh s \<Longrightarrow> rc_ok (orig, s) \<and> rc_left (orig, s) = orig @ TAMISU_RC @ module_rc_buf s"
  by (simp add: rc_fresh_def rc_ok_simp rc_left_def)

text \<open>
  C21: whatever the sizes of the reads, the short answers, the errors and the failing copies, the
  text init has got is at every point a prefix of its rc file followed by the lines of the module
  and by the rc file of the modules; and when a read with room that meets no error gives nothing,
  init has got all of it.
\<close>

theorem init_rc_appended:
  assumes "rc_fresh s" "list_all (\<lambda>e. file_answer e \<noteq> 0) es" "rc_reads es (orig, s) = (t, f)"
  shows "prefix t (orig @ TAMISU_RC @ module_rc_buf s) \<and>
    (clean_read e \<and> fst (rc_step e f) = Inr [] \<longrightarrow> t = orig @ TAMISU_RC @ module_rc_buf s)"
proof -
  have r: "rc_ok f" "t @ rc_left f = orig @ TAMISU_RC @ module_rc_buf s"
    using reads_deliver [of "(orig, s)" es] fresh_ok [OF assms(1), of orig] assms(2,3) by simp_all
  have "clean_read e \<Longrightarrow> fst (rc_step e f) = Inr [] \<Longrightarrow> t = orig @ TAMISU_RC @ module_rc_buf s"
    using step_end [OF r(1)] r(2) by simp
  then show ?thesis using r(2) by (metis prefixI)
qed

theorem init_rc_appended_witness:
  "\<exists>t f. rc_reads [Rd 4 9 True True, Rd 100 2 True True, RdIter 700 90 1, Rd 2000 1 True True]
      (''on boot'', rc_start\<lparr>module_rc_buf := ''on init'', module_rc_len := 7, rc_loaded := True\<rparr>) = (t, f) \<and>
     prefix t (''on boot'' @ TAMISU_RC @ ''on init'')"
proof -
  let ?s = "rc_start\<lparr>module_rc_buf := ''on init'', module_rc_len := 7, rc_loaded := True\<rparr>"
  let ?es = "[Rd 4 9 True True, Rd 100 2 True True, RdIter 700 90 1, Rd 2000 1 True True]"
  obtain t f where r: "rc_reads ?es (''on boot'', ?s) = (t, f)" by (cases "rc_reads ?es (''on boot'', ?s)")
  have "rc_fresh ?s" by (simp add: rc_fresh_def rc_start_def)
  from init_rc_appended [OF this _ r] have "prefix t (''on boot'' @ TAMISU_RC @ ''on init'')" by simp
  then show ?thesis using r by blast
qed

section \<open>The size init is told\<close>

lemma loaded_fresh: "rc_fresh s \<Longrightarrow> rc_fresh (load_module_rc_once norc alloc_ok kread st s)"
  by (auto simp: rc_fresh_def load_module_rc_once_def Let_def split: option.splits node.splits)

text \<open>
  Before anything was read, the size that fstat reports for the rc file of init is its own size
  plus that of the text the reads add to it.
\<close>

theorem fstat_counts_added:
  assumes "rc_fresh s" "is_init_rc comm f"
    "tamisu_sys_fstat norc alloc_ok kread st comm (Some f) 0 (Some (of_nat (length orig))) s = (r, sz, s')"
  shows "r = 0 \<and> rc_fresh s' \<and> sz = Some (of_nat (length (orig @ TAMISU_RC @ module_rc_buf s')))"
  using assms loaded_fresh [OF assms(1), of norc alloc_ok kread st]
  by (auto simp: tamisu_sys_fstat_def Let_def rc_fresh_def tamisu_rc_len_def)

definition init_rc_file :: rc_file where
  "init_rc_file = \<lparr>rf_reg = True, rf_name = ''init.rc'', rf_path = ''/system/etc/init/hw/init.rc''\<rparr>"

theorem fstat_counts_added_witness:
  "\<exists>s'. tamisu_sys_fstat False True 100 (small_os) ''init'' (Some init_rc_file) 0 (Some 7) rc_start =
      (0, Some (of_nat (length (''on boot'' @ TAMISU_RC @ module_rc_buf s'))), s')"
proof -
  have i: "rc_fresh rc_start" "is_init_rc ''init'' init_rc_file"
    by (simp_all add: rc_fresh_def rc_start_def is_init_rc_def init_rc_file_def)
  obtain r sz s' where e: "tamisu_sys_fstat False True 100 (small_os) ''init'' (Some init_rc_file) 0
      (Some (of_nat (length ''on boot''))) rc_start = (r, sz, s')" by (metis prod.collapse)
  show ?thesis using fstat_counts_added [OF i e] e by auto
qed

section \<open>From the daemon to init\<close>

lemma unlinked: "\<not> ro_path (unlink p st) p \<Longrightarrow> \<not> is_dir (unlink p st) p \<Longrightarrow> node_at (unlink p st) p = None"
  by (auto simp: unlink_def node_at_del)

lemma stale_paths:
  "preinit_tamisu_dir st = PREINIT_DIR_WATCHDOG \<Longrightarrow> preinit_file st = MODULE_RC_PATH_WATCHDOG"
  "preinit_tamisu_dir st \<noteq> PREINIT_DIR_WATCHDOG \<Longrightarrow> preinit_file st = MODULE_RC_PATH_DEFAULT"
  "PREINIT_DIR_WATCHDOG @ ''modules.rc'' = MODULE_RC_PATH_WATCHDOG"
  by (auto simp: preinit_file_def preinit_tamisu_dir_def PREINIT_DIR_WATCHDOG_def PREINIT_DIR_DEFAULT_def
      MODULE_RC_PATH_WATCHDOG_def MODULE_RC_PATH_DEFAULT_def)

lemma regenerated_node:
  assumes "regenerate_preinit_rc st = (0, st')"
  shows "is_reg st' (preinit_file st)"
    "preinit_tamisu_dir st \<noteq> PREINIT_DIR_WATCHDOG \<Longrightarrow> \<exists>X. st' = unlink MODULE_RC_PATH_WATCHDOG X"
  using assms stale_other [of st]
  by (auto simp: regenerate_preinit_rc_def Let_def is_reg_def node_at_unlink_other node_at_del node_at_put stale_paths(3)
      preinit_file_def [symmetric] preinit_temp_def [symmetric] split: prod.splits bool.splits if_splits)

lemma opened_rc:
  assumes "regenerate_preinit_rc st = (0, st')" "\<not> ro_path st' MODULE_RC_PATH_WATCHDOG" "\<not> is_dir st' MODULE_RC_PATH_WATCHDOG"
  shows "\<exists>m. open_module_rc st' = Some (Reg m (rc_text st))"
proof -
  obtain m where n: "node_at st' (preinit_file st) = Some (Reg m (rc_text st))"
    using regenerate_result [OF assms(1)] regenerated_node(1) [OF assms(1)]
    by (auto simp: is_reg_def read_file_def file_text_def split: option.splits node.splits)
  show ?thesis
  proof (cases "preinit_tamisu_dir st = PREINIT_DIR_WATCHDOG")
    case True
    then show ?thesis using n stale_paths(1) by (simp add: open_module_rc_def)
  next
    case False
    then obtain X where "st' = unlink MODULE_RC_PATH_WATCHDOG X" using regenerated_node(2) [OF assms(1)] by blast
    then have "node_at st' MODULE_RC_PATH_WATCHDOG = None" using unlinked assms(2,3) by simp
    then show ?thesis using n stale_paths(2) [OF False] by (simp add: open_module_rc_def)
  qed
qed

text \<open>
  C20: the rc files of the active modules, as the daemon collects them for the next boot, are what
  init reads behind its own rc file and the lines of the module, provided that the file of the
  other directory is not one that cannot be removed.
\<close>

theorem modules_rc_reaches_init:
  assumes "regenerate_preinit_rc st = (0, st')" "\<not> ro_path st' MODULE_RC_PATH_WATCHDOG" "\<not> is_dir st' MODULE_RC_PATH_WATCHDOG"
    "is_init_rc comm f" "tamisu_handle_sys_read False True (int (length (rc_text st))) st' comm (Some f) rc_start = (hooked, s)"
    "list_all (\<lambda>e. file_answer e \<noteq> 0) es" "rc_reads es (orig, s) = (t, g)" "clean_read e" "fst (rc_step e g) = Inr []"
  shows "hooked \<and> t = orig @ TAMISU_RC @ rc_text st"
proof -
  obtain m where o: "open_module_rc st' = Some (Reg m (rc_text st))" using opened_rc [OF assms(1-3)] by blast
  have s: "hooked" "rc_fresh s" "module_rc_buf s = rc_text st"
    using assms(4,5) o
    by (auto simp: tamisu_handle_sys_read_def load_module_rc_once_def Let_def rc_start_def rc_fresh_def split: if_splits)
  have "rc_ok g" "t @ rc_left g = orig @ TAMISU_RC @ rc_text st"
    using reads_deliver [of "(orig, s)" es] fresh_ok [OF s(2), of orig] assms(6,7) s(3) by simp_all
  then show ?thesis using step_end [OF _ assms(8,9)] s(1) by simp
qed

lemma one_read:
  assumes "rc_fresh s" "n = length (TAMISU_RC @ module_rc_buf s)" "0 < k"
  shows "\<exists>s'. read_proxy n k True True ([], s) = (Inr (TAMISU_RC @ module_rc_buf s), [], s') \<and> rc_done s'"
  using assms
  by (auto simp: read_proxy_def orig_read_def rc_done_def append_rc_def append_module_def Let_def rc_fresh_def tamisu_rc_len_def
      free_module_rc_def)

lemma read_after_done: "rc_done s \<Longrightarrow> 0 < k \<Longrightarrow> read_proxy n k ok ok2 ([], s) = (Inr [], [], s)"
  using rc_len_pos by (auto simp: read_proxy_def orig_read_def rc_done_def simp del: rc_len_pos)

definition small_os :: os where
  "small_os = boot_os\<lparr>fs := [(''/metadata/tamisu'', Dir), (ADB_DIR @ ''initrc.d'', Dir), (ADB_DIR @ ''initrc.d/a.rc'', Reg 420 ''on init'')]\<rparr>"

theorem modules_rc_reaches_init_witness:
  "\<exists>st' s s' n. regenerate_preinit_rc (small_os) = (0, st') \<and>
     tamisu_handle_sys_read False True (int (length (rc_text (small_os)))) st' ''init'' (Some init_rc_file) rc_start = (True, s) \<and>
     rc_reads [Rd n 1 True True] ([], s) = (TAMISU_RC @ rc_text (small_os), [], s')"
proof -
  let ?st = "small_os"
  define p where "p = regenerate_preinit_rc ?st"
  have "fst p = 0" unfolding p_def by code_simp
  then have r: "regenerate_preinit_rc ?st = (0, snd p)" unfolding p_def by (simp add: prod_eq_iff)
  have w1: "\<not> ro_path (snd p) MODULE_RC_PATH_WATCHDOG" unfolding p_def by code_simp
  have w2: "\<not> is_dir (snd p) MODULE_RC_PATH_WATCHDOG" unfolding p_def by code_simp
  define st' where "st' = snd p"
  note r = r [folded st'_def] and w = w1 [folded st'_def] w2 [folded st'_def]
  have i: "is_init_rc ''init'' init_rc_file" by (simp add: is_init_rc_def init_rc_file_def)
  obtain h s where h: "tamisu_handle_sys_read False True (int (length (rc_text ?st))) st' ''init'' (Some init_rc_file) rc_start = (h, s)" by force
  have s: "rc_fresh s"
    using h i loaded_fresh [of "rc_start\<lparr>rc_hooked := True\<rparr>" False True "int (length (rc_text ?st))" st']
    by (auto simp: tamisu_handle_sys_read_def rc_start_def rc_fresh_def)
  define n where "n = length (TAMISU_RC @ module_rc_buf s)"
  obtain s' where o: "read_proxy n 1 True True ([], s) = (Inr (TAMISU_RC @ module_rc_buf s), [], s')" and d: "rc_done s'"
    using one_read [OF s n_def, of 1] by auto
  have g: "rc_reads [Rd n 1 True True] ([], s) = (TAMISU_RC @ module_rc_buf s, [], s')" by (simp add: o got_def)
  have e: "clean_read (Rd 1 1 True True)" "fst (rc_step (Rd 1 1 True True) ([], s')) = Inr []" "list_all (\<lambda>e. file_answer e \<noteq> 0) [Rd n 1 True True]"
    using read_after_done [OF d] by (simp_all add: clean_read_def)
  have "h \<and> TAMISU_RC @ module_rc_buf s = [] @ TAMISU_RC @ rc_text ?st"
    by (rule modules_rc_reaches_init [OF r w i h e(3) g e(1,2)])
  then show ?thesis using r h g by (intro exI [of _ st'] exI [of _ s] exI [of _ s'] exI [of _ n]) simp
qed

end
