(* ===== verification/Kernel_Boot.thy ===== *)
theory Kernel_Boot
  imports Prelude
begin

text \<open>
  What the kernel module watches while the system boots: the programs that are executed and the
  volume key (\<^verbatim>\<open>core/tamisu_daemon_integration.c\<close>), the boot events (\<^verbatim>\<open>tamisu_boot_event.c\<close>), the
  cached security ids (\<^verbatim>\<open>tamisu_selinux.c\<close>), and the marks of the processes whose system calls are
  traced (\<^verbatim>\<open>tamisu_tp_marker.c\<close>, \<^verbatim>\<open>tamisu_syscall_event_bridge.c\<close>).

  The policy database has any type; what the kernel's security server says of it is in \<open>selinux\<close>.
\<close>

section \<open>State\<close>

record task =
  tk_pid :: u32
  tk_uid :: u32
  tk_sid :: "u32 option"
  tk_mm :: bool
  tk_marked :: bool

text \<open>The id of a context, the context of an id with the length given for it, and the rules of the module.\<close>

record 'db selinux =
  secctx_to_secid :: "'db \<Rightarrow> string \<Rightarrow> u32 option"
  secid_to_secctx :: "'db \<Rightarrow> u32 \<Rightarrow> (string \<times> nat) option"
  apply_rules :: "'db \<Rightarrow> 'db"

record 'db kb =
  kb_db :: 'db
  cached_su_sid :: u32
  cached_zygote_sid :: u32
  cached_init_sid :: u32
  tamisu_file_sid :: u32
  tamisu_cred :: "u32 option"
  late_loaded :: bool
  first_zygote :: bool
  init_second_stage_executed :: bool
  execve_key :: bool
  post_fs_data_lock :: bool
  boot_complete_lock :: bool
  post_done :: bool
  boot_completed :: bool
  volumedown_pressed_count :: u32
  input_hook_stopped :: bool
  input_registered :: bool
  safe_mode :: bool
  tasks :: "task list"
  reg_count :: int

text \<open>\<open>late\<close>: loaded after the start of the system; \<open>ts\<close> are the tasks, \<open>cred\<close> the id of the module's credentials.\<close>

definition kb_start :: "bool \<Rightarrow> 'db \<Rightarrow> u32 option \<Rightarrow> task list \<Rightarrow> 'db kb" where
  "kb_start late db cred ts = \<lparr>kb_db = db, cached_su_sid = 0, cached_zygote_sid = 0, cached_init_sid = 0, tamisu_file_sid = 0,
     tamisu_cred = cred, late_loaded = late, first_zygote = True, init_second_stage_executed = False, execve_key = True,
     post_fs_data_lock = False, boot_complete_lock = False, post_done = False, boot_completed = False,
     volumedown_pressed_count = 0, input_hook_stopped = False, input_registered = True, safe_mode = False, tasks = ts, reg_count = 0\<rparr>"

section \<open>Security ids\<close>

definition TAMISU_CONTEXT :: string where "TAMISU_CONTEXT = ''u:r:su:s0''"
definition TAMISU_FILE_CONTEXT :: string where "TAMISU_FILE_CONTEXT = ''u:object_r:tamisu_file:s0''"
definition ZYGOTE_CONTEXT :: string where "ZYGOTE_CONTEXT = ''u:r:zygote:s0''"
definition INIT_CONTEXT :: string where "INIT_CONTEXT = ''u:r:init:s0''"

definition sid_or_zero :: "'db selinux \<Rightarrow> 'db \<Rightarrow> string \<Rightarrow> u32" where
  "sid_or_zero se db context = (case secctx_to_secid se db context of None \<Rightarrow> 0 | Some sid \<Rightarrow> sid)"

definition setup_tamisu_cred :: "'db selinux \<Rightarrow> 'db kb \<Rightarrow> 'db kb" where
  "setup_tamisu_cred se s =
     (case (tamisu_cred s, secctx_to_secid se (kb_db s) TAMISU_CONTEXT) of
        (Some _, Some sid) \<Rightarrow> s\<lparr>tamisu_cred := Some sid\<rparr>
      | _ \<Rightarrow> s)"

definition cache_sid :: "'db selinux \<Rightarrow> 'db kb \<Rightarrow> 'db kb" where
  "cache_sid se s =
     s\<lparr>cached_su_sid := sid_or_zero se (kb_db s) TAMISU_CONTEXT,
       cached_zygote_sid := sid_or_zero se (kb_db s) ZYGOTE_CONTEXT,
       cached_init_sid := sid_or_zero se (kb_db s) INIT_CONTEXT,
       tamisu_file_sid := sid_or_zero se (kb_db s) TAMISU_FILE_CONTEXT\<rparr>"

definition strncmp_eq :: "string \<Rightarrow> string \<Rightarrow> nat \<Rightarrow> bool" where
  "strncmp_eq a b n \<longleftrightarrow> take n (c_str a @ [NUL]) = take n (c_str b @ [NUL])"

definition is_sid_match :: "'db selinux \<Rightarrow> 'db \<Rightarrow> u32 option \<Rightarrow> u32 \<Rightarrow> string \<Rightarrow> bool" where
  "is_sid_match se db cred cached fallback =
     (case cred of
        None \<Rightarrow> False
      | Some sid \<Rightarrow>
          if cached \<noteq> 0 then sid = cached
          else (case secid_to_secctx se db sid of None \<Rightarrow> False | Some (context, len) \<Rightarrow> strncmp_eq fallback context len))"

definition is_task_tamisu_domain :: "'db selinux \<Rightarrow> 'db kb \<Rightarrow> u32 option \<Rightarrow> bool" where
  "is_task_tamisu_domain se s cred = is_sid_match se (kb_db s) cred (cached_su_sid s) TAMISU_CONTEXT"

definition is_zygote :: "'db selinux \<Rightarrow> 'db kb \<Rightarrow> u32 option \<Rightarrow> bool" where
  "is_zygote se s cred = is_sid_match se (kb_db s) cred (cached_zygote_sid s) ZYGOTE_CONTEXT"

definition is_init :: "'db selinux \<Rightarrow> 'db kb \<Rightarrow> u32 option \<Rightarrow> bool" where
  "is_init se s cred = is_sid_match se (kb_db s) cred (cached_init_sid s) INIT_CONTEXT"

definition tamisu_initialize_selinux :: "'db selinux \<Rightarrow> 'db kb \<Rightarrow> 'db kb" where
  "tamisu_initialize_selinux se s = setup_tamisu_cred se (cache_sid se (s\<lparr>kb_db := apply_rules se (kb_db s)\<rparr>))"

section \<open>The volume key\<close>

definition EV_KEY :: u32 where "EV_KEY = 1"
definition KEY_VOLUMEDOWN :: u32 where "KEY_VOLUMEDOWN = 114"

definition is_volumedown_enough :: "u32 \<Rightarrow> bool" where
  "is_volumedown_enough n \<longleftrightarrow> n \<ge> 3"

text \<open>The work that takes the probe away runs later, \<open>do_stop_input_hook\<close>.\<close>

definition stop_input_hook :: "'db kb \<Rightarrow> 'db kb" where
  "stop_input_hook s = (if input_hook_stopped s then s else s\<lparr>input_hook_stopped := True\<rparr>)"

definition do_stop_input_hook :: "'db kb \<Rightarrow> 'db kb" where
  "do_stop_input_hook s = s\<lparr>input_registered := False\<rparr>"

definition tamisu_handle_input_handle_event :: "u32 \<Rightarrow> u32 \<Rightarrow> int \<Rightarrow> 'db kb \<Rightarrow> 'db kb" where
  "tamisu_handle_input_handle_event ty code val s =
     (if ty = EV_KEY \<and> code = KEY_VOLUMEDOWN \<and> val \<noteq> 0
      then (let s1 = s\<lparr>volumedown_pressed_count := volumedown_pressed_count s + 1\<rparr> in
            if is_volumedown_enough (volumedown_pressed_count s1) then stop_input_hook s1 else s1)
      else s)"

definition tamisu_is_safe_mode :: "'db kb \<Rightarrow> bool \<times> 'db kb" where
  "tamisu_is_safe_mode s =
     (if safe_mode s then (True, s)
      else if late_loaded s then (False, s)
      else
        (let s1 = stop_input_hook s in
         if is_volumedown_enough (volumedown_pressed_count s1) then (True, s1\<lparr>safe_mode := True\<rparr>) else (False, s1)))"

section \<open>The boot events\<close>

definition on_post_fs_data :: "'db selinux \<Rightarrow> 'db kb \<Rightarrow> 'db kb" where
  "on_post_fs_data se s =
     (if post_done s then s
      else (let s1 = stop_input_hook (s\<lparr>post_done := True\<rparr>)
            in s1\<lparr>tamisu_file_sid := sid_or_zero se (kb_db s1) TAMISU_FILE_CONTEXT\<rparr>))"

definition kernel_boot_completed :: "'db kb \<Rightarrow> 'db kb" where
  "kernel_boot_completed s = s\<lparr>boot_completed := True\<rparr>"

definition EVENT_POST_FS_DATA :: u32 where "EVENT_POST_FS_DATA = 1"
definition EVENT_BOOT_COMPLETED :: u32 where "EVENT_BOOT_COMPLETED = 2"
definition EVENT_MODULE_MOUNTED :: u32 where "EVENT_MODULE_MOUNTED = 3"

definition report_event :: "'db selinux \<Rightarrow> u32 \<Rightarrow> 'db kb \<Rightarrow> 'db kb" where
  "report_event se event s =
     (if event = EVENT_POST_FS_DATA
      then (if post_fs_data_lock s then s
            else if late_loaded s then s\<lparr>post_fs_data_lock := True\<rparr>
            else on_post_fs_data se (s\<lparr>post_fs_data_lock := True\<rparr>))
      else if event = EVENT_BOOT_COMPLETED
      then (if boot_complete_lock s then s
            else if late_loaded s then s\<lparr>boot_complete_lock := True\<rparr>
            else kernel_boot_completed (s\<lparr>boot_complete_lock := True\<rparr>))
      else s)"

section \<open>Marks\<close>

definition set_mark :: "bool \<Rightarrow> task \<Rightarrow> task" where
  "set_mark mark t = t\<lparr>tk_marked := mark\<rparr>"

definition handle_process_mark :: "bool \<Rightarrow> 'db kb \<Rightarrow> 'db kb" where
  "handle_process_mark mark s = s\<lparr>tasks := map (set_mark mark) (tasks s)\<rparr>"

definition tamisu_mark_all_process :: "'db kb \<Rightarrow> 'db kb" where
  "tamisu_mark_all_process s = handle_process_mark True s"

definition tamisu_unmark_all_process :: "'db kb \<Rightarrow> 'db kb" where
  "tamisu_unmark_all_process s = handle_process_mark False s"

definition wanted_mark :: "'db selinux \<Rightarrow> 'db kb \<Rightarrow> task \<Rightarrow> bool" where
  "wanted_mark se s t \<longleftrightarrow>
     tk_uid t = 0 \<and> is_task_tamisu_domain se s (tk_sid t) \<or> is_zygote se s (tk_sid t) \<or> tk_uid t = 2000 \<or> tk_pid t = 1"

definition tamisu_mark_running_process_locked :: "'db selinux \<Rightarrow> 'db kb \<Rightarrow> 'db kb" where
  "tamisu_mark_running_process_locked se s =
     s\<lparr>tasks := map (\<lambda>t. if tk_pid t \<noteq> 1 \<and> \<not> tk_mm t then t else set_mark (wanted_mark se s t) t) (tasks s)\<rparr>"

definition tamisu_mark_running_process :: "'db selinux \<Rightarrow> 'db kb \<Rightarrow> 'db kb" where
  "tamisu_mark_running_process se s = (if reg_count s \<le> 1 then tamisu_mark_running_process_locked se s else s)"

definition K_ESRCH :: int where "K_ESRCH = 3"

definition task_slot :: "u32 \<Rightarrow> 'db kb \<Rightarrow> nat option" where
  "task_slot pid s = (if \<exists>t\<in>set (tasks s). tk_pid t = pid then Some (length (takeWhile (\<lambda>t. tk_pid t \<noteq> pid) (tasks s))) else None)"

definition tamisu_get_task_mark :: "u32 \<Rightarrow> 'db kb \<Rightarrow> int" where
  "tamisu_get_task_mark pid s =
     (case task_slot pid s of None \<Rightarrow> - K_ESRCH | Some i \<Rightarrow> if tk_marked (tasks s ! i) then 1 else 0)"

definition tamisu_set_task_mark :: "u32 \<Rightarrow> bool \<Rightarrow> 'db kb \<Rightarrow> int \<times> 'db kb" where
  "tamisu_set_task_mark pid mark s =
     (case task_slot pid s of
        None \<Rightarrow> (- K_ESRCH, s)
      | Some i \<Rightarrow> (0, s\<lparr>tasks := (tasks s)[i := set_mark mark (tasks s ! i)]\<rparr>))"

text \<open>\<open>i\<close> is the position of the task.\<close>

definition tamisu_clear_task_tracepoint_flag_if_needed :: "nat \<Rightarrow> 'db kb \<Rightarrow> 'db kb" where
  "tamisu_clear_task_tracepoint_flag_if_needed i s =
     (if reg_count s \<le> 1 then s\<lparr>tasks := (tasks s)[i := set_mark False (tasks s ! i)]\<rparr> else s)"

text \<open>Someone starts or stops to use the system call tracepoint.\<close>

definition syscall_regfunc_handler :: "'db selinux \<Rightarrow> 'db kb \<Rightarrow> 'db kb" where
  "syscall_regfunc_handler se s =
     (let s1 = (if reg_count s < 1 then tamisu_mark_running_process_locked se s
                else if reg_count s = 1 then tamisu_mark_all_process s else s)
      in s1\<lparr>reg_count := reg_count s1 + 1\<rparr>)"

definition syscall_unregfunc_handler :: "'db selinux \<Rightarrow> 'db kb \<Rightarrow> 'db kb" where
  "syscall_unregfunc_handler se s =
     (let s1 = s\<lparr>reg_count := reg_count s - 1\<rparr> in
      if reg_count s1 \<le> 0 then tamisu_unmark_all_process s1
      else if reg_count s1 = 1 then tamisu_mark_running_process_locked se s1 else s1)"

section \<open>Executed programs\<close>

text \<open>An entry of an argument vector: a text, a pointer to memory that cannot be read, or an entry that cannot be read.\<close>

datatype uptr = UStr string | UBadStr | UFault

definition K_EFAULT :: int where "K_EFAULT = 14"
definition ERESTARTNOHAND :: int where "ERESTARTNOHAND = 514"

text \<open>\<open>fatal\<close>: a fatal signal is pending.\<close>

fun count_args :: "bool \<Rightarrow> uptr list \<Rightarrow> int \<Rightarrow> int" where
  "count_args fatal [] i = i"
| "count_args fatal (p # ps) i =
     (if p = UFault then - K_EFAULT else if i \<ge> 0x7fffffff then - 7 else if fatal then - ERESTARTNOHAND else count_args fatal ps (i + 1))"

definition check_argv :: "bool \<Rightarrow> uptr list \<Rightarrow> nat \<Rightarrow> string \<Rightarrow> nat \<Rightarrow> bool" where
  "check_argv fatal argv index expected buf_len =
     (if count_args fatal argv 0 \<le> int index then False
      else (case argv ! index of
              UStr s \<Rightarrow> c_str s \<noteq> [] \<and> take (buf_len - 1) (c_str s) = expected
            | _ \<Rightarrow> False))"

text \<open>One text of the environment: what stands before and after its first equals sign.\<close>

definition is_second_stage_env :: "uptr \<Rightarrow> bool" where
  "is_second_stage_env p =
     (case p of
        UStr s \<Rightarrow>
          (let env = take 256 (c_str s) in
           CHR ''='' \<in> set env \<and> takeWhile (\<lambda>c. c \<noteq> CHR ''='') env = ''INIT_SECOND_STAGE'' \<and>
           tl (dropWhile (\<lambda>c. c \<noteq> CHR ''='') env) \<in> {''1'', ''true''})
      | _ \<Rightarrow> False)"

definition second_stage_now ::
  "bool \<Rightarrow> string \<Rightarrow> uptr list option \<Rightarrow> uptr list option \<Rightarrow> bool" where
  "second_stage_now fatal filename argv envp =
     (case argv of
        None \<Rightarrow> False
      | Some argv \<Rightarrow>
          if prefix ''/system/bin/init'' filename then check_argv fatal argv 1 ''second_stage'' 16
          else if prefix ''/init'' filename
          then
            (let argc = count_args fatal argv 0 in
             if argc > 1 then check_argv fatal argv 1 ''--second-stage'' 16
             else if argc = 1
             then (case envp of
                     None \<Rightarrow> False
                   | Some env \<Rightarrow> list_ex is_second_stage_env (tl (take (nat (count_args fatal env 0)) env)))
             else False)
          else False)"

definition tamisu_handle_execveat_tamisu_daemon ::
  "'db selinux \<Rightarrow> bool \<Rightarrow> string \<Rightarrow> uptr list option \<Rightarrow> uptr list option \<Rightarrow> 'db kb \<Rightarrow> 'db kb" where
  "tamisu_handle_execveat_tamisu_daemon se fatal filename argv envp s =
     (let s1 = (if \<not> init_second_stage_executed s \<and> second_stage_now fatal filename argv envp
                then (tamisu_initialize_selinux se s)\<lparr>init_second_stage_executed := True\<rparr> else s)
      in case argv of
           None \<Rightarrow> s1
         | Some argv \<Rightarrow>
             if first_zygote s1 \<and> prefix ''/system/bin/app_process'' filename \<and> check_argv fatal argv 1 ''-Xzygote'' 16
             then (on_post_fs_data se s1)\<lparr>first_zygote := False, execve_key := False\<rparr>
             else s1)"

text \<open>The name of the program as user memory has it, \<open>None\<close> when it cannot be read.\<close>

definition tamisu_execve_hook_tamisu_daemon ::
  "'db selinux \<Rightarrow> bool \<Rightarrow> string option \<Rightarrow> uptr list option \<Rightarrow> 'db kb \<Rightarrow> 'db kb" where
  "tamisu_execve_hook_tamisu_daemon se fatal filename argv s =
     (case filename of
        None \<Rightarrow> s
      | Some f \<Rightarrow> tamisu_handle_execveat_tamisu_daemon se fatal (take 32 (c_str f)) argv None s)"

definition tamisu_handle_init_mark_tracker :: "nat \<Rightarrow> string option \<Rightarrow> 'db kb \<Rightarrow> 'db kb" where
  "tamisu_handle_init_mark_tracker i filename s =
     (case filename of
        None \<Rightarrow> s
      | Some f \<Rightarrow>
          (let path = take 63 (c_str f) in
           if \<not> contains ''/app_process'' path \<and> \<not> contains ''/adbd'' path
           then tamisu_clear_task_tracepoint_flag_if_needed i s else s))"

text \<open>The hook of execve, before the call itself; the caller is the task at position \<open>i\<close>.\<close>

definition tamisu_hook_execve ::
  "'db selinux \<Rightarrow> bool \<Rightarrow> nat \<Rightarrow> string option \<Rightarrow> uptr list option \<Rightarrow> 'db kb \<Rightarrow> 'db kb" where
  "tamisu_hook_execve se fatal i filename argv s =
     (let s1 = (if execve_key s then tamisu_execve_hook_tamisu_daemon se fatal filename argv s else s) in
      if tk_pid (tasks s1 ! i) \<noteq> 1 \<and> is_init se s1 (tk_sid (tasks s1 ! i))
      then tamisu_handle_init_mark_tracker i filename s1 else s1)"

end
