(* ===== verification/Kernel_Boot_Props.thy ===== *)
theory Kernel_Boot_Props
  imports Kernel_Boot
begin

text \<open>
  Three presses of the volume key mean safe mode; the rules of the module are applied once; the
  cached ids say what the contexts say; which processes are marked.
\<close>

section \<open>Safe mode\<close>

datatype input_step = Key u32 u32 int | StopWork

definition input_do :: "input_step \<Rightarrow> 'db kb \<Rightarrow> 'db kb" where
  "input_do e s =
     (case e of
        Key ty code val \<Rightarrow> if input_registered s then tamisu_handle_input_handle_event ty code val s else s
      | StopWork \<Rightarrow> if input_hook_stopped s then do_stop_input_hook s else s)"

definition pressed :: "input_step \<Rightarrow> bool" where
  "pressed e = (case e of Key ty code val \<Rightarrow> ty = EV_KEY \<and> code = KEY_VOLUMEDOWN \<and> val \<noteq> 0 | StopWork \<Rightarrow> False)"

definition presses :: "input_step list \<Rightarrow> nat" where
  "presses es = length (filter pressed es)"

text \<open>The probe counts until it is taken away, which happens after the third press at the earliest.\<close>

definition key_inv :: "nat \<Rightarrow> 'db kb \<Rightarrow> bool" where
  "key_inv n s \<longleftrightarrow> \<not> late_loaded s \<and> \<not> safe_mode s \<and>
     (if input_hook_stopped s then 3 \<le> unat (volumedown_pressed_count s) \<and> unat (volumedown_pressed_count s) \<le> n
      else input_registered s \<and> unat (volumedown_pressed_count s) = n)"

lemma key_inv_step:
  assumes "key_inv n s" "n < 2 ^ 32 - 1"
  shows "key_inv (if pressed e then Suc n else n) (input_do e s)"
proof -
  have b: "unat (volumedown_pressed_count s + 1) = Suc (unat (volumedown_pressed_count s))"
    if "unat (volumedown_pressed_count s) \<le> n"
    using that assms(2) by (simp add: unat_word_ariths)
  show ?thesis
    using assms(1) b
    by (cases e) (auto simp: input_do_def pressed_def key_inv_def tamisu_handle_input_handle_event_def Let_def
        do_stop_input_hook_def stop_input_hook_def is_volumedown_enough_def word_le_nat_alt)
qed

lemma key_inv_run:
  "key_inv n s \<Longrightarrow> n + length es < 2 ^ 32 \<Longrightarrow> key_inv (n + presses es) (fold input_do es s)"
proof (induction es arbitrary: n s)
  case (Cons e es)
  have "key_inv ((if pressed e then Suc n else n) + presses es) (fold input_do es (input_do e s))"
    using Cons.prems by (intro Cons.IH key_inv_step) auto
  then show ?case by (simp add: presses_def split: if_splits)
qed (simp add: presses_def)

lemma safe_mode_kept: "safe_mode s \<Longrightarrow> safe_mode (fold input_do es s)"
proof (induction es arbitrary: s)
  case (Cons e es)
  have "safe_mode (input_do e s)" using Cons.prems
    by (cases e) (auto simp: input_do_def tamisu_handle_input_handle_event_def Let_def do_stop_input_hook_def stop_input_hook_def)
  then show ?case using Cons.IH by simp
qed simp

text \<open>
  When the module asks for safe mode, the answer is yes exactly when the key was reported down
  (pressed or held) at least three times, wherever the work that takes the probe away ran in
  between; and a yes stays.
\<close>

theorem safe_mode_three_presses:
  assumes "length es < 2 ^ 32" "tamisu_is_safe_mode (fold input_do es (kb_start False db cred ts)) = (yes, s)"
  shows "(yes \<longleftrightarrow> 3 \<le> presses es) \<and> (yes \<longrightarrow> fst (tamisu_is_safe_mode (fold input_do later s)))"
proof -
  define s0 :: "'a kb" where "s0 = fold input_do es (kb_start False db cred ts)"
  have "key_inv 0 (kb_start False db cred ts)" by (simp add: key_inv_def kb_start_def)
  then have k: "key_inv (presses es) s0" using key_inv_run [of 0 _ es] assms(1) by (simp add: s0_def)
  have y: "tamisu_is_safe_mode s0 = (yes, s)" using assms(2) by (simp add: s0_def)
  then have "yes \<longleftrightarrow> 3 \<le> presses es" using k
    by (auto simp: tamisu_is_safe_mode_def Let_def key_inv_def stop_input_hook_def is_volumedown_enough_def word_le_nat_alt split: if_splits)
  moreover have "yes \<Longrightarrow> safe_mode s"
    using y by (auto simp: tamisu_is_safe_mode_def Let_def split: if_splits)
  ultimately show ?thesis using safe_mode_kept [of s later] by (auto simp: tamisu_is_safe_mode_def)
qed

theorem safe_mode_three_presses_witness:
  "\<exists>s. tamisu_is_safe_mode (fold input_do [Key 1 114 1, Key 1 114 2, Key 1 115 1, Key 1 114 2, StopWork, Key 1 114 1] (kb_start False () None [])) =
     (True, s)"
proof -
  let ?es = "[Key 1 114 1, Key 1 114 2, Key 1 115 1, Key 1 114 2, StopWork, Key 1 114 1]"
  obtain yes s where e: "tamisu_is_safe_mode (fold input_do ?es (kb_start False () None [])) = (yes, s)" by (metis prod.collapse)
  have "3 \<le> presses ?es" by (simp add: presses_def pressed_def EV_KEY_def KEY_VOLUMEDOWN_def)
  then have yes using safe_mode_three_presses [OF _ e] by simp
  then show ?thesis using e by auto
qed

section \<open>Security ids\<close>

text \<open>The two calls of the security server agree, and no id is zero.\<close>

definition coherent :: "'db selinux \<Rightarrow> 'db \<Rightarrow> bool" where
  "coherent se db \<longleftrightarrow>
     (\<forall>c sid. secctx_to_secid se db c = Some sid \<longrightarrow> sid \<noteq> 0 \<and> secid_to_secctx se db sid = Some (c, Suc (length c))) \<and>
     (\<forall>sid c n. secid_to_secctx se db sid = Some (c, n) \<longrightarrow> NUL \<notin> set c \<and> n = Suc (length c) \<and> secctx_to_secid se db c = Some sid)"

lemma coherent_sid:
  assumes "coherent se db" "secctx_to_secid se db c = Some sid"
  shows "sid \<noteq> 0 \<and> secid_to_secctx se db sid = Some (c, Suc (length c))"
  using assms(1) [unfolded coherent_def, THEN conjunct1, rule_format, OF assms(2)] .

lemma coherent_ctx:
  assumes "coherent se db" "secid_to_secctx se db sid = Some (c, n)"
  shows "NUL \<notin> set c \<and> n = Suc (length c) \<and> secctx_to_secid se db c = Some sid"
  using assms(1) [unfolded coherent_def, THEN conjunct2, rule_format, OF assms(2)] .

lemma strncmp_whole: "NUL \<notin> set a \<Longrightarrow> NUL \<notin> set b \<Longrightarrow> strncmp_eq a b (Suc (length b)) \<longleftrightarrow> a = b"
proof
  assume n: "NUL \<notin> set a" "NUL \<notin> set b" and e: "strncmp_eq a b (Suc (length b))"
  then have t: "take (Suc (length b)) (a @ [NUL]) = b @ [NUL]" by (simp add: strncmp_eq_def)
  show "a = b"
  proof (cases "Suc (length b) \<le> length a")
    case True
    then have "take (Suc (length b)) a = b @ [NUL]" using t by simp
    then have "NUL \<in> set a" by (metis in_set_conv_decomp in_set_takeD)
    then show ?thesis using n(1) by simp
  next
    case False
    then show ?thesis using t by simp
  qed
qed (simp add: strncmp_eq_def)

text \<open>
  With a coherent security server, comparing with a cached id is the same as comparing the text
  of the context, whether or not the id could be cached.
\<close>

theorem cached_id_is_context:
  assumes "coherent se db" "NUL \<notin> set context"
  shows "is_sid_match se db cred (sid_or_zero se db context) context = is_sid_match se db cred 0 context"
proof (cases cred)
  case (Some sid)
  show ?thesis
  proof (cases "secctx_to_secid se db context")
    case None
    then show ?thesis by (simp add: sid_or_zero_def)
  next
    case cs: (Some c_sid)
    then have z: "c_sid \<noteq> 0" "secid_to_secctx se db c_sid = Some (context, Suc (length context))"
      using coherent_sid [OF assms(1) cs] by simp_all
    have "(sid = c_sid) = (case secid_to_secctx se db sid of None \<Rightarrow> False | Some (c, len) \<Rightarrow> strncmp_eq context c len)"
    proof (cases "secid_to_secctx se db sid")
      case None
      then show ?thesis using z by auto
    next
      case c: (Some p)
      obtain c n where p: "p = (c, n)" by force
      have n: "NUL \<notin> set c" "n = Suc (length c)" and sid: "secctx_to_secid se db c = Some sid"
        using coherent_ctx [OF assms(1) c [unfolded p]] by simp_all
      have "(sid = c_sid) = (context = c)"
      proof
        assume "sid = c_sid" then show "context = c" using z(2) c p by simp
      next
        assume "context = c" then show "sid = c_sid" using sid cs by simp
      qed
      then show ?thesis unfolding c p n(2) using strncmp_whole [OF assms(2) n(1)] by simp
    qed
    then show ?thesis using z by (simp add: is_sid_match_def Some sid_or_zero_def cs)
  qed
qed (simp add: is_sid_match_def)

definition demo_selinux :: "bool selinux" where
  "demo_selinux = \<lparr>secctx_to_secid = (\<lambda>db c. if db \<and> c = TAMISU_CONTEXT then Some 7 else if c = ZYGOTE_CONTEXT then Some 5 else None),
     secid_to_secctx = (\<lambda>db sid. if db \<and> sid = 7 then Some (TAMISU_CONTEXT, 10) else if sid = 5 then Some (ZYGOTE_CONTEXT, 14) else None),
     apply_rules = (\<lambda>_. True)\<rparr>"

theorem cached_id_is_context_witness:
  "is_sid_match demo_selinux True (Some 5) (sid_or_zero demo_selinux True ZYGOTE_CONTEXT) ZYGOTE_CONTEXT =
     is_sid_match demo_selinux True (Some 5) 0 ZYGOTE_CONTEXT"
  by (rule cached_id_is_context)
    (auto simp: coherent_def demo_selinux_def TAMISU_CONTEXT_def ZYGOTE_CONTEXT_def split: if_splits)

section \<open>The rules are applied once\<close>

text \<open>Everything that reaches the state during the boot, in any order.\<close>

datatype kb_step =
    Exec bool nat "string option" "uptr list option"
  | Event u32
  | Input input_step
  | AskSafeMode
  | Reg
  | Unreg
  | Refresh

definition kb_do :: "'db selinux \<Rightarrow> kb_step \<Rightarrow> 'db kb \<Rightarrow> 'db kb" where
  "kb_do se e s =
     (case e of
        Exec fatal i filename argv \<Rightarrow> tamisu_hook_execve se fatal i filename argv s
      | Event ev \<Rightarrow> report_event se ev s
      | Input k \<Rightarrow> input_do k s
      | AskSafeMode \<Rightarrow> snd (tamisu_is_safe_mode s)
      | Reg \<Rightarrow> syscall_regfunc_handler se s
      | Unreg \<Rightarrow> syscall_unregfunc_handler se s
      | Refresh \<Rightarrow> tamisu_mark_running_process se s)"

text \<open>What the second stage of init changes.\<close>

definition sids :: "'db kb \<Rightarrow> u32 \<times> u32 \<times> u32" where
  "sids s = (cached_su_sid s, cached_zygote_sid s, cached_init_sid s)"

definition sids_of :: "'db selinux \<Rightarrow> 'db \<Rightarrow> u32 \<times> u32 \<times> u32" where
  "sids_of se db = (sid_or_zero se db TAMISU_CONTEXT, sid_or_zero se db ZYGOTE_CONTEXT, sid_or_zero se db INIT_CONTEXT)"

definition rules_inv :: "'db selinux \<Rightarrow> 'db \<Rightarrow> 'db kb \<Rightarrow> bool" where
  "rules_inv se db s \<longleftrightarrow>
     (if init_second_stage_executed s then kb_db s = apply_rules se db \<and> sids s = sids_of se (apply_rules se db)
      else kb_db s = db \<and> sids s = (0, 0, 0))"

text \<open>The rest of the state does not matter for it.\<close>

definition same_rules :: "'db kb \<Rightarrow> 'db kb \<Rightarrow> bool" where
  "same_rules s s' \<longleftrightarrow> kb_db s' = kb_db s \<and> sids s' = sids s \<and> init_second_stage_executed s' = init_second_stage_executed s"

lemma same_rules_inv: "same_rules s s' \<Longrightarrow> rules_inv se db s \<Longrightarrow> rules_inv se db s'"
  by (simp add: same_rules_def rules_inv_def)

lemmas mark_defs = tamisu_mark_running_process_def tamisu_mark_running_process_locked_def syscall_regfunc_handler_def
  syscall_unregfunc_handler_def tamisu_mark_all_process_def tamisu_unmark_all_process_def handle_process_mark_def

lemmas boot_defs = report_event_def on_post_fs_data_def kernel_boot_completed_def stop_input_hook_def do_stop_input_hook_def
  tamisu_is_safe_mode_def input_do_def tamisu_handle_input_handle_event_def

lemma same_rules_marks:
  "same_rules s (tamisu_mark_running_process se s)" "same_rules s (syscall_regfunc_handler se s)"
  "same_rules s (syscall_unregfunc_handler se s)"
  by (auto simp: mark_defs same_rules_def sids_def Let_def)

lemma same_rules_boot:
  "same_rules s (report_event se ev s)" "same_rules s (input_do k s)" "same_rules s (snd (tamisu_is_safe_mode s))"
  "same_rules s (on_post_fs_data se s)"
  by (auto simp: boot_defs same_rules_def sids_def Let_def split: input_step.splits)

lemma same_rules_tracker: "same_rules s (tamisu_handle_init_mark_tracker i filename s)"
  by (auto simp: tamisu_handle_init_mark_tracker_def tamisu_clear_task_tracepoint_flag_if_needed_def same_rules_def sids_def Let_def
      split: option.splits)

lemma initialized:
  "kb_db (tamisu_initialize_selinux se s) = apply_rules se (kb_db s)"
  "sids (tamisu_initialize_selinux se s) = sids_of se (apply_rules se (kb_db s))"
  by (auto simp: tamisu_initialize_selinux_def setup_tamisu_cred_def cache_sid_def sids_def sids_of_def split: option.splits)

lemma rules_inv_execveat:
  assumes "rules_inv se db s"
  shows "rules_inv se db (tamisu_handle_execveat_tamisu_daemon se fatal f argv envp s)"
proof -
  define s1 where "s1 = (if \<not> init_second_stage_executed s \<and> second_stage_now fatal f argv envp
    then (tamisu_initialize_selinux se s)\<lparr>init_second_stage_executed := True\<rparr> else s)"
  have s1: "rules_inv se db s1"
    using assms initialized [of se s] by (auto simp: s1_def rules_inv_def sids_def)
  have "same_rules s1 ((on_post_fs_data se s1)\<lparr>first_zygote := False, execve_key := False\<rparr>)"
    using same_rules_boot(4) [of s1 se] by (simp add: same_rules_def sids_def)
  then have "rules_inv se db ((on_post_fs_data se s1)\<lparr>first_zygote := False, execve_key := False\<rparr>)"
    using s1 by (rule same_rules_inv)
  then show ?thesis using s1
    by (simp add: tamisu_handle_execveat_tamisu_daemon_def Let_def s1_def [symmetric] split: option.splits)
qed

lemma rules_inv_step: "rules_inv se db s \<Longrightarrow> rules_inv se db (kb_do se e s)"
proof (cases e)
  case (Exec fatal i filename argv)
  assume s: "rules_inv se db s"
  have "rules_inv se db (tamisu_execve_hook_tamisu_daemon se fatal filename argv s)"
    using s rules_inv_execveat by (auto simp: tamisu_execve_hook_tamisu_daemon_def split: option.splits)
  then show ?thesis using s Exec same_rules_inv [OF same_rules_tracker]
    by (auto simp: kb_do_def tamisu_hook_execve_def Let_def)
qed (auto simp: kb_do_def intro: same_rules_inv same_rules_boot same_rules_marks)


section \<open>Marks\<close>

text \<open>
  When a second user of the tracepoint comes and goes, the marks of the processes are again
  those the module wants, except that every kernel thread keeps the mark it got.
\<close>

theorem marks_after_tracer:
  assumes "reg_count s = 1" "t \<in> set (tasks (syscall_unregfunc_handler se (syscall_regfunc_handler se s)))"
  shows "tk_marked t \<longleftrightarrow> (tk_pid t \<noteq> 1 \<and> \<not> tk_mm t) \<or> wanted_mark se s t"
  using assms
  by (auto simp: mark_defs Let_def set_mark_def wanted_mark_def is_task_tamisu_domain_def is_zygote_def)

definition traced_kb :: "bool kb" where
  "traced_kb = (kb_start False True None [\<lparr>tk_pid = 9, tk_uid = 0, tk_sid = Some 1, tk_mm = False, tk_marked = False\<rparr>])\<lparr>reg_count := 1\<rparr>"

theorem marks_after_tracer_witness:
  "\<exists>t. tasks (syscall_unregfunc_handler demo_selinux (syscall_regfunc_handler demo_selinux traced_kb)) = [t] \<and>
     tk_marked t \<and> \<not> tk_mm t"
proof -
  let ?t = "\<lparr>tk_pid = 9, tk_uid = 0, tk_sid = Some 1, tk_mm = False, tk_marked = True\<rparr>"
  have n: "tasks (syscall_unregfunc_handler demo_selinux (syscall_regfunc_handler demo_selinux traced_kb)) = [?t]"
    by (simp add: mark_defs traced_kb_def kb_start_def Let_def set_mark_def)
  have "reg_count traced_kb = 1" by (simp add: traced_kb_def)
  from marks_after_tracer [OF this, of ?t demo_selinux] have "tk_marked ?t" unfolding n by simp
  then show ?thesis using n by auto
qed

end
