(* ===== verification/Supercall.thy ===== *)
theory Supercall
  imports Kernel_Boot Zygote_Kernel Zygote_Probe Sepolicy_Batch
begin

text \<open>
  The calls user space makes on the kernel module: the handshake (\<^verbatim>\<open>core/tamisu_supercall.c\<close>), who
  may call what (\<^verbatim>\<open>tamisu_perm.c\<close>) and the table of commands with their handlers
  (\<^verbatim>\<open>tamisu_dispatch.c\<close>).

  The state gathers those of the other components.  An argument is the memory that can be read from
  its address on; a reply is what is written there.  \<open>call\<close> is the calling process and what the
  kernel answers during the call.
\<close>

section \<open>State\<close>

text \<open>The memory of a process: its users, and its argument area, which may not be readable.\<close>

record mm =
  mm_users :: nat
  mm_args :: string
  mm_readable :: bool

record unmap_tw =
  tw_pid :: u32
  tw_segs :: "(u64 \<times> u64) list"
  tw_retry :: u32

record 'db drv =
  dv_kb :: "'db kb"
  dv_zk :: zk
  dv_zp :: "zp kernel"
  dv_np :: np
  dv_mm :: "u32 \<Rightarrow> mm option"
  dv_unmap :: "unmap_tw list"
  dv_patched :: "(u32 \<times> u64 \<times> bytes) list"
  dv_init_group :: "u32 set"

record 'db kworld =
  w_selinux :: "'db selinux"
  w_patch :: "(u32 \<times> u32) \<Rightarrow> string option list \<Rightarrow> 'db \<Rightarrow> int \<times> 'db"
  w_version :: u32
  w_version_str :: string
  w_task_size :: u64

record call =
  c_pid :: u32
  c_uid :: u32
  c_arg :: bytes
  c_writable :: bool
  c_mem :: "u64 \<Rightarrow> nat \<Rightarrow> bytes option"
  c_fdt :: "int \<Rightarrow> kfile option"
  c_wrapper :: "u32 \<Rightarrow> int"
  c_init_session :: bool
  c_alloc_ok :: bool
  c_queue_ok :: bool
  c_wrote :: int
  c_junk :: bool

type_synonym 'db handler_fn = "call \<Rightarrow> 'db drv \<Rightarrow> int \<times> bytes \<times> 'db drv"

definition K_EPERM :: int where "K_EPERM = 1"
definition K_ENOMEM :: int where "K_ENOMEM = 12"
definition K_ENAMETOOLONG :: int where "K_ENAMETOOLONG = 36"

section \<open>Who may call\<close>

definition is_appuid :: "u32 \<Rightarrow> bool" where
  "is_appuid uid \<longleftrightarrow> (let appid = uid mod 100000 in appid \<ge> 10000 \<and> appid \<le> 19999)"

text \<open>\<^verbatim>\<open>get_task_mm\<close> and \<^verbatim>\<open>mmget_not_zero\<close> both take a user, \<^verbatim>\<open>mmput\<close> gives one back.\<close>

definition add_users :: "u32 \<Rightarrow> nat \<Rightarrow> 'db drv \<Rightarrow> 'db drv" where
  "add_users pid n s =
     s\<lparr>dv_mm := (dv_mm s)(pid := map_option (\<lambda>m. m\<lparr>mm_users := mm_users m + n\<rparr>) (dv_mm s pid))\<rparr>"

definition mmput :: "u32 \<Rightarrow> 'db drv \<Rightarrow> 'db drv" where
  "mmput pid s = s\<lparr>dv_mm := (dv_mm s)(pid := map_option (\<lambda>m. m\<lparr>mm_users := mm_users m - 1\<rparr>) (dv_mm s pid))\<rparr>"

definition read_current_cmdline :: "nat \<Rightarrow> u32 \<Rightarrow> 'db drv \<Rightarrow> (int + string) \<times> 'db drv" where
  "read_current_cmdline buflen pid s =
     (case dv_mm s pid of
        None \<Rightarrow> (Inl (- K_EINVAL), s)
      | Some m \<Rightarrow>
          (let s1 = add_users pid 1 (add_users pid 1 s) in
           if length (mm_args m) > buflen - 1 then (Inl (- K_ENAMETOOLONG), mmput pid s1)
           else if mm_args m = [] then (Inl (- K_EINVAL), mmput pid s1)
           else if \<not> mm_readable m then (Inl (- K_EFAULT), mmput pid s1)
           else (Inr (mm_args m), mmput pid s1)))"

definition trusted_names :: "string list" where
  "trusted_names = [''me.dabao1955.tamisu'', ''tamisu_daemon'', ''zygiskd'']"

definition starts_trusted :: "string \<Rightarrow> string \<Rightarrow> bool" where
  "starts_trusted buf name \<longleftrightarrow>
     prefix name buf \<and> (buf @ [NUL]) ! length name \<in> {NUL, CHR '':'', CHR '' '', NL}"

definition is_trusted_process :: "u32 \<Rightarrow> 'db drv \<Rightarrow> bool \<times> 'db drv" where
  "is_trusted_process pid s =
     (case read_current_cmdline 256 pid s of
        (Inl _, s1) \<Rightarrow> (False, s1)
      | (Inr buf, s1) \<Rightarrow> (list_ex (starts_trusted buf) trusted_names, s1))"

definition only_root :: "call \<Rightarrow> 'db drv \<Rightarrow> bool \<times> 'db drv" where
  "only_root c s = (c_uid c = 0, s)"

definition trusted_caller :: "call \<Rightarrow> 'db drv \<Rightarrow> bool \<times> 'db drv" where
  "trusted_caller c s = (if c_uid c = 0 then (True, s) else is_trusted_process (c_pid c) s)"

definition always_allow :: "call \<Rightarrow> 'db drv \<Rightarrow> bool \<times> 'db drv" where
  "always_allow c s = (True, s)"

definition injected_app :: "call \<Rightarrow> 'db drv \<Rightarrow> bool \<times> 'db drv" where
  "injected_app c s = (is_appuid (c_uid c), s)"

section \<open>Arguments and replies\<close>

definition copy_from_user :: "nat \<Rightarrow> call \<Rightarrow> bytes option" where
  "copy_from_user n c = (if length (c_arg c) < n then None else Some (take n (c_arg c)))"

definition copy_to_user :: "call \<Rightarrow> bytes \<Rightarrow> 'db drv \<Rightarrow> int \<times> bytes \<times> 'db drv" where
  "copy_to_user c bs s = (if c_writable c then (0, bs, s) else (- K_EFAULT, [], s))"

definition u32_at :: "nat \<Rightarrow> bytes \<Rightarrow> u32" where
  "u32_at i bs = of_nat (le_nat (take 4 (drop i bs)))"

definition u64_at :: "nat \<Rightarrow> bytes \<Rightarrow> u64" where
  "u64_at i bs = of_nat (le_nat (take 8 (drop i bs)))"

definition with_arg :: "nat \<Rightarrow> (bytes \<Rightarrow> 'db handler_fn) \<Rightarrow> 'db handler_fn" where
  "with_arg n f c s = (case copy_from_user n c of None \<Rightarrow> (- K_EFAULT, [], s) | Some buf \<Rightarrow> f buf c s)"

text \<open>A text copied into a field of \<open>n\<close> bytes.\<close>

definition strscpy :: "nat \<Rightarrow> string \<Rightarrow> bytes" where
  "strscpy n t = (let t' = take (n - 1) (c_str t) in str_bytes t' @ replicate (n - length t') 0)"

definition on_kb :: "('db kb \<Rightarrow> 'db kb) \<Rightarrow> 'db drv \<Rightarrow> 'db drv" where
  "on_kb f s = s\<lparr>dv_kb := f (dv_kb s)\<rparr>"

section \<open>Handlers\<close>

definition do_get_info :: "'db kworld \<Rightarrow> 'db handler_fn" where
  "do_get_info w c s =
     copy_to_user c (u32_le (w_version w) @ u32_le (1 + (if late_loaded (dv_kb s) then 4 else 0)) @ u32_le FEATURE_MAX) s"

definition do_report_event :: "'db kworld \<Rightarrow> 'db handler_fn" where
  "do_report_event w = with_arg 4 (\<lambda>buf c s. (0, [], on_kb (report_event (w_selinux w) (u32_at 0 buf)) s))"

definition do_set_sepolicy :: "'db kworld \<Rightarrow> 'db handler_fn" where
  "do_set_sepolicy w = with_arg 16 (\<lambda>buf c s.
     let len = unat (u64_at 0 buf); db = kb_db (dv_kb s) in
     if len = 0 then (- K_EINVAL, [], s)
     else if len > MAX_BATCH_SIZE then (- E2BIG, [], s)
     else (case c_mem c (u64_at 8 buf) len of
             None \<Rightarrow> (- K_EFAULT, [], s)
           | Some data \<Rightarrow>
               (case handle_sepolicy (w_patch w) data db of
                  (r, db') \<Rightarrow> (r, [], on_kb (\<lambda>k. k\<lparr>kb_db := db'\<rparr>) s))))"

definition do_check_safemode :: "'db handler_fn" where
  "do_check_safemode c s =
     (case tamisu_is_safe_mode (dv_kb s) of
        (yes, k) \<Rightarrow> copy_to_user c [if yes then 1 else 0] (s\<lparr>dv_kb := k\<rparr>))"

text \<open>The caller joins the process group of the first task when it is in its session.\<close>

definition do_set_init_pgrp :: "'db handler_fn" where
  "do_set_init_pgrp c s =
     (if \<not> c_init_session c then (- K_EPERM, [], s) else (0, [], s\<lparr>dv_init_group := insert (c_pid c) (dv_init_group s)\<rparr>))"

definition do_get_feature_call :: "'db handler_fn" where
  "do_get_feature_call = with_arg 24 (\<lambda>buf c s.
     case tamisu_get_feature (u32_at 0 buf) (dv_zp s) of
       (ret, v, supported) \<Rightarrow>
         (let sup = (case supported of None \<Rightarrow> c_junk c | Some b \<Rightarrow> b) in
          if ret \<noteq> 0 \<and> sup then (ret, [], s)
          else copy_to_user c
                 (take 8 buf @ (if supported = None then take 8 (drop 8 buf) else u64_le v) @ [if sup then 1 else 0] @ drop 17 buf) s))"

definition do_set_feature_call :: "'db handler_fn" where
  "do_set_feature_call = with_arg 16 (\<lambda>buf c s.
     case tamisu_set_feature (u32_at 0 buf) (u64_at 8 buf) (dv_zp s) of (ret, k) \<Rightarrow> (ret, [], s\<lparr>dv_zp := k\<rparr>))"

text \<open>\<open>c_wrapper\<close> is the result of \<^verbatim>\<open>tamisu_install_file_wrapper\<close>.\<close>

definition do_get_wrapper_fd :: "'db handler_fn" where
  "do_get_wrapper_fd c s =
     (if tamisu_file_sid (dv_kb s) = 0 then (- K_EINVAL, [], s)
      else with_arg 8 (\<lambda>buf c s. (c_wrapper c (u32_at 0 buf), [], s)) c s)"

definition do_manage_mark :: "'db kworld \<Rightarrow> 'db handler_fn" where
  "do_manage_mark w = with_arg 12 (\<lambda>buf c s.
     let op = u32_at 0 buf; pid = u32_at 4 buf;
         set_marks = (\<lambda>mark all.
           if pid = 0 then copy_to_user c buf (on_kb all s)
           else (case tamisu_set_task_mark pid mark (dv_kb s) of
                   (ret, k) \<Rightarrow> if ret < 0 then (ret, [], s) else copy_to_user c buf (s\<lparr>dv_kb := k\<rparr>)))
     in if op = 1
        then (let ret = tamisu_get_task_mark pid (dv_kb s) in
              if ret < 0 then (ret, [], s) else copy_to_user c (take 8 buf @ u32_le (of_int ret)) s)
        else if op = 2 then set_marks True tamisu_mark_all_process
        else if op = 3 then set_marks False tamisu_unmark_all_process
        else if op = 4 then copy_to_user c buf (on_kb (tamisu_mark_running_process (w_selinux w)) s)
        else (- K_EINVAL, [], s))"

definition do_get_full_version :: "'db kworld \<Rightarrow> 'db handler_fn" where
  "do_get_full_version w c s = copy_to_user c (strscpy 255 (w_version_str w)) s"

definition do_get_hook_type :: "'db handler_fn" where
  "do_get_hook_type c s = copy_to_user c (strscpy 32 ''TSR Hook'') s"

definition do_get_uapi_version :: "'db handler_fn" where
  "do_get_uapi_version c s = copy_to_user c (u32_le 2) s"

definition handoff_of :: "bytes \<Rightarrow> handoff_cmd" where
  "handoff_of buf = \<lparr>h_pid = u32_at 0 buf, h_appid = u32_at 4 buf, h_flags = u32_at 12 buf, h_n_fds = u32_at 8 buf,
     h_fds = map (\<lambda>i. sint (u32_at (16 + 4 * i) buf)) [0..<8]\<rparr>"

definition do_yz_handoff :: "'db handler_fn" where
  "do_yz_handoff = with_arg 48 (\<lambda>buf c s.
     case tamisu_zygote_ctl_handoff (c_fdt c) (task_slot (u32_at 0 buf) (dv_kb s) \<noteq> None) (c_queue_ok c) (handoff_of buf) (dv_zk s) of
       (ret, k) \<Rightarrow> (ret, [], s\<lparr>dv_zk := k\<rparr>))"

definition on_zp :: "(zp \<Rightarrow> zp) \<Rightarrow> 'db drv \<Rightarrow> 'db drv" where
  "on_zp f s = s\<lparr>dv_zp := (dv_zp s)\<lparr>kdata := f (kdata (dv_zp s))\<rparr>\<rparr>"

definition do_yz_set_dlopen :: "'db handler_fn" where
  "do_yz_set_dlopen = with_arg 16 (\<lambda>buf c s. (0, [], on_zp (tamisu_zygote_probe_set_dlopen_off (u64_at 0 buf) (u64_at 8 buf)) s))"

definition do_yz_reload :: "'db handler_fn" where
  "do_yz_reload c s = (0, [], s\<lparr>dv_zk := multicast (2, 0, 0) (dv_zk s)\<rparr>)"

definition do_yz_set_zygisk_linker :: "'db handler_fn" where
  "do_yz_set_zygisk_linker = with_arg 4 (\<lambda>buf c s. (0, [], on_zp (tamisu_zygote_probe_set_zygisk_linker (u32_at 0 buf \<noteq> 0)) s))"

definition targets_of :: "bytes \<Rightarrow> (nat \<times> string) list" where
  "targets_of buf = map (\<lambda>i. (unat (buf ! (4 + 260 * i)), bytes_str (take 256 (drop (8 + 260 * i) buf)))) [0..<64]"

definition do_yz_set_native_targets :: "'db handler_fn" where
  "do_yz_set_native_targets c s =
     (if \<not> c_alloc_ok c then (- K_ENOMEM, [], s)
      else with_arg 16644 (\<lambda>buf c s. (0, [], on_zp (tamisu_zygote_probe_set_native_targets (u32_at 0 buf) (targets_of buf)) s)) c s)"

definition restore_native_policy :: "u32 \<Rightarrow> np \<Rightarrow> int \<times> np" where
  "restore_native_policy tgid n =
     (case restore_take tgid n of
        (ret, n1) \<Rightarrow> (ret, if ret < 0 then n1 else fold finish_entry (filter (of_tgid tgid) (pend n)) n1))"

definition do_yz_restore_native_load_policy :: "'db handler_fn" where
  "do_yz_restore_native_load_policy = with_arg 4 (\<lambda>buf c s.
     case restore_native_policy (u32_at 0 buf) (dv_np s) of (ret, n) \<Rightarrow> (ret, [], s\<lparr>dv_np := n\<rparr>))"

definition do_yz_get_safemode :: "'db handler_fn" where
  "do_yz_get_safemode c s =
     (case tamisu_zygote_probe_get_safemode (kdata (dv_zp s)) of
        (active, crashes, name) \<Rightarrow> copy_to_user c (u32_le active @ u32_le crashes @ strscpy 64 name) s)"

section \<open>Unmapping\<close>

definition YZ_MAX_UNMAP_SEGS :: nat where "YZ_MAX_UNMAP_SEGS = 8"

text \<open>
  The work in the target: \<open>pc\<close> is where it will continue.  The result is the work that is queued
  again, if any, and the ranges that are unmapped.
\<close>

definition yz_unmap_tw_func :: "u64 \<Rightarrow> bool \<Rightarrow> unmap_tw \<Rightarrow> unmap_tw option \<times> (u64 \<times> u64) list" where
  "yz_unmap_tw_func pc queue_ok tw =
     (if list_ex (\<lambda>(addr, sz). pc \<ge> addr \<and> pc < addr + sz) (tw_segs tw)
      then (if tw_retry tw + 1 < 16 \<and> queue_ok then (Some (tw\<lparr>tw_retry := tw_retry tw + 1\<rparr>), []) else (None, []))
      else (None, tw_segs tw))"

definition segs_of :: "nat \<Rightarrow> nat \<Rightarrow> bytes \<Rightarrow> (u64 \<times> u64) list" where
  "segs_of at n buf = map (\<lambda>i. (u64_at (at + 8 * i) buf, u64_at (at + 64 + 8 * i) buf)) [0..<n]"

definition queue_unmap :: "u32 \<Rightarrow> (u64 \<times> u64) list \<Rightarrow> 'db drv \<Rightarrow> 'db drv" where
  "queue_unmap pid segs s = s\<lparr>dv_unmap := dv_unmap s @ [\<lparr>tw_pid = pid, tw_segs = segs, tw_retry = 0\<rparr>]\<rparr>"

definition do_yz_unmap_pid :: "'db handler_fn" where
  "do_yz_unmap_pid = with_arg 136 (\<lambda>buf c s.
     let n = unat (u32_at 4 buf); pid = u32_at 0 buf in
     if n = 0 \<or> n > YZ_MAX_UNMAP_SEGS then (- K_EINVAL, [], s)
     else (case task_slot pid (dv_kb s) of
             None \<Rightarrow> (- K_ESRCH, [], s)
           | Some i \<Rightarrow>
               if \<not> is_appuid (tk_uid (tasks (dv_kb s) ! i)) then (- K_EPERM, [], s)
               else if \<not> c_alloc_ok c then (- K_ENOMEM, [], s)
               else if \<not> c_queue_ok c then (- K_ESRCH, [], s)
               else (0, [], queue_unmap pid (segs_of 8 n buf) s)))"

definition bad_seg :: "u64 \<Rightarrow> u64 \<times> u64 \<Rightarrow> bool" where
  "bad_seg task_size seg \<longleftrightarrow> (case seg of (a, sz) \<Rightarrow>
     a = 0 \<or> sz = 0 \<or> a \<ge> task_size \<or> sz > task_size \<or> a + sz < a \<or> a + sz > task_size)"

definition do_yz_unmap_self :: "'db kworld \<Rightarrow> 'db handler_fn" where
  "do_yz_unmap_self w c s =
     (if dv_mm s (c_pid c) = None then (- K_EINVAL, [], s)
      else with_arg 136 (\<lambda>buf c s.
        let n = unat (u32_at 0 buf); segs = segs_of 8 n buf in
        if n = 0 \<or> n > YZ_MAX_UNMAP_SEGS then (- K_EINVAL, [], s)
        else if list_ex (bad_seg (w_task_size w)) segs then (- K_EINVAL, [], s)
        else if \<not> c_alloc_ok c then (- K_ENOMEM, [], s)
        else if \<not> c_queue_ok c then (- K_ESRCH, [], s)
        else (0, [], queue_unmap (c_pid c) segs s)) c s)"

text \<open>\<open>c_wrote\<close> is what \<^verbatim>\<open>access_process_vm\<close> answers, the number of bytes written.\<close>

definition do_yz_patch_text :: "'db kworld \<Rightarrow> 'db handler_fn" where
  "do_yz_patch_text w = with_arg 80 (\<lambda>buf c s.
     let pid = u32_at 0 buf; len = u32_at 4 buf; addr = u64_at 8 buf; last = addr + ucast len in
     if len = 0 \<or> len > 64 then (- K_EINVAL, [], s)
     else if addr = 0 \<or> addr \<ge> w_task_size w \<or> last < addr \<or> last > w_task_size w then (- K_EINVAL, [], s)
     else if task_slot pid (dv_kb s) = None then (- K_ESRCH, [], s)
     else
       (let s1 = s\<lparr>dv_patched := dv_patched s @ [(pid, addr, take (min (nat (c_wrote c)) (unat len)) (drop 16 buf))]\<rparr>
        in if c_wrote c \<noteq> int (unat len) then (- K_EFAULT, [], s1) else (0, [], s1)))"

section \<open>The table of commands\<close>

definition ioc :: "u32 \<Rightarrow> u32 \<Rightarrow> u32 \<Rightarrow> u32" where
  "ioc dir nr sz = dir * 0x40000000 + sz * 0x10000 + 0x5400 + nr"

record 'db ioctl_cmd_map =
  ic_cmd :: u32
  ic_handler :: "'db handler_fn"
  ic_perm :: "call \<Rightarrow> 'db drv \<Rightarrow> bool \<times> 'db drv"

definition ioctl_entry :: "u32 \<Rightarrow> 'db handler_fn \<Rightarrow> (call \<Rightarrow> 'db drv \<Rightarrow> bool \<times> 'db drv) \<Rightarrow> 'db ioctl_cmd_map" where
  "ioctl_entry nr h p = \<lparr>ic_cmd = nr, ic_handler = h, ic_perm = p\<rparr>"

definition tamisu_ioctl_handlers :: "'db kworld \<Rightarrow> 'db ioctl_cmd_map list" where
  "tamisu_ioctl_handlers w =
    [ioctl_entry (ioc 2 2 0) (do_get_info w) always_allow,
     ioctl_entry (ioc 1 3 0) (do_report_event w) only_root,
     ioctl_entry (ioc 3 4 0) (do_set_sepolicy w) only_root,
     ioctl_entry (ioc 2 5 0) do_check_safemode always_allow,
     ioctl_entry (ioc 3 13 0) do_get_feature_call trusted_caller,
     ioctl_entry (ioc 1 14 0) do_set_feature_call trusted_caller,
     ioctl_entry (ioc 1 15 0) do_get_wrapper_fd trusted_caller,
     ioctl_entry (ioc 3 16 0) (do_manage_mark w) trusted_caller,
     ioctl_entry (ioc 0 19 0) do_set_init_pgrp only_root,
     ioctl_entry (ioc 2 22 4) do_get_uapi_version always_allow,
     ioctl_entry (ioc 2 100 0) (do_get_full_version w) always_allow,
     ioctl_entry (ioc 2 101 0) do_get_hook_type trusted_caller,
     ioctl_entry (ioc 1 50 0) do_yz_handoff only_root,
     ioctl_entry (ioc 1 51 0) do_yz_set_dlopen only_root,
     ioctl_entry (ioc 1 53 0) do_yz_set_zygisk_linker only_root,
     ioctl_entry (ioc 1 58 0) do_yz_set_native_targets only_root,
     ioctl_entry (ioc 1 59 0) do_yz_restore_native_load_policy only_root,
     ioctl_entry (ioc 2 60 0) do_yz_get_safemode trusted_caller,
     ioctl_entry (ioc 1 55 0) do_yz_unmap_pid only_root,
     ioctl_entry (ioc 1 56 0) (do_yz_unmap_self w) injected_app,
     ioctl_entry (ioc 1 57 0) (do_yz_patch_text w) only_root,
     ioctl_entry (ioc 1 52 0) do_yz_reload trusted_caller]"

definition tamisu_supercall_handle_ioctl :: "'db kworld \<Rightarrow> u32 \<Rightarrow> 'db handler_fn" where
  "tamisu_supercall_handle_ioctl w nr c s =
     (case List.find (\<lambda>m. ic_cmd m = nr) (tamisu_ioctl_handlers w) of
        None \<Rightarrow> (- K_EINVAL, [], s)
      | Some m \<Rightarrow>
          (case ic_perm m c s of
             (ok, s1) \<Rightarrow> if \<not> ok then (- K_EPERM, [], s1) else ic_handler m c s1))"

section \<open>The module after its start\<close>

text \<open>The handler of the zygisk switch, on the whole state of the probe.\<close>

definition zp_feature_handler :: "zp handler" where
  "zp_feature_handler =
     \<lparr>get_handler = Some (\<lambda>z. zygisk_feature_get \<lparr>zygisk_enabled = zygisk_enabled z\<rparr>),
      set_handler = Some (\<lambda>v z. case zygisk_feature_set v \<lparr>zygisk_enabled = zygisk_enabled z\<rparr> of
        (r, p) \<Rightarrow> (r, z\<lparr>zygisk_enabled := zygisk_enabled p\<rparr>))\<rparr>"

definition zp_booted :: "zp kernel" where
  "zp_booted = snd (tamisu_register_feature_handler FEATURE_YUKIZYGISK zp_feature_handler
     \<lparr>driver_ok = True, handlers = (\<lambda>_. None), kdata = zp_start\<rparr>)"

definition drv_start :: "'db kb \<Rightarrow> bool \<Rightarrow> (u32 \<Rightarrow> mm option) \<Rightarrow> 'db drv" where
  "drv_start k sock mms = \<lparr>dv_kb = k, dv_zk = zk_start sock, dv_zp = zp_booted, dv_np = np_start, dv_mm = mms,
     dv_unmap = [], dv_patched = [], dv_init_group = {}\<rparr>"

section \<open>The handshake\<close>

definition TAMISU_INSTALL_MAGIC1 :: u32 where "TAMISU_INSTALL_MAGIC1 = 0x7AB1C0DE"
definition TAMISU_INSTALL_MAGIC2 :: u32 where "TAMISU_INSTALL_MAGIC2 = 0xDEADF00D"

text \<open>
  Whether a call of reboot queues the work that installs a descriptor of the driver in the caller.
\<close>

definition tamisu_handle_sys_reboot :: "bool \<Rightarrow> bool \<Rightarrow> u32 \<Rightarrow> u32 \<Rightarrow> bool" where
  "tamisu_handle_sys_reboot alloc_ok queue_ok magic1 magic2 \<longleftrightarrow>
     magic1 = TAMISU_INSTALL_MAGIC1 \<and> magic2 = TAMISU_INSTALL_MAGIC2 \<and> alloc_ok \<and> queue_ok"

text \<open>\<open>fd\<close> is the free descriptor or an error, \<open>file\<close> the result of making the file.\<close>

definition tamisu_install_fd :: "int \<Rightarrow> int \<Rightarrow> int list \<Rightarrow> int \<times> int list" where
  "tamisu_install_fd fd made fds = (if fd < 0 then (fd, fds) else if made < 0 then (made, fds) else (fd, fds @ [fd]))"

definition tamisu_install_fd_tw_func :: "int \<Rightarrow> int \<Rightarrow> bool \<Rightarrow> int list \<Rightarrow> int option \<times> int list" where
  "tamisu_install_fd_tw_func fd made copy_ok fds =
     (case tamisu_install_fd fd made fds of
        (r, fds1) \<Rightarrow> if copy_ok then (Some r, fds1) else (None, remove1 r fds1))"

end
