(* ===== verification/Supercall_Props.thy ===== *)
theory Supercall_Props
  imports Supercall
begin

text \<open>
  What a process may do through the driver, and how it can pretend to be one that may do more.
\<close>

section \<open>The table\<close>

lemmas command_defs = tamisu_supercall_handle_ioctl_def tamisu_ioctl_handlers_def ioctl_entry_def ioc_def

lemma with_arg_short: "length (c_arg c) < n \<Longrightarrow> with_arg n f c s = (- K_EFAULT, [], s)"
  by (simp add: with_arg_def copy_from_user_def)

lemma with_arg_long: "n \<le> length (c_arg c) \<Longrightarrow> with_arg n f c s = f (take n (c_arg c)) c s"
  by (simp add: with_arg_def copy_from_user_def)

lemma with_arg_cases:
  "with_arg n f c s = (- K_EFAULT, [], s) \<or> with_arg n f c s = f (take n (c_arg c)) c s"
  by (simp add: with_arg_def copy_from_user_def)

lemma copy_to_user_state [simp]: "snd (snd (copy_to_user c bs s)) = s"
  by (simp add: copy_to_user_def)

text \<open>Every command is decided by one of four checks.\<close>

lemma command_cases:
  assumes "tamisu_supercall_handle_ioctl w nr c s = (r, reply, s')"
  obtains (unknown) "s' = s" "reply = []" "r = - K_EINVAL"
  | (root) "c_uid c \<noteq> 0" "s' = s" "reply = []" "r = - K_EPERM"
  | (by_root) "c_uid c = 0"
  | (untrusted) "c_uid c \<noteq> 0" "s' = snd (is_trusted_process (c_pid c) s)" "\<not> fst (is_trusted_process (c_pid c) s)" "r = - K_EPERM"
  | (trusted) "c_uid c \<noteq> 0" "fst (is_trusted_process (c_pid c) s)"
  | (anyone) "s' = s \<or> s' = s\<lparr>dv_kb := snd (tamisu_is_safe_mode (dv_kb s))\<rparr>"
  | (app) "is_appuid (c_uid c)" "(r, reply, s') = do_yz_unmap_self w c s"
proof -
  have safe: "snd (snd (do_check_safemode c s)) = s\<lparr>dv_kb := snd (tamisu_is_safe_mode (dv_kb s))\<rparr>"
    by (simp add: do_check_safemode_def split: prod.splits)
  have plain: "snd (snd (do_get_info w c s)) = s" "snd (snd (do_get_uapi_version c s)) = s" "snd (snd (do_get_full_version w c s)) = s"
    by (simp_all add: do_get_info_def do_get_uapi_version_def do_get_full_version_def)
  show ?thesis
    using assms safe plain that
    unfolding command_defs
    by (auto simp: only_root_def trusted_caller_def always_allow_def injected_app_def split: if_splits prod.splits)
qed

section \<open>An ordinary process\<close>

definition untrusted :: "call \<Rightarrow> 'db drv \<Rightarrow> bool" where
  "untrusted c s \<longleftrightarrow> c_uid c \<noteq> 0 \<and>
     (\<forall>m. dv_mm s (c_pid c) = Some m \<longrightarrow> \<not> list_ex (starts_trusted (mm_args m)) trusted_names)"

text \<open>What reading the command line does to the state.\<close>

lemma read_cmdline_state:
  "snd (read_current_cmdline n pid s) = s \<and> dv_mm s pid = None \<or>
   (\<exists>m. dv_mm s pid = Some m \<and> snd (read_current_cmdline n pid s) = s\<lparr>dv_mm := (dv_mm s)(pid \<mapsto> m\<lparr>mm_users := mm_users m + 1\<rparr>)\<rparr>)"
  by (auto simp: read_current_cmdline_def add_users_def mmput_def Let_def split: option.splits)

lemma read_cmdline_text:
  "fst (read_current_cmdline n pid s) = Inr t \<Longrightarrow> \<exists>m. dv_mm s pid = Some m \<and> t = mm_args m \<and> mm_readable m \<and> 0 < length t \<and> length t \<le> n - 1"
  by (auto simp: read_current_cmdline_def Let_def split: option.splits if_splits)

lemma trusted_state: "snd (is_trusted_process pid s) = snd (read_current_cmdline 256 pid s)"
  by (simp add: is_trusted_process_def split: prod.splits sum.splits)

lemma trusted_text:
  "fst (is_trusted_process pid s) \<Longrightarrow> \<exists>m. dv_mm s pid = Some m \<and> list_ex (starts_trusted (mm_args m)) trusted_names"
  using read_cmdline_text [of 256 pid s] by (auto simp: is_trusted_process_def split: prod.splits sum.splits)

definition same_but_users :: "'db drv \<Rightarrow> 'db drv \<Rightarrow> bool" where
  "same_but_users s s' \<longleftrightarrow> s' = s\<lparr>dv_mm := dv_mm s'\<rparr>"

lemma trusted_same: "same_but_users s (snd (is_trusted_process pid s))"
  using read_cmdline_state [of 256 pid s] by (auto simp: trusted_state same_but_users_def)

lemma unmap_self_cases:
  assumes "do_yz_unmap_self w c s = (r, reply, s')"
  shows "s' = s \<or> (\<exists>segs. s' = queue_unmap (c_pid c) segs s \<and> \<not> list_ex (bad_seg (w_task_size w)) segs)"
  using assms by (auto simp: do_yz_unmap_self_def with_arg_def Let_def split: option.splits if_splits)

text \<open>
  C9: a process that is neither root nor named like a trusted program can call every command
  without changing anything of the module, except that it may end the count of the volume key by
  asking for safe mode, and that an application may have ranges of its own memory unmapped.
\<close>

theorem ordinary_process_confined:
  assumes "untrusted c s" "tamisu_supercall_handle_ioctl w nr c s = (r, reply, s')"
  shows "same_but_users s s' \<or> s' = s\<lparr>dv_kb := snd (tamisu_is_safe_mode (dv_kb s))\<rparr> \<or>
    is_appuid (c_uid c) \<and> (\<exists>segs. s' = queue_unmap (c_pid c) segs s \<and> \<not> list_ex (bad_seg (w_task_size w)) segs)"
  using assms(2)
proof (cases rule: command_cases)
  case trusted
  then show ?thesis using assms(1) trusted_text [of "c_pid c" s] by (auto simp: untrusted_def)
next
  case by_root
  then show ?thesis using assms(1) by (simp add: untrusted_def)
next
  case app
  then show ?thesis using unmap_self_cases [of w c s r reply s'] by (auto simp: same_but_users_def)
qed (use trusted_same [of s "c_pid c"] in \<open>auto simp: same_but_users_def\<close>)

text \<open>A call with what the examples do not use.\<close>

definition demo_call :: "u32 \<Rightarrow> u32 \<Rightarrow> bytes \<Rightarrow> call" where
  "demo_call pid uid a = \<lparr>c_pid = pid, c_uid = uid, c_arg = a, c_writable = True, c_mem = (\<lambda>_ _. None), c_fdt = (\<lambda>_. None),
     c_wrapper = (\<lambda>_. - 9), c_init_session = False, c_alloc_ok = True, c_queue_ok = True, c_wrote = 0, c_junk = False\<rparr>"

definition demo_mm :: "string \<Rightarrow> mm" where
  "demo_mm name = \<lparr>mm_users = 1, mm_args = name, mm_readable = True\<rparr>"

definition demo_drv :: "string \<Rightarrow> unit drv" where
  "demo_drv name = drv_start (kb_start False () None []) True [7 \<mapsto> demo_mm name]"

definition demo_world :: "unit kworld" where
  "demo_world = \<lparr>w_selinux = \<lparr>secctx_to_secid = (\<lambda>_ _. None), secid_to_secctx = (\<lambda>_ _. None), apply_rules = id\<rparr>,
     w_patch = (\<lambda>_ _ db. (0, db)), w_version = 1, w_version_str = ''1'', w_task_size = 2 ^ 39\<rparr>"

theorem ordinary_process_confined_witness:
  "untrusted (demo_call 7 10050 []) (demo_drv ''com.example'') \<and>
   dv_zp (snd (snd (tamisu_supercall_handle_ioctl demo_world (ioc 1 14 0) (demo_call 7 10050 []) (demo_drv ''com.example'')))) =
     dv_zp (demo_drv ''com.example'')"
proof -
  have u: "untrusted (demo_call 7 10050 []) (demo_drv ''com.example'')"
    by (simp add: untrusted_def demo_call_def demo_drv_def drv_start_def demo_mm_def trusted_names_def starts_trusted_def)
  obtain r reply s' where e: "tamisu_supercall_handle_ioctl demo_world (ioc 1 14 0) (demo_call 7 10050 []) (demo_drv ''com.example'') = (r, reply, s')"
    by (metis prod.collapse)
  have "dv_zp s' = dv_zp (demo_drv ''com.example'')"
    using ordinary_process_confined [OF u e] by (auto simp: same_but_users_def queue_unmap_def) (metis drv.ext_inject drv.surjective drv.update_convs(5))
  then show ?thesis using u e by simp
qed

section \<open>A process that pretends\<close>

lemma trusted_by_name:
  assumes "dv_mm s pid = Some m" "mm_readable m" "mm_args m \<noteq> []" "length (mm_args m) \<le> 255" "list_ex (starts_trusted (mm_args m)) trusted_names"
  shows "is_trusted_process pid s = (True, s\<lparr>dv_mm := (dv_mm s)(pid \<mapsto> m\<lparr>mm_users := mm_users m + 1\<rparr>)\<rparr>)"
  using assms by (auto simp: is_trusted_process_def read_current_cmdline_def add_users_def mmput_def Let_def)

text \<open>
  C40: the driver hands a descriptor to every process that makes the handshake, and believes the
  command line of its caller: a process of any user that calls itself zygiskd switches zygisk off
  for the whole system.
\<close>

theorem any_process_disables_zygisk:
  assumes "dv_mm s (c_pid c) = Some m" "mm_readable m" "mm_args m = ''zygiskd''"
    "handlers (dv_zp s) FEATURE_YUKIZYGISK = Some zp_feature_handler"
    "c_arg c = u32_le FEATURE_YUKIZYGISK @ [0, 0, 0, 0] @ u64_le 0"
    "tamisu_supercall_handle_ioctl w (ioc 1 14 0) c s = (r, reply, s')"
  shows "tamisu_handle_sys_reboot True True TAMISU_INSTALL_MAGIC1 TAMISU_INSTALL_MAGIC2 \<and>
    r = 0 \<and> \<not> zygisk_enabled (kdata (dv_zp s'))"
proof -
  have t: "\<exists>s1. trusted_caller c s = (True, s1) \<and> dv_zp s1 = dv_zp s"
  proof (cases "c_uid c = 0")
    case False
    have "list_ex (starts_trusted (mm_args m)) trusted_names"
      using assms(3) by (simp add: trusted_names_def starts_trusted_def)
    then show ?thesis using trusted_by_name [OF assms(1,2)] assms(3) False by (simp add: trusted_caller_def)
  qed (simp add: trusted_caller_def)
  then obtain s1 where t: "trusted_caller c s = (True, s1)" "dv_zp s1 = dv_zp s" by blast
  have "tamisu_supercall_handle_ioctl w (ioc 1 14 0) c s = do_set_feature_call c s1"
    unfolding command_defs by (simp add: t)
  moreover have "u32_at 0 (c_arg c) = FEATURE_YUKIZYGISK" "u64_at 8 (c_arg c) = 0" "length (c_arg c) = 16"
    by (simp_all add: assms(5) u32_at_def u64_at_def le_nat_u32_le le_nat_u64_le)
  ultimately show ?thesis
    using assms(4,6) t(2)
    by (auto simp: tamisu_handle_sys_reboot_def do_set_feature_call_def with_arg_long tamisu_set_feature_def zp_feature_handler_def
        zygisk_feature_set_def FEATURE_YUKIZYGISK_def FEATURE_MAX_def)
qed

lemma booted_zygisk: "handlers zp_booted FEATURE_YUKIZYGISK = Some zp_feature_handler"
  by (simp add: zp_booted_def tamisu_register_feature_handler_def FEATURE_YUKIZYGISK_def FEATURE_MAX_def zp_feature_handler_def)

definition switch_off :: bytes where
  "switch_off = u32_le FEATURE_YUKIZYGISK @ [0, 0, 0, 0] @ u64_le 0"

theorem any_process_disables_zygisk_witness:
  "\<exists>s'. tamisu_supercall_handle_ioctl demo_world (ioc 1 14 0) (demo_call 7 10050 switch_off) (demo_drv ''zygiskd'') = (0, [], s') \<and>
     \<not> zygisk_enabled (kdata (dv_zp s'))"
proof -
  obtain r reply s' where e: "tamisu_supercall_handle_ioctl demo_world (ioc 1 14 0) (demo_call 7 10050 switch_off) (demo_drv ''zygiskd'') = (r, reply, s')"
    by (metis prod.collapse)
  have m: "dv_mm (demo_drv ''zygiskd'') (c_pid (demo_call 7 10050 switch_off)) = Some (demo_mm ''zygiskd'')"
    by (simp add: demo_drv_def drv_start_def demo_call_def)
  have h: "handlers (dv_zp (demo_drv ''zygiskd'')) FEATURE_YUKIZYGISK = Some zp_feature_handler"
    by (simp add: demo_drv_def drv_start_def booted_zygisk)
  have "r = 0 \<and> \<not> zygisk_enabled (kdata (dv_zp s'))"
    using any_process_disables_zygisk [OF m _ _ h _ e] by (simp add: demo_mm_def demo_call_def switch_off_def)
  moreover have "reply = []"
    using e unfolding command_defs
    by (auto simp: trusted_caller_def do_set_feature_call_def with_arg_def split: prod.splits option.splits if_splits)
  ultimately show ?thesis using e by auto
qed

text \<open>The users of the memory of a process after \<open>n\<close> calls.\<close>

definition calls :: "'db kworld \<Rightarrow> u32 \<Rightarrow> call \<Rightarrow> nat \<Rightarrow> 'db drv \<Rightarrow> 'db drv" where
  "calls w nr c n s = ((\<lambda>s. snd (snd (tamisu_supercall_handle_ioctl w nr c s))) ^^ n) s"

lemma safemode_call_mm:
  assumes "c_uid c \<noteq> 0" "dv_mm s (c_pid c) = Some m"
  shows "\<exists>m'. dv_mm (snd (snd (tamisu_supercall_handle_ioctl w (ioc 2 60 0) c s))) (c_pid c) = Some m' \<and> mm_users m' = mm_users m + 1"
proof -
  obtain ok s1 where t: "is_trusted_process (c_pid c) s = (ok, s1)" by force
  then have "s1 = s\<lparr>dv_mm := (dv_mm s)(c_pid c \<mapsto> m\<lparr>mm_users := mm_users m + 1\<rparr>)\<rparr>"
    using trusted_state [of "c_pid c" s] read_cmdline_state [of 256 "c_pid c" s] assms(2) by auto
  moreover have "snd (snd (tamisu_supercall_handle_ioctl w (ioc 2 60 0) c s)) = s1"
    unfolding command_defs using assms(1) t by (simp add: trusted_caller_def do_yz_get_safemode_def split: prod.splits)
  ultimately show ?thesis by simp
qed

text \<open>
  Every call of a process that is not root, whether it is allowed or refused, leaves one more
  user of the memory of that process behind, so the memory is never given back.
\<close>

theorem calls_leak_memory:
  assumes "c_uid c \<noteq> 0" "dv_mm s (c_pid c) = Some m"
  shows "\<exists>m'. dv_mm (calls w (ioc 2 60 0) c n s) (c_pid c) = Some m' \<and> mm_users m' = mm_users m + n"
proof (induction n)
  case 0
  then show ?case using assms(2) by (simp add: calls_def)
next
  case (Suc n)
  then obtain m' where m': "dv_mm (calls w (ioc 2 60 0) c n s) (c_pid c) = Some m'" "mm_users m' = mm_users m + n" by blast
  show ?case using safemode_call_mm [OF assms(1) m'(1), of w] m'(2) by (auto simp: calls_def)
qed

theorem calls_leak_memory_witness:
  "\<exists>m'. dv_mm (calls demo_world (ioc 2 60 0) (demo_call 7 10050 []) 1000 (demo_drv ''com.example'')) 7 = Some m' \<and> mm_users m' = 1001"
proof -
  have "c_uid (demo_call 7 10050 []) \<noteq> 0" "dv_mm (demo_drv ''com.example'') (c_pid (demo_call 7 10050 [])) = Some (demo_mm ''com.example'')"
    by (simp_all add: demo_call_def demo_drv_def drv_start_def)
  from calls_leak_memory [OF this, of demo_world 1000] show ?thesis by (simp add: demo_call_def demo_mm_def)
qed

section \<open>The switches through the calls\<close>

text \<open>The structures of the two commands, as the daemon fills them in.\<close>

definition get_feature_bytes :: "u32 \<Rightarrow> bytes" where
  "get_feature_bytes fid = u32_le fid @ replicate 20 0"

definition set_feature_bytes :: "u32 \<Rightarrow> u64 \<Rightarrow> bytes" where
  "set_feature_bytes fid v = u32_le fid @ replicate 4 0 @ u64_le v"

lemma feature_bytes:
  "u32_at 0 (get_feature_bytes fid) = fid" "length (get_feature_bytes fid) = 24"
  "u32_at 0 (set_feature_bytes fid v) = fid" "u64_at 8 (set_feature_bytes fid v) = v" "length (set_feature_bytes fid v) = 16"
  by (simp_all add: get_feature_bytes_def set_feature_bytes_def u32_at_def u64_at_def le_nat_u32_le le_nat_u64_le)

lemma nat_le_zero: "nat_le n 0 = replicate n 0"
  by (induction n) simp_all

lemma reply_fields:
  "length x = 8 \<Longrightarrow> u64_at 8 (x @ u64_le v @ b # y) = v" "length x = 8 \<Longrightarrow> (x @ u64_le v @ b # y) ! 16 = b"
  by (simp_all add: u64_at_def le_nat_u64_le nth_append)



section \<open>Memory of other processes\<close>

text \<open>
  The runs of a work until it is done: each time the process is somewhere and the work can be queued
  again or not.  The result says how many runs there were and what was unmapped.
\<close>

fun unmap_runs :: "(u64 \<times> bool) list \<Rightarrow> unmap_tw \<Rightarrow> (nat \<times> (u64 \<times> u64) list) option" where
  "unmap_runs [] tw = None"
| "unmap_runs ((pc, queue_ok) # rest) tw =
     (case yz_unmap_tw_func pc queue_ok tw of
        (None, segs) \<Rightarrow> Some (1, segs)
      | (Some tw', _) \<Rightarrow> map_option (\<lambda>(n, segs). (Suc n, segs)) (unmap_runs rest tw'))"

definition inside :: "u64 \<Rightarrow> (u64 \<times> u64) list \<Rightarrow> bool" where
  "inside pc segs \<longleftrightarrow> list_ex (\<lambda>(addr, sz). pc \<ge> addr \<and> pc < addr + sz) segs"

lemma unmap_runs_end:
  assumes "unat (tw_retry tw) + k = 16" "0 < k" "k \<le> length runs"
  shows "\<exists>n segs. unmap_runs runs tw = Some (n, segs) \<and> 0 < n \<and> n \<le> k \<and>
    (segs = [] \<or> segs = tw_segs tw \<and> \<not> inside (fst (runs ! (n - 1))) segs)"
  using assms
proof (induction k arbitrary: runs tw)
  case (Suc k)
  obtain pc ok rest where runs: "runs = (pc, ok) # rest" using Suc.prems by (cases runs) auto
  show ?case
  proof (cases "inside pc (tw_segs tw) \<and> tw_retry tw + 1 < 16 \<and> ok")
    case True
    let ?tw = "tw\<lparr>tw_retry := tw_retry tw + 1\<rparr>"
    have u: "unat (tw_retry tw + 1) = unat (tw_retry tw) + 1" using Suc.prems(1) by (simp add: unat_word_ariths)
    then have k: "0 < k" using True Suc.prems(1) by (simp add: word_less_nat_alt)
    obtain n segs where n: "unmap_runs rest ?tw = Some (n, segs)" "0 < n" "n \<le> k"
      "segs = [] \<or> segs = tw_segs tw \<and> \<not> inside (fst (rest ! (n - 1))) segs"
      using Suc.IH [of ?tw rest] k u Suc.prems runs by auto
    have "unmap_runs runs tw = Some (Suc n, segs)" using True n(1) by (simp add: runs yz_unmap_tw_func_def inside_def)
    then show ?thesis using n by (intro exI [of _ "Suc n"] exI [of _ segs]) (auto simp: runs nth_Cons')
  next
    case False
    then have "unmap_runs runs tw = Some (1, if inside pc (tw_segs tw) then [] else tw_segs tw)"
      by (auto simp: runs yz_unmap_tw_func_def inside_def)
    then show ?thesis by (auto simp: runs)
  qed
qed simp

text \<open>
  C35: a queued unmapping is over after at most sixteen runs, wherever the process is each time; it
  unmaps all its ranges, and only when the process will not continue inside one of them, or none.
\<close>

theorem unmapping_ends:
  assumes "tw_retry tw = 0" "16 \<le> length runs"
  shows "\<exists>n segs. unmap_runs runs tw = Some (n, segs) \<and> n \<le> 16 \<and>
    (segs = [] \<or> segs = tw_segs tw \<and> \<not> inside (fst (runs ! (n - 1))) segs)"
  using unmap_runs_end [of tw 16 runs] assms by auto

theorem unmapping_ends_witness:
  "\<exists>n segs. unmap_runs (replicate 15 (0x1010, True) @ [(0x3000, True)]) \<lparr>tw_pid = 7, tw_segs = [(0x1000, 0x100)], tw_retry = 0\<rparr> =
     Some (n, segs) \<and> n \<le> 16"
  using unmapping_ends [of "\<lparr>tw_pid = 7, tw_segs = [(0x1000, 0x100)], tw_retry = 0\<rparr>" "replicate 15 (0x1010, True) @ [(0x3000, True)]"] by auto

lemma add_no_wrap: "\<not> a + b < (a :: u64) \<Longrightarrow> unat (a + b) = unat a + unat b"
  using unat_plus_if' [of a b] unsigned_less [of b, where ?'a = nat] by (auto simp: word_less_nat_alt split: if_splits)

lemma patch_cases:
  assumes "do_yz_patch_text w c s = (r, reply, s')"
  shows "s' = s \<or> (\<exists>pid addr bs. s' = s\<lparr>dv_patched := dv_patched s @ [(pid, addr, bs)]\<rparr> \<and> length bs \<le> 64 \<and> addr \<noteq> 0 \<and>
     unat addr + length bs \<le> unat (w_task_size w) \<and> task_slot pid (dv_kb s) \<noteq> None)"
proof -
  let ?b = "take 80 (c_arg c)"
  let ?pid = "u32_at 0 ?b" and ?len = "u32_at 4 ?b" and ?addr = "u64_at 8 ?b"
  let ?bs = "take (min (nat (c_wrote c)) (unat ?len)) (drop 16 ?b)"
  show ?thesis
  proof (cases "s' = s")
    case False
    then have g: "\<not> ?len > 64" "?addr \<noteq> 0" "\<not> ?addr + ucast ?len < ?addr" "\<not> ?addr + ucast ?len > w_task_size w"
      "task_slot ?pid (dv_kb s) \<noteq> None" "s' = s\<lparr>dv_patched := dv_patched s @ [(?pid, ?addr, ?bs)]\<rparr>"
      using assms by (auto simp: do_yz_patch_text_def with_arg_def copy_from_user_def Let_def split: if_splits)
    have l: "length ?bs \<le> unat ?len" by simp
    have "unat ?len \<le> 64" using g(1) by (simp add: word_less_nat_alt)
    moreover have "unat (ucast ?len :: u64) = unat ?len"
      using unsigned_less [of ?len, where ?'a = nat] by (simp add: unsigned_ucast_eq take_bit_nat_eq_self)
    then have "unat ?addr + unat ?len \<le> unat (w_task_size w)" using add_no_wrap [OF g(3)] g(4) by (simp add: word_less_nat_alt)
    ultimately show ?thesis using g l by (intro disjI2 exI [of _ ?pid] exI [of _ ?addr] exI [of _ ?bs]) simp
  qed simp
qed


definition patch_bytes :: bytes where
  "patch_bytes = u32_le 7 @ u32_le 4 @ u64_le 0x1000 @ [0x1f, 0x20, 0x03, 0xd5] @ replicate 60 0"


end
