(* ===== verification/Policydb.thy ===== *)
theory Policydb
  imports Sepolicy_Batch
begin

text \<open>
  The policy database of the kernel and the operations of the module on it, \<^verbatim>\<open>core/tamisu_sepolicy.c\<close>,
  and the commands of a batch, \<^verbatim>\<open>core/tamisu_rules.c\<close>.

  The table of access vectors is the list of its nodes, all chains one after the other; a node has an
  identity, as pointers to it are compared.  The functions of the kernel on the tables (search,
  insertion) are parameters, \<open>lib\<close>; \<open>lawful\<close> states what the kernel documents of them.  Numbers of
  types and classes are natural numbers; the key of a node has 16 bits of them.  Allocations of
  the module itself succeed.
\<close>

section \<open>Data\<close>

record type_datum =
  td_value :: nat
  td_attribute :: bool

record cexpr =
  ce_is_names :: bool
  ce_type_names :: "nat set"
  ce_names :: "nat set"

record class_datum =
  cd_value :: nat
  cd_perms :: "(string \<times> nat) list"
  cd_common :: "(string \<times> nat) list option"
  cd_constraints :: "cexpr list"

record avtab_key =
  k_source :: u16
  k_target :: u16
  k_class :: u16
  k_specified :: u16

record xperms =
  x_specified :: nat
  x_driver :: nat
  x_perms :: "nat set"

record avtab_node =
  n_id :: nat
  n_key :: avtab_key
  n_data :: u32
  n_xperms :: "xperms option"

record filename_trans_datum =
  ft_stypes :: "nat set"
  ft_otype :: nat

type_synonym ft_key = "nat \<times> nat \<times> string"
type_synonym ft_table = "(ft_key \<times> filename_trans_datum list) list"
type_synonym avtab = "avtab_node list"

record policydb =
  p_types :: "(string \<times> type_datum) list"
  p_classes :: "(string \<times> class_datum) list"
  p_nprim :: nat
  val_to_name :: "string list"
  val_to_struct :: "type_datum list"
  type_attr_map :: "nat set list"
  role_types :: "nat set list"
  permissive_map :: "nat set"
  te_avtab :: avtab
  filename_trans :: ft_table
  filename_trans_count :: nat
  db_len :: u64
  policyvers :: nat

definition AVTAB_ALLOWED :: u16 where "AVTAB_ALLOWED = 1"
definition AVTAB_AUDITALLOW :: u16 where "AVTAB_AUDITALLOW = 2"
definition AVTAB_AUDITDENY :: u16 where "AVTAB_AUDITDENY = 4"
definition AVTAB_TRANSITION :: u16 where "AVTAB_TRANSITION = 0x10"
definition AVTAB_MEMBER :: u16 where "AVTAB_MEMBER = 0x20"
definition AVTAB_CHANGE :: u16 where "AVTAB_CHANGE = 0x40"
definition AVTAB_XPERMS_ALLOWED :: u16 where "AVTAB_XPERMS_ALLOWED = 0x100"
definition AVTAB_XPERMS_AUDITALLOW :: u16 where "AVTAB_XPERMS_AUDITALLOW = 0x200"
definition AVTAB_XPERMS_DONTAUDIT :: u16 where "AVTAB_XPERMS_DONTAUDIT = 0x400"

unbundle bit_operations_syntax

text \<open>The masks \<^verbatim>\<open>AVTAB_AV\<close> and \<^verbatim>\<open>AVTAB_XPERMS\<close>.\<close>

definition is_av :: "u16 \<Rightarrow> bool" where
  "is_av specified \<longleftrightarrow> specified AND 0x7 \<noteq> 0"

definition is_xperms :: "u16 \<Rightarrow> bool" where
  "is_xperms specified \<longleftrightarrow> specified AND 0x700 \<noteq> 0"

text \<open>
  The functions of the kernel: the first node of a key, the next one of the same key, insertion of
  a node (the new node and the table), of a name, and of a chain of file name transitions.
\<close>

record lib =
  avtab_search_node :: "avtab \<Rightarrow> avtab_key \<Rightarrow> avtab_node option"
  avtab_search_node_next :: "avtab \<Rightarrow> avtab_node \<Rightarrow> avtab_node option"
  avtab_insert_nonunique :: "avtab \<Rightarrow> avtab_key \<Rightarrow> u32 \<Rightarrow> xperms option \<Rightarrow> (avtab_node \<times> avtab) option"
  symtab_insert :: "(string \<times> type_datum) list \<Rightarrow> string \<Rightarrow> type_datum \<Rightarrow> (string \<times> type_datum) list option"
  hashtab_insert :: "ft_table \<Rightarrow> ft_key \<Rightarrow> filename_trans_datum list \<Rightarrow> ft_table option"

definition symtab_search :: "(string \<times> 'a) list \<Rightarrow> string \<Rightarrow> 'a option" where
  "symtab_search t name = map_of t name"

section \<open>Nodes\<close>

text \<open>The first node among those from \<open>n\<close> on, of one key, that has the kind and the driver; at most \<open>fuel\<close> of them.\<close>

primrec xperms_node :: "lib \<Rightarrow> avtab \<Rightarrow> xperms \<Rightarrow> nat \<Rightarrow> avtab_node option \<Rightarrow> avtab_node option" where
  "xperms_node lib t x 0 n = None"
| "xperms_node lib t x (Suc fuel) n =
     (case n of
        None \<Rightarrow> None
      | Some n \<Rightarrow>
          (case n_xperms n of
             Some y \<Rightarrow>
               if x_specified y = x_specified x \<and> x_driver y = x_driver x then Some n
               else xperms_node lib t x fuel (avtab_search_node_next lib t n)
           | None \<Rightarrow> xperms_node lib t x fuel (avtab_search_node_next lib t n)))"

definition find_node :: "lib \<Rightarrow> avtab \<Rightarrow> avtab_key \<Rightarrow> xperms option \<Rightarrow> avtab_node option" where
  "find_node lib t key x =
     (if is_xperms (k_specified key)
      then (case x of None \<Rightarrow> None | Some x \<Rightarrow> xperms_node lib t x (Suc (length t)) (avtab_search_node lib t key))
      else avtab_search_node lib t key)"

text \<open>The sizes of a key, a datum and the words of the extended permissions on a 64-bit kernel.\<close>

definition grow_size :: "u16 \<Rightarrow> u64" where
  "grow_size specified = 8 + 8 + (if is_xperms specified then 1 + 1 + 4 * 8 else 0)"

definition get_avtab_node :: "lib \<Rightarrow> avtab_key \<Rightarrow> xperms option \<Rightarrow> policydb \<Rightarrow> (avtab_node \<times> policydb) option" where
  "get_avtab_node lib key x db =
     (case find_node lib (te_avtab db) key x of
        Some n \<Rightarrow> Some (n, db)
      | None \<Rightarrow>
          (case avtab_insert_nonunique lib (te_avtab db) key
                  (if \<not> is_xperms (k_specified key) \<and> k_specified key = AVTAB_AUDITDENY then 0xffffffff else 0)
                  (if is_xperms (k_specified key) then x else None) of
             None \<Rightarrow> None
           | Some (n, t) \<Rightarrow> Some (n, db\<lparr>te_avtab := t, db_len := db_len db + grow_size (k_specified key)\<rparr>)))"

definition is_redundant_avtab_node :: "avtab_node \<Rightarrow> bool" where
  "is_redundant_avtab_node n =
     (if is_xperms (k_specified (n_key n)) then n_xperms n = None
      else if \<not> is_av (k_specified (n_key n)) then False
      else if k_specified (n_key n) AND AVTAB_AUDITDENY \<noteq> 0 then n_data n = 0xffffffff
      else n_data n = 0)"

definition remove_avtab_node :: "avtab_node \<Rightarrow> policydb \<Rightarrow> policydb" where
  "remove_avtab_node node db =
     (if \<exists>n\<in>set (te_avtab db). n_id n = n_id node
      then db\<lparr>te_avtab := takeWhile (\<lambda>n. n_id n \<noteq> n_id node) (te_avtab db) @ tl (dropWhile (\<lambda>n. n_id n \<noteq> n_id node) (te_avtab db)),
              db_len := db_len db - (8 + 8 + (if is_xperms (k_specified (n_key node)) \<and> n_xperms node \<noteq> None then 1 + 1 + 4 * 8 else 0))\<rparr>
      else db)"

text \<open>Writing to a node through its pointer.\<close>

definition set_node :: "avtab_node \<Rightarrow> policydb \<Rightarrow> policydb" where
  "set_node node db = db\<lparr>te_avtab := map (\<lambda>n. if n_id n = n_id node then node else n) (te_avtab db)\<rparr>"

section \<open>Access vectors\<close>

definition strip_av :: "u16 \<Rightarrow> bool \<Rightarrow> bool" where
  "strip_av effect invert \<longleftrightarrow> (effect = AVTAB_AUDITDENY) = (\<not> invert)"

definition key_of :: "type_datum \<Rightarrow> type_datum \<Rightarrow> class_datum \<Rightarrow> u16 \<Rightarrow> avtab_key" where
  "key_of src tgt cls effect = \<lparr>k_source = of_nat (td_value src), k_target = of_nat (td_value tgt),
     k_class = of_nat (cd_value cls), k_specified = effect\<rparr>"

definition perm_bit :: "nat \<Rightarrow> u32" where
  "perm_bit v = push_bit (v - 1) 1"

definition new_data :: "nat option \<Rightarrow> bool \<Rightarrow> u32 \<Rightarrow> u32" where
  "new_data perm invert d =
     (case (perm, invert) of
        (Some v, True) \<Rightarrow> d AND NOT (perm_bit v)
      | (None, True) \<Rightarrow> 0
      | (Some v, False) \<Rightarrow> d OR perm_bit v
      | (None, False) \<Rightarrow> 0xffffffff)"

definition add_rule_key :: "lib \<Rightarrow> avtab_key \<Rightarrow> nat option \<Rightarrow> bool \<Rightarrow> policydb \<Rightarrow> policydb" where
  "add_rule_key lib key perm invert db =
     (case (if invert then map_option (\<lambda>n. (n, db)) (avtab_search_node lib (te_avtab db) key) else get_avtab_node lib key None db) of
        None \<Rightarrow> db
      | Some (n, db1) \<Rightarrow>
          (let n1 = n\<lparr>n_data := new_data perm invert (n_data n)\<rparr>; db2 = set_node n1 db1
           in if is_redundant_avtab_node n1 then remove_avtab_node n1 db2 else db2))"

definition add_rule_cls ::
  "lib \<Rightarrow> type_datum \<Rightarrow> type_datum \<Rightarrow> class_datum option \<Rightarrow> nat option \<Rightarrow> u16 \<Rightarrow> bool \<Rightarrow> policydb \<Rightarrow> policydb" where
  "add_rule_cls lib src tgt cls perm effect invert db =
     (case cls of
        Some c \<Rightarrow> add_rule_key lib (key_of src tgt c effect) perm invert db
      | None \<Rightarrow> fold (\<lambda>(_, c). add_rule_key lib (key_of src tgt c effect) perm invert) (p_classes db) db)"

text \<open>The types a missing name stands for.\<close>

definition all_types :: "u16 \<Rightarrow> bool \<Rightarrow> policydb \<Rightarrow> type_datum list" where
  "all_types effect invert db =
     (if strip_av effect invert then map snd (p_types db) else filter td_attribute (map snd (p_types db)))"

definition add_rule_tgt ::
  "lib \<Rightarrow> type_datum \<Rightarrow> type_datum option \<Rightarrow> class_datum option \<Rightarrow> nat option \<Rightarrow> u16 \<Rightarrow> bool \<Rightarrow> policydb \<Rightarrow> policydb" where
  "add_rule_tgt lib src tgt cls perm effect invert db =
     (case tgt of
        Some t \<Rightarrow> add_rule_cls lib src t cls perm effect invert db
      | None \<Rightarrow> fold (\<lambda>t. add_rule_cls lib src t cls perm effect invert) (all_types effect invert db) db)"

definition add_rule_raw ::
  "lib \<Rightarrow> type_datum option \<Rightarrow> type_datum option \<Rightarrow> class_datum option \<Rightarrow> nat option \<Rightarrow> u16 \<Rightarrow> bool \<Rightarrow> policydb \<Rightarrow> policydb" where
  "add_rule_raw lib src tgt cls perm effect invert db =
     (case src of
        Some s \<Rightarrow> add_rule_tgt lib s tgt cls perm effect invert db
      | None \<Rightarrow> fold (\<lambda>s. add_rule_tgt lib s tgt cls perm effect invert) (all_types effect invert db) db)"

text \<open>A name that may be missing: \<open>None\<close> when it is given and not known.\<close>

definition lookup_opt :: "(string \<times> 'a) list \<Rightarrow> string option \<Rightarrow> 'a option option" where
  "lookup_opt t name =
     (case name of None \<Rightarrow> Some None | Some n \<Rightarrow> (case symtab_search t n of None \<Rightarrow> None | Some d \<Rightarrow> Some (Some d)))"

definition class_perm :: "class_datum \<Rightarrow> string \<Rightarrow> nat option" where
  "class_perm cls p =
     (case symtab_search (cd_perms cls) p of
        Some v \<Rightarrow> Some v
      | None \<Rightarrow> (case cd_common cls of None \<Rightarrow> None | Some com \<Rightarrow> symtab_search com p))"

definition lookup_perm :: "class_datum option \<Rightarrow> string option \<Rightarrow> nat option option" where
  "lookup_perm cls p =
     (case p of
        None \<Rightarrow> Some None
      | Some p \<Rightarrow> (case cls of None \<Rightarrow> None | Some c \<Rightarrow> (case class_perm c p of None \<Rightarrow> None | Some v \<Rightarrow> Some (Some v))))"

definition add_rule ::
  "lib \<Rightarrow> string option \<Rightarrow> string option \<Rightarrow> string option \<Rightarrow> string option \<Rightarrow> u16 \<Rightarrow> bool \<Rightarrow> policydb \<Rightarrow> bool \<times> policydb" where
  "add_rule lib s t c p effect invert db =
     (case lookup_opt (p_types db) s of
        None \<Rightarrow> (False, db)
      | Some src \<Rightarrow>
          (case lookup_opt (p_types db) t of
             None \<Rightarrow> (False, db)
           | Some tgt \<Rightarrow>
               (case lookup_opt (p_classes db) c of
                  None \<Rightarrow> (False, db)
                | Some cls \<Rightarrow>
                    (case lookup_perm cls p of
                       None \<Rightarrow> (False, db)
                     | Some perm \<Rightarrow> (True, add_rule_raw lib src tgt cls perm effect invert db)))))"

section \<open>Extended permissions\<close>

definition ioctl_driver :: "u16 \<Rightarrow> nat" where "ioctl_driver x = unat (drop_bit 8 x AND 0xff)"
definition ioctl_func :: "u16 \<Rightarrow> nat" where "ioctl_func x = unat (x AND 0xff)"

definition range_xperms :: "u16 \<Rightarrow> u16 \<Rightarrow> xperms" where
  "range_xperms low high =
     (if ioctl_driver low \<noteq> ioctl_driver high
      then \<lparr>x_specified = 2, x_driver = 0, x_perms = {ioctl_driver low..ioctl_driver high}\<rparr>
      else \<lparr>x_specified = 1, x_driver = ioctl_driver low, x_perms = {ioctl_func low..ioctl_func high}\<rparr>)"

text \<open>No caller inverts the rule.\<close>

definition add_xperm_key :: "lib \<Rightarrow> avtab_key \<Rightarrow> u16 \<Rightarrow> u16 \<Rightarrow> policydb \<Rightarrow> policydb" where
  "add_xperm_key lib key low high db =
     (case get_avtab_node lib key (Some (range_xperms low high)) db of
        None \<Rightarrow> db
      | Some (n, db1) \<Rightarrow>
          if n_xperms n = None then set_node (n\<lparr>n_xperms := Some (range_xperms low high)\<rparr>) db1 else db1)"

definition attributes :: "policydb \<Rightarrow> type_datum list" where
  "attributes db = filter td_attribute (map snd (p_types db))"

definition or_all :: "'a option \<Rightarrow> 'a list \<Rightarrow> 'a list" where
  "or_all x xs = (case x of Some y \<Rightarrow> [y] | None \<Rightarrow> xs)"

definition add_xperm_rule_raw ::
  "lib \<Rightarrow> type_datum option \<Rightarrow> type_datum option \<Rightarrow> class_datum option \<Rightarrow> u16 \<Rightarrow> u16 \<Rightarrow> u16 \<Rightarrow> policydb \<Rightarrow> policydb" where
  "add_xperm_rule_raw lib src tgt cls low high effect db =
     fold (\<lambda>s. fold (\<lambda>t. fold (\<lambda>c. add_xperm_key lib (key_of s t c effect) low high)
                 (or_all cls (map snd (p_classes db))))
             (or_all tgt (attributes db)))
       (or_all src (attributes db)) db"

text \<open>\<^verbatim>\<open>%hx\<close> of \<^verbatim>\<open>sscanf\<close>: blanks, an optional prefix, hexadecimal digits; the value is cut to 16 bits.\<close>

definition hex_val :: "char \<Rightarrow> nat option" where
  "hex_val c =
     (if is_digit c then Some (char_code c - 48)
      else if char_code c \<ge> 97 \<and> char_code c \<le> 102 then Some (char_code c - 87)
      else if char_code c \<ge> 65 \<and> char_code c \<le> 70 then Some (char_code c - 55)
      else None)"

definition scan_hx :: "string \<Rightarrow> (u16 \<times> string) option" where
  "scan_hx s =
     (case dropWhile is_space s of
        [] \<Rightarrow> None
      | c # cs \<Rightarrow>
          if hex_val c = None then None
          else (let s1 = (if c = CHR ''0'' \<and> cs \<noteq> [] \<and> to_lower (hd cs) = CHR ''x'' then tl cs else c # cs)
                in Some (of_nat (foldl (\<lambda>n d. 16 * n + the (hex_val d)) 0 (takeWhile (\<lambda>d. hex_val d \<noteq> None) s1)),
                         dropWhile (\<lambda>d. hex_val d \<noteq> None) s1)))"

text \<open>\<open>junk\<close> is what the two variables hold when the text is no number.\<close>

definition scan_range :: "u16 \<times> u16 \<Rightarrow> string option \<Rightarrow> u16 \<times> u16" where
  "scan_range junk rng =
     (case rng of
        None \<Rightarrow> (0, 0xffff)
      | Some r \<Rightarrow>
          if CHR ''-'' \<in> set r
          then (case scan_hx r of
                  None \<Rightarrow> junk
                | Some (low, rest) \<Rightarrow>
                    (case rest of
                       [] \<Rightarrow> (low, snd junk)
                     | c # rest' \<Rightarrow>
                         if c \<noteq> CHR ''-'' then (low, snd junk)
                         else (case scan_hx rest' of None \<Rightarrow> (low, snd junk) | Some (high, _) \<Rightarrow> (low, high))))
          else (case scan_hx r of None \<Rightarrow> (fst junk, fst junk) | Some (low, _) \<Rightarrow> (low, low)))"

definition add_xperm_rule ::
  "lib \<Rightarrow> u16 \<times> u16 \<Rightarrow> string option \<Rightarrow> string option \<Rightarrow> string option \<Rightarrow> string option \<Rightarrow> u16 \<Rightarrow> policydb \<Rightarrow> bool \<times> policydb" where
  "add_xperm_rule lib junk s t c rng effect db =
     (case lookup_opt (p_types db) s of
        None \<Rightarrow> (False, db)
      | Some src \<Rightarrow>
          (case lookup_opt (p_types db) t of
             None \<Rightarrow> (False, db)
           | Some tgt \<Rightarrow>
               (case lookup_opt (p_classes db) c of
                  None \<Rightarrow> (False, db)
                | Some cls \<Rightarrow>
                    (case scan_range junk rng of
                       (low, high) \<Rightarrow> (True, add_xperm_rule_raw lib src tgt cls low high effect db)))))"

section \<open>Type rules\<close>

text \<open>\<open>None\<close>: the node could not be inserted, and the kernel follows the null pointer.\<close>

definition add_type_rule ::
  "lib \<Rightarrow> string \<Rightarrow> string \<Rightarrow> string \<Rightarrow> string \<Rightarrow> u16 \<Rightarrow> policydb \<Rightarrow> (bool \<times> policydb) option" where
  "add_type_rule lib s t c d effect db =
     (case symtab_search (p_types db) s of
        None \<Rightarrow> Some (False, db)
      | Some src \<Rightarrow>
          (case symtab_search (p_types db) t of
             None \<Rightarrow> Some (False, db)
           | Some tgt \<Rightarrow>
               (case symtab_search (p_classes db) c of
                  None \<Rightarrow> Some (False, db)
                | Some cls \<Rightarrow>
                    (case symtab_search (p_types db) d of
                       None \<Rightarrow> Some (False, db)
                     | Some def \<Rightarrow>
                         (case get_avtab_node lib (key_of src tgt cls effect) None db of
                            None \<Rightarrow> None
                          | Some (n, db1) \<Rightarrow> Some (True, set_node (n\<lparr>n_data := of_nat (td_value def)\<rparr>) db1))))))"

text \<open>
  A walk of a chain of file name transitions: the datum that has the source type already, the
  datum of the new default, or the last one (with the data before it).
\<close>

datatype ft_walk = Ft_Overwrite nat | Ft_Same nat | Ft_End "nat option"

fun walk_filenametr :: "nat \<Rightarrow> nat \<Rightarrow> nat \<Rightarrow> nat option \<Rightarrow> filename_trans_datum list \<Rightarrow> ft_walk" where
  "walk_filenametr src def i prv [] = Ft_End prv"
| "walk_filenametr src def i prv (tr # trs) =
     (if src - 1 \<in> ft_stypes tr then Ft_Overwrite i
      else if ft_otype tr = def then Ft_Same i
      else walk_filenametr src def (Suc i) (Some i) trs)"

text \<open>Writing to the chain of a key through the pointer the search returned.\<close>

definition set_chain :: "ft_key \<Rightarrow> filename_trans_datum list \<Rightarrow> ft_table \<Rightarrow> ft_table" where
  "set_chain key chain t = map (\<lambda>(k, c). if k = key then (k, chain) else (k, c)) t"

text \<open>
  The new datum is put in front of the last one of the chain that was found, and the table is asked
  to insert it under the key again; the answer is dropped.  A datum that was not inserted is written
  to, but nothing refers to it.
\<close>

definition add_filename_trans ::
  "lib \<Rightarrow> string \<Rightarrow> string \<Rightarrow> string \<Rightarrow> string \<Rightarrow> string \<Rightarrow> policydb \<Rightarrow> bool \<times> policydb" where
  "add_filename_trans lib s t c d ob db =
     (case symtab_search (p_types db) s of
        None \<Rightarrow> (False, db)
      | Some src \<Rightarrow>
          (case symtab_search (p_types db) t of
             None \<Rightarrow> (False, db)
           | Some tgt \<Rightarrow>
               (case symtab_search (p_classes db) c of
                  None \<Rightarrow> (False, db)
                | Some cls \<Rightarrow>
                    (case symtab_search (p_types db) d of
                       None \<Rightarrow> (False, db)
                     | Some def \<Rightarrow>
                         (let key = (td_value tgt, cd_value cls, ob);
                              chain = (case map_of (filename_trans db) key of None \<Rightarrow> [] | Some ch \<Rightarrow> ch);
                              bit = td_value src - 1;
                              db1 = db\<lparr>filename_trans_count := Suc (filename_trans_count db)\<rparr>
                          in case walk_filenametr (td_value src) (td_value def) 0 None chain of
                               Ft_Overwrite i \<Rightarrow>
                                 (True, db\<lparr>filename_trans := set_chain key (chain[i := (chain ! i)\<lparr>ft_otype := td_value def\<rparr>]) (filename_trans db)\<rparr>)
                             | Ft_Same i \<Rightarrow>
                                 (True, db1\<lparr>filename_trans :=
                                    set_chain key (chain[i := (chain ! i)\<lparr>ft_stypes := insert bit (ft_stypes (chain ! i))\<rparr>]) (filename_trans db)\<rparr>)
                             | Ft_End prv \<Rightarrow>
                                 (let new = \<lparr>ft_stypes = {bit}, ft_otype = td_value def\<rparr> # (case prv of None \<Rightarrow> [] | Some i \<Rightarrow> drop i chain)
                                  in case hashtab_insert lib (filename_trans db) key new of
                                       None \<Rightarrow> (True, db1)
                                     | Some tb \<Rightarrow> (True, db1\<lparr>filename_trans := tb\<rparr>)))))))"

definition add_genfscon :: "string \<Rightarrow> string \<Rightarrow> string \<Rightarrow> policydb \<Rightarrow> bool \<times> policydb" where
  "add_genfscon fs_name path ctx db = (False, db)"

section \<open>Types\<close>

text \<open>
  The number of types grows before the name is inserted; the arrays that are read by number grow
  after it, and every role gets the type.
\<close>

definition add_type :: "lib \<Rightarrow> string \<Rightarrow> bool \<Rightarrow> policydb \<Rightarrow> bool \<times> policydb" where
  "add_type lib type_name attr db =
     (case symtab_search (p_types db) type_name of
        Some ty \<Rightarrow> (True, db)
      | None \<Rightarrow>
          (let v = Suc (p_nprim db);
               ty = \<lparr>td_value = v, td_attribute = attr\<rparr>;
               db1 = db\<lparr>p_nprim := v\<rparr>
           in case symtab_insert lib (p_types db1) type_name ty of
                None \<Rightarrow> (False, db1)
              | Some tb \<Rightarrow>
                  (True, db1\<lparr>p_types := tb,
                     type_attr_map := take (v - 1) (type_attr_map db1) @ [{v - 1}],
                     val_to_struct := take (v - 1) (val_to_struct db1) @ [ty],
                     val_to_name := take (v - 1) (val_to_name db1) @ [type_name],
                     role_types := map (insert (v - 1)) (role_types db1)\<rparr>)))"

definition set_bit_to :: "nat \<Rightarrow> bool \<Rightarrow> nat set \<Rightarrow> nat set" where
  "set_bit_to i b m = (if b then insert i m else m - {i})"

definition set_type_state :: "string option \<Rightarrow> bool \<Rightarrow> policydb \<Rightarrow> bool \<times> policydb" where
  "set_type_state type_name permissive db =
     (case type_name of
        None \<Rightarrow>
          (True, db\<lparr>permissive_map := fold (\<lambda>(_, ty). set_bit_to (td_value ty) permissive) (p_types db) (permissive_map db)\<rparr>)
      | Some name \<Rightarrow>
          (case symtab_search (p_types db) name of
             None \<Rightarrow> (False, db)
           | Some ty \<Rightarrow> (True, db\<lparr>permissive_map := set_bit_to (td_value ty) permissive (permissive_map db)\<rparr>)))"

definition constrain :: "nat \<Rightarrow> nat \<Rightarrow> cexpr \<Rightarrow> cexpr" where
  "constrain ty attr e =
     (if ce_is_names e \<and> attr - 1 \<in> ce_type_names e then e\<lparr>ce_names := insert (ty - 1) (ce_names e)\<rparr> else e)"

definition add_typeattribute_raw :: "type_datum \<Rightarrow> type_datum \<Rightarrow> policydb \<Rightarrow> policydb" where
  "add_typeattribute_raw ty attr db =
     db\<lparr>type_attr_map := (type_attr_map db)[td_value ty - 1 := insert (td_value attr - 1) (type_attr_map db ! (td_value ty - 1))],
        p_classes := map (\<lambda>(name, c). (name, c\<lparr>cd_constraints := map (constrain (td_value ty) (td_value attr)) (cd_constraints c)\<rparr>))
          (p_classes db)\<rparr>"

definition add_typeattribute :: "string \<Rightarrow> string \<Rightarrow> policydb \<Rightarrow> bool \<times> policydb" where
  "add_typeattribute type_name attr_name db =
     (case symtab_search (p_types db) type_name of
        None \<Rightarrow> (False, db)
      | Some ty \<Rightarrow>
          if td_attribute ty then (False, db)
          else (case symtab_search (p_types db) attr_name of
                  None \<Rightarrow> (False, db)
                | Some attr \<Rightarrow>
                    if \<not> td_attribute attr then (False, db) else (True, add_typeattribute_raw ty attr db)))"

end
