(* ===== verification/Policy_Apply.thy ===== *)
theory Policy_Apply
  imports Policydb Zygote_Probe
begin

text \<open>
  The operations of \<^verbatim>\<open>core/tamisu_sepolicy.c\<close> that other parts call, the commands of a batch, the rules
  of the module, and the permissions a native target gets while it loads its library
  (\<^verbatim>\<open>core/tamisu_rules.c\<close>).  \<open>junk\<close> is what the two variables of a range hold before it is read;
  \<open>dup\<close> is the copy of the policy, or an error number.
\<close>

section \<open>The operations\<close>

definition and_then :: "bool \<times> policydb \<Rightarrow> (policydb \<Rightarrow> bool \<times> policydb) \<Rightarrow> bool \<times> policydb" where
  "and_then r f = (if fst r then f (snd r) else (False, snd r))"

definition tamisu_type :: "lib \<Rightarrow> string \<Rightarrow> string \<Rightarrow> policydb \<Rightarrow> bool \<times> policydb" where
  "tamisu_type lib name attr db = and_then (add_type lib name False db) (add_typeattribute name attr)"

definition tamisu_attribute :: "lib \<Rightarrow> string \<Rightarrow> policydb \<Rightarrow> bool \<times> policydb" where
  "tamisu_attribute lib name db = add_type lib name True db"

definition tamisu_permissive :: "string option \<Rightarrow> policydb \<Rightarrow> bool \<times> policydb" where
  "tamisu_permissive ty db = set_type_state ty True db"

definition tamisu_enforce :: "string option \<Rightarrow> policydb \<Rightarrow> bool \<times> policydb" where
  "tamisu_enforce ty db = set_type_state ty False db"

definition tamisu_typeattribute :: "string \<Rightarrow> string \<Rightarrow> policydb \<Rightarrow> bool \<times> policydb" where
  "tamisu_typeattribute ty attr db = add_typeattribute ty attr db"

type_synonym rule_fn = "lib \<Rightarrow> string option \<Rightarrow> string option \<Rightarrow> string option \<Rightarrow> string option \<Rightarrow> policydb \<Rightarrow> bool \<times> policydb"

definition tamisu_allow :: rule_fn where
  "tamisu_allow lib src tgt cls perm db = add_rule lib src tgt cls perm AVTAB_ALLOWED False db"

definition tamisu_deny :: rule_fn where
  "tamisu_deny lib src tgt cls perm db = add_rule lib src tgt cls perm AVTAB_ALLOWED True db"

definition tamisu_auditallow :: rule_fn where
  "tamisu_auditallow lib src tgt cls perm db = add_rule lib src tgt cls perm AVTAB_AUDITALLOW False db"

definition tamisu_dontaudit :: rule_fn where
  "tamisu_dontaudit lib src tgt cls perm db = add_rule lib src tgt cls perm AVTAB_AUDITDENY True db"

type_synonym xrule_fn =
  "lib \<Rightarrow> u16 \<times> u16 \<Rightarrow> string option \<Rightarrow> string option \<Rightarrow> string option \<Rightarrow> string option \<Rightarrow> policydb \<Rightarrow> bool \<times> policydb"

definition tamisu_allowxperm :: xrule_fn where
  "tamisu_allowxperm lib junk src tgt cls rng db = add_xperm_rule lib junk src tgt cls rng AVTAB_XPERMS_ALLOWED db"

definition tamisu_auditallowxperm :: xrule_fn where
  "tamisu_auditallowxperm lib junk src tgt cls rng db = add_xperm_rule lib junk src tgt cls rng AVTAB_XPERMS_AUDITALLOW db"

definition tamisu_dontauditxperm :: xrule_fn where
  "tamisu_dontauditxperm lib junk src tgt cls rng db = add_xperm_rule lib junk src tgt cls rng AVTAB_XPERMS_DONTAUDIT db"

definition tamisu_type_transition ::
  "lib \<Rightarrow> string \<Rightarrow> string \<Rightarrow> string \<Rightarrow> string \<Rightarrow> string option \<Rightarrow> policydb \<Rightarrow> (bool \<times> policydb) option" where
  "tamisu_type_transition lib src tgt cls def obj db =
     (case obj of
        Some ob \<Rightarrow> Some (add_filename_trans lib src tgt cls def ob db)
      | None \<Rightarrow> add_type_rule lib src tgt cls def AVTAB_TRANSITION db)"

definition tamisu_type_change ::
  "lib \<Rightarrow> string \<Rightarrow> string \<Rightarrow> string \<Rightarrow> string \<Rightarrow> policydb \<Rightarrow> (bool \<times> policydb) option" where
  "tamisu_type_change lib src tgt cls def db = add_type_rule lib src tgt cls def AVTAB_CHANGE db"

definition tamisu_type_member ::
  "lib \<Rightarrow> string \<Rightarrow> string \<Rightarrow> string \<Rightarrow> string \<Rightarrow> policydb \<Rightarrow> (bool \<times> policydb) option" where
  "tamisu_type_member lib src tgt cls def db = add_type_rule lib src tgt cls def AVTAB_MEMBER db"

definition tamisu_genfscon :: "string \<Rightarrow> string \<Rightarrow> string \<Rightarrow> policydb \<Rightarrow> bool \<times> policydb" where
  "tamisu_genfscon fs_name path ctx db = add_genfscon fs_name path ctx db"

section \<open>One command of a batch\<close>

definition done_or :: "(bool \<times> policydb) option \<Rightarrow> (int \<times> policydb) option" where
  "done_or r = map_option (\<lambda>(ok, db). (if ok then 0 else - EINVAL, db)) r"

definition arg :: "string option list \<Rightarrow> nat \<Rightarrow> string option" where
  "arg args i = (if i < length args then args ! i else None)"

text \<open>\<open>require_not_all\<close>: the arguments that may not be \<^verbatim>\<open>ALL\<close>, as the strings they are.\<close>

definition require_not_all :: "string option list \<Rightarrow> nat list \<Rightarrow> string list option" where
  "require_not_all args is =
     (if \<forall>i\<in>set is. arg args i \<noteq> None then Some (map (\<lambda>i. the (arg args i)) is) else None)"

definition refused :: "policydb \<Rightarrow> (int \<times> policydb) option" where
  "refused db = Some (- EINVAL, db)"

definition normal_perm_cmd :: "lib \<Rightarrow> u32 \<Rightarrow> string option list \<Rightarrow> policydb \<Rightarrow> (int \<times> policydb) option" where
  "normal_perm_cmd lib sub args db =
     (let run = (\<lambda>f :: rule_fn. done_or (Some (f lib (arg args 0) (arg args 1) (arg args 2) (arg args 3) db)))
      in if sub = 1 then run tamisu_allow
         else if sub = 2 then run tamisu_deny
         else if sub = 3 then run tamisu_auditallow
         else if sub = 4 then run tamisu_dontaudit
         else refused db)"

definition xperm_cmd :: "lib \<Rightarrow> u16 \<times> u16 \<Rightarrow> u32 \<Rightarrow> string option list \<Rightarrow> policydb \<Rightarrow> (int \<times> policydb) option" where
  "xperm_cmd lib junk sub args db =
     (case require_not_all args [3, 4] of
        None \<Rightarrow> refused db
      | Some _ \<Rightarrow>
          (let run = (\<lambda>f :: xrule_fn. done_or (Some (f lib junk (arg args 0) (arg args 1) (arg args 2) (arg args 4) db)))
           in if sub = 1 then run tamisu_allowxperm
              else if sub = 2 then run tamisu_auditallowxperm
              else if sub = 3 then run tamisu_dontauditxperm
              else refused db))"

definition type_state_cmd :: "u32 \<Rightarrow> string option list \<Rightarrow> policydb \<Rightarrow> (int \<times> policydb) option" where
  "type_state_cmd sub args db =
     (case require_not_all args [0] of
        Some [ty] \<Rightarrow>
          if sub = 1 then done_or (Some (tamisu_permissive (Some ty) db))
          else if sub = 2 then done_or (Some (tamisu_enforce (Some ty) db))
          else refused db
      | _ \<Rightarrow> refused db)"

definition type_cmd :: "lib \<Rightarrow> bool \<Rightarrow> string option list \<Rightarrow> policydb \<Rightarrow> (int \<times> policydb) option" where
  "type_cmd lib new args db =
     (case require_not_all args [0, 1] of
        Some [ty, attr] \<Rightarrow> done_or (Some (if new then tamisu_type lib ty attr db else tamisu_typeattribute ty attr db))
      | _ \<Rightarrow> refused db)"

definition type_transition_cmd :: "lib \<Rightarrow> string option list \<Rightarrow> policydb \<Rightarrow> (int \<times> policydb) option" where
  "type_transition_cmd lib args db =
     (case require_not_all args [0, 1, 2, 3] of
        Some [src, tgt, cls, def] \<Rightarrow> done_or (tamisu_type_transition lib src tgt cls def (arg args 4) db)
      | _ \<Rightarrow> refused db)"

definition type_change_cmd :: "lib \<Rightarrow> u32 \<Rightarrow> string option list \<Rightarrow> policydb \<Rightarrow> (int \<times> policydb) option" where
  "type_change_cmd lib sub args db =
     (case require_not_all args [0, 1, 2, 3] of
        Some [src, tgt, cls, def] \<Rightarrow>
          if sub = 1 then done_or (tamisu_type_change lib src tgt cls def db)
          else if sub = 2 then done_or (tamisu_type_member lib src tgt cls def db)
          else refused db
      | _ \<Rightarrow> refused db)"

definition apply_one_sepolicy_cmd ::
  "lib \<Rightarrow> u16 \<times> u16 \<Rightarrow> u32 \<times> u32 \<Rightarrow> string option list \<Rightarrow> policydb \<Rightarrow> (int \<times> policydb) option" where
  "apply_one_sepolicy_cmd lib junk header args db =
     (case header of (c, sub) \<Rightarrow>
        if c = CMD_NORMAL_PERM then normal_perm_cmd lib sub args db
        else if c = CMD_XPERM then xperm_cmd lib junk sub args db
        else if c = CMD_TYPE_STATE then type_state_cmd sub args db
        else if c = CMD_TYPE \<or> c = CMD_TYPE_ATTR then type_cmd lib (c = CMD_TYPE) args db
        else if c = CMD_ATTR then
          (case require_not_all args [0] of Some [a] \<Rightarrow> done_or (Some (tamisu_attribute lib a db)) | _ \<Rightarrow> refused db)
        else if c = CMD_TYPE_TRANSITION then type_transition_cmd lib args db
        else if c = CMD_TYPE_CHANGE then type_change_cmd lib sub args db
        else if c = CMD_GENFSCON then
          (case require_not_all args [0, 1, 2] of
             Some [name, path, ctx] \<Rightarrow> done_or (Some (tamisu_genfscon name path ctx db)) | _ \<Rightarrow> refused db)
        else refused db)"

text \<open>
  The command as the reader of a batch runs it; the state is \<open>None\<close> once the kernel followed a null
  pointer.
\<close>

definition patch_cmd ::
  "lib \<Rightarrow> u16 \<times> u16 \<Rightarrow> u32 \<times> u32 \<Rightarrow> string option list \<Rightarrow> policydb option \<Rightarrow> int \<times> policydb option" where
  "patch_cmd lib junk header args st =
     (case st of
        None \<Rightarrow> (0, None)
      | Some db \<Rightarrow>
          (case apply_one_sepolicy_cmd lib junk header args db of None \<Rightarrow> (0, None) | Some (r, db') \<Rightarrow> (r, Some db')))"

section \<open>The rules of the module\<close>

definition TAMISU_DOMAIN :: string where "TAMISU_DOMAIN = ''su''"
definition KERNEL_SU_FILE :: string where "KERNEL_SU_FILE = ''tamisu_file''"

definition su_rule :: "string option \<Rightarrow> string \<Rightarrow> string \<Rightarrow> lib \<Rightarrow> policydb \<Rightarrow> bool \<times> policydb" where
  "su_rule src cls perm lib = tamisu_allow lib src (Some TAMISU_DOMAIN) (Some cls) (Some perm)"

definition su_rules :: "(lib \<Rightarrow> policydb \<Rightarrow> bool \<times> policydb) list" where
  "su_rules =
     (let sm = Some ''servicemanager''; ld = Some ''logd''; hw = Some ''hwservicemanager''; ss = Some ''system_server''
      in [su_rule sm ''dir'' ''search'', su_rule sm ''dir'' ''read'', su_rule sm ''file'' ''open'',
          su_rule sm ''file'' ''read'', su_rule sm ''process'' ''getattr'', su_rule None ''process'' ''sigchld'',
          su_rule ld ''dir'' ''search'', su_rule ld ''file'' ''read'', su_rule ld ''file'' ''open'',
          su_rule ld ''file'' ''getattr'',
          su_rule None ''fd'' ''use'', su_rule None ''fifo_file'' ''write'', su_rule None ''fifo_file'' ''read'',
          su_rule None ''fifo_file'' ''open'', su_rule None ''fifo_file'' ''getattr'',
          su_rule None ''unix_stream_socket'' ''read'', su_rule None ''unix_stream_socket'' ''write'',
          su_rule None ''unix_stream_socket'' ''connectto'', su_rule None ''unix_stream_socket'' ''getopt'',
          su_rule None ''unix_stream_socket'' ''getattr'',
          su_rule None ''memfd_file'' ''execute'', su_rule None ''memfd_file'' ''getattr'',
          su_rule None ''memfd_file'' ''map'', su_rule None ''memfd_file'' ''read'',
          su_rule None ''memfd_file'' ''write'',
          su_rule hw ''dir'' ''search'', su_rule hw ''file'' ''read'', su_rule hw ''file'' ''open'',
          su_rule hw ''process'' ''getattr'',
          \<lambda>lib. tamisu_allow lib None (Some TAMISU_DOMAIN) (Some ''binder'') None,
          su_rule ss ''process'' ''getpgid'', su_rule ss ''process'' ''sigkill'',
          \<lambda>lib. tamisu_allow lib ss ss (Some ''process'') (Some ''execmem''),
          \<lambda>lib. tamisu_dontaudit lib (Some ''untrusted_app'') (Some TAMISU_DOMAIN) (Some ''dir'') (Some ''getattr'')])"

definition POLICYDB_VERSION_XPERMS_IOCTL :: nat where "POLICYDB_VERSION_XPERMS_IOCTL = 30"

definition all_rules :: "u16 \<times> u16 \<Rightarrow> nat \<Rightarrow> (lib \<Rightarrow> policydb \<Rightarrow> bool \<times> policydb) list" where
  "all_rules junk vers =
     [\<lambda>lib. tamisu_permissive (Some TAMISU_DOMAIN),
      \<lambda>lib. tamisu_typeattribute TAMISU_DOMAIN ''mlstrustedsubject'',
      \<lambda>lib. tamisu_typeattribute TAMISU_DOMAIN ''netdomain'',
      \<lambda>lib. tamisu_typeattribute TAMISU_DOMAIN ''bluetoothdomain'',
      \<lambda>lib. tamisu_type lib KERNEL_SU_FILE ''file_type'',
      \<lambda>lib. tamisu_typeattribute KERNEL_SU_FILE ''mlstrustedobject'',
      \<lambda>lib. tamisu_allow lib None (Some KERNEL_SU_FILE) None None,
      \<lambda>lib. tamisu_allow lib (Some TAMISU_DOMAIN) None None None] @
     (if vers \<ge> POLICYDB_VERSION_XPERMS_IOCTL
      then map (\<lambda>cls lib. tamisu_allowxperm lib junk (Some TAMISU_DOMAIN) None (Some cls) None)
             [''blk_file'', ''fifo_file'', ''chr_file'', ''file'']
      else []) @
     [\<lambda>lib. tamisu_allow lib (Some ''init'') (Some TAMISU_DOMAIN) None None] @ su_rules"

text \<open>\<open>isids\<close>: the result of filling the table of the copy (an allocation, and the initial contexts).\<close>

definition backup_original_sepolicy_once ::
  "(policydb \<Rightarrow> int + policydb) \<Rightarrow> int \<Rightarrow> policydb option \<Rightarrow> policydb option \<Rightarrow> policydb option" where
  "backup_original_sepolicy_once dup isids policy backup =
     (if backup \<noteq> None then backup
      else (case policy of
              None \<Rightarrow> None
            | Some db \<Rightarrow> (case dup db of Inl _ \<Rightarrow> None | Inr copy \<Rightarrow> if isids \<noteq> 0 then None else Some copy)))"

definition apply_tamisu_rules ::
  "lib \<Rightarrow> u16 \<times> u16 \<Rightarrow> (policydb \<Rightarrow> int + policydb) \<Rightarrow> int \<Rightarrow> policydb option \<Rightarrow> policydb option
     \<Rightarrow> policydb option \<times> policydb option" where
  "apply_tamisu_rules lib junk dup isids policy backup =
     (map_option (\<lambda>db. fold (\<lambda>f d. snd (f lib d)) (all_rules junk (policyvers db)) db) policy,
      backup_original_sepolicy_once dup isids policy backup)"

section \<open>Permissions for a native target\<close>

definition tamisu_file_load_perms :: "string list" where
  "tamisu_file_load_perms = [''read'', ''open'', ''getattr'', ''map'', ''execute'']"

definition tamisu_tmpfs_hook_perms :: "string list" where
  "tamisu_tmpfs_hook_perms = [''read'', ''write'', ''open'', ''getattr'', ''map'', ''execute'']"

definition tamisu_file_perm_mask :: "class_datum \<Rightarrow> string \<Rightarrow> u32" where
  "tamisu_file_perm_mask cls perm_name =
     (case class_perm cls perm_name of
        None \<Rightarrow> 0
      | Some v \<Rightarrow> if v = 0 \<or> v > 32 then 0 else perm_bit v)"

definition tamisu_required_av :: "class_datum \<Rightarrow> string list \<Rightarrow> u32" where
  "tamisu_required_av cls perms = fold (\<lambda>p av. av OR tamisu_file_perm_mask cls p) perms 0"

definition tamisu_direct_allowed_av :: "lib \<Rightarrow> policydb \<Rightarrow> u32 \<Rightarrow> u32 \<Rightarrow> nat \<Rightarrow> u32" where
  "tamisu_direct_allowed_av lib db src_type tgt_type target_class =
     (case avtab_search_node lib (te_avtab db)
             \<lparr>k_source = ucast src_type, k_target = ucast tgt_type, k_class = of_nat target_class, k_specified = AVTAB_ALLOWED\<rparr> of
        None \<Rightarrow> 0
      | Some n \<Rightarrow> n_data n)"

definition tamisu_type_name_by_value :: "policydb \<Rightarrow> u32 \<Rightarrow> string option" where
  "tamisu_type_name_by_value db ty =
     (if ty = 0 \<or> unat ty > p_nprim db then None
      else if unat ty \<le> length (val_to_name db) then Some (val_to_name db ! (unat ty - 1)) else None)"

definition tamisu_type_value_by_name :: "policydb \<Rightarrow> string \<Rightarrow> u32" where
  "tamisu_type_value_by_name db name =
     (case symtab_search (p_types db) name of None \<Rightarrow> 0 | Some ty \<Rightarrow> of_nat (td_value ty))"

fun apply_file_perms ::
  "lib \<Rightarrow> class_datum \<Rightarrow> string \<Rightarrow> string \<Rightarrow> u32 \<Rightarrow> bool \<Rightarrow> string list \<Rightarrow> policydb \<Rightarrow> bool \<times> policydb" where
  "apply_file_perms lib cls src tgt av allow [] db = (True, db)"
| "apply_file_perms lib cls src tgt av allow (p # ps) db =
     (if av AND tamisu_file_perm_mask cls p = 0 then apply_file_perms lib cls src tgt av allow ps db
      else (case (if allow then tamisu_allow else tamisu_deny) lib (Some src) (Some tgt) (Some ''file'') (Some p) db of
              (ok, db1) \<Rightarrow>
                (case apply_file_perms lib cls src tgt av allow ps db1 of (ok2, db2) \<Rightarrow> (ok \<and> ok2, db2))))"

definition tamisu_apply_file_av ::
  "lib \<Rightarrow> policydb \<Rightarrow> string \<Rightarrow> string \<Rightarrow> u32 \<Rightarrow> bool \<Rightarrow> string list \<Rightarrow> bool \<times> policydb" where
  "tamisu_apply_file_av lib db src tgt av allow perms =
     (case symtab_search (p_classes db) ''file'' of
        None \<Rightarrow> (False, db)
      | Some cls \<Rightarrow> apply_file_perms lib cls src tgt av allow perms db)"

text \<open>Both parts of a change, each only when it has bits; \<open>None\<close> when one of them failed.\<close>

definition apply_two ::
  "lib \<Rightarrow> string \<Rightarrow> string \<Rightarrow> u32 \<Rightarrow> string \<Rightarrow> u32 \<Rightarrow> bool \<Rightarrow> policydb \<Rightarrow> policydb option" where
  "apply_two lib src tgt av tmpfs tav allow db =
     (case (if av \<noteq> 0 then tamisu_apply_file_av lib db src tgt av allow tamisu_file_load_perms else (True, db)) of
        (ok1, db1) \<Rightarrow>
          if \<not> ok1 then None
          else (case (if tav \<noteq> 0 then tamisu_apply_file_av lib db1 src tmpfs tav allow tamisu_tmpfs_hook_perms else (True, db1)) of
                  (ok2, db2) \<Rightarrow> if ok2 then Some db2 else None))"

text \<open>
  \<open>sidtab\<close> gives the type of the context of a sid, \<open>isec\<close> is the sid of the file, when it has one.
  The new policy replaces the old one; the state records what was added.
\<close>

definition P_ENOENT :: int where "P_ENOENT = 2"

definition tamisu_file_load_policy_allow_current ::
  "lib \<Rightarrow> (policydb \<Rightarrow> int + policydb) \<Rightarrow> (u32 \<Rightarrow> u32 option) \<Rightarrow> u32 \<Rightarrow> u32 option \<Rightarrow> policydb option
     \<Rightarrow> int \<times> file_load_policy \<times> policydb option" where
  "tamisu_file_load_policy_allow_current lib dup sidtab ssid isec policy =
     (case (policy, isec) of
        (None, _) \<Rightarrow> (- P_ENOENT, no_additions, policy)
      | (_, None) \<Rightarrow> (- EINVAL, no_additions, policy)
      | (Some db, Some tsid) \<Rightarrow>
          if ssid = 0 \<or> tsid = 0 then (- EINVAL, no_additions, policy)
          else (case (sidtab ssid, sidtab tsid, symtab_search (p_classes db) ''file'') of
                  (Some src, Some tgt, Some cls) \<Rightarrow>
                    (case (tamisu_type_name_by_value db src, tamisu_type_name_by_value db tgt) of
                       (Some src_name, Some tgt_name) \<Rightarrow>
                         (let add_av = tamisu_required_av cls tamisu_file_load_perms
                                AND NOT (tamisu_direct_allowed_av lib db src tgt (cd_value cls));
                              tmpfs_type = tamisu_type_value_by_name db ''tmpfs'';
                              tmpfs_add_av =
                                (if tmpfs_type = 0 then 0
                                 else tamisu_required_av cls tamisu_tmpfs_hook_perms
                                   AND NOT (tamisu_direct_allowed_av lib db src tmpfs_type (cd_value cls)))
                          in if add_av = 0 \<and> tmpfs_add_av = 0 then (0, no_additions, policy)
                             else (case dup db of
                                     Inl e \<Rightarrow> (e, no_additions, policy)
                                   | Inr copy \<Rightarrow>
                                       (case apply_two lib src_name tgt_name add_av ''tmpfs'' tmpfs_add_av True copy of
                                          None \<Rightarrow> (- EINVAL, no_additions, policy)
                                        | Some db' \<Rightarrow>
                                            (0, \<lparr>fl_src = src, fl_tgt = tgt, fl_tmpfs = tmpfs_type,
                                                 fl_class = of_nat (cd_value cls), fl_added = add_av,
                                                 fl_tmpfs_added = tmpfs_add_av\<rparr>, Some db'))))
                     | _ \<Rightarrow> (- P_ENOENT, no_additions, policy))
                | _ \<Rightarrow> (- P_ENOENT, no_additions, policy)))"

definition tamisu_file_load_policy_restore ::
  "lib \<Rightarrow> (policydb \<Rightarrow> int + policydb) \<Rightarrow> file_load_policy \<Rightarrow> policydb option \<Rightarrow> int \<times> policydb option" where
  "tamisu_file_load_policy_restore lib dup state policy =
     (if fl_added state = 0 \<and> fl_tmpfs_added state = 0 then (0, policy)
      else (case policy of
              None \<Rightarrow> (- P_ENOENT, policy)
            | Some db \<Rightarrow>
                (let src_name = tamisu_type_name_by_value db (fl_src state);
                     tgt_name = (if fl_added state \<noteq> 0 then tamisu_type_name_by_value db (fl_tgt state) else None);
                     tmpfs_name = (if fl_tmpfs_added state \<noteq> 0 then tamisu_type_name_by_value db (fl_tmpfs state) else None)
                 in if src_name = None \<or> fl_added state \<noteq> 0 \<and> tgt_name = None \<or> fl_tmpfs_added state \<noteq> 0 \<and> tmpfs_name = None
                    then (- P_ENOENT, policy)
                    else (case dup db of
                            Inl e \<Rightarrow> (e, policy)
                          | Inr copy \<Rightarrow>
                              (case apply_two lib (the src_name) (the tgt_name) (fl_added state) (the tmpfs_name)
                                      (fl_tmpfs_added state) False copy of
                                 None \<Rightarrow> (- EINVAL, policy)
                               | Some db' \<Rightarrow> (0, Some db'))))))"

end
