(* ===== verification/Policydb_Vec.thy ===== *)
theory Policydb_Vec
  imports Policy_Apply
begin

text \<open>
  What the rules do to the database.  \<open>lawful\<close> is the documented behaviour of the functions of
  the kernel (a search finds the first node of the key; an insertion puts one new node somewhere; a
  name or a key is inserted when it is new), \<open>avtab_ok\<close> the invariant of the table: nodes are
  different, and a key of an access vector has one.
\<close>

section \<open>The functions of the kernel\<close>

unbundle bit_operations_syntax

definition insert_law :: "lib \<Rightarrow> bool" where
  "insert_law lib \<longleftrightarrow> (\<forall>t key d x. \<exists>a b n. t = a @ b \<and> avtab_insert_nonunique lib t key d x = Some (n, a @ n # b) \<and>
     n_key n = key \<and> n_data n = d \<and> n_xperms n = x \<and> n_id n \<notin> n_id ` set t)"

definition lawful :: "lib \<Rightarrow> bool" where
  "lawful lib \<longleftrightarrow>
     (\<forall>t key. avtab_search_node lib t key = find (\<lambda>n. n_key n = key) t) \<and>
     (\<forall>t n. avtab_search_node_next lib t n =
        find (\<lambda>m. n_key m = n_key n) (tl (dropWhile (\<lambda>m. n_id m \<noteq> n_id n) t))) \<and>
     insert_law lib \<and>
     (\<forall>t name ty. map_of t name = None \<longrightarrow> (\<exists>a b. t = a @ b \<and> symtab_insert lib t name ty = Some (a @ (name, ty) # b))) \<and>
     (\<forall>t key ch. map_of t key \<noteq> None \<longrightarrow> hashtab_insert lib t key ch = None)"

lemma lawful_search: "lawful lib \<Longrightarrow> avtab_search_node lib t key = find (\<lambda>n. n_key n = key) t"
  by (simp add: lawful_def)

lemma lawful_insert:
  assumes "lawful lib"
  obtains a b n where "t = a @ b" "avtab_insert_nonunique lib t key d x = Some (n, a @ n # b)"
    "n_key n = key" "n_data n = d" "n_xperms n = x" "n_id n \<notin> n_id ` set t"
  using assms unfolding lawful_def insert_law_def by metis

definition avtab_ok :: "avtab \<Rightarrow> bool" where
  "avtab_ok t \<longleftrightarrow> distinct (map n_id t) \<and>
     (\<forall>n\<in>set t. \<forall>m\<in>set t. n_key n = n_key m \<and> \<not> is_xperms (k_specified (n_key n)) \<longrightarrow> n = m)"

lemma avtab_ok_id: "avtab_ok t \<Longrightarrow> n \<in> set t \<Longrightarrow> m \<in> set t \<Longrightarrow> n_id n = n_id m \<Longrightarrow> n = m"
  by (auto simp: avtab_ok_def distinct_map inj_on_def)

lemma avtab_ok_key:
  "avtab_ok t \<Longrightarrow> n \<in> set t \<Longrightarrow> m \<in> set t \<Longrightarrow> n_key n = n_key m \<Longrightarrow> \<not> is_xperms (k_specified (n_key m)) \<Longrightarrow> n = m"
  by (simp add: avtab_ok_def)

section \<open>The vector of a key\<close>

definition av_default :: "u16 \<Rightarrow> u32" where
  "av_default specified = (if specified = AVTAB_AUDITDENY then 0xffffffff else 0)"

definition vec :: "policydb \<Rightarrow> avtab_key \<Rightarrow> u32" where
  "vec db k = (case find (\<lambda>n. n_key n = k) (te_avtab db) of None \<Rightarrow> av_default (k_specified k) | Some n \<Rightarrow> n_data n)"

lemma find_mem: "find P xs = Some x \<Longrightarrow> x \<in> set xs \<and> P x"
  by (auto simp: find_Some_iff)

lemma find_map: "find P (map f xs) = map_option f (find (P \<circ> f) xs)"
  by (induction xs) auto

lemma find_filter: "(\<And>x. x \<in> set xs \<Longrightarrow> P x \<Longrightarrow> Q x) \<Longrightarrow> find P (filter Q xs) = find P xs"
  by (induction xs) auto

lemma find_insert:
  "find P (a @ b) = None \<Longrightarrow> find P (a @ x # b) = (if P x then Some x else None)"
  by (induction a) (auto split: if_splits)

lemma find_insert_other: "\<not> P x \<Longrightarrow> find P (a @ x # b) = find P (a @ b)"
  by (induction a) auto

lemma drop_id_filter:
  "distinct (map n_id t) \<Longrightarrow> n \<in> set t \<Longrightarrow>
     takeWhile (\<lambda>m. n_id m \<noteq> n_id n) t @ tl (dropWhile (\<lambda>m. n_id m \<noteq> n_id n) t) = filter (\<lambda>m. n_id m \<noteq> n_id n) t"
proof (induction t)
  case (Cons m t)
  show ?case
  proof (cases "n_id m = n_id n")
    case True
    then have "filter (\<lambda>m. n_id m \<noteq> n_id n) t = t" using Cons.prems(1) by (auto simp: filter_id_conv) (metis image_eqI)
    then show ?thesis using True by simp
  next
    case False
    then show ?thesis using Cons by auto
  qed
qed simp

text \<open>Writing a node keeps the keys, and changes the vector of its own key only.\<close>

lemma set_node_table: "te_avtab (set_node n db) = map (\<lambda>m. if n_id m = n_id n then n else m) (te_avtab db)"
  by (simp add: set_node_def)

lemma avtab_ok_map:
  assumes "avtab_ok t" and "\<And>m. m \<in> set t \<Longrightarrow> n_key (f m) = n_key m \<and> n_id (f m) = n_id m"
  shows "avtab_ok (map f t)"
proof -
  have "map n_id (map f t) = map n_id t" using assms(2) by simp
  then show ?thesis using assms unfolding avtab_ok_def by (auto simp del: map_map)
qed

lemma avtab_ok_filter: "avtab_ok t \<Longrightarrow> avtab_ok (filter P t)"
  unfolding avtab_ok_def by (auto simp: distinct_map_filter)

lemma write_node:
  assumes ok: "avtab_ok (te_avtab db)" and n: "find (\<lambda>m. n_key m = key) (te_avtab db) = Some n"
    and n': "n_id n' = n_id n" "n_key n' = key"
  shows "avtab_ok (te_avtab (set_node n' db))"
    and "find (\<lambda>m. n_key m = k) (te_avtab (set_node n' db)) =
       (if k = key then Some n' else find (\<lambda>m. n_key m = k) (te_avtab db))"
proof -
  let ?t = "te_avtab db" and ?f = "\<lambda>m. if n_id m = n_id n' then n' else m"
  have mem: "n \<in> set ?t" "n_key n = key" using find_mem [OF n] by auto
  have f: "n_key (?f m) = n_key m \<and> n_id (?f m) = n_id m" if "m \<in> set ?t" for m
    using that mem n' avtab_ok_id [OF ok mem(1) that] by auto
  then show "avtab_ok (te_avtab (set_node n' db))"
    unfolding set_node_table by (rule avtab_ok_map [OF ok])
  have "find ((\<lambda>m. n_key m = k) \<circ> ?f) ?t = find (\<lambda>m. n_key m = k) ?t"
    using f by (intro find_cong) auto
  then have "find (\<lambda>m. n_key m = k) (map ?f ?t) = map_option ?f (find (\<lambda>m. n_key m = k) ?t)"
    by (simp only: find_map)
  moreover have "map_option ?f (find (\<lambda>m. n_key m = k) ?t) = find (\<lambda>m. n_key m = k) ?t" if "k \<noteq> key"
  proof (cases "find (\<lambda>m. n_key m = k) ?t")
    case (Some m)
    then have "m \<in> set ?t" "n_key m = k" using find_mem [OF Some] by auto
    then have "n_id m \<noteq> n_id n'" using that mem n' avtab_ok_id [OF ok _ mem(1)] by auto
    then show ?thesis using Some by simp
  qed simp
  ultimately show "find (\<lambda>m. n_key m = k) (te_avtab (set_node n' db)) =
       (if k = key then Some n' else find (\<lambda>m. n_key m = k) ?t)"
    using n n' by (simp add: set_node_table)
qed

lemma drop_node:
  assumes ok: "avtab_ok (te_avtab db)" and n: "find (\<lambda>m. n_key m = key) (te_avtab db) = Some n"
    and key: "\<not> is_xperms (k_specified key)"
  shows "avtab_ok (te_avtab (remove_avtab_node n db))"
    and "find (\<lambda>m. n_key m = k) (te_avtab (remove_avtab_node n db)) =
       (if k = key then None else find (\<lambda>m. n_key m = k) (te_avtab db))"
proof -
  let ?t = "te_avtab db"
  have mem: "n \<in> set ?t" "n_key n = key" using find_mem [OF n] by auto
  have t: "te_avtab (remove_avtab_node n db) = filter (\<lambda>m. n_id m \<noteq> n_id n) ?t"
    using mem(1) ok drop_id_filter [of ?t n] by (auto simp: remove_avtab_node_def avtab_ok_def)
  show "avtab_ok (te_avtab (remove_avtab_node n db))" unfolding t by (rule avtab_ok_filter [OF ok])
  show "find (\<lambda>m. n_key m = k) (te_avtab (remove_avtab_node n db)) =
       (if k = key then None else find (\<lambda>m. n_key m = k) ?t)"
  proof (cases "k = key")
    case True
    have "m = n" if "m \<in> set ?t" "n_key m = key" for m
      by (rule avtab_ok_key [OF ok that(1) mem(1)]) (simp_all add: that mem key)
    then have "find (\<lambda>m. n_key m = key) (filter (\<lambda>m. n_id m \<noteq> n_id n) ?t) = None"
      by (auto simp: find_None_iff)
    then show ?thesis using True t by simp
  next
    case False
    have "find (\<lambda>m. n_key m = k) (filter (\<lambda>m. n_id m \<noteq> n_id n) ?t) = find (\<lambda>m. n_key m = k) ?t"
    proof (rule find_filter)
      fix m
      assume m: "m \<in> set ?t" "n_key m = k"
      show "n_id m \<noteq> n_id n" using avtab_ok_id [OF ok m(1) mem(1)] m(2) mem(2) False by blast
    qed
    then show ?thesis using False t by simp
  qed
qed

section \<open>Rules\<close>

lemma vec_eqI: "(\<And>k. find (\<lambda>m. n_key m = k) (te_avtab db) = find (\<lambda>m. n_key m = k) (te_avtab db')) \<Longrightarrow> vec db = vec db'"
  by (intro ext) (simp add: vec_def)

lemma get_node:
  assumes law: "lawful lib" and ok: "avtab_ok (te_avtab db)" and key: "\<not> is_xperms (k_specified key)"
  obtains n db1 where "get_avtab_node lib key None db = Some (n, db1)"
    "avtab_ok (te_avtab db1)" "find (\<lambda>m. n_key m = key) (te_avtab db1) = Some n" "n_data n = vec db key"
    "vec db1 = vec db" "p_types db1 = p_types db" "p_classes db1 = p_classes db"
proof (cases "find (\<lambda>n. n_key n = key) (te_avtab db)")
  case (Some n)
  then have "get_avtab_node lib key None db = Some (n, db)"
    using key by (simp add: get_avtab_node_def find_node_def lawful_search [OF law])
  then show ?thesis using that [of n db] Some ok by (simp add: vec_def)
next
  case None
  let ?d = "if k_specified key = AVTAB_AUDITDENY then 0xffffffff else (0 :: u32)"
  from lawful_insert [OF law, of "te_avtab db" key ?d None] obtain a b n where
    t: "te_avtab db = a @ b" "avtab_insert_nonunique lib (te_avtab db) key ?d None = Some (n, a @ n # b)"
    and n: "n_key n = key" "n_data n = ?d" "n_id n \<notin> n_id ` set (te_avtab db)" .
  let ?db = "db\<lparr>te_avtab := a @ n # b, db_len := db_len db + grow_size (k_specified key)\<rparr>"
  have get: "get_avtab_node lib key None db = Some (n, ?db)"
    using key None t by (simp add: get_avtab_node_def find_node_def lawful_search [OF law])
  have none: "find (\<lambda>n. n_key n = key) (a @ b) = None" using None t by simp
  have new: "\<forall>m\<in>set a \<union> set b. n_key m \<noteq> n_key n \<and> n_key n \<noteq> n_key m"
    using none n(1) by (auto simp: find_None_iff)
  have "avtab_ok (a @ n # b)"
    using ok n(3) new unfolding avtab_ok_def t by (auto simp: image_iff)
  moreover have "vec ?db k = vec db k" for k
    using find_insert [OF none, of n] none n find_insert_other [of "\<lambda>m. n_key m = k" n a b]
    by (cases "k = key") (auto simp: vec_def t av_default_def)
  ultimately show ?thesis
    using that [OF get] find_insert [OF none, of n] n none t by (force simp: vec_def av_default_def)
qed

definition is_vector :: "u16 \<Rightarrow> bool" where
  "is_vector effect \<longleftrightarrow> effect = AVTAB_ALLOWED \<or> effect = AVTAB_AUDITALLOW"

lemma is_vector_simps:
  assumes "is_vector s"
  shows "\<not> is_xperms s" "is_av s" "s AND AVTAB_AUDITDENY = 0" "av_default s = 0"
  using assms by (auto simp: is_vector_def is_xperms_def is_av_def av_default_def AVTAB_ALLOWED_def
      AVTAB_AUDITALLOW_def AVTAB_AUDITDENY_def)

lemma remove_keeps [simp]: "p_types (remove_avtab_node n db) = p_types db" "p_classes (remove_avtab_node n db) = p_classes db"
  by (simp_all add: remove_avtab_node_def)

lemma set_node_keeps [simp]: "p_types (set_node n db) = p_types db" "p_classes (set_node n db) = p_classes db"
  by (simp_all add: set_node_def)

lemma write_vector:
  fixes d :: u32
  assumes ok: "avtab_ok (te_avtab db)" and n: "find (\<lambda>m. n_key m = key) (te_avtab db) = Some n"
    and key: "is_vector (k_specified key)"
  defines "n' \<equiv> n\<lparr>n_data := d\<rparr>"
  defines "db' \<equiv> if is_redundant_avtab_node n' then remove_avtab_node n' (set_node n' db) else set_node n' db"
  shows "avtab_ok (te_avtab db')" "vec db' = (vec db)(key := d)"
proof -
  have n': "n_id n' = n_id n" "n_key n' = key" "n_data n' = d" using find_mem [OF n] by (auto simp: n'_def)
  note w = write_node [OF ok n n'(1,2)]
  have f: "find (\<lambda>m. n_key m = key) (te_avtab (set_node n' db)) = Some n'" using w(2) by simp
  note r = drop_node [OF w(1) f is_vector_simps(1) [OF key]]
  have red: "is_redundant_avtab_node n' \<longleftrightarrow> d = 0"
    using is_vector_simps [OF key] n' by (simp add: is_redundant_avtab_node_def)
  show "avtab_ok (te_avtab db')" using w(1) r(1) by (simp add: db'_def)
  show "vec db' = (vec db)(key := d)"
    using is_vector_simps [OF key] n' red by (intro ext) (auto simp: vec_def db'_def w(2) r(2))
qed

text \<open>One key: the vector of the key becomes what the rule says, and nothing else changes.\<close>

lemma new_data_0: "new_data perm True 0 = 0"
  by (simp add: new_data_def split: option.splits)

lemma new_data_idem: "new_data perm invert (new_data perm invert d) = new_data perm invert d"
  by (cases perm; cases invert) (simp_all add: new_data_def and.assoc or.assoc)

lemma add_rule_key_vec:
  fixes perm :: "nat option" and invert :: bool
  assumes law: "lawful lib" and ok: "avtab_ok (te_avtab db)" and key: "is_vector (k_specified key)"
  defines "db' \<equiv> add_rule_key lib key perm invert db"
  shows "avtab_ok (te_avtab db') \<and> vec db' = (vec db)(key := new_data perm invert (vec db key)) \<and>
     p_types db' = p_types db \<and> p_classes db' = p_classes db"
proof (cases invert)
  case True
  show ?thesis
  proof (cases "find (\<lambda>n. n_key n = key) (te_avtab db)")
    case None
    then have "db' = db" "vec db key = 0"
      using True is_vector_simps [OF key] by (simp_all add: db'_def add_rule_key_def lawful_search [OF law] vec_def)
    then show ?thesis using ok True by (simp add: new_data_0 fun_upd_idem)
  next
    case (Some n)
    then have "vec db key = n_data n" by (simp add: vec_def)
    then show ?thesis using write_vector [OF ok Some key, of "new_data perm True (n_data n)"] True Some
      by (cases "is_redundant_avtab_node (n\<lparr>n_data := new_data perm True (n_data n)\<rparr>)")
        (simp_all add: db'_def add_rule_key_def lawful_search [OF law] Let_def)
  qed
next
  case False
  from get_node [OF law ok is_vector_simps(1) [OF key]] obtain n db1 where
    g: "get_avtab_node lib key None db = Some (n, db1)" "avtab_ok (te_avtab db1)"
       "find (\<lambda>m. n_key m = key) (te_avtab db1) = Some n" "n_data n = vec db key"
       "vec db1 = vec db" "p_types db1 = p_types db" "p_classes db1 = p_classes db" .
  show ?thesis using write_vector [OF g(2,3) key, of "new_data perm False (n_data n)"] False g
    by (cases "is_redundant_avtab_node (n\<lparr>n_data := new_data perm False (n_data n)\<rparr>)")
      (simp_all add: db'_def add_rule_key_def Let_def)
qed

end
