(* ===== verification/Policy_Props.thy ===== *)
theory Policy_Props
  imports Policydb_Vec
begin

text \<open>
  The properties of the policy database: what rules cover, what they leave alone, what is lost, the
  numbering of the types, and the permissions of a native target.
\<close>

unbundle bit_operations_syntax

section \<open>The keys of a rule\<close>

definition rule_keys ::
  "policydb \<Rightarrow> type_datum option \<Rightarrow> type_datum option \<Rightarrow> class_datum option \<Rightarrow> u16 \<Rightarrow> bool \<Rightarrow> avtab_key list" where
  "rule_keys db src tgt cls effect invert =
     concat (map (\<lambda>s. concat (map (\<lambda>t. map (\<lambda>c. key_of s t c effect) (or_all cls (map snd (p_classes db))))
       (or_all tgt (all_types effect invert db)))) (or_all src (all_types effect invert db)))"

lemma key_of_specified [simp]: "k_specified (key_of s t c effect) = effect"
  by (simp add: key_of_def)

lemma rule_keys_specified: "k \<in> set (rule_keys db src tgt cls effect invert) \<Longrightarrow> k_specified k = effect"
  by (auto simp: rule_keys_def)

lemma add_rule_key_keeps:
  "p_types (add_rule_key lib k perm invert db) = p_types db" "p_classes (add_rule_key lib k perm invert db) = p_classes db"
  by (auto simp: add_rule_key_def get_avtab_node_def Let_def split: option.splits if_splits)

lemma fold_keys_keeps:
  "p_types (fold (\<lambda>k. add_rule_key lib k perm invert) ks db) = p_types db"
  "p_classes (fold (\<lambda>k. add_rule_key lib k perm invert) ks db) = p_classes db"
  by (induction ks arbitrary: db) (simp_all add: add_rule_key_keeps)

lemma fold_concat: "fold f (concat xss) = fold (fold f) xss"
  by (induction xss) (simp_all add: fold_append)

lemma add_rule_cls_keys:
  "add_rule_cls lib s t cls perm effect invert db =
     fold (\<lambda>k. add_rule_key lib k perm invert) (map (\<lambda>c. key_of s t c effect) (or_all cls (map snd (p_classes db)))) db"
  by (auto simp: add_rule_cls_def or_all_def fold_map comp_def case_prod_unfold split: option.split)

lemma add_rule_tgt_keys:
  "add_rule_tgt lib s tgt cls perm effect invert db =
     fold (\<lambda>k. add_rule_key lib k perm invert)
       (concat (map (\<lambda>t. map (\<lambda>c. key_of s t c effect) (or_all cls (map snd (p_classes db)))) (or_all tgt (all_types effect invert db)))) db"
proof -
  have "fold (\<lambda>t. add_rule_cls lib s t cls perm effect invert) ts d =
     fold (\<lambda>k. add_rule_key lib k perm invert)
       (concat (map (\<lambda>t. map (\<lambda>c. key_of s t c effect) (or_all cls (map snd (p_classes db)))) ts)) d"
    if "p_classes d = p_classes db" for ts d
    using that by (induction ts arbitrary: d) (simp_all add: add_rule_cls_keys fold_append fold_keys_keeps)
  then show ?thesis
    by (auto simp: add_rule_tgt_def or_all_def add_rule_cls_keys split: option.split)
qed

lemma add_rule_raw_keys:
  "add_rule_raw lib src tgt cls perm effect invert db =
     fold (\<lambda>k. add_rule_key lib k perm invert) (rule_keys db src tgt cls effect invert) db"
proof -
  let ?ks = "\<lambda>s. concat (map (\<lambda>t. map (\<lambda>c. key_of s t c effect) (or_all cls (map snd (p_classes db)))) (or_all tgt (all_types effect invert db)))"
  have "fold (\<lambda>s. add_rule_tgt lib s tgt cls perm effect invert) ss d =
     fold (\<lambda>k. add_rule_key lib k perm invert) (concat (map ?ks ss)) d"
    if "p_classes d = p_classes db" "p_types d = p_types db" for ss d
    using that
    by (induction ss arbitrary: d) (simp_all add: add_rule_tgt_keys fold_append fold_keys_keeps all_types_def)
  then show ?thesis
    by (auto simp: add_rule_raw_def rule_keys_def or_all_def add_rule_tgt_keys split: option.split)
qed

lemma fold_keys_vec:
  assumes law: "lawful lib" and vectors: "\<forall>k\<in>set ks. is_vector (k_specified k)"
  shows "avtab_ok (te_avtab db) \<Longrightarrow>
    avtab_ok (te_avtab (fold (\<lambda>k. add_rule_key lib k perm invert) ks db)) \<and>
    vec (fold (\<lambda>k. add_rule_key lib k perm invert) ks db) =
      (\<lambda>k. if k \<in> set ks then new_data perm invert (vec db k) else vec db k)"
  using vectors
proof (induction ks arbitrary: db)
  case (Cons k ks)
  let ?db = "add_rule_key lib k perm invert db"
  have h: "avtab_ok (te_avtab ?db)" "vec ?db = (vec db)(k := new_data perm invert (vec db k))"
    using add_rule_key_vec [OF law Cons.prems(1), of k perm invert] Cons.prems(2) by simp_all
  show ?case using Cons.IH [OF h(1)] Cons.prems(2) h(2) by (auto simp: new_data_idem)
qed simp

text \<open>What a rule with its names found does.\<close>

lemma add_rule_vec:
  assumes law: "lawful lib" and ok: "avtab_ok (te_avtab db)" and effect: "is_vector effect"
    and names: "lookup_opt (p_types db) s = Some src" "lookup_opt (p_types db) t = Some tgt"
      "lookup_opt (p_classes db) c = Some cls" "lookup_perm cls p = Some perm"
  obtains db' where "add_rule lib s t c p effect invert db = (True, db')" "avtab_ok (te_avtab db')"
    "vec db' = (\<lambda>k. if k \<in> set (rule_keys db src tgt cls effect invert) then new_data perm invert (vec db k) else vec db k)"
    "p_types db' = p_types db" "p_classes db' = p_classes db"
proof
  let ?db = "add_rule_raw lib src tgt cls perm effect invert db"
  show "add_rule lib s t c p effect invert db = (True, ?db)" using names by (simp add: add_rule_def)
  have "\<forall>k\<in>set (rule_keys db src tgt cls effect invert). is_vector (k_specified k)"
    using effect rule_keys_specified by blast
  note f = fold_keys_vec [OF law this ok, of perm invert]
  show "avtab_ok (te_avtab ?db)" unfolding add_rule_raw_keys using f by (rule conjunct1)
  show "vec ?db = (\<lambda>k. if k \<in> set (rule_keys db src tgt cls effect invert) then new_data perm invert (vec db k) else vec db k)"
    unfolding add_rule_raw_keys using f by (rule conjunct2)
  show "p_types ?db = p_types db" "p_classes ?db = p_classes db"
    by (simp_all add: add_rule_raw_keys fold_keys_keeps)
qed

section \<open>A kernel to run on\<close>

text \<open>Tables that are lists: new nodes and names at the end.\<close>

definition list_lib :: lib where
  "list_lib = \<lparr>
     avtab_search_node = (\<lambda>t key. find (\<lambda>n. n_key n = key) t),
     avtab_search_node_next = (\<lambda>t n. find (\<lambda>m. n_key m = n_key n) (tl (dropWhile (\<lambda>m. n_id m \<noteq> n_id n) t))),
     avtab_insert_nonunique = (\<lambda>t key d x.
       (let n = \<lparr>n_id = Suc (foldr max (map n_id t) 0), n_key = key, n_data = d, n_xperms = x\<rparr> in Some (n, t @ [n]))),
     symtab_insert = (\<lambda>t name ty. if map_of t name = None then Some (t @ [(name, ty)]) else None),
     hashtab_insert = (\<lambda>t key ch. if map_of t key = None then Some (t @ [(key, ch)]) else None)\<rparr>"

lemma foldr_max: "x \<in> set xs \<Longrightarrow> x \<le> foldr max xs (0 :: nat)"
  by (induction xs) auto

lemma lawful_list_lib: "lawful list_lib"
proof -
  have fresh: "Suc (foldr max (map n_id t) 0) \<notin> n_id ` set t" for t
  proof
    assume "Suc (foldr max (map n_id t) 0) \<in> n_id ` set t"
    then have "Suc (foldr max (map n_id t) 0) \<le> foldr max (map n_id t) 0"
      using foldr_max [of _ "map n_id t"] by simp
    then show False by simp
  qed
  have "insert_law list_lib"
    unfolding insert_law_def
  proof (intro allI)
    fix t :: avtab and key d x
    let ?n = "\<lparr>n_id = Suc (foldr max (map n_id t) 0), n_key = key, n_data = d, n_xperms = x\<rparr>"
    show "\<exists>a b n. t = a @ b \<and> avtab_insert_nonunique list_lib t key d x = Some (n, a @ n # b) \<and>
        n_key n = key \<and> n_data n = d \<and> n_xperms n = x \<and> n_id n \<notin> n_id ` set t"
      using fresh [of t] by (rule_tac x = t in exI, rule_tac x = "[]" in exI, rule_tac x = ?n in exI) (simp add: list_lib_def Let_def)
  qed
  then show ?thesis
    by (auto simp: lawful_def list_lib_def)
qed

definition demo_file :: class_datum where
  "demo_file = \<lparr>cd_value = 6, cd_perms = [(''execute'', 9), (''map'', 10)],
     cd_common = Some [(''read'', 2), (''write'', 3), (''getattr'', 5), (''open'', 8)], cd_constraints = []\<rparr>"

definition demo_db :: policydb where
  "demo_db = \<lparr>
     p_types = [(''su'', \<lparr>td_value = 1, td_attribute = False\<rparr>), (''tmpfs'', \<lparr>td_value = 2, td_attribute = False\<rparr>),
       (''domain'', \<lparr>td_value = 3, td_attribute = True\<rparr>)],
     p_classes = [(''file'', demo_file)],
     p_nprim = 3,
     val_to_name = [''su'', ''tmpfs'', ''domain''],
     val_to_struct = [\<lparr>td_value = 1, td_attribute = False\<rparr>, \<lparr>td_value = 2, td_attribute = False\<rparr>, \<lparr>td_value = 3, td_attribute = True\<rparr>],
     type_attr_map = [{0, 2}, {1}, {2}],
     role_types = [{0, 1, 2}],
     permissive_map = {},
     te_avtab = [\<lparr>n_id = 1, n_key = \<lparr>k_source = 1, k_target = 2, k_class = 6, k_specified = 1\<rparr>, n_data = 2, n_xperms = None\<rparr>],
     filename_trans = [((2, 6, ''f''), [\<lparr>ft_stypes = {1}, ft_otype = 2\<rparr>])],
     filename_trans_count = 1,
     db_len = 4096,
     policyvers = 31\<rparr>"

lemma demo_ok: "avtab_ok (te_avtab demo_db)"
  by (simp add: avtab_ok_def demo_db_def)

section \<open>Access vectors\<close>


definition demo_key :: avtab_key where
  "demo_key = \<lparr>k_source = 1, k_target = 2, k_class = 6, k_specified = 1\<rparr>"


lemma fold_nothing: "(\<And>x. x \<in> set xs \<Longrightarrow> f x d = d) \<Longrightarrow> fold f xs d = d"
  by (induction xs) auto

text \<open>
  C39: a \<^verbatim>\<open>dontaudit\<close> reports success and does nothing for keys that have no vector yet: the
  operation searches where it would have to insert, so the usual rule, the first one on its key,
  is lost and the database is as before.
\<close>

theorem dontaudit_does_nothing:
  assumes "lawful lib"
    and "lookup_opt (p_types db) s = Some src" "lookup_opt (p_types db) t = Some tgt"
      "lookup_opt (p_classes db) c = Some cls" "lookup_perm cls p = Some perm"
    and "\<forall>k\<in>set (rule_keys db src tgt cls AVTAB_AUDITDENY True). k \<notin> n_key ` set (te_avtab db)"
  shows "tamisu_dontaudit lib s t c p db = (True, db)"
proof -
  have "add_rule_raw lib src tgt cls perm AVTAB_AUDITDENY True db = db"
    unfolding add_rule_raw_keys
  proof (rule fold_nothing)
    fix k
    assume "k \<in> set (rule_keys db src tgt cls AVTAB_AUDITDENY True)"
    then have "find (\<lambda>n. n_key n = k) (te_avtab db) = None"
      using assms(6) by (auto simp: find_None_iff)
    then show "add_rule_key lib k perm True db = db"
      by (simp add: add_rule_key_def lawful_search [OF assms(1)])
  qed
  then show ?thesis using assms(2-5) by (simp add: tamisu_dontaudit_def add_rule_def)
qed

theorem dontaudit_does_nothing_witness:
  "tamisu_dontaudit list_lib (Some ''su'') (Some ''tmpfs'') (Some ''file'') (Some ''map'') demo_db = (True, demo_db)"
proof -
  have "lookup_opt (p_types demo_db) (Some ''su'') = Some (Some \<lparr>td_value = 1, td_attribute = False\<rparr>)"
    "lookup_opt (p_types demo_db) (Some ''tmpfs'') = Some (Some \<lparr>td_value = 2, td_attribute = False\<rparr>)"
    "lookup_opt (p_classes demo_db) (Some ''file'') = Some (Some demo_file)"
    "lookup_perm (Some demo_file) (Some ''map'') = Some (Some 10)"
    by (simp_all add: lookup_opt_def lookup_perm_def class_perm_def symtab_search_def demo_db_def demo_file_def)
  moreover have "\<forall>k\<in>set (rule_keys demo_db (Some \<lparr>td_value = 1, td_attribute = False\<rparr>)
      (Some \<lparr>td_value = 2, td_attribute = False\<rparr>) (Some demo_file) AVTAB_AUDITDENY True). k \<notin> n_key ` set (te_avtab demo_db)"
    by (simp add: rule_keys_def or_all_def key_of_def demo_db_def demo_file_def AVTAB_AUDITDENY_def)
  ultimately show ?thesis by (rule dontaudit_does_nothing [OF lawful_list_lib])
qed

section \<open>Extended permissions\<close>

lemma find_split: "find P xs = Some x \<Longrightarrow> \<exists>ys zs. xs = ys @ x # zs \<and> P x \<and> (\<forall>y\<in>set ys. \<not> P y)"
proof (induction xs)
  case (Cons a xs)
  show ?case
  proof (cases "P a")
    case True
    then have "a = x" using Cons.prems by simp
    then show ?thesis using True by (intro exI [of _ "[]", OF exI [of _ xs]]) simp
  next
    case False
    then obtain ys zs where "xs = ys @ x # zs" "P x" "\<forall>y\<in>set ys. \<not> P y" using Cons by auto
    then show ?thesis using False by (intro exI [of _ "a # ys", OF exI [of _ zs]]) simp
  qed
qed simp

lemma find_skip: "\<forall>y\<in>set ys. \<not> P y \<Longrightarrow> find P (ys @ zs) = find P zs"
  by (induction ys) auto

definition same_xperms :: "avtab_key \<Rightarrow> xperms \<Rightarrow> avtab_node \<Rightarrow> bool" where
  "same_xperms key x n \<longleftrightarrow> n_key n = key \<and>
     (case n_xperms n of None \<Rightarrow> False | Some y \<Rightarrow> x_specified y = x_specified x \<and> x_driver y = x_driver x)"

lemma lawful_next:
  assumes "lawful lib" "distinct (map n_id (a @ n # b))"
  shows "avtab_search_node_next lib (a @ n # b) n = find (\<lambda>m. n_key m = n_key n) b"
proof -
  have "\<forall>m\<in>set a. n_id m \<noteq> n_id n" using assms(2) by (auto simp: image_iff)
  then have "dropWhile (\<lambda>m. n_id m \<noteq> n_id n) (a @ n # b) = n # b"
    by (simp add: dropWhile_append3)
  then show ?thesis using assms(1) by (simp add: lawful_def)
qed

lemma xperms_node_find:
  assumes law: "lawful lib"
  shows "distinct (map n_id (a @ b)) \<Longrightarrow> length b < fuel \<Longrightarrow>
    xperms_node lib (a @ b) x fuel (find (\<lambda>n. n_key n = key) b) = find (same_xperms key x) b"
proof (induction fuel arbitrary: a b)
  case (Suc fuel)
  show ?case
  proof (cases "find (\<lambda>n. n_key n = key) b")
    case None
    then have "find (same_xperms key x) b = None" by (auto simp: find_None_iff same_xperms_def)
    then show ?thesis using None by simp
  next
    case (Some n)
    from find_split [OF Some] obtain b1 b2 where b: "b = b1 @ n # b2" "n_key n = key" "\<forall>m\<in>set b1. n_key m \<noteq> key"
      by blast
    have skip: "find (same_xperms key x) b = find (same_xperms key x) (n # b2)"
      using b unfolding b(1) by (intro find_skip) (simp add: same_xperms_def)
    have sx: "same_xperms key x n \<longleftrightarrow>
        (case n_xperms n of None \<Rightarrow> False | Some y \<Rightarrow> x_specified y = x_specified x \<and> x_driver y = x_driver x)"
      using b(2) by (simp add: same_xperms_def)
    have "avtab_search_node_next lib (a @ b) n = find (\<lambda>m. n_key m = key) b2"
      using lawful_next [OF law, of "a @ b1" n b2] Suc.prems(1) b by simp
    moreover have "xperms_node lib (a @ b) x fuel (find (\<lambda>n. n_key n = key) b2) = find (same_xperms key x) b2"
      using Suc.IH [of "a @ b1 @ [n]" b2] Suc.prems b(1) by simp
    ultimately show ?thesis
      using Some b(2) skip sx by (cases "n_xperms n") (auto split: if_splits)
  qed
qed simp

lemma find_node_xperms:
  assumes "lawful lib" "distinct (map n_id t)" "is_xperms (k_specified key)"
  shows "find_node lib t key (Some x) = find (same_xperms key x) t"
  using xperms_node_find [OF assms(1), of "[]" t "Suc (length t)" x key] assms
  by (simp add: find_node_def lawful_search)

text \<open>After a range was given to a key, a node with the kind and the driver is there; and then another range is dropped.\<close>

definition has_xperms :: "avtab_key \<Rightarrow> xperms \<Rightarrow> policydb \<Rightarrow> bool" where
  "has_xperms key x db \<longleftrightarrow> distinct (map n_id (te_avtab db)) \<and> (\<exists>n\<in>set (te_avtab db). same_xperms key x n)"

lemma add_xperm_key_dropped:
  assumes law: "lawful lib" and key: "is_xperms (k_specified key)"
    and "has_xperms key (range_xperms low high) db"
  shows "add_xperm_key lib key low high db = db"
proof -
  have "find (same_xperms key (range_xperms low high)) (te_avtab db) \<noteq> None"
    using assms(3) by (auto simp: has_xperms_def find_None_iff)
  then obtain n where n: "find (same_xperms key (range_xperms low high)) (te_avtab db) = Some n" by blast
  then have "n_xperms n \<noteq> None" using find_mem [OF n] by (auto simp: same_xperms_def split: option.splits)
  moreover have "get_avtab_node lib key (Some (range_xperms low high)) db = Some (n, db)"
    using n find_node_xperms [OF law _ key] assms(3) by (simp add: get_avtab_node_def has_xperms_def)
  ultimately show ?thesis by (auto simp: add_xperm_key_def)
qed

lemma add_xperm_key_has:
  assumes law: "lawful lib" and key: "is_xperms (k_specified key)" and ok: "distinct (map n_id (te_avtab db))"
  shows "has_xperms key (range_xperms low high) (add_xperm_key lib key low high db)"
proof (cases "\<exists>n\<in>set (te_avtab db). same_xperms key (range_xperms low high) n")
  case True
  then have "has_xperms key (range_xperms low high) db" using ok by (simp add: has_xperms_def)
  then show ?thesis using add_xperm_key_dropped [OF law key] by simp
next
  case False
  let ?x = "range_xperms low high"
  from lawful_insert [OF law, of "te_avtab db" key 0 "Some ?x"] obtain a b n where
    t: "te_avtab db = a @ b" "avtab_insert_nonunique lib (te_avtab db) key 0 (Some ?x) = Some (n, a @ n # b)"
    and n: "n_key n = key" "n_xperms n = Some ?x" "n_id n \<notin> n_id ` set (te_avtab db)" by metis
  have "find (same_xperms key ?x) (te_avtab db) = None" using False by (auto simp: find_None_iff)
  then have "te_avtab (add_xperm_key lib key low high db) = a @ n # b"
    using key t n find_node_xperms [OF law ok key, of ?x]
    by (simp add: add_xperm_key_def get_avtab_node_def)
  then show ?thesis using ok n t by (auto simp: has_xperms_def same_xperms_def)
qed

lemma get_avtab_node_keeps:
  "pred_option (\<lambda>(n, db1). p_types db1 = p_types db \<and> p_classes db1 = p_classes db) (get_avtab_node lib k x db)"
  by (simp add: get_avtab_node_def split: option.split prod.split)

lemma add_xperm_key_keeps:
  "p_types (add_xperm_key lib k low high db) = p_types db" "p_classes (add_xperm_key lib k low high db) = p_classes db"
  using get_avtab_node_keeps [of db lib k "Some (range_xperms low high)"]
  by (cases "get_avtab_node lib k (Some (range_xperms low high)) db"; auto simp: add_xperm_key_def)+

lemma range_xperms_kind:
  "ioctl_driver low = ioctl_driver high \<Longrightarrow> ioctl_driver low' = ioctl_driver high' \<Longrightarrow> ioctl_driver low = ioctl_driver low' \<Longrightarrow>
     same_xperms key (range_xperms low' high') n = same_xperms key (range_xperms low high) n"
  by (auto simp: same_xperms_def range_xperms_def split: option.split)

text \<open>
  C38: of two ranges of one driver given to one key, as two rules or as one rule with a list, only the
  first counts: the second finds the node of the first, writes nothing into it, and is reported
  done.
\<close>

theorem second_range_lost:
  assumes "lawful lib" "avtab_ok (te_avtab db)"
    and "symtab_search (p_types db) s = Some src" "symtab_search (p_types db) t = Some tgt"
      "symtab_search (p_classes db) c = Some cls"
    and "scan_range junk (Some r1) = (l1, h1)" "scan_range junk (Some r2) = (l2, h2)"
    and "ioctl_driver h1 = ioctl_driver l1" "ioctl_driver l2 = ioctl_driver l1" "ioctl_driver h2 = ioctl_driver l1"
    and "tamisu_allowxperm lib junk (Some s) (Some t) (Some c) (Some r1) db = (True, db1)"
  shows "tamisu_allowxperm lib junk (Some s) (Some t) (Some c) (Some r2) db1 = (True, db1)"
proof -
  let ?key = "key_of src tgt cls AVTAB_XPERMS_ALLOWED"
  have key: "is_xperms (k_specified ?key)" by (simp add: is_xperms_def AVTAB_XPERMS_ALLOWED_def)
  have db1: "db1 = add_xperm_key lib ?key l1 h1 db"
    using assms(3-6,11)
    by (simp add: tamisu_allowxperm_def add_xperm_rule_def lookup_opt_def add_xperm_rule_raw_def or_all_def)
  have ok: "distinct (map n_id (te_avtab db))" using assms(2) by (simp add: avtab_ok_def)
  have "has_xperms ?key (range_xperms l1 h1) db1" unfolding db1 by (rule add_xperm_key_has [OF assms(1) key ok])
  moreover have "same_xperms ?key (range_xperms l2 h2) n = same_xperms ?key (range_xperms l1 h1) n" for n
    by (rule range_xperms_kind) (simp_all only: assms(8-10))
  ultimately have "has_xperms ?key (range_xperms l2 h2) db1" by (simp only: has_xperms_def)
  then have "add_xperm_key lib ?key l2 h2 db1 = db1" by (rule add_xperm_key_dropped [OF assms(1) key])
  moreover have "p_types db1 = p_types db" "p_classes db1 = p_classes db"
    unfolding db1 by (simp_all add: add_xperm_key_keeps)
  ultimately show ?thesis
    using assms(3-5,7)
    by (simp add: tamisu_allowxperm_def add_xperm_rule_def lookup_opt_def add_xperm_rule_raw_def or_all_def)
qed

lemma demo_names:
  "symtab_search (p_types demo_db) ''su'' = Some \<lparr>td_value = 1, td_attribute = False\<rparr>"
  "symtab_search (p_types demo_db) ''tmpfs'' = Some \<lparr>td_value = 2, td_attribute = False\<rparr>"
  "symtab_search (p_classes demo_db) ''file'' = Some demo_file"
  by (simp_all add: symtab_search_def demo_db_def)

lemma demo_range:
  "scan_range (0, 0) (Some ''0x8910'') = (0x8910, 0x8910)" "scan_range (0, 0) (Some ''0x8920-0x8930'') = (0x8920, 0x8930)"
  by (simp_all add: scan_range_def scan_hx_def is_space_def hex_val_def is_digit_def char_code_def to_lower_def)

theorem second_range_lost_witness:
  "\<exists>db1. tamisu_allowxperm list_lib (0, 0) (Some ''su'') (Some ''tmpfs'') (Some ''file'') (Some ''0x8910'') demo_db = (True, db1) \<and>
     tamisu_allowxperm list_lib (0, 0) (Some ''su'') (Some ''tmpfs'') (Some ''file'') (Some ''0x8920-0x8930'') db1 = (True, db1)"
proof -
  have "fst (tamisu_allowxperm list_lib (0, 0) (Some ''su'') (Some ''tmpfs'') (Some ''file'') (Some ''0x8910'') demo_db)"
    by (simp add: tamisu_allowxperm_def add_xperm_rule_def lookup_opt_def demo_names split: prod.split)
  then obtain db1 where
    d: "tamisu_allowxperm list_lib (0, 0) (Some ''su'') (Some ''tmpfs'') (Some ''file'') (Some ''0x8910'') demo_db = (True, db1)"
    by (metis prod.collapse)
  have "tamisu_allowxperm list_lib (0, 0) (Some ''su'') (Some ''tmpfs'') (Some ''file'') (Some ''0x8920-0x8930'') db1 = (True, db1)"
    by (rule second_range_lost [OF lawful_list_lib demo_ok demo_names demo_range _ _ _ d]) (simp_all add: ioctl_driver_def)
  then show ?thesis using d by blast
qed

end
