(* ===== verification/Policy_Types_Props.thy ===== *)
theory Policy_Types_Props
  imports Policy_Props
begin

text \<open>
  The numbering of the types under the commands of a batch, and the transitions by file name.
\<close>

section \<open>File names\<close>

lemma lawful_hashtab: "lawful lib \<Longrightarrow> map_of t key \<noteq> None \<Longrightarrow> hashtab_insert lib t key ch = None"
  unfolding lawful_def by blast

lemma walk_to_end:
  "\<forall>tr\<in>set ch. src - 1 \<notin> ft_stypes tr \<and> ft_otype tr \<noteq> def \<Longrightarrow> \<exists>prv'. walk_filenametr src def i prv ch = Ft_End prv'"
  by (induction ch arbitrary: i prv) auto

text \<open>
  A transition by file name whose target, class and name have a chain already, but none of the
  new default type, is lost: the new datum is inserted under a key the table has, the table refuses
  it, nobody looks, and the caller is told that the rule is there.
\<close>

theorem filename_rule_lost:
  assumes "lawful lib"
    and "symtab_search (p_types db) s = Some src" "symtab_search (p_types db) t = Some tgt"
      "symtab_search (p_classes db) c = Some cls" "symtab_search (p_types db) d = Some def"
    and "map_of (filename_trans db) (td_value tgt, cd_value cls, ob) = Some ch"
    and "\<forall>tr\<in>set ch. td_value src - 1 \<notin> ft_stypes tr \<and> ft_otype tr \<noteq> td_value def"
  shows "tamisu_type_transition lib s t c d (Some ob) db =
    Some (True, db\<lparr>filename_trans_count := Suc (filename_trans_count db)\<rparr>)"
proof -
  obtain prv where "walk_filenametr (td_value src) (td_value def) 0 None ch = Ft_End prv"
    using walk_to_end [OF assms(7)] by blast
  then show ?thesis
    using assms(2-6) lawful_hashtab [OF assms(1)]
    by (simp add: tamisu_type_transition_def add_filename_trans_def Let_def)
qed

theorem filename_rule_lost_witness:
  "tamisu_type_transition list_lib ''su'' ''tmpfs'' ''file'' ''su'' (Some ''f'') demo_db =
     Some (True, demo_db\<lparr>filename_trans_count := 2\<rparr>)"
  using filename_rule_lost [OF lawful_list_lib demo_names demo_names(1), of "''f''"
    "[\<lparr>ft_stypes = {1}, ft_otype = 2\<rparr>]"]
  by (simp add: demo_db_def demo_file_def)

section \<open>The numbers of the types\<close>

text \<open>
  Every type has a number of the range; the arrays have an entry for every number: the name (which
  is found, with that number), the datum, and a set of attributes that holds the type itself.
\<close>

definition types_ok :: "policydb \<Rightarrow> bool" where
  "types_ok db \<longleftrightarrow>
     length (val_to_name db) = p_nprim db \<and> length (val_to_struct db) = p_nprim db \<and>
     length (type_attr_map db) = p_nprim db \<and>
     (\<forall>(name, ty)\<in>set (p_types db). 1 \<le> td_value ty \<and> td_value ty \<le> p_nprim db) \<and>
     (\<forall>v<p_nprim db. map_of (p_types db) (val_to_name db ! v) = Some (val_to_struct db ! v) \<and>
        td_value (val_to_struct db ! v) = Suc v \<and> v \<in> type_attr_map db ! v)"

definition typing :: "policydb \<Rightarrow> (string \<times> type_datum) list \<times> nat \<times> string list \<times> type_datum list \<times> nat set list" where
  "typing db = (p_types db, p_nprim db, val_to_name db, val_to_struct db, type_attr_map db)"

lemma types_ok_typing: "typing db' = typing db \<Longrightarrow> types_ok db' = types_ok db"
  by (simp add: typing_def types_ok_def)

lemma typing_set_node [simp]: "typing (set_node n db) = typing db"
  by (simp add: typing_def set_node_def)

lemma typing_remove [simp]: "typing (remove_avtab_node n db) = typing db"
  by (simp add: typing_def remove_avtab_node_def)

lemma typing_get: "pred_option (\<lambda>(n, db1). typing db1 = typing db) (get_avtab_node lib k x db)"
  by (simp add: get_avtab_node_def typing_def split: option.split prod.split)

lemma typing_add_rule_key: "typing (add_rule_key lib k perm invert db) = typing db"
  using typing_get [of db lib k None]
  by (cases "get_avtab_node lib k None db"; cases "avtab_search_node lib (te_avtab db) k"; cases invert)
    (auto simp: add_rule_key_def Let_def)

lemma typing_fold: "(\<And>x d. typing (f x d) = typing d) \<Longrightarrow> typing (fold f xs db) = typing db"
  by (induction xs arbitrary: db) simp_all

lemma typing_add_rule: "typing (snd (add_rule lib s t c p effect invert db)) = typing db"
  by (auto simp: add_rule_def add_rule_raw_keys typing_fold typing_add_rule_key split: option.split)

lemma typing_add_xperm_key: "typing (add_xperm_key lib k low high db) = typing db"
  using typing_get [of db lib k "Some (range_xperms low high)"]
  by (cases "get_avtab_node lib k (Some (range_xperms low high)) db") (auto simp: add_xperm_key_def)

lemma typing_add_xperm_rule: "typing (snd (add_xperm_rule lib junk s t c rng effect db)) = typing db"
  by (auto simp: add_xperm_rule_def add_xperm_rule_raw_def typing_fold typing_add_xperm_key split: option.split prod.split)

lemma typing_add_type_rule: "pred_option (\<lambda>(ok, db1). typing db1 = typing db) (add_type_rule lib s t c d effect db)"
proof -
  have "pred_option (\<lambda>(ok, db1). typing db1 = typing db)
      (case get_avtab_node lib k None db of None \<Rightarrow> None | Some (n, db1) \<Rightarrow> Some (True, set_node (n\<lparr>n_data := v\<rparr>) db1))" for k v
    using typing_get [of db lib k None] by (cases "get_avtab_node lib k None db") auto
  then show ?thesis by (auto simp: add_type_rule_def split: option.split)
qed

lemma typing_add_filename_trans: "typing (snd (add_filename_trans lib s t c d ob db)) = typing db"
  by (auto simp: add_filename_trans_def typing_def Let_def split: option.split ft_walk.split)

lemma typing_set_type_state: "typing (snd (set_type_state name b db)) = typing db"
  by (auto simp: set_type_state_def typing_def split: option.split)

lemma types_ok_name: "types_ok db \<Longrightarrow> map_of (p_types db) name = Some ty \<Longrightarrow> 1 \<le> td_value ty \<and> td_value ty \<le> p_nprim db"
  by (auto simp: types_ok_def dest!: map_of_SomeD)

lemma mem_list_update: "v < length xs \<Longrightarrow> x \<in> xs ! v \<Longrightarrow> x \<in> xs[i := insert a (xs ! i)] ! v"
  by (cases "i = v") auto

lemma types_ok_add_typeattribute: "types_ok db \<Longrightarrow> types_ok (snd (add_typeattribute a b db))"
  by (auto simp: add_typeattribute_def add_typeattribute_raw_def types_ok_def mem_list_update symtab_search_def
      split: option.split)

lemma map_of_insert_mid: "map_of (a @ b) name = None \<Longrightarrow>
    map_of (a @ (name, ty) # b) n = (if n = name then Some ty else map_of (a @ b) n)"
  by (auto simp: map_add_def split: option.splits)

lemma types_ok_add_type:
  assumes law: "lawful lib" and ok: "types_ok db"
  shows "types_ok (snd (add_type lib name attr db))"
proof (cases "map_of (p_types db) name")
  case None
  let ?ty = "\<lparr>td_value = Suc (p_nprim db), td_attribute = attr\<rparr>"
  have "\<exists>a b. p_types db = a @ b \<and> symtab_insert lib (p_types db) name ?ty = Some (a @ (name, ?ty) # b)"
    using law None unfolding lawful_def by blast
  then obtain a b where t: "p_types db = a @ b" "symtab_insert lib (p_types db) name ?ty = Some (a @ (name, ?ty) # b)"
    by blast
  have look: "map_of (a @ (name, ?ty) # b) n = (if n = name then Some ?ty else map_of (p_types db) n)" for n
    using map_of_insert_mid [of a b name ?ty n] None t(1) by simp
  have other: "val_to_name db ! v \<noteq> name" if "v < p_nprim db" for v
    using ok that None by (auto simp: types_ok_def)
  let ?n = "p_nprim db"
  let ?db = "snd (add_type lib name attr db)"
  have f: "p_nprim ?db = Suc ?n" "p_types ?db = a @ (name, ?ty) # b" "val_to_name ?db = val_to_name db @ [name]"
    "val_to_struct ?db = val_to_struct db @ [?ty]" "type_attr_map ?db = type_attr_map db @ [{?n}]"
    using ok None t(2) by (simp_all add: add_type_def symtab_search_def Let_def types_ok_def)
  have old: "length (val_to_name db) = ?n" "length (val_to_struct db) = ?n" "length (type_attr_map db) = ?n"
    "\<forall>(name, ty)\<in>set (p_types db). 1 \<le> td_value ty \<and> td_value ty \<le> ?n"
    "\<forall>v<?n. map_of (p_types db) (val_to_name db ! v) = Some (val_to_struct db ! v) \<and>
        td_value (val_to_struct db ! v) = Suc v \<and> v \<in> type_attr_map db ! v"
    using ok unfolding types_ok_def by blast+
  have "map_of (p_types ?db) (val_to_name ?db ! v) = Some (val_to_struct ?db ! v) \<and>
      td_value (val_to_struct ?db ! v) = Suc v \<and> v \<in> type_attr_map ?db ! v" if "v < p_nprim ?db" for v
  proof (cases "v = ?n")
    case True
    then show ?thesis unfolding f look using old(1-3) by (simp add: nth_append)
  next
    case False
    then have "v < ?n" using that f(1) by simp
    then show ?thesis unfolding f look using old other by (simp add: nth_append)
  qed
  moreover have "\<forall>(name, ty)\<in>set (p_types ?db). 1 \<le> td_value ty \<and> td_value ty \<le> p_nprim ?db"
    using old(4) unfolding f t(1) by (auto intro: le_SucI)
  ultimately show ?thesis unfolding types_ok_def using old(1-3) by (simp add: f)
next
  case (Some ty)
  then show ?thesis using ok by (simp add: add_type_def symtab_search_def)
qed

text \<open>One command; \<open>sound\<close> is a policy in place whose numbers are right.\<close>

definition sound :: "policydb option \<Rightarrow> bool" where
  "sound st \<longleftrightarrow> (case st of None \<Rightarrow> False | Some db \<Rightarrow> types_ok db)"

definition keeps :: "(policydb \<Rightarrow> (int \<times> policydb) option) \<Rightarrow> bool" where
  "keeps f \<longleftrightarrow> (\<forall>db. types_ok db \<longrightarrow> (\<exists>r db'. f db = Some (r, db') \<and> types_ok db'))"

lemma keeps_done: "(\<And>db. types_ok db \<Longrightarrow> types_ok (snd (g db))) \<Longrightarrow> keeps (\<lambda>db. done_or (Some (g db)))"
  unfolding keeps_def done_or_def
proof (intro allI impI)
  fix db
  assume "\<And>db. types_ok db \<Longrightarrow> types_ok (snd (g db))" "types_ok db"
  then have "types_ok (snd (g db))" by blast
  then show "\<exists>r db'. map_option (\<lambda>(ok, db). (if ok then 0 else - EINVAL, db)) (Some (g db)) = Some (r, db') \<and> types_ok db'"
    by (cases "g db") auto
qed

lemma keeps_refused: "keeps refused"
  by (simp add: keeps_def refused_def)

lemma keeps_typing: "(\<And>db. typing (snd (g db)) = typing db) \<Longrightarrow> keeps (\<lambda>db. done_or (Some (g db)))"
  by (rule keeps_done) (rule types_ok_typing [THEN iffD2])

lemma lawful_get: 
  assumes "lawful lib" "\<not> is_xperms (k_specified key)"
  shows "get_avtab_node lib key None db \<noteq> None"
proof -
  have i: "avtab_insert_nonunique lib (te_avtab db) key d None \<noteq> None" for d
    using lawful_insert [OF assms(1), of "te_avtab db" key d None] by (metis option.distinct(1))
  show ?thesis using assms(2) by (simp add: get_avtab_node_def i split: option.split)
qed

lemma keeps_type_rule:
  assumes "lawful lib" "\<not> is_xperms effect"
  shows "keeps (\<lambda>db. done_or (add_type_rule lib s t c d effect db))"
  unfolding keeps_def
proof (intro allI impI)
  fix db
  assume ok: "types_ok db"
  have g: "get_avtab_node lib (key_of x y z effect) None db \<noteq> None" for x y z
    using lawful_get [OF assms(1)] assms(2) by simp
  have "add_type_rule lib s t c d effect db \<noteq> None"
    by (auto simp: add_type_rule_def g split: option.split)
  then obtain b db' where r: "add_type_rule lib s t c d effect db = Some (b, db')" by auto
  then have "types_ok db'"
    using typing_add_type_rule [of db lib s t c d effect] ok types_ok_typing [of db' db] by simp
  then show "\<exists>r db'. done_or (add_type_rule lib s t c d effect db) = Some (r, db') \<and> types_ok db'"
    using r by (simp add: done_or_def)
qed

lemma types_ok_tamisu_type: "lawful lib \<Longrightarrow> types_ok db \<Longrightarrow> types_ok (snd (tamisu_type lib ty attr db))"
  by (simp add: tamisu_type_def and_then_def types_ok_add_type types_ok_add_typeattribute)

lemma keeps_if: "keeps f \<Longrightarrow> keeps g \<Longrightarrow> keeps (\<lambda>db. if b then f db else g db)"
  by (cases b) simp_all

lemma keeps_option:
  "keeps f \<Longrightarrow> (\<And>x. keeps (\<lambda>db. g x db)) \<Longrightarrow> keeps (\<lambda>db. case r of None \<Rightarrow> f db | Some x \<Rightarrow> g x db)"
  by (cases r) simp_all

lemma keeps_list:
  "keeps f \<Longrightarrow> (\<And>x xs. keeps (\<lambda>db. g x xs db)) \<Longrightarrow> keeps (\<lambda>db. case r of [] \<Rightarrow> f db | x # xs \<Rightarrow> g x xs db)"
  by (cases r) simp_all

lemma keeps_refused': "keeps (\<lambda>db. refused db)"
  by (rule keeps_refused)

lemmas keeps_rules = keeps_refused' keeps_if keeps_option keeps_list keeps_typing typing_add_rule typing_add_xperm_rule
  typing_add_filename_trans typing_set_type_state

lemmas rule_fn_defs = tamisu_allow_def tamisu_deny_def tamisu_auditallow_def tamisu_dontaudit_def
  tamisu_allowxperm_def tamisu_auditallowxperm_def tamisu_dontauditxperm_def tamisu_permissive_def tamisu_enforce_def

lemma keeps_normal_perm: "keeps (normal_perm_cmd lib sub args)"
  unfolding normal_perm_cmd_def Let_def rule_fn_defs by (intro keeps_rules)

lemma keeps_xperm: "keeps (xperm_cmd lib junk sub args)"
  unfolding xperm_cmd_def Let_def rule_fn_defs by (intro keeps_rules)

lemma keeps_type_state: "keeps (type_state_cmd sub args)"
  unfolding type_state_cmd_def rule_fn_defs by (intro keeps_rules)

lemma keeps_genfscon: "keeps (\<lambda>db. done_or (Some (tamisu_genfscon n p c db)))"
  by (rule keeps_done) (simp add: tamisu_genfscon_def add_genfscon_def)

lemma keeps_type: "lawful lib \<Longrightarrow> keeps (type_cmd lib new args)"
  unfolding type_cmd_def
  by (intro keeps_rules keeps_done) (auto simp: types_ok_tamisu_type tamisu_typeattribute_def types_ok_add_typeattribute)

lemma not_xperms: "\<not> is_xperms AVTAB_TRANSITION" "\<not> is_xperms AVTAB_CHANGE" "\<not> is_xperms AVTAB_MEMBER"
  by (simp_all add: is_xperms_def AVTAB_TRANSITION_def AVTAB_CHANGE_def AVTAB_MEMBER_def)

lemma keeps_type_transition: "lawful lib \<Longrightarrow> keeps (type_transition_cmd lib args)"
  unfolding type_transition_cmd_def tamisu_type_transition_def
  by (cases "arg args 4"; simp only: option.case; intro keeps_rules keeps_type_rule not_xperms)

lemma keeps_type_change: "lawful lib \<Longrightarrow> keeps (type_change_cmd lib sub args)"
  unfolding type_change_cmd_def tamisu_type_change_def tamisu_type_member_def
  by (intro keeps_rules keeps_type_rule not_xperms)

lemma keeps_attribute: "lawful lib \<Longrightarrow> keeps (\<lambda>db. done_or (Some (tamisu_attribute lib a db)))"
  by (rule keeps_done) (simp add: tamisu_attribute_def types_ok_add_type)

lemma keeps_command: "lawful lib \<Longrightarrow> keeps (apply_one_sepolicy_cmd lib junk header args)"
  unfolding apply_one_sepolicy_cmd_def
  by (cases header; simp only: prod.case)
    (intro keeps_rules keeps_attribute keeps_genfscon keeps_normal_perm keeps_xperm keeps_type_state keeps_type
      keeps_type_transition keeps_type_change)

lemma sound_patch: "lawful lib \<Longrightarrow> sound st \<Longrightarrow> sound (snd (patch_cmd lib junk header args st))"
  using keeps_command [of lib junk header args]
  by (cases st) (auto simp: sound_def patch_cmd_def keeps_def split: option.splits prod.splits)

lemma batch_loop_keeps:
  "(\<And>h args db. P db \<Longrightarrow> P (snd (patch h args db))) \<Longrightarrow> P db \<Longrightarrow>
     batch_loop patch cursor db n = Inr (m, db') \<Longrightarrow> P db'"
proof (induction patch cursor db n rule: batch_loop.induct)
  case (1 patch cursor db n)
  show ?case
  proof (cases "cursor = []")
    case True
    then show ?thesis using 1(3,4) by (simp add: batch_loop.simps [of patch "[]"])
  next
    case False
    from 1(4) obtain h r args r' where
      h: "sepol_read_cmd_header cursor = Some (h, r)" "\<not> (expected_argc (fst h) < 0 \<or> expected_argc (fst h) > 5)"
        "get_many sepol_read_string (nat (expected_argc (fst h))) r = Some (args, r')"
      using False by (subst (asm) batch_loop.simps) (auto split: option.splits if_splits)
    obtain ret db1 where p: "patch h args db = (ret, db1)" by fastforce
    have "P db1" using 1(2) [OF 1(3), of h args] p by simp
    moreover have "batch_loop patch r' db1 (if ret < 0 then n else Suc n) = Inr (m, db')"
      using 1(4) False h p by (subst (asm) batch_loop.simps) auto
    ultimately show ?thesis
      using 1(1) [OF False h(1) refl h(2,3) refl p [symmetric]] 1(2) by blast
  qed
qed


lemma demo_types_ok: "types_ok demo_db"
  by (simp add: types_ok_def demo_db_def less_Suc_eq numeral_3_eq_3 numeral_2_eq_2)


end
