(* ===== verification/Policy_Load_Props.thy ===== *)
theory Policy_Load_Props
  imports Policy_Types_Props Sepolicy_Props
begin

text \<open>
  The permissions of a native target, there and back; and the way of a rule from the text of a policy
  into the vector of a key.
\<close>

unbundle bit_operations_syntax

section \<open>The bits of the permissions\<close>

primrec sel_av :: "class_datum \<Rightarrow> u32 \<Rightarrow> string list \<Rightarrow> u32" where
  "sel_av cls av [] = 0"
| "sel_av cls av (p # ps) =
     (if av AND tamisu_file_perm_mask cls p = 0 then 0 else tamisu_file_perm_mask cls p) OR sel_av cls av ps"

lemma bit_mask: "bit (perm_bit v) i \<longleftrightarrow> i = v - 1 \<and> i < 32"
  by (auto simp: perm_bit_def bit_simps)

lemma and_perm_bit: "av AND perm_bit v = (if bit av (v - 1) then perm_bit v else 0)"
  by (rule bit_word_eqI) (auto simp: bit_mask bit_and_iff)

lemma sel_bit: "bit (if av AND tamisu_file_perm_mask cls p = 0 then 0 else tamisu_file_perm_mask cls p) i \<longleftrightarrow>
    bit av i \<and> bit (tamisu_file_perm_mask cls p) i"
proof -
  have h: "bit (if av AND perm_bit v = 0 then 0 else perm_bit v) i \<longleftrightarrow> bit av i \<and> bit (perm_bit v) i"
    if "v \<noteq> 0" "v \<le> 32" for v
  proof -
    have "bit (perm_bit v) (v - 1)" using that by (simp add: bit_mask)
    then have "perm_bit v \<noteq> 0" by auto
    then show ?thesis by (auto simp: and_perm_bit bit_mask)
  qed
  show ?thesis
  proof (cases "class_perm cls p")
    case (Some v)
    then show ?thesis using h [of v] by (cases "v = 0 \<or> v > 32") (auto simp: tamisu_file_perm_mask_def)
  qed (simp add: tamisu_file_perm_mask_def)
qed

lemma bit_required: "bit (fold (\<lambda>p av. av OR tamisu_file_perm_mask cls p) ps av0) i \<longleftrightarrow>
    bit av0 i \<or> (\<exists>p\<in>set ps. bit (tamisu_file_perm_mask cls p) i)"
  by (induction ps arbitrary: av0) (auto simp: bit_or_iff)

lemma sel_av_eq: "sel_av cls av ps = av AND tamisu_required_av cls ps"
proof (rule bit_word_eqI)
  fix i
  have "bit (sel_av cls av ps) i \<longleftrightarrow> bit av i \<and> (\<exists>p\<in>set ps. bit (tamisu_file_perm_mask cls p) i)"
    by (induction ps) (auto simp: bit_or_iff sel_bit)
  then show "bit (sel_av cls av ps) i = bit (av AND tamisu_required_av cls ps) i"
    by (simp add: bit_and_iff tamisu_required_av_def bit_required)
qed

text \<open>What a set of bits does to a vector.\<close>

definition chg :: "bool \<Rightarrow> u32 \<Rightarrow> u32 \<Rightarrow> u32" where
  "chg allow m d = (if allow then d OR m else d AND NOT m)"

lemma chg_0 [simp]: "chg allow 0 d = d"
  by (simp add: chg_def)

lemma chg_chg: "chg allow m' (chg allow m d) = chg allow (m OR m') d"
  by (rule bit_word_eqI) (auto simp: chg_def bit_simps)

lemma chg_back:
  assumes "a AND d = 0" "b AND d = 0"
  shows "chg False b (chg False a (chg True b (chg True a d))) = d"
proof (rule bit_word_eqI)
  fix i
  have "\<not> bit (a AND d) i" "\<not> bit (b AND d) i" using assms by simp_all
  then show "i < LENGTH(32) \<Longrightarrow> bit (chg False b (chg False a (chg True b (chg True a d)))) i = bit d i"
    by (auto simp: chg_def bit_simps)
qed

section \<open>Named rules on one key\<close>

text \<open>The names a change resolves.\<close>

definition resolves :: "policydb \<Rightarrow> string \<Rightarrow> string \<Rightarrow> class_datum \<Rightarrow> avtab_key \<Rightarrow> bool" where
  "resolves db src tgt cls k \<longleftrightarrow> symtab_search (p_classes db) ''file'' = Some cls \<and>
     (\<exists>s t. symtab_search (p_types db) src = Some s \<and> symtab_search (p_types db) tgt = Some t \<and> k = key_of s t cls AVTAB_ALLOWED)"

definition same_names :: "policydb \<Rightarrow> policydb \<Rightarrow> bool" where
  "same_names db db' \<longleftrightarrow> typing db' = typing db \<and> p_classes db' = p_classes db"

lemma same_names_types: "same_names db db' \<Longrightarrow> p_types db' = p_types db"
  by (simp add: same_names_def typing_def)

lemma resolves_same: "same_names db db' \<Longrightarrow> resolves db' src tgt cls k = resolves db src tgt cls k"
  using same_names_types [of db db'] by (simp add: resolves_def same_names_def)

definition effect_on :: "lib \<Rightarrow> policydb \<Rightarrow> policydb \<Rightarrow> avtab_key \<Rightarrow> bool \<Rightarrow> u32 \<Rightarrow> bool" where
  "effect_on lib db db' k allow m \<longleftrightarrow> avtab_ok (te_avtab db') \<and> same_names db db' \<and>
     vec db' = (vec db)(k := chg allow m (vec db k))"

lemma one_perm:
  assumes law: "lawful lib" and ok: "avtab_ok (te_avtab db)" and names: "resolves db src tgt cls k"
    and mask: "tamisu_file_perm_mask cls p \<noteq> 0"
  shows "\<exists>db'. (if allow then tamisu_allow else tamisu_deny) lib (Some src) (Some tgt) (Some ''file'') (Some p) db = (True, db') \<and>
     effect_on lib db db' k allow (tamisu_file_perm_mask cls p)"
proof -
  obtain s t where st: "symtab_search (p_types db) src = Some s" "symtab_search (p_types db) tgt = Some t"
    "symtab_search (p_classes db) ''file'' = Some cls" "k = key_of s t cls AVTAB_ALLOWED"
    using names by (auto simp: resolves_def)
  obtain v where v: "class_perm cls p = Some v" "tamisu_file_perm_mask cls p = perm_bit v"
    using mask by (auto simp: tamisu_file_perm_mask_def split: option.splits if_splits)
  have "lookup_opt (p_types db) (Some src) = Some (Some s)" "lookup_opt (p_types db) (Some tgt) = Some (Some t)"
    "lookup_opt (p_classes db) (Some ''file'') = Some (Some cls)" "lookup_perm (Some cls) (Some p) = Some (Some v)"
    using st v by (simp_all add: lookup_opt_def lookup_perm_def)
  note r = add_rule_vec [OF law ok _ this, of AVTAB_ALLOWED "\<not> allow"]
  have "is_vector AVTAB_ALLOWED" by (simp add: is_vector_def)
  from r [OF this] obtain db' where d:
    "add_rule lib (Some src) (Some tgt) (Some ''file'') (Some p) AVTAB_ALLOWED (\<not> allow) db = (True, db')"
    "avtab_ok (te_avtab db')"
    "vec db' = (\<lambda>k. if k \<in> set (rule_keys db (Some s) (Some t) (Some cls) AVTAB_ALLOWED (\<not> allow))
       then new_data (Some v) (\<not> allow) (vec db k) else vec db k)"
    "p_types db' = p_types db" "p_classes db' = p_classes db" .
  have "typing db' = typing db"
    using typing_add_rule [of lib "Some src" "Some tgt" "Some ''file''" "Some p" AVTAB_ALLOWED "\<not> allow" db] d(1) by simp
  moreover have "vec db' = (vec db)(k := chg allow (perm_bit v) (vec db k))"
    using d(3) st(4) by (auto simp: rule_keys_def or_all_def chg_def new_data_def)
  ultimately have "effect_on lib db db' k allow (tamisu_file_perm_mask cls p)"
    using d(2,5) v(2) by (simp add: effect_on_def same_names_def)
  then show ?thesis using d(1) by (cases allow) (simp_all add: tamisu_allow_def tamisu_deny_def)
qed

lemma effect_trans:
  "effect_on lib db db1 k allow m \<Longrightarrow> effect_on lib db1 db2 k allow m' \<Longrightarrow> effect_on lib db db2 k allow (m OR m')"
  by (simp add: effect_on_def same_names_def chg_chg)

lemma effect_refl: "avtab_ok (te_avtab db) \<Longrightarrow> effect_on lib db db k allow 0"
  by (simp add: effect_on_def same_names_def)

lemma apply_file_perms_effect:
  assumes law: "lawful lib"
  shows "avtab_ok (te_avtab db) \<Longrightarrow> resolves db src tgt cls k \<Longrightarrow>
    \<exists>db'. apply_file_perms lib cls src tgt av allow ps db = (True, db') \<and> effect_on lib db db' k allow (sel_av cls av ps)"
proof (induction ps arbitrary: db)
  case Nil
  then show ?case by (simp add: effect_refl)
next
  case (Cons p ps)
  show ?case
  proof (cases "av AND tamisu_file_perm_mask cls p = 0")
    case True
    then show ?thesis using Cons by simp
  next
    case False
    then have "tamisu_file_perm_mask cls p \<noteq> 0" by auto
    from one_perm [OF law Cons.prems this, of allow] obtain db1 where
      d1: "(if allow then tamisu_allow else tamisu_deny) lib (Some src) (Some tgt) (Some ''file'') (Some p) db = (True, db1)"
      "effect_on lib db db1 k allow (tamisu_file_perm_mask cls p)" by blast
    have "avtab_ok (te_avtab db1)" "resolves db1 src tgt cls k"
      using d1(2) Cons.prems(2) resolves_same by (auto simp: effect_on_def)
    from Cons.IH [OF this] obtain db2 where
      d2: "apply_file_perms lib cls src tgt av allow ps db1 = (True, db2)" "effect_on lib db1 db2 k allow (sel_av cls av ps)"
      by blast
    show ?thesis using d1(1) d2(1) effect_trans [OF d1(2) d2(2)] False by (intro exI [of _ db2]) simp
  qed
qed

lemma apply_file_av_effect:
  assumes "lawful lib" "avtab_ok (te_avtab db)" "av \<noteq> 0 \<longrightarrow> resolves db src tgt cls k"
    and "av AND tamisu_required_av cls ps = av"
  shows "\<exists>db'. (if av \<noteq> 0 then tamisu_apply_file_av lib db src tgt av allow ps else (True, db)) = (True, db') \<and>
     effect_on lib db db' k allow av"
proof (cases "av = 0")
  case True
  then show ?thesis using effect_refl [OF assms(2)] by simp
next
  case False
  then have r: "resolves db src tgt cls k" using assms(3) by simp
  from apply_file_perms_effect [OF assms(1,2) r, of av allow ps] obtain db' where
    "apply_file_perms lib cls src tgt av allow ps db = (True, db')" "effect_on lib db db' k allow av"
    by (auto simp: sel_av_eq assms(4))
  then show ?thesis using False r by (auto simp: tamisu_apply_file_av_def resolves_def)
qed

text \<open>Both parts of a change.\<close>

lemma apply_two_effect:
  assumes law: "lawful lib" and ok: "avtab_ok (te_avtab db)"
    and tgt: "av \<noteq> 0 \<longrightarrow> resolves db src tgt cls k" "av AND tamisu_required_av cls tamisu_file_load_perms = av"
    and tmp: "tav \<noteq> 0 \<longrightarrow> resolves db src tmpfs cls k2" "tav AND tamisu_required_av cls tamisu_tmpfs_hook_perms = tav"
  shows "\<exists>db1 db2. apply_two lib src tgt av tmpfs tav allow db = Some db2 \<and>
     effect_on lib db db1 k allow av \<and> effect_on lib db1 db2 k2 allow tav"
proof -
  from apply_file_av_effect [OF law ok tgt, of allow] obtain db1 where
    d1: "(if av \<noteq> 0 then tamisu_apply_file_av lib db src tgt av allow tamisu_file_load_perms else (True, db)) = (True, db1)"
    "effect_on lib db db1 k allow av" by blast
  have "avtab_ok (te_avtab db1)" "tav \<noteq> 0 \<longrightarrow> resolves db1 src tmpfs cls k2"
    using d1(2) tmp(1) resolves_same by (auto simp: effect_on_def)
  from apply_file_av_effect [OF law this tmp(2), of allow] obtain db2 where
    d2: "(if tav \<noteq> 0 then tamisu_apply_file_av lib db1 src tmpfs tav allow tamisu_tmpfs_hook_perms else (True, db1)) = (True, db2)"
    "effect_on lib db1 db2 k2 allow tav" by blast
  have "apply_two lib src tgt av tmpfs tav allow db = Some db2"
    unfolding apply_two_def d1(1) prod.case d2(1) by simp
  then show ?thesis using d1(2) d2(2) by blast
qed

section \<open>Names and numbers\<close>

lemma name_by_value:
  assumes "types_ok db" "tamisu_type_name_by_value db v = Some name"
  obtains ty where "symtab_search (p_types db) name = Some ty" "td_value ty = unat v"
proof -
  have v: "v \<noteq> 0" "unat v \<le> p_nprim db" "name = val_to_name db ! (unat v - 1)"
    using assms(2) by (auto simp: tamisu_type_name_by_value_def split: if_splits)
  then have "unat v - 1 < p_nprim db" "unat v \<noteq> 0" using unat_gt_0 [of v] by linarith+
  then show ?thesis
    using that [of "val_to_struct db ! (unat v - 1)"] assms(1) v(3) by (auto simp: types_ok_def symtab_search_def)
qed

lemma name_of_value:
  assumes "types_ok db" "symtab_search (p_types db) n = Some ty" "p_nprim db < 2 ^ 32"
  obtains name where "tamisu_type_name_by_value db (of_nat (td_value ty)) = Some name"
proof -
  have "1 \<le> td_value ty" "td_value ty \<le> p_nprim db"
    using types_ok_name [OF assms(1)] assms(2) by (simp_all add: symtab_search_def)
  moreover have "unat (of_nat (td_value ty) :: u32) = td_value ty"
    using calculation assms(3) by (simp add: unat_of_nat)
  moreover have "(of_nat (td_value ty) :: u32) \<noteq> 0"
    using calculation by (metis unat_0 not_one_le_zero)
  ultimately show ?thesis
    using that assms(1) by (simp add: tamisu_type_name_by_value_def types_ok_def)
qed

lemma name_by_value_same: "same_names db db' \<Longrightarrow> tamisu_type_name_by_value db' v = tamisu_type_name_by_value db v"
  by (simp add: tamisu_type_name_by_value_def same_names_def typing_def)

definition load_key :: "u32 \<Rightarrow> u32 \<Rightarrow> nat \<Rightarrow> avtab_key" where
  "load_key src tgt c = \<lparr>k_source = ucast src, k_target = ucast tgt, k_class = of_nat c, k_specified = AVTAB_ALLOWED\<rparr>"

lemma direct_vec:
  assumes "lawful lib"
  shows "tamisu_direct_allowed_av lib db src tgt c = vec db (load_key src tgt c)"
  using assms by (auto simp: tamisu_direct_allowed_av_def lawful_search vec_def load_key_def av_default_def
      AVTAB_ALLOWED_def AVTAB_AUDITDENY_def split: option.split)

lemma resolves_load:
  assumes ok: "types_ok db" and "tamisu_type_name_by_value db src = Some sn"
    and "symtab_search (p_types db) tn = Some ty" "td_value ty = unat tgt"
    and "symtab_search (p_classes db) ''file'' = Some cls"
  shows "resolves db sn tn cls (load_key src tgt (cd_value cls))"
proof -
  obtain s where "symtab_search (p_types db) sn = Some s" "td_value s = unat src"
    using name_by_value [OF ok assms(2)] .
  then show ?thesis
    using assms(3-5) by (auto simp: resolves_def load_key_def key_of_def)
qed

section \<open>There and back\<close>

text \<open>What a call that succeeded did: nothing, or both parts of the change on a copy.\<close>

definition file_missing :: "lib \<Rightarrow> policydb \<Rightarrow> class_datum \<Rightarrow> u32 \<Rightarrow> u32 \<Rightarrow> u32" where
  "file_missing lib db cls src tgt =
     tamisu_required_av cls tamisu_file_load_perms AND NOT (tamisu_direct_allowed_av lib db src tgt (cd_value cls))"

definition tmpfs_missing :: "lib \<Rightarrow> policydb \<Rightarrow> class_datum \<Rightarrow> u32 \<Rightarrow> u32" where
  "tmpfs_missing lib db cls src =
     (let ty = tamisu_type_value_by_name db ''tmpfs''
      in if ty = 0 then 0
         else tamisu_required_av cls tamisu_tmpfs_hook_perms AND NOT (tamisu_direct_allowed_av lib db src ty (cd_value cls)))"

lemma allow_current_cases:
  assumes dup: "\<forall>d. dup d = Inr d"
    and ctx: "sidtab ssid = Some src" "isec = Some tsid" "sidtab tsid = Some tgt" "symtab_search (p_classes db) ''file'' = Some cls"
    and run: "tamisu_file_load_policy_allow_current lib dup sidtab ssid isec (Some db) = (0, st, Some db1)"
  obtains sn tn where
    "tamisu_type_name_by_value db src = Some sn" "tamisu_type_name_by_value db tgt = Some tn"
    "file_missing lib db cls src tgt = 0 \<and> tmpfs_missing lib db cls src = 0 \<and> st = no_additions \<and> db1 = db \<or>
     (file_missing lib db cls src tgt \<noteq> 0 \<or> tmpfs_missing lib db cls src \<noteq> 0) \<and>
     apply_two lib sn tn (file_missing lib db cls src tgt) ''tmpfs'' (tmpfs_missing lib db cls src) True db = Some db1 \<and>
     st = \<lparr>fl_src = src, fl_tgt = tgt, fl_tmpfs = tamisu_type_value_by_name db ''tmpfs'', fl_class = of_nat (cd_value cls),
           fl_added = file_missing lib db cls src tgt, fl_tmpfs_added = tmpfs_missing lib db cls src\<rparr>"
proof -
  have ids: "\<not> (ssid = 0 \<or> tsid = 0)"
    using run ctx by (auto simp: tamisu_file_load_policy_allow_current_def EINVAL_def)
  obtain sn tn where names: "tamisu_type_name_by_value db src = Some sn" "tamisu_type_name_by_value db tgt = Some tn"
    using run ctx ids by (auto simp: tamisu_file_load_policy_allow_current_def P_ENOENT_def split: option.splits)
  show ?thesis
  proof (rule that [OF names])
    let ?fm = "file_missing lib db cls src tgt" and ?tm = "tmpfs_missing lib db cls src"
    let ?st = "\<lparr>fl_src = src, fl_tgt = tgt, fl_tmpfs = tamisu_type_value_by_name db ''tmpfs'', fl_class = of_nat (cd_value cls),
           fl_added = ?fm, fl_tmpfs_added = ?tm\<rparr>"
    have "tamisu_file_load_policy_allow_current lib dup sidtab ssid isec (Some db) =
       (if ?fm = 0 \<and> ?tm = 0 then (0, no_additions, Some db)
        else (case apply_two lib sn tn ?fm ''tmpfs'' ?tm True db of
                None \<Rightarrow> (- EINVAL, no_additions, Some db) | Some db' \<Rightarrow> (0, ?st, Some db')))"
      unfolding tamisu_file_load_policy_allow_current_def file_missing_def tmpfs_missing_def Let_def
      using ctx ids names dup by simp
    then show "?fm = 0 \<and> ?tm = 0 \<and> st = no_additions \<and> db1 = db \<or> (?fm \<noteq> 0 \<or> ?tm \<noteq> 0) \<and>
        apply_two lib sn tn ?fm ''tmpfs'' ?tm True db = Some db1 \<and> st = ?st"
      using run by (auto simp: EINVAL_def split: if_splits option.splits)
  qed
qed

lemma missing_bits:
  fixes r d :: u32
  assumes "m = r AND NOT d"
  shows "m AND r = m" "m AND d = 0" "r AND NOT (d OR m) = 0"
  unfolding assms by (rule bit_word_eqI; auto simp: bit_simps)+

lemma more_bits: "r AND NOT x = 0 \<Longrightarrow> r AND NOT (x OR y) = (0 :: u32)"
proof (rule bit_word_eqI)
  fix i
  assume "r AND NOT x = 0"
  then have "\<not> bit (r AND NOT x) i" by simp
  then show "i < LENGTH(32) \<Longrightarrow> bit (r AND NOT (x OR y)) i = bit (0 :: u32) i" by (auto simp: bit_simps)
qed

lemma type_value:
  assumes "types_ok db" "p_nprim db < 2 ^ 32" "tamisu_type_value_by_name db n \<noteq> 0"
  obtains ty where "symtab_search (p_types db) n = Some ty" "td_value ty = unat (tamisu_type_value_by_name db n)"
proof -
  obtain ty where ty: "symtab_search (p_types db) n = Some ty" "tamisu_type_value_by_name db n = of_nat (td_value ty)"
    using assms(3) by (auto simp: tamisu_type_value_by_name_def split: option.splits)
  then have "td_value ty < 2 ^ 32"
    using types_ok_name [OF assms(1)] assms(2) by (force simp: symtab_search_def)
  then show ?thesis using that ty by (simp add: unat_of_nat)
qed

text \<open>
  C8: what a native target is given while it loads its library is taken back exactly: after a call
  that succeeded the type of the loading process has every permission of the list on the type of
  the file, and restoring the recorded state leaves every vector, and the numbering of the types,
  as they were before the call, also where the file is itself of the type \<^verbatim>\<open>tmpfs\<close>.
\<close>

theorem load_permissions_restored:
  assumes "lawful lib" "avtab_ok (te_avtab db)" "types_ok db" "p_nprim db < 2 ^ 32" "\<forall>d. dup d = Inr d"
    and "sidtab ssid = Some src" "isec = Some tsid" "sidtab tsid = Some tgt" "symtab_search (p_classes db) ''file'' = Some cls"
    and "tamisu_file_load_policy_allow_current lib dup sidtab ssid isec (Some db) = (0, st, Some db1)"
  shows "tamisu_required_av cls tamisu_file_load_perms AND NOT (vec db1 (load_key src tgt (cd_value cls))) = 0 \<and>
    (\<exists>db2. tamisu_file_load_policy_restore lib dup st (Some db1) = (0, Some db2) \<and> vec db2 = vec db \<and> types_ok db2)"
proof -
  let ?fm = "file_missing lib db cls src tgt" and ?tm = "tmpfs_missing lib db cls src"
  let ?ty = "tamisu_type_value_by_name db ''tmpfs''"
  let ?k = "load_key src tgt (cd_value cls)" and ?k2 = "load_key src ?ty (cd_value cls)"
  note direct = direct_vec [OF assms(1)]
  have fm: "?fm = tamisu_required_av cls tamisu_file_load_perms AND NOT (vec db ?k)"
    by (simp add: file_missing_def direct)
  have tm: "?tm = tamisu_required_av cls tamisu_tmpfs_hook_perms AND NOT (vec db ?k2)" "?ty \<noteq> 0" if "?tm \<noteq> 0"
    using that by (auto simp: tmpfs_missing_def direct Let_def split: if_splits)
  note fb = missing_bits [OF fm]
  have tb: "?tm AND tamisu_required_av cls tamisu_tmpfs_hook_perms = ?tm" "?tm AND vec db ?k2 = 0"
    using missing_bits(1,2) [OF tm(1)] and_zero_eq zero_and_eq by metis+
  from allow_current_cases [OF assms(5-10)] obtain sn tn where
    names: "tamisu_type_name_by_value db src = Some sn" "tamisu_type_name_by_value db tgt = Some tn"
    and run: "?fm = 0 \<and> ?tm = 0 \<and> st = no_additions \<and> db1 = db \<or>
     (?fm \<noteq> 0 \<or> ?tm \<noteq> 0) \<and> apply_two lib sn tn ?fm ''tmpfs'' ?tm True db = Some db1 \<and>
     st = \<lparr>fl_src = src, fl_tgt = tgt, fl_tmpfs = ?ty, fl_class = of_nat (cd_value cls), fl_added = ?fm, fl_tmpfs_added = ?tm\<rparr>" .
  show ?thesis
    using run
  proof
    assume z: "?fm = 0 \<and> ?tm = 0 \<and> st = no_additions \<and> db1 = db"
    then show ?thesis
      using fm assms(3) by (simp add: tamisu_file_load_policy_restore_def no_additions_def)
  next
    assume "(?fm \<noteq> 0 \<or> ?tm \<noteq> 0) \<and> apply_two lib sn tn ?fm ''tmpfs'' ?tm True db = Some db1 \<and>
      st = \<lparr>fl_src = src, fl_tgt = tgt, fl_tmpfs = ?ty, fl_class = of_nat (cd_value cls), fl_added = ?fm, fl_tmpfs_added = ?tm\<rparr>"
    then have some: "?fm \<noteq> 0 \<or> ?tm \<noteq> 0" and two: "apply_two lib sn tn ?fm ''tmpfs'' ?tm True db = Some db1"
      and st: "st = \<lparr>fl_src = src, fl_tgt = tgt, fl_tmpfs = ?ty, fl_class = of_nat (cd_value cls), fl_added = ?fm, fl_tmpfs_added = ?tm\<rparr>"
      by blast+
    obtain t where t: "symtab_search (p_types db) tn = Some t" "td_value t = unat tgt"
      using name_by_value [OF assms(3) names(2)] .
    have r1: "resolves db sn tn cls ?k" by (rule resolves_load [OF assms(3) names(1) t assms(9)])
    have tmp: "\<exists>mn. resolves db sn ''tmpfs'' cls ?k2 \<and> tamisu_type_name_by_value db ?ty = Some mn \<and> resolves db sn mn cls ?k2"
      if "?tm \<noteq> 0"
    proof -
      note nz = tm(2) [OF that]
      obtain ty where ty: "symtab_search (p_types db) ''tmpfs'' = Some ty" "td_value ty = unat ?ty"
        using type_value [OF assms(3,4) nz] .
      obtain mn where "tamisu_type_name_by_value db (of_nat (td_value ty)) = Some mn"
        using name_of_value [OF assms(3) ty(1) assms(4)] .
      then have mn: "tamisu_type_name_by_value db ?ty = Some mn" using ty(2) by simp
      obtain ty' where "symtab_search (p_types db) mn = Some ty'" "td_value ty' = unat ?ty"
        using name_by_value [OF assms(3) mn] .
      then show ?thesis using resolves_load [OF assms(3) names(1) _ _ assms(9)] ty mn by blast
    qed
    have r2: "?tm \<noteq> 0 \<longrightarrow> resolves db sn ''tmpfs'' cls ?k2" using tmp by blast
    have r1': "?fm \<noteq> 0 \<longrightarrow> resolves db sn tn cls ?k" using r1 by blast
    from apply_two_effect [OF assms(1,2) r1' fb(1) r2 tb(1), where allow = True] two obtain d1 where
      e: "effect_on lib db d1 ?k True ?fm" "effect_on lib d1 db1 ?k2 True ?tm" by auto
    have same: "same_names db db1" using e by (simp add: effect_on_def same_names_def)
    define tn' where "tn' = (if ?fm \<noteq> 0 then tamisu_type_name_by_value db1 tgt else None)"
    define mn' where "mn' = (if ?tm \<noteq> 0 then tamisu_type_name_by_value db1 ?ty else None)"
    have nm: "tamisu_type_name_by_value db1 src = Some sn"
      "?fm \<noteq> 0 \<longrightarrow> tn' \<noteq> None \<and> resolves db1 sn (the tn') cls ?k"
      "?tm \<noteq> 0 \<longrightarrow> mn' \<noteq> None \<and> resolves db1 sn (the mn') cls ?k2"
      using names r1 tmp by (auto simp: tn'_def mn'_def name_by_value_same [OF same] resolves_same [OF same])
    have ok1: "avtab_ok (te_avtab db1)" using e(2) by (simp add: effect_on_def)
    have r3: "?fm \<noteq> 0 \<longrightarrow> resolves db1 sn (the tn') cls ?k" "?tm \<noteq> 0 \<longrightarrow> resolves db1 sn (the mn') cls ?k2"
      using nm(2,3) by blast+
    from apply_two_effect [OF assms(1) ok1 r3(1) fb(1) r3(2) tb(1), where allow = False] obtain d2 db2 where
      b: "apply_two lib sn (the tn') ?fm (the mn') ?tm False db1 = Some db2"
        "effect_on lib db1 d2 ?k False ?fm" "effect_on lib d2 db2 ?k2 False ?tm" by auto
    have "tamisu_file_load_policy_restore lib dup st (Some db1) = (0, Some db2)"
      unfolding tamisu_file_load_policy_restore_def st file_load_policy.select_convs Let_def option.case
        tn'_def [symmetric] mn'_def [symmetric]
      using some nm b(1) assms(5) by auto
    moreover have "vec db2 k = vec db k" for k
    proof -
      let ?a = "if k = ?k then ?fm else 0" and ?b = "if k = ?k2 then ?tm else 0"
      have "vec db2 k = chg False ?b (chg False ?a (chg True ?b (chg True ?a (vec db k))))"
        using e b(2,3) by (simp add: effect_on_def)
      also have "\<dots> = vec db k" using fb(2) tb(2) by (intro chg_back) auto
      finally show ?thesis .
    qed
    moreover have "types_ok db2"
      using assms(3) e b(2,3) types_ok_typing [of db2 db] by (simp add: effect_on_def same_names_def)
    moreover have "vec db1 ?k = (vec db ?k OR ?fm) OR (if ?k = ?k2 then ?tm else 0)"
      using e by (auto simp: effect_on_def chg_def)
    then have "tamisu_required_av cls tamisu_file_load_perms AND NOT (vec db1 ?k) = 0"
      using more_bits [OF fb(3)] by simp
    ultimately show ?thesis by blast
  qed
qed


lemma demo_masks:
  "tamisu_required_av demo_file tamisu_file_load_perms = 0x392" "tamisu_required_av demo_file tamisu_tmpfs_hook_perms = 0x396"
  by (simp_all add: tamisu_required_av_def tamisu_file_load_perms_def tamisu_tmpfs_hook_perms_def tamisu_file_perm_mask_def
      class_perm_def symtab_search_def demo_file_def perm_bit_def)

theorem load_permissions_restored_witness:
  "\<exists>st db1 db2. tamisu_file_load_policy_allow_current list_lib Inr (\<lambda>s. Some s) 1 (Some 2) (Some demo_db) = (0, st, Some db1) \<and>
     vec db1 demo_key AND 0x392 = 0x392 \<and>
     tamisu_file_load_policy_restore list_lib Inr st (Some db1) = (0, Some db2) \<and> vec db2 demo_key = 2"
proof -
  have n: "tamisu_type_name_by_value demo_db 1 = Some ''su''" "tamisu_type_name_by_value demo_db 2 = Some ''tmpfs''"
    "tamisu_type_value_by_name demo_db ''tmpfs'' = 2"
    by (simp_all add: tamisu_type_name_by_value_def tamisu_type_value_by_name_def symtab_search_def demo_db_def)
  have key: "load_key 1 2 6 = demo_key" by (simp add: load_key_def demo_key_def AVTAB_ALLOWED_def)
  have v: "vec demo_db demo_key = 2" by (simp add: vec_def demo_db_def demo_key_def)
  have c: "cd_value demo_file = 6" by (simp add: demo_file_def)
  have r: "resolves demo_db ''su'' ''tmpfs'' demo_file demo_key"
    by (auto simp: resolves_def demo_names key_of_def demo_key_def demo_file_def AVTAB_ALLOWED_def)
  have "\<exists>db1. apply_two list_lib ''su'' ''tmpfs'' 0x390 ''tmpfs'' 0x394 True demo_db = Some db1"
  proof -
    have "(0x390 :: u32) \<noteq> 0 \<longrightarrow> resolves demo_db ''su'' ''tmpfs'' demo_file demo_key"
      "0x390 AND tamisu_required_av demo_file tamisu_file_load_perms = 0x390"
      "(0x394 :: u32) \<noteq> 0 \<longrightarrow> resolves demo_db ''su'' ''tmpfs'' demo_file demo_key"
      "0x394 AND tamisu_required_av demo_file tamisu_tmpfs_hook_perms = 0x394"
      using r by (simp_all add: demo_masks)
    from apply_two_effect [OF lawful_list_lib demo_ok this, where allow = True] show ?thesis by blast
  qed
  then obtain db1 where t: "apply_two list_lib ''su'' ''tmpfs'' 0x390 ''tmpfs'' 0x394 True demo_db = Some db1" ..
  have a: "tamisu_file_load_policy_allow_current list_lib Inr (\<lambda>s. Some s) 1 (Some 2) (Some demo_db) =
     (0, \<lparr>fl_src = 1, fl_tgt = 2, fl_tmpfs = 2, fl_class = 6, fl_added = 0x390, fl_tmpfs_added = 0x394\<rparr>, Some db1)"
    by (simp add: tamisu_file_load_policy_allow_current_def demo_names n demo_masks direct_vec [OF lawful_list_lib] c key v t)
  from load_permissions_restored [OF lawful_list_lib demo_ok demo_types_ok _ _ refl refl refl demo_names(3) a]
  have l: "0x392 AND NOT (vec db1 demo_key) = 0"
    "\<exists>db2. tamisu_file_load_policy_restore list_lib Inr \<lparr>fl_src = 1, fl_tgt = 2, fl_tmpfs = 2, fl_class = 6, fl_added = 0x390,
        fl_tmpfs_added = 0x394\<rparr> (Some db1) = (0, Some db2) \<and> vec db2 = vec demo_db"
    by (auto simp: demo_masks c key demo_db_def)
  have "vec db1 demo_key AND 0x392 = 0x392"
  proof (rule bit_word_eqI)
    fix i
    have "\<not> bit (0x392 AND NOT (vec db1 demo_key)) i" using l(1) by simp
    then show "i < LENGTH(32) \<Longrightarrow> bit (vec db1 demo_key AND 0x392) i = bit (0x392 :: u32) i"
      by (auto simp: bit_and_iff bit_not_iff)
  qed
  then show ?thesis using a l(2) v by metis
qed


section \<open>From the text of a policy to the vector\<close>

lemma allow_step:
  assumes law: "lawful lib" and ok: "avtab_ok (te_avtab db)"
    and words: "\<forall>w\<in>{s, t, c, p}. is_word w \<and> length w < 128"
    and names: "symtab_search (p_types db) s = Some src" "symtab_search (p_types db) t = Some tgt"
      "symtab_search (p_classes db) c = Some cls" "class_perm cls p = Some v"
  shows "\<exists>db'. kernel_step (patch_cmd lib junk) (perm_stmt 1 s t c p) (Some db) = (True, Some db') \<and>
     effect_on lib db db' (key_of src tgt cls AVTAB_ALLOWED) True (perm_bit v)"
proof -
  have args: "stmt_kernel_args (perm_stmt 1 s t c p) = [Some s, Some t, Some c, Some p]"
    using words by (simp add: kernel_args_perm_stmt po_from_str_word)
  have head: "cmd (perm_stmt 1 s t c p) = CMD_NORMAL_PERM" "subcmd (perm_stmt 1 s t c p) = 1"
    by (simp_all add: perm_stmt_def new_stmt_def)
  have "lookup_opt (p_types db) (Some s) = Some (Some src)" "lookup_opt (p_types db) (Some t) = Some (Some tgt)"
    "lookup_opt (p_classes db) (Some c) = Some (Some cls)" "lookup_perm (Some cls) (Some p) = Some (Some v)"
    using names by (simp_all add: lookup_opt_def lookup_perm_def)
  note r = add_rule_vec [OF law ok _ this, of AVTAB_ALLOWED False]
  have "is_vector AVTAB_ALLOWED" by (simp add: is_vector_def)
  from r [OF this] obtain db' where d: "add_rule lib (Some s) (Some t) (Some c) (Some p) AVTAB_ALLOWED False db = (True, db')"
    "avtab_ok (te_avtab db')"
    "vec db' = (\<lambda>k. if k \<in> set (rule_keys db (Some src) (Some tgt) (Some cls) AVTAB_ALLOWED False)
       then new_data (Some v) False (vec db k) else vec db k)"
    "p_types db' = p_types db" "p_classes db' = p_classes db" .
  have "typing db' = typing db"
    using typing_add_rule [of lib "Some s" "Some t" "Some c" "Some p" AVTAB_ALLOWED False db] d(1) by simp
  then have "effect_on lib db db' (key_of src tgt cls AVTAB_ALLOWED) True (perm_bit v)"
    using d by (auto simp: effect_on_def same_names_def rule_keys_def or_all_def new_data_def chg_def)
  moreover have "apply_one_sepolicy_cmd lib junk (CMD_NORMAL_PERM, 1) [Some s, Some t, Some c, Some p] db = Some (0, db')"
    using d(1) by (simp add: apply_one_sepolicy_cmd_def normal_perm_cmd_def arg_def tamisu_allow_def done_or_def)
  ultimately show ?thesis by (simp add: kernel_step_def args head patch_cmd_def)
qed

definition perms_av :: "class_datum \<Rightarrow> string list \<Rightarrow> u32" where
  "perms_av cls ps = foldr (\<lambda>p av. perm_bit (the (class_perm cls p)) OR av) ps 0"

lemma allow_steps:
  assumes law: "lawful lib" and words: "\<forall>w\<in>{s, t, c} \<union> set ps. is_word w \<and> length w < 128"
    and perms: "\<forall>p\<in>set ps. class_perm cls p \<noteq> None"
  shows "avtab_ok (te_avtab db) \<Longrightarrow> symtab_search (p_types db) s = Some src \<Longrightarrow> symtab_search (p_types db) t = Some tgt \<Longrightarrow>
    symtab_search (p_classes db) c = Some cls \<Longrightarrow>
    \<exists>db'. run_stmts (kernel_step (patch_cmd lib junk)) (map (perm_stmt 1 s t c) ps) (Some db) n = (n + length ps, Some db') \<and>
      effect_on lib db db' (key_of src tgt cls AVTAB_ALLOWED) True (perms_av cls ps)"
  using words perms
proof (induction ps arbitrary: db n)
  case Nil
  then show ?case by (simp add: perms_av_def effect_refl)
next
  case (Cons p ps)
  from Cons.prems(6) obtain v where v: "class_perm cls p = Some v" by auto
  have "\<forall>w\<in>{s, t, c, p}. is_word w \<and> length w < 128" using Cons.prems(5) by auto
  from allow_step [OF law Cons.prems(1) this Cons.prems(2,3,4) v] obtain db1 where
    d1: "kernel_step (patch_cmd lib junk) (perm_stmt 1 s t c p) (Some db) = (True, Some db1)"
      "effect_on lib db db1 (key_of src tgt cls AVTAB_ALLOWED) True (perm_bit v)" by blast
  have same: "p_types db1 = p_types db" "p_classes db1 = p_classes db" "avtab_ok (te_avtab db1)"
    using d1(2) same_names_types [of db db1] by (simp_all add: effect_on_def same_names_def)
  have s1: "symtab_search (p_types db1) s = Some src" "symtab_search (p_types db1) t = Some tgt"
    "symtab_search (p_classes db1) c = Some cls"
    using Cons.prems(2,3,4) same by simp_all
  have rest: "\<forall>w\<in>{s, t, c} \<union> set ps. is_word w \<and> length w < 128" "\<forall>p\<in>set ps. class_perm cls p \<noteq> None"
    using Cons.prems(5,6) by simp_all
  obtain db2 where
    d2: "run_stmts (kernel_step (patch_cmd lib junk)) (map (perm_stmt 1 s t c) ps) (Some db1) (Suc n) = (Suc n + length ps, Some db2)"
      "effect_on lib db1 db2 (key_of src tgt cls AVTAB_ALLOWED) True (perms_av cls ps)"
    using Cons.IH [OF same(3) s1 rest, of "Suc n"] by blast
  show ?case
    using d1(1) d2(1) effect_trans [OF d1(2) d2(2)] v by (intro exI [of _ db2]) (simp add: perms_av_def)
qed

text \<open>
  C1: from text to vector: when the only rule of a policy is an \<^verbatim>\<open>allow\<close> of known names with a list of
  permissions, the tool parses it, the batch it writes is read back by the kernel, the kernel
  applies it, and the result is that the vector of the one key gains exactly those permissions, no
  other vector changes, and the tool reports success.
\<close>

theorem text_to_vector:
  assumes "lawful lib" "avtab_ok (te_avtab db)"
    and "policy_rules policy = [normal_perm_rule ''allow'' [s] [t] [c] ps]" "length ps \<le> 12557"
    and "\<forall>w\<in>{s, t, c} \<union> set ps. is_word w \<and> length w < 128"
    and "symtab_search (p_types db) s = Some src" "symtab_search (p_types db) t = Some tgt"
      "symtab_search (p_classes db) c = Some cls" "\<forall>p\<in>set ps. class_perm cls p \<noteq> None"
  shows "\<exists>db'. sepolicy_live_patch (handle_sepolicy (patch_cmd lib junk)) policy (Some db) = Some (0, Some db') \<and>
     vec db' = (vec db)(key_of src tgt cls AVTAB_ALLOWED := vec db (key_of src tgt cls AVTAB_ALLOWED) OR perms_av cls ps)"
proof -
  have "parse_rule (normal_perm_rule ''allow'' [s] [t] [c] ps) = Some (True, map (perm_stmt 1 s t c) ps)"
    using parse_normal_perm_rule [of "''allow''" "[s]" "[t]" "[c]" ps] assms(5) by (auto simp: normal_perm_subcmd_def)
  then have p: "parse_rules (policy_rules policy) 0 [] = Some (0, map (perm_stmt 1 s t c) ps)"
    by (simp add: assms(3))
  from allow_steps [OF assms(1,5,9,2,6,7,8), of junk 0] obtain db' where
    d: "run_stmts (kernel_step (patch_cmd lib junk)) (map (perm_stmt 1 s t c) ps) (Some db) 0 = (length ps, Some db')"
      "effect_on lib db db' (key_of src tgt cls AVTAB_ALLOWED) True (perms_av cls ps)" by auto
  show ?thesis
    using kernel_batch.live_patch [OF p, of "patch_cmd lib junk" "Some db"] assms(4) d by (auto simp: effect_on_def chg_def)
qed

theorem text_to_vector_witness:
  "\<exists>db'. sepolicy_live_patch (handle_sepolicy (patch_cmd list_lib (0, 0))) ''allow { su} { tmpfs}:{ file} { map execute}'' (Some demo_db) =
       Some (0, Some db') \<and> vec db' demo_key = 0x302"
proof -
  have "policy_rules ''allow { su} { tmpfs}:{ file} { map execute}'' =
      [normal_perm_rule ''allow'' [''su''] [''tmpfs''] [''file''] [''map'', ''execute'']]"
    by code_simp
  moreover have "length [''map'', ''execute''] \<le> 12557" by simp
  moreover have "\<forall>w\<in>{''su'', ''tmpfs'', ''file''} \<union> set [''map'', ''execute'']. is_word w \<and> length w < 128"
    by (simp add: is_word_def is_sepolicy_char_def is_alnum_def is_digit_def char_code_def)
  moreover note demo_names
  moreover have "\<forall>p\<in>set [''map'', ''execute'']. class_perm demo_file p \<noteq> None"
    by (simp add: class_perm_def symtab_search_def demo_file_def)
  ultimately have "\<exists>db'. sepolicy_live_patch (handle_sepolicy (patch_cmd list_lib (0, 0))) ''allow { su} { tmpfs}:{ file} { map execute}'' (Some demo_db) =
       Some (0, Some db') \<and>
     vec db' = (vec demo_db)(key_of \<lparr>td_value = 1, td_attribute = False\<rparr> \<lparr>td_value = 2, td_attribute = False\<rparr> demo_file AVTAB_ALLOWED :=
       vec demo_db (key_of \<lparr>td_value = 1, td_attribute = False\<rparr> \<lparr>td_value = 2, td_attribute = False\<rparr> demo_file AVTAB_ALLOWED)
         OR perms_av demo_file [''map'', ''execute''])"
    by (rule text_to_vector [OF lawful_list_lib demo_ok])
  moreover have "key_of \<lparr>td_value = 1, td_attribute = False\<rparr> \<lparr>td_value = 2, td_attribute = False\<rparr> demo_file AVTAB_ALLOWED = demo_key"
    by (simp add: demo_key_def key_of_def AVTAB_ALLOWED_def demo_file_def)
  moreover have "vec demo_db demo_key = 2" by (simp add: vec_def demo_db_def demo_key_def)
  moreover have "perms_av demo_file [''map'', ''execute''] = 0x300"
    by (simp add: perms_av_def class_perm_def symtab_search_def demo_file_def perm_bit_def)
  ultimately show ?thesis by auto
qed

end
