(* ===== verification/Spec2Isabelle.thy ===== *)
theory Spec2Isabelle
  imports Sepolicy_Props Feature_Props Json_Props Zygiskd_Props Zygiskd_Events Zygiskd_Parsers Zygisk_Core_Props
    Preinit_Props Boot_Example Apk_Props Zygote_Kernel_Props Zygote_Inject_Props Rc_Props Kernel_Boot_Props
    Supercall_Props Policy_Load_Props
begin

text \<open>
  Tamisu is a zygisk provider: a kernel module, a root daemon (\<^verbatim>\<open>daemon/tamisud_core\<close>), a zygisk
  daemon and an injected core (\<^verbatim>\<open>daemon/zygisk\<close>).  This library models the C++ of the daemons and
  of the core, with the parts of the kernel module they talk to, and proves what makes each part
  correct; where the code does not do what it means to, a theorem says what it does.

  \<^bold>\<open>Shared theories.\<close>
  \<^item> \<^verbatim>\<open>Prelude\<close>: machine words, C and \<^verbatim>\<open>std::string\<close> text functions, the \<^verbatim>\<open>getline\<close> loop.
  \<^item> \<^verbatim>\<open>Bytes\<close>: little-endian layouts and the \<^verbatim>\<open>codec\<close> interface (a writer and a reader that agree).
  \<^item> \<^verbatim>\<open>Ordered_Map\<close>: \<^verbatim>\<open>std::map\<close> as its entries in key order.  \<^verbatim>\<open>Map_File\<close>: the interface of a map kept
    in a file (\<^verbatim>\<open>map_file\<close>).  \<^verbatim>\<open>Recency\<close>: bounded most-recent-first lists.
  \<^item> \<^verbatim>\<open>Os\<close>: the state of the operating system: file system, properties, environment, commands.
    A path is text (no symbolic link is resolved); what a command or a script does is a field of
    the state or a parameter, so it is arbitrary in every theorem.
  \<^item> \<^verbatim>\<open>Utils\<close>, \<^verbatim>\<open>Utils_Os\<close>: \<^verbatim>\<open>tamisud_core/src/utils.cpp\<close>.

  \<^bold>\<open>Components.\<close>  Each theory names its source; \<^verbatim>\<open>_Props\<close> theories hold the properties.
  \<^item> Policy (\<^verbatim>\<open>Sepolicy\<close>, \<^verbatim>\<open>Sepolicy_Batch\<close>, \<^verbatim>\<open>Sepolicy_Props\<close>): \<^verbatim>\<open>sepolicy/sepolicy.cpp\<close> scans and parses
    rules into atomic statements and writes them as one binary batch, \<^verbatim>\<open>core/tamisu_rules.c\<close> reads
    it.  The batch round trips; a policy that parses is run by the kernel in order, all its
    statements or none of the database; the scanner's loop may not end, and the theorems say
    exactly when.
  \<^item> Feature switches and module settings (\<^verbatim>\<open>Kernel_Feature\<close>, \<^verbatim>\<open>Feature\<close>, \<^verbatim>\<open>Module_Config\<close>,
    \<^verbatim>\<open>Feature_Props\<close>): \<^verbatim>\<open>core/feature.cpp\<close>, \<^verbatim>\<open>module/module_config.cpp\<close>, the kernel's table
    (\<^verbatim>\<open>core/tamisu_feature.c\<close>, the ioctls of \<^verbatim>\<open>tamisu_dispatch.c\<close>).  Settings and cache read back what
    was stored; booting restores exactly the switches no active module manages.
  \<^item> Boot (\<^verbatim>\<open>Module_Scripts\<close>, \<^verbatim>\<open>Preinit_Rc\<close>, \<^verbatim>\<open>Hide_Bootloader\<close>, \<^verbatim>\<open>Init_Event\<close>, \<^verbatim>\<open>Init_Props\<close>,
    \<^verbatim>\<open>Preinit_Props\<close>): \<^verbatim>\<open>module/module.cpp\<close>, \<^verbatim>\<open>init_event.cpp\<close>, \<^verbatim>\<open>core/assets.cpp\<close>,
    \<^verbatim>\<open>core/hide_bootloader.cpp\<close>.  The state is the operating system, the kernel's state and the log
    of what was done (\<^verbatim>\<open>world\<close>); the log lemmas (\<^verbatim>\<open>grows\<close>) say which events a step may add.  Safe mode
    runs nothing; outside it the order of the boot work is fixed; a stage runs a listed set of
    scripts; the init rc file of the next boot is replaced all or nothing.
  \<^item> JSON (\<^verbatim>\<open>Json\<close>, \<^verbatim>\<open>Json_Props\<close>): \<^verbatim>\<open>core/json.h\<close>.  Numbers are rationals of IEEE doubles.  The reader
    takes fuel, the length of the text plus one; \<^verbatim>\<open>json_parse_decides\<close> shows that more fuel changes
    nothing, so \<open>None\<close> is a loop of the code.
  \<^item> Zygisk daemon (\<^verbatim>\<open>Zygiskd\<close>, \<^verbatim>\<open>Zygiskd_Server\<close>, \<^verbatim>\<open>Zygiskd_Parsers\<close>, \<^verbatim>\<open>Zygiskd_Events\<close>,
    \<^verbatim>\<open>Zygiskd_Props\<close>): \<^verbatim>\<open>zygisk/daemon/zygiskd.cpp\<close>: discovery and configuration, the records, one
    definition per request, the kernel's event channel (\<^verbatim>\<open>core/tamisu_zygote_nl.c\<close>), the parsers
    of mount tables, command lines and module manifests.  The records stay bounded in every
    reachable state and requests act on the peer only.
  \<^item> Injected core (\<^verbatim>\<open>Zygisk_Core\<close>, \<^verbatim>\<open>Zygisk_Core_Props\<close>): \<^verbatim>\<open>zygisk/core/src/core.cpp\<close> and the zygote
    natives of \<^verbatim>\<open>hook.cpp\<close>, connected to the daemon's handler: what is loaded, what is called,
    which descriptors survive.
  \<^item> Boot image and partitions (\<^verbatim>\<open>Device\<close>, \<^verbatim>\<open>Flash_Partition\<close>, \<^verbatim>\<open>Flash_Props\<close>, \<^verbatim>\<open>Boot_Text\<close>,
    \<^verbatim>\<open>Boot_Patch\<close>, \<^verbatim>\<open>Boot_Restore\<close>, \<^verbatim>\<open>Boot_Text_Props\<close>, \<^verbatim>\<open>Boot_Props\<close>, \<^verbatim>\<open>Boot_Ramdisk\<close>,
    \<^verbatim>\<open>Boot_Example\<close>): \<^verbatim>\<open>boot/boot_patch.cpp\<close>, \<^verbatim>\<open>boot/tools.cpp\<close>, \<^verbatim>\<open>flash/flash_partition.cpp\<close>.  The
    state \<open>dev\<close> is the operating system and the commands run; what a command, a shell line or
    magiskboot does is a field of \<open>tools\<close>.  The log lemmas (\<open>adds\<close>) show that the device is
    written last; \<open>cpio_tool\<close> states what the documentation of magiskboot says of its cpio
    commands, and under it injecting the module merges it into the ramdisk and leaves the rest;
    \<open>demo_tools\<close> is a tool that satisfies it.
  \<^item> APK signature (\<^verbatim>\<open>Apk_Sign\<close>, \<^verbatim>\<open>Apk_Props\<close>): \<^verbatim>\<open>boot/apk_sign.cpp\<close>.  The state is the input stream
    \<open>ifs\<close> (bytes, position, failed or not).  A file laid out as the format says is read as it
    should be; the loop over the pairs is a partial function, and a file is given on which it
    does not end.
  \<^item> Kernel side of zygisk (\<^verbatim>\<open>Slots\<close>, \<^verbatim>\<open>Zygote_Kernel\<close>, \<^verbatim>\<open>Zygote_Kernel_Props\<close>, \<^verbatim>\<open>Zygote_Probe\<close>,
    \<^verbatim>\<open>Zygote_Probe_Props\<close>, \<^verbatim>\<open>Zygote_Inject\<close>, \<^verbatim>\<open>Zygote_Inject_Props\<close>): \<^verbatim>\<open>core/tamisu_zygote_orch.c\<close>,
    \<^verbatim>\<open>tamisu_zygote_ctl.c\<close>, \<^verbatim>\<open>tamisu_zygote_nl.c\<close>, \<^verbatim>\<open>tamisu_setuid_hook.c\<close>, \<^verbatim>\<open>tamisu_zygote_probe.c\<close>.
    A section under a lock is one step; \<open>zk_reach\<close> and \<open>np_reach\<close> are the states any sequence of
    steps reaches, so they cover every interleaving of the sections.  What the kernel answers
    (a file opens, a copy succeeds) is a parameter.  The references to files balance, a process
    is announced once, what is announced is what the daemon records, an injection is done as a
    whole or undone, and the stub it writes loads the addresses it should.

  \<^item> Policy database (\<^verbatim>\<open>Policydb\<close>, \<^verbatim>\<open>Policy_Apply\<close>, \<^verbatim>\<open>Policydb_Vec\<close>, \<^verbatim>\<open>Policy_Props\<close>,
    \<^verbatim>\<open>Policy_Types_Props\<close>, \<^verbatim>\<open>Policy_Load_Props\<close>): \<^verbatim>\<open>core/tamisu_sepolicy.c\<close>, and of
    \<^verbatim>\<open>core/tamisu_rules.c\<close> the commands of a batch, the module's own rules and the permissions of a
    native target.  The tables of the kernel are lists; its functions on them are the record \<open>lib\<close>,
    \<open>lawful\<close> states what they are documented to do, \<open>list_lib\<close> satisfies it.  \<open>vec\<close> is the abstract
    content, a vector for each key: rules are proved to change exactly the vectors they cover
    (\<open>avtab_ok\<close> is the invariant that makes a key have one), a policy text is followed into the
    vector it changes, the numbering of the types (\<open>types_ok\<close>) is kept by every batch; and the
    rules that are lost are shown to be lost.
  \<^item> Boot hooks of the kernel (\<^verbatim>\<open>Rc_Inject\<close>, \<^verbatim>\<open>Rc_Props\<close>, \<^verbatim>\<open>Kernel_Boot\<close>, \<^verbatim>\<open>Kernel_Boot_Props\<close>):
    \<^verbatim>\<open>core/tamisu_daemon_integration.c\<close>, \<^verbatim>\<open>tamisu_selinux.c\<close>, \<^verbatim>\<open>tamisu_boot_event.c\<close>,
    \<^verbatim>\<open>tamisu_tp_marker.c\<close>, \<^verbatim>\<open>tamisu_syscall_event_bridge.c\<close>.  Each read of init is one step with any size and
    any outcome; what init has read in the end is its file, the lines of the module and the rc files
    the daemon collected.  \<open>kb_do\<close> is one event (a program executed, a key, a report, a mark): over any
    sequence of them the rules are applied once.
  \<^item> Driver calls (\<^verbatim>\<open>Supercall\<close>, \<^verbatim>\<open>Supercall_Props\<close>): \<^verbatim>\<open>core/tamisu_supercall.c\<close>,
    \<^verbatim>\<open>tamisu_dispatch.c\<close>, \<^verbatim>\<open>tamisu_perm.c\<close>: handshake, permission checks, the table of commands and its
    handlers on the bytes of the caller.  The state \<open>drv\<close> joins the states of the parts above; the theorems
    say who can change what, and that calls carry the operations of the other theories.

  \<^bold>\<open>Interfaces.\<close>  \<^verbatim>\<open>codec\<close>, \<^verbatim>\<open>map_file\<close>, \<^verbatim>\<open>policy_kernel\<close> and the recency and feature interfaces are
  locales; each is interpreted on the model's own definitions in the theory that provides them.

  \<^bold>\<open>Not modelled.\<close>  The companion processes and socket set-up of zygiskd, the copy of a library into
  a memfd, the ELF linker (\<^verbatim>\<open>zygisk_linker.cpp\<close>, \<^verbatim>\<open>zygisk_zncore.cpp\<close>), JNI and PLT hooking,
  extended attributes (\<^verbatim>\<open>restorecon\<close> is a parameter), process set-up around \<^verbatim>\<open>exec\<close>, logging; of the
  kernel module the hooking machinery (system call table, memory patching, LSM hooks, symbol
  lookup, file wrapper), the registration of hooks and probes, and the copy of a policy through the
  kernel's writer and reader (a parameter); and the manager application.  They are calls into the operating system, the
  run-time linker or the kernel with no state of their own to reason about here.  Embedded assets
  are generated files and enter as parameters.
\<close>

end
